(* ===== verification/Prelude.thy ===== *)
theory Prelude
  imports Main "HOL-Library.Word" "HOL-Library.Monad_Syntax"
begin

text \<open>
  Shared types, automation and generic lemmas of the development: the machine integers of
  the C++ code as words, the outcome of a routine that may report an HTTP/2 error code or
  read outside its buffer, and facts on lists and words that several components use.
\<close>

unbundle bit_operations_syntax

section \<open>Machine integers\<close>

type_synonym u8 = "8 word"
type_synonym u16 = "16 word"
type_synonym u32 = "32 word"
type_synonym u64 = "64 word"
type_synonym bytes = "u8 list"

section \<open>Outcomes of fallible routines\<close>

text \<open>
  A parsing routine of the library returns a value, or an error code of
  \<^verbatim>\<open>Http2ErrorCode\<close>, or it reads memory outside the range its caller passed. The last
  case is undefined behaviour in C++; it is the outcome \<open>Fault\<close> here, never a made-up value.
\<close>

datatype 'a outcome = Ok 'a | Error u32 | Fault

fun is_ok :: "'a outcome \<Rightarrow> bool" where
  "is_ok (Ok x) = True"
| "is_ok (Error e) = False"
| "is_ok Fault = False"

text \<open>Sequencing: the first error or fault ends the routine.\<close>

primrec outcome_bind :: "'a outcome \<Rightarrow> ('a \<Rightarrow> 'b outcome) \<Rightarrow> 'b outcome" where
  "outcome_bind (Ok x) f = f x"
| "outcome_bind (Error e) f = Error e"
| "outcome_bind Fault f = Fault"

lemma outcome_bind_eq_Ok: "outcome_bind r f = Ok y \<longleftrightarrow> (\<exists>x. r = Ok x \<and> f x = Ok y)"
  by (cases r) auto

lemma outcome_bind_eq_Fault: "outcome_bind r f = Fault \<longleftrightarrow> r = Fault \<or> (\<exists>x. r = Ok x \<and> f x = Fault)"
  by (cases r) auto

lemma outcome_bind_assoc: "outcome_bind (outcome_bind r f) g = outcome_bind r (\<lambda>x. outcome_bind (f x) g)"
  by (cases r) auto

lemma is_ok_iff: "is_ok r \<longleftrightarrow> (\<exists>x. r = Ok x)"
  by (cases r) auto

text \<open>
  Collections for the facts the components share: \<open>roundtrip\<close> for decode-after-encode
  equations, \<open>bounds\<close> for length and range facts, \<open>frame_simps\<close> for closed forms of
  serialised frames.
\<close>

named_theorems roundtrip
named_theorems bounds
named_theorems frame_simps

section \<open>Reads from a buffer\<close>

text \<open>\<open>byte_at\<close> is the read \<^verbatim>\<open>p[i]\<close>; outside the buffer it has no value.\<close>

definition byte_at :: "bytes \<Rightarrow> nat \<Rightarrow> u8 option" where
  "byte_at bs i = (if i < length bs then Some (bs ! i) else None)"

lemma byte_at_Some: "i < length bs \<Longrightarrow> byte_at bs i = Some (bs ! i)"
  by (simp add: byte_at_def)

lemma byte_at_eq_Some_iff: "byte_at bs i = Some b \<longleftrightarrow> i < length bs \<and> bs ! i = b"
  by (auto simp: byte_at_def)

lemma byte_at_eq_None_iff: "byte_at bs i = None \<longleftrightarrow> length bs \<le> i"
  by (auto simp: byte_at_def)

section \<open>Lists\<close>

lemma list4_of_length: "length xs = 4 \<Longrightarrow> \<exists>a b c d. xs = [a, b, c, d]"
  by (auto simp: eval_nat_numeral length_Suc_conv)

lemma take_append_exact [simp]: "length xs = n \<Longrightarrow> take n (xs @ ys) = xs"
  by simp

lemma drop_append_exact [simp]: "length xs = n \<Longrightarrow> drop n (xs @ ys) = ys"
  by simp

section \<open>Words\<close>

lemma unat_of_nat_u32: "n < 2 ^ 32 \<Longrightarrow> unat (word_of_nat n :: u32) = n"
  by (simp add: unat_of_nat take_bit_nat_eq_self)

lemma u32_less_iff: "(a :: u32) < b \<longleftrightarrow> unat a < unat b"
  by (rule word_less_nat_alt)

lemma u32_le_iff: "(a :: u32) \<le> b \<longleftrightarrow> unat a \<le> unat b"
  by (rule word_le_nat_alt)

lemma unat_u32_bound [bounds]: "unat (a :: u32) < 2 ^ 32"
  using unsigned_less [of a, where 'a = nat] by simp

lemma unat_u8_bound [bounds]: "unat (a :: u8) < 256"
  using unsigned_less [of a, where 'a = nat] by simp

lemma bit_u8_bound [simp]: "8 \<le> n \<Longrightarrow> \<not> bit (a :: u8) n"
  by (auto dest: bit_imp_le_length)

lemma unat_add_u32: "unat a + unat b < 2 ^ 32 \<Longrightarrow> unat (a + b :: u32) = unat a + unat b"
  by (simp add: unat_word_ariths)

lemma unat_sub_u32: "b \<le> a \<Longrightarrow> unat (a - b :: u32) = unat a - unat b"
  by (rule unat_sub)

lemma unat_take_bit_mod: "unat (take_bit k w) = unat (w :: 'a :: len word) mod 2 ^ k"
  by (subst unsigned_take_bit_eq) (rule take_bit_eq_mod)

lemma unat_drop_bit_div: "unat (drop_bit k w) = unat (w :: 'a :: len word) div 2 ^ k"
  by (subst unat_drop_bit_eq) (rule drop_bit_eq_div)

text \<open>The bits of the two masks of 7-bit groups.\<close>

lemma bit_seven: "bit (0x7f :: int) n \<longleftrightarrow> n < 7" "bit (0x80 :: int) n \<longleftrightarrow> n = 7"
proof -
  have m: "(0x7f :: int) = mask 7" "(0x80 :: int) = 2 ^ 7"
    by (simp_all add: mask_eq_exp_minus_1)
  show "bit (0x7f :: int) n \<longleftrightarrow> n < 7" unfolding m bit_mask_iff by auto
  show "bit (0x80 :: int) n \<longleftrightarrow> n = 7" unfolding m bit_exp_iff by auto
qed

end
