(* ===== verification/Slice.thy ===== *)
theory Slice
  imports Prelude
begin

text \<open>
  Model of \<^verbatim>\<open>src/utils/slice.h\<close> and \<^verbatim>\<open>src/utils/slice.cc\<close> at the level of contents: a slice is
  the bytes it shows. Whether the bytes are owned, shared or borrowed (the reference count and
  the static sentinel) does not change them, which theory \<open>Slice_Storage_Properties\<close> shows.
\<close>

type_synonym slice = bytes

text \<open>Constructors: copies of \<open>len\<close> bytes, the empty slice, a borrowed range.\<close>

definition slice_copy :: "bytes \<Rightarrow> nat \<Rightarrow> slice" where
  "slice_copy ptr len = take len ptr"

definition MakeStaticSlice :: "bytes \<Rightarrow> nat \<Rightarrow> slice option" where
  "MakeStaticSlice ptr len =
     (if len = 0 then Some [] else if len \<le> length ptr then Some (take len ptr) else None)"

definition slice_pop_back :: "slice \<Rightarrow> nat \<Rightarrow> slice" where
  "slice_pop_back s remove_size =
     (if remove_size = 0 then s
      else (let r = (if remove_size > length s then length s else remove_size) in
        take (length s - r) s))"

definition slice_pop_front :: "slice \<Rightarrow> nat \<Rightarrow> slice" where
  "slice_pop_front s remove_size =
     (if remove_size = 0 then s
      else (let r = (if remove_size > length s then length s else remove_size) in drop r s))"

text \<open>\<^verbatim>\<open>operator==\<close>: sizes first, then \<^verbatim>\<open>memcmp\<close>, with the empty slices special-cased.\<close>

definition memcmp_eq :: "bytes \<Rightarrow> bytes \<Rightarrow> nat \<Rightarrow> bool" where
  "memcmp_eq a b n \<longleftrightarrow> take n a = take n b"

definition slice_eq :: "slice \<Rightarrow> slice \<Rightarrow> bool" where
  "slice_eq a b \<longleftrightarrow>
     (if b = [] \<and> a = [] then True
      else if length b \<noteq> length a then False
      else memcmp_eq a b (length a))"

definition slice_plus :: "slice \<Rightarrow> slice \<Rightarrow> slice" where
  "slice_plus s1 s2 =
     (if s1 = [] \<and> s2 = [] then []
      else (if s1 \<noteq> [] then s1 else []) @ (if s2 \<noteq> [] then s2 else []))"

lemma slice_eq_iff [simp]: "slice_eq a b \<longleftrightarrow> a = b"
  by (auto simp: slice_eq_def memcmp_eq_def)

lemma slice_plus_append [simp]: "slice_plus a b = a @ b"
  by (auto simp: slice_plus_def)

lemma slice_pop_front_drop [simp]: "slice_pop_front s n = drop n s"
  by (auto simp: slice_pop_front_def Let_def)

lemma slice_pop_back_take [simp]: "slice_pop_back s n = take (length s - n) s"
  by (auto simp: slice_pop_back_def Let_def)

lemma slice_copy_all [simp]: "slice_copy s (length s) = s"
  by (simp add: slice_copy_def)

lemma MakeStaticSlice_Some: "len \<le> length ptr \<Longrightarrow> MakeStaticSlice ptr len = Some (take len ptr)"
  by (simp add: MakeStaticSlice_def)

end
