(* ===== verification/Slice_Buffer.thy ===== *)
theory Slice_Buffer
  imports Slice
begin

text \<open>
  Model of \<^verbatim>\<open>src/utils/slice_buffer.cc\<close>: a vector of slices with a start index into it and a
  running byte count, consumed from the front. The interface it offers is a byte queue; the
  locale \<open>byte_queue\<close> states that contract and what its clients may conclude.
\<close>

section \<open>The byte queue contract\<close>

locale byte_queue =
  fixes empty_q :: 'q
    and push_q :: "'q \<Rightarrow> bytes \<Rightarrow> 'q"
    and peek_q :: "'q \<Rightarrow> nat \<Rightarrow> bytes option"
    and skip_q :: "'q \<Rightarrow> nat \<Rightarrow> bool \<times> 'q"
    and size_q :: "'q \<Rightarrow> nat"
    and contents :: "'q \<Rightarrow> bytes"
    and inv_q :: "'q \<Rightarrow> bool"
  assumes inv_empty: "inv_q empty_q" and contents_empty: "contents empty_q = []"
    and inv_push: "inv_q q \<Longrightarrow> inv_q (push_q q s)"
    and contents_push: "inv_q q \<Longrightarrow> contents (push_q q s) = contents q @ s"
    and size_contents: "inv_q q \<Longrightarrow> size_q q = length (contents q)"
    and peek_contents: "inv_q q \<Longrightarrow>
        peek_q q n = (if n \<le> length (contents q) then Some (take n (contents q)) else None)"
    and inv_skip: "inv_q q \<Longrightarrow> inv_q (snd (skip_q q n))"
    and skip_ok: "inv_q q \<Longrightarrow> fst (skip_q q n) \<longleftrightarrow> n \<le> length (contents q)"
    and contents_skip: "inv_q q \<Longrightarrow> n \<le> length (contents q) \<Longrightarrow>
        contents (snd (skip_q q n)) = drop n (contents q)"
begin

text \<open>Pushing a list of chunks appends them all.\<close>

lemma contents_push_all:
  "inv_q q \<Longrightarrow> inv_q (foldl push_q q ss) \<and> contents (foldl push_q q ss) = contents q @ concat ss"
  by (induction ss arbitrary: q) (simp_all add: inv_push contents_push)

text \<open>A peek has a result when so much is there, of the length asked for; a skip after it splits the contents.\<close>

lemma peek_size: "inv_q q \<Longrightarrow> peek_q q n \<noteq> None \<longleftrightarrow> n \<le> size_q q"
  by (simp add: peek_contents size_contents)

lemma peek_skip_split:
  assumes "inv_q q" "peek_q q n = Some bs"
  shows "bs @ contents (snd (skip_q q n)) = contents q" "length bs = n"
  using assms by (auto simp: peek_contents contents_skip split: if_splits)

end

section \<open>The code\<close>

record slice_buffer =
  sb_vs :: "slice list"
  sb_start :: nat
  sb_length :: nat

definition slice_buffer_new :: slice_buffer where
  "slice_buffer_new = \<lparr>sb_vs = [], sb_start = 0, sb_length = 0\<rparr>"

definition sb_slice_count :: "slice_buffer \<Rightarrow> nat" where
  "sb_slice_count b = length (sb_vs b) - sb_start b"

definition sb_get_buffer_length :: "slice_buffer \<Rightarrow> nat" where
  "sb_get_buffer_length b = sb_length b"

definition sb_merge :: "slice_buffer \<Rightarrow> slice" where
  "sb_merge b =
     (let count = sb_slice_count b in
      if count = 0 then []
      else if count = 1 then sb_vs b ! sb_start b
      else take (sb_get_buffer_length b) (concat (drop (sb_start b) (sb_vs b))))"

definition sb_add_slice :: "slice_buffer \<Rightarrow> slice \<Rightarrow> slice_buffer" where
  "sb_add_slice b s =
     (if s \<noteq> [] then b\<lparr>sb_vs := sb_vs b @ [s], sb_length := sb_length b + length s\<rparr> else b)"

definition sb_compact :: "slice_buffer \<Rightarrow> slice_buffer" where
  "sb_compact b =
     (if sb_start b > 0 \<and> (sb_start b \<ge> length (sb_vs b) \<or> sb_start b > length (sb_vs b) div 2)
      then b\<lparr>sb_vs := drop (sb_start b) (sb_vs b), sb_start := 0\<rparr> else b)"

text \<open>The loop of \<^verbatim>\<open>move_header\<close>.\<close>

function sb_move_loop :: "nat \<Rightarrow> slice_buffer \<Rightarrow> slice_buffer" where
  "sb_move_loop remaining b =
     (if remaining > 0 \<and> sb_start b < length (sb_vs b)
      then (let front_size = length (sb_vs b ! sb_start b) in
        if front_size > remaining
        then sb_move_loop 0 (b\<lparr>sb_vs := (sb_vs b)[sb_start b := slice_pop_front (sb_vs b ! sb_start b) remaining],
               sb_length := sb_length b - remaining\<rparr>)
        else sb_move_loop (remaining - front_size)
               (b\<lparr>sb_length := sb_length b - front_size, sb_start := sb_start b + 1\<rparr>))
      else b)"
  by pat_completeness auto
termination
  by (relation "measures [\<lambda>(r, b). length (sb_vs b) - sb_start b, \<lambda>(r, b). r]") auto

declare sb_move_loop.simps [simp del]

definition sb_move_header :: "slice_buffer \<Rightarrow> nat \<Rightarrow> bool \<times> slice_buffer" where
  "sb_move_header b len =
     (if sb_get_buffer_length b < len then (False, b)
      else if len = 0 then (True, b)
      else (True, sb_compact (sb_move_loop len b)))"

fun sb_copy_loop :: "slice list \<Rightarrow> nat \<Rightarrow> bytes" where
  "sb_copy_loop [] left = []"
| "sb_copy_loop (v # vs) left =
     (if left = 0 then [] else (let len = min left (length v) in
        take len v @ sb_copy_loop vs (left - len)))"

text \<open>The bytes copied; the assertion on the length comes first.\<close>

definition sb_copy_to_buffer :: "slice_buffer \<Rightarrow> nat \<Rightarrow> bytes option" where
  "sb_copy_to_buffer b len =
     (if \<not> len \<le> sb_get_buffer_length b then None
      else Some (sb_copy_loop (drop (sb_start b) (sb_vs b)) len))"

definition sb_get_header :: "slice_buffer \<Rightarrow> nat \<Rightarrow> slice option" where
  "sb_get_header b len =
     (if len = 0 \<or> sb_get_buffer_length b < len then Some [] else sb_copy_to_buffer b len)"

definition sb_clear_buffer :: "slice_buffer \<Rightarrow> slice_buffer" where
  "sb_clear_buffer b = \<lparr>sb_vs = [], sb_start = 0, sb_length = 0\<rparr>"

definition sb_empty :: "slice_buffer \<Rightarrow> bool" where
  "sb_empty b \<longleftrightarrow> sb_start b \<ge> length (sb_vs b)"

definition sb_front :: "slice_buffer \<Rightarrow> slice option" where
  "sb_front b = (if sb_start b < length (sb_vs b) then Some (sb_vs b ! sb_start b) else None)"

definition sb_back :: "slice_buffer \<Rightarrow> slice option" where
  "sb_back b = (if sb_vs b \<noteq> [] then Some (last (sb_vs b)) else None)"

definition sb_pop_front :: "slice_buffer \<Rightarrow> slice_buffer" where
  "sb_pop_front b =
     (if sb_start b < length (sb_vs b)
      then sb_compact (b\<lparr>sb_length := sb_length b - length (sb_vs b ! sb_start b), sb_start := sb_start b + 1\<rparr>)
      else b)"

definition sb_pop_back :: "slice_buffer \<Rightarrow> slice_buffer" where
  "sb_pop_back b =
     (if sb_start b < length (sb_vs b)
      then b\<lparr>sb_length := sb_length b - length (last (sb_vs b)), sb_vs := butlast (sb_vs b)\<rparr>
      else b)"

definition sb_nth :: "slice_buffer \<Rightarrow> nat \<Rightarrow> slice option" where
  "sb_nth b i =
     (if sb_start b + i < length (sb_vs b) then Some (sb_vs b ! (sb_start b + i)) else None)"

section \<open>Invariant and contents\<close>

definition sb_contents :: "slice_buffer \<Rightarrow> bytes" where
  "sb_contents b = concat (drop (sb_start b) (sb_vs b))"

text \<open>The byte count is right, and no live slice is empty.\<close>

definition sb_inv :: "slice_buffer \<Rightarrow> bool" where
  "sb_inv b \<longleftrightarrow> sb_start b \<le> length (sb_vs b) \<and> sb_length b = length (sb_contents b) \<and>
     [] \<notin> set (drop (sb_start b) (sb_vs b))"

lemma sb_inv_new: "sb_inv slice_buffer_new" and sb_contents_new: "sb_contents slice_buffer_new = []"
  by (simp_all add: sb_inv_def sb_contents_def slice_buffer_new_def)

lemma sb_inv_clear: "sb_inv (sb_clear_buffer b)" "sb_contents (sb_clear_buffer b) = []"
  by (simp_all add: sb_inv_def sb_contents_def sb_clear_buffer_def)

lemma sb_inv_add: "sb_inv b \<Longrightarrow> sb_inv (sb_add_slice b s)"
  by (auto simp: sb_inv_def sb_contents_def sb_add_slice_def)

lemma sb_contents_add: "sb_inv b \<Longrightarrow> sb_contents (sb_add_slice b s) = sb_contents b @ s"
  by (auto simp: sb_inv_def sb_contents_def sb_add_slice_def)

lemma sb_compact_contents [simp]: "sb_contents (sb_compact b) = sb_contents b"
  by (simp add: sb_contents_def sb_compact_def)

lemma sb_compact_inv: "sb_inv b \<Longrightarrow> sb_inv (sb_compact b)"
  by (auto simp: sb_inv_def sb_contents_def sb_compact_def)

lemma drop_at_start: "sb_start b < length (sb_vs b) \<Longrightarrow>
    drop (sb_start b) (sb_vs b) = sb_vs b ! sb_start b # drop (Suc (sb_start b)) (sb_vs b)"
  by (rule Cons_nth_drop_Suc [symmetric])

lemma sb_move_loop_spec:
  "sb_inv b \<Longrightarrow> n \<le> length (sb_contents b) \<Longrightarrow>
     sb_inv (sb_move_loop n b) \<and> sb_contents (sb_move_loop n b) = drop n (sb_contents b)"
proof (induction n b rule: sb_move_loop.induct)
  case (1 n b)
  show ?case
  proof (cases "n > 0 \<and> sb_start b < length (sb_vs b)")
    case False
    then have "n = 0"
      using 1(3,4) by (auto simp: sb_inv_def sb_contents_def)
    then show ?thesis using 1(3) by (subst (1 2) sb_move_loop.simps) simp
  next
    case True
    let ?v = "sb_vs b ! sb_start b"
    have cont: "sb_contents b = ?v @ concat (drop (Suc (sb_start b)) (sb_vs b))"
      using True by (simp add: sb_contents_def drop_at_start)
    show ?thesis
    proof (cases "length ?v > n")
      case long: True
      let ?b = "b\<lparr>sb_vs := (sb_vs b)[sb_start b := slice_pop_front ?v n], sb_length := sb_length b - n\<rparr>"
      have dr: "drop (sb_start b) ((sb_vs b)[sb_start b := drop n ?v]) =
          drop n ?v # drop (Suc (sb_start b)) (sb_vs b)"
        using True by (simp add: drop_update_swap flip: Cons_nth_drop_Suc)
      have c: "sb_contents ?b = drop n (sb_contents b)"
        using long by (simp add: cont) (simp add: sb_contents_def dr)
      have i: "sb_inv ?b"
        using 1(3) long True c by (auto simp: sb_inv_def dr drop_at_start)
      have "sb_move_loop n b = sb_move_loop 0 ?b"
        using True long by (subst sb_move_loop.simps) (simp add: Let_def)
      also have "\<dots> = ?b" by (subst sb_move_loop.simps) simp
      finally show ?thesis using c i by simp
    next
      case short: False
      let ?b = "b\<lparr>sb_length := sb_length b - length ?v, sb_start := sb_start b + 1\<rparr>"
      have c: "sb_contents ?b = drop (length ?v) (sb_contents b)"
        by (simp add: cont) (simp add: sb_contents_def)
      have i: "sb_inv ?b"
        using 1(3) True c by (auto simp: sb_inv_def drop_at_start)
      have "sb_move_loop n b = sb_move_loop (n - length ?v) ?b"
        using True short by (subst sb_move_loop.simps) (simp add: Let_def)
      moreover have "sb_inv (sb_move_loop (n - length ?v) ?b) \<and>
          sb_contents (sb_move_loop (n - length ?v) ?b) = drop (n - length ?v) (sb_contents ?b)"
        using 1(4) short c by (intro 1(2) [OF True refl short i]) simp
      ultimately show ?thesis using short c by simp
    qed
  qed
qed

lemma sb_copy_loop_take: "sb_copy_loop vs n = take n (concat vs)"
  by (induction vs n rule: sb_copy_loop.induct) (auto simp: Let_def min_def)

lemma sb_copy_take: "sb_inv b \<Longrightarrow>
    sb_copy_to_buffer b n = (if n \<le> length (sb_contents b) then Some (take n (sb_contents b)) else None)"
  by (simp add: sb_copy_to_buffer_def sb_copy_loop_take sb_get_buffer_length_def sb_inv_def) (simp add: sb_contents_def)

lemma sb_move_header_spec:
  assumes "sb_inv b"
  shows "sb_inv (snd (sb_move_header b n))"
    and "fst (sb_move_header b n) \<longleftrightarrow> n \<le> length (sb_contents b)"
    and "n \<le> length (sb_contents b) \<Longrightarrow> sb_contents (snd (sb_move_header b n)) = drop n (sb_contents b)"
  using assms sb_move_loop_spec [of b n]
  by (auto simp: sb_move_header_def sb_get_buffer_length_def sb_inv_def [of b] intro!: sb_compact_inv)

interpretation sb: byte_queue slice_buffer_new sb_add_slice sb_copy_to_buffer sb_move_header
  sb_get_buffer_length sb_contents sb_inv
  by unfold_locales
     (simp_all add: sb_inv_new sb_contents_new sb_inv_add sb_contents_add sb_copy_take sb_move_header_spec,
      simp add: sb_get_buffer_length_def sb_inv_def)

lemma sb_merge_contents: "sb_inv b \<Longrightarrow> sb_merge b = sb_contents b"
proof -
  assume inv: "sb_inv b"
  have "drop (sb_start b) (sb_vs b) = [sb_vs b ! sb_start b]" if "sb_slice_count b = 1"
    using that by (auto simp: sb_slice_count_def drop_at_start)
  with inv show ?thesis
    by (auto simp: sb_merge_def Let_def sb_inv_def sb_contents_def sb_slice_count_def sb_get_buffer_length_def)
qed

lemma sb_empty_contents: "sb_inv b \<Longrightarrow> sb_empty b \<longleftrightarrow> sb_contents b = []"
  by (cases "sb_start b < length (sb_vs b)")
     (auto simp: sb_empty_def sb_inv_def sb_contents_def drop_at_start)

lemma sb_get_header_spec: "sb_inv b \<Longrightarrow>
    sb_get_header b n = Some (if n \<le> length (sb_contents b) then take n (sb_contents b) else [])"
  by (auto simp: sb_get_header_def sb_copy_take sb_get_buffer_length_def sb_inv_def)

lemma sb_pop_front_spec:
  assumes "sb_inv b"
  shows "sb_inv (sb_pop_front b)"
    and "sb_contents (sb_pop_front b) = (case sb_front b of None \<Rightarrow> [] | Some v \<Rightarrow> drop (length v) (sb_contents b))"
  using assms
  by (cases "sb_start b < length (sb_vs b)";
      auto simp: sb_pop_front_def sb_front_def sb_inv_def sb_contents_def drop_at_start sb_compact_def)+

end
