(* ===== verification/Byte_Order.thy ===== *)
theory Byte_Order
  imports Prelude
begin

text \<open>
  Model of \<^verbatim>\<open>src/utils/byte_order.h\<close> and \<^verbatim>\<open>src/utils/byte_order.cc\<close>: big-endian reads by
  shifts, big-endian writes by reversing the bytes of the host representation. The host
  representation that \<^verbatim>\<open>memcpy\<close> sees is explicit, so that what the writes do on a host of
  the other byte order can be stated.
\<close>

datatype endian = Little | Big

text \<open>The object representation of an unsigned integer, low byte first on a little-endian host.\<close>

definition le_bytes_u16 :: "u16 \<Rightarrow> bytes" where
  "le_bytes_u16 n = [ucast n, ucast (drop_bit 8 n)]"

definition le_bytes_u32 :: "u32 \<Rightarrow> bytes" where
  "le_bytes_u32 n = [ucast n, ucast (drop_bit 8 n), ucast (drop_bit 16 n), ucast (drop_bit 24 n)]"

fun le_value_u16 :: "bytes \<Rightarrow> u16" where
  "le_value_u16 [a, b] = ucast a OR push_bit 8 (ucast b)"
| "le_value_u16 _ = 0"

fun le_value_u32 :: "bytes \<Rightarrow> u32" where
  "le_value_u32 [a, b, c, d] =
     ucast a OR push_bit 8 (ucast b) OR push_bit 16 (ucast c) OR push_bit 24 (ucast d)"
| "le_value_u32 _ = 0"

definition mem_of_u16 :: "endian \<Rightarrow> u16 \<Rightarrow> bytes" where
  "mem_of_u16 e n = (case e of Little \<Rightarrow> le_bytes_u16 n | Big \<Rightarrow> rev (le_bytes_u16 n))"

definition mem_of_u32 :: "endian \<Rightarrow> u32 \<Rightarrow> bytes" where
  "mem_of_u32 e n = (case e of Little \<Rightarrow> le_bytes_u32 n | Big \<Rightarrow> rev (le_bytes_u32 n))"

definition u16_of_mem :: "endian \<Rightarrow> bytes \<Rightarrow> u16" where
  "u16_of_mem e bs = (case e of Little \<Rightarrow> le_value_u16 bs | Big \<Rightarrow> le_value_u16 (rev bs))"

definition u32_of_mem :: "endian \<Rightarrow> bytes \<Rightarrow> u32" where
  "u32_of_mem e bs = (case e of Little \<Rightarrow> le_value_u32 bs | Big \<Rightarrow> le_value_u32 (rev bs))"

text \<open>\<^verbatim>\<open>change_byte_order<T>\<close>: copy out, reverse the bytes, copy back.\<close>

definition change_byte_order_u16 :: "endian \<Rightarrow> u16 \<Rightarrow> u16" where
  "change_byte_order_u16 e n = u16_of_mem e (rev (mem_of_u16 e n))"

definition change_byte_order_u32 :: "endian \<Rightarrow> u32 \<Rightarrow> u32" where
  "change_byte_order_u32 e n = u32_of_mem e (rev (mem_of_u32 e n))"

definition put_uint16_in_be_stream_on :: "endian \<Rightarrow> u16 \<Rightarrow> bytes" where
  "put_uint16_in_be_stream_on e n = mem_of_u16 e (change_byte_order_u16 e n)"

definition put_uint32_in_be_stream_on :: "endian \<Rightarrow> u32 \<Rightarrow> bytes" where
  "put_uint32_in_be_stream_on e n = mem_of_u32 e (change_byte_order_u32 e n)"

text \<open>The supported platforms are little-endian; the other components use these writes.\<close>

abbreviation put_uint16_in_be_stream :: "u16 \<Rightarrow> bytes" where
  "put_uint16_in_be_stream n \<equiv> put_uint16_in_be_stream_on Little n"

abbreviation put_uint32_in_be_stream :: "u32 \<Rightarrow> bytes" where
  "put_uint32_in_be_stream n \<equiv> put_uint32_in_be_stream_on Little n"

text \<open>The reads need 2 and 4 bytes at the pointer; with fewer there is no value.\<close>

fun get_uint16_from_be_stream :: "bytes \<Rightarrow> u16 option" where
  "get_uint16_from_be_stream (a # b # _) = Some (push_bit 8 (ucast a) OR ucast b)"
| "get_uint16_from_be_stream _ = None"

fun get_uint32_from_be_stream :: "bytes \<Rightarrow> u32 option" where
  "get_uint32_from_be_stream (a # b # c # d # _) =
     Some (push_bit 24 (ucast a) OR push_bit 16 (ucast b) OR push_bit 8 (ucast c) OR ucast d)"
| "get_uint32_from_be_stream _ = None"

section \<open>Closed forms and round trips\<close>

lemma le_value_le_bytes_u16: "le_value_u16 (le_bytes_u16 n) = n"
  by (rule bit_word_eqI) (auto simp: le_bytes_u16_def bit_simps)

lemma le_value_le_bytes_u32: "le_value_u32 (le_bytes_u32 n) = n"
proof (rule bit_word_eqI)
  fix k assume "k < LENGTH(32)"
  then show "bit (le_value_u32 (le_bytes_u32 n)) k \<longleftrightarrow> bit n k"
    by (cases "k < 8"; cases "k < 16"; cases "k < 24") (auto simp: le_bytes_u32_def bit_simps)
qed

lemma le_bytes_le_value_u16_two: "le_bytes_u16 (le_value_u16 [a, b]) = [a, b]"
  by (auto simp: le_bytes_u16_def bit_simps intro!: bit_word_eqI)

lemma le_bytes_le_value_u32_four: "le_bytes_u32 (le_value_u32 [a, b, c, d]) = [a, b, c, d]"
  by (auto simp: le_bytes_u32_def bit_simps intro!: bit_word_eqI)

lemma le_bytes_le_value_u16: "length bs = 2 \<Longrightarrow> le_bytes_u16 (le_value_u16 bs) = bs"
  by (auto simp: eval_nat_numeral length_Suc_conv le_bytes_le_value_u16_two simp del: le_value_u16.simps)

lemma le_bytes_le_value_u32: "length bs = 4 \<Longrightarrow> le_bytes_u32 (le_value_u32 bs) = bs"
  by (auto dest!: list4_of_length simp: le_bytes_le_value_u32_four simp del: le_value_u32.simps)

lemma length_le_bytes_u16 [simp]: "length (le_bytes_u16 n) = 2"
  by (simp add: le_bytes_u16_def)

lemma length_le_bytes_u32 [simp]: "length (le_bytes_u32 n) = 4"
  by (simp add: le_bytes_u32_def)

lemmas mem_simps = mem_of_u16_def mem_of_u32_def u16_of_mem_def u32_of_mem_def

text \<open>The byte swap and the copy cancel the host order: the bytes written are the reversed representation.\<close>

lemma put_uint16_eq: "put_uint16_in_be_stream_on e n = rev (mem_of_u16 e n)"
  by (cases e) (simp_all add: put_uint16_in_be_stream_on_def change_byte_order_u16_def mem_simps
      le_bytes_le_value_u16)

lemma put_uint32_eq: "put_uint32_in_be_stream_on e n = rev (mem_of_u32 e n)"
  by (cases e) (simp_all add: put_uint32_in_be_stream_on_def change_byte_order_u32_def mem_simps
      le_bytes_le_value_u32)

lemma put_uint16_bytes: "put_uint16_in_be_stream n = [ucast (drop_bit 8 n), ucast n]"
  by (simp add: put_uint16_eq mem_simps le_bytes_u16_def)

lemma put_uint32_bytes:
  "put_uint32_in_be_stream n =
     [ucast (drop_bit 24 n), ucast (drop_bit 16 n), ucast (drop_bit 8 n), ucast n]"
  by (simp add: put_uint32_eq mem_simps le_bytes_u32_def)

lemma length_put_uint16 [simp]: "length (put_uint16_in_be_stream_on e n) = 2"
  by (cases e) (simp_all add: put_uint16_eq mem_simps)

lemma length_put_uint32 [simp]: "length (put_uint32_in_be_stream_on e n) = 4"
  by (cases e) (simp_all add: put_uint32_eq mem_simps)

lemma be_value_u32:
  "push_bit 24 (ucast (ucast (drop_bit 24 n) :: u8)) OR push_bit 16 (ucast (ucast (drop_bit 16 n) :: u8)) OR
   push_bit 8 (ucast (ucast (drop_bit 8 n) :: u8)) OR ucast (ucast n :: u8) = (n :: u32)"
  using le_value_le_bytes_u32 [of n] by (simp add: le_bytes_u32_def ac_simps)

lemma get_put_uint16 [simp, roundtrip]:
  "get_uint16_from_be_stream (put_uint16_in_be_stream n @ rest) = Some n"
  using le_value_le_bytes_u16 [of n] by (simp add: put_uint16_bytes le_bytes_u16_def ac_simps)

lemma get_put_uint32 [simp, roundtrip]:
  "get_uint32_from_be_stream (put_uint32_in_be_stream n @ rest) = Some n"
  by (simp add: put_uint32_bytes be_value_u32)

lemmas get_put_uint32_Nil [simp] = get_put_uint32 [where rest = "[]", simplified]

lemma put_get_uint32 [roundtrip]:
  "get_uint32_from_be_stream [a, b, c, d] = Some n \<Longrightarrow> put_uint32_in_be_stream n = [a, b, c, d]"
  using le_bytes_le_value_u32_four [of d c b a]
  by (auto simp: put_uint32_eq mem_simps le_bytes_u32_def ac_simps)

lemma get_uint32_None_iff: "get_uint32_from_be_stream bs = None \<longleftrightarrow> length bs < 4"
  by (cases bs rule: get_uint32_from_be_stream.cases) auto

lemma get_uint16_None_iff: "get_uint16_from_be_stream bs = None \<longleftrightarrow> length bs < 2"
  by (cases bs rule: get_uint16_from_be_stream.cases) auto

lemma get_uint32_append [simp]:
  "4 \<le> length bs \<Longrightarrow> get_uint32_from_be_stream (bs @ rest) = get_uint32_from_be_stream bs"
  by (cases bs rule: get_uint32_from_be_stream.cases) auto

end
