(* ===== verification/Protocol.thy ===== *)
theory Protocol
  imports Prelude
begin

text \<open>
  The enumerations of \<^verbatim>\<open>include/http2/transport.h\<close> with the numbers the code casts them to, and
  the SETTINGS table of \<^verbatim>\<open>src/http2/settings.cc\<close>.
\<close>

section \<open>Error codes, frame types and flags\<close>

datatype Http2ErrorCode =
  NoError | ProtocolError | InternalError | FlowControlError | SettingsTimeout | StreamClosed
  | FrameSizeError | RefusedStream | Cancel | CompressionError | ConnectError | EnhanceYourCalm
  | InadequateSecurity | Http11Required

primrec error_code :: "Http2ErrorCode \<Rightarrow> u32" where
  "error_code NoError = 0x0"
| "error_code ProtocolError = 0x1"
| "error_code InternalError = 0x2"
| "error_code FlowControlError = 0x3"
| "error_code SettingsTimeout = 0x4"
| "error_code StreamClosed = 0x5"
| "error_code FrameSizeError = 0x6"
| "error_code RefusedStream = 0x7"
| "error_code Cancel = 0x8"
| "error_code CompressionError = 0x9"
| "error_code ConnectError = 0xa"
| "error_code EnhanceYourCalm = 0xb"
| "error_code InadequateSecurity = 0xc"
| "error_code Http11Required = 0xd"

datatype Http2FrameType =
  Type_Data | Type_Headers | Type_Priority | Type_RstStream | Type_Settings | Type_PushPromise
  | Type_Ping | Type_GoAway | Type_WindowUpdate | Type_Continuation

primrec frame_type :: "Http2FrameType \<Rightarrow> u8" where
  "frame_type Type_Data = 0x0"
| "frame_type Type_Headers = 0x1"
| "frame_type Type_Priority = 0x2"
| "frame_type Type_RstStream = 0x3"
| "frame_type Type_Settings = 0x4"
| "frame_type Type_PushPromise = 0x5"
| "frame_type Type_Ping = 0x6"
| "frame_type Type_GoAway = 0x7"
| "frame_type Type_WindowUpdate = 0x8"
| "frame_type Type_Continuation = 0x9"

text \<open>\<open>Flag_Ack\<close> and \<open>Flag_EndStream\<close> are the same bit; the frame type tells them apart.\<close>

datatype Http2FrameFlag = Flag_None | Flag_EndStream | Flag_Ack | Flag_EndHeaders | Flag_Padded | Flag_Priority

primrec frame_flag :: "Http2FrameFlag \<Rightarrow> u8" where
  "frame_flag Flag_None = 0x0"
| "frame_flag Flag_EndStream = 0x1"
| "frame_flag Flag_Ack = 0x1"
| "frame_flag Flag_EndHeaders = 0x4"
| "frame_flag Flag_Padded = 0x8"
| "frame_flag Flag_Priority = 0x20"

definition has_flag :: "u8 \<Rightarrow> Http2FrameFlag \<Rightarrow> bool" where
  "has_flag flags f \<longleftrightarrow> flags AND frame_flag f \<noteq> 0"

section \<open>Stream states\<close>

datatype Http2StreamState =
  Idle | ReservedLocal | ReservedRemote | Open | HalfClosedLocal | HalfClosedRemote | Closed

primrec state_code :: "Http2StreamState \<Rightarrow> int" where
  "state_code Idle = 0"
| "state_code ReservedLocal = 1"
| "state_code ReservedRemote = 2"
| "state_code Open = 3"
| "state_code HalfClosedLocal = 4"
| "state_code HalfClosedRemote = 5"
| "state_code Closed = 6"

lemma state_code_inject [simp]: "state_code s = state_code t \<longleftrightarrow> s = t"
  by (cases s; cases t) simp_all

text \<open>The states are ordered by their enumerators, as \<^verbatim>\<open>CurrentState()\<close> reports them.\<close>

instantiation Http2StreamState :: linorder
begin

definition less_eq_Http2StreamState :: "Http2StreamState \<Rightarrow> Http2StreamState \<Rightarrow> bool" where
  "s \<le> t \<longleftrightarrow> state_code s \<le> state_code t"

definition less_Http2StreamState :: "Http2StreamState \<Rightarrow> Http2StreamState \<Rightarrow> bool" where
  "s < t \<longleftrightarrow> state_code s < state_code t"

instance
  by standard (auto simp: less_eq_Http2StreamState_def less_Http2StreamState_def)

end

lemmas state_order = less_eq_Http2StreamState_def less_Http2StreamState_def

section \<open>SETTINGS\<close>

datatype InvalidValueBehavior = Clamp | Disconnect

record SettingParameters =
  sp_name :: string
  sp_default_value :: u32
  sp_min_value :: u32
  sp_max_value :: u32
  sp_invalid_value_behavior :: InvalidValueBehavior
  sp_error_value :: Http2ErrorCode

datatype Http2SettingsId =
  Set_None | Set_HeaderTableSize | Set_EnablePush | Set_MaxConcurrentStreams | Set_InitialWindowSize
  | Set_MaxFrameSize | Set_MaxHeaderListSize

primrec settings_id :: "Http2SettingsId \<Rightarrow> u16" where
  "settings_id Set_None = 0"
| "settings_id Set_HeaderTableSize = 1"
| "settings_id Set_EnablePush = 2"
| "settings_id Set_MaxConcurrentStreams = 3"
| "settings_id Set_InitialWindowSize = 4"
| "settings_id Set_MaxFrameSize = 5"
| "settings_id Set_MaxHeaderListSize = 6"

definition HTTP2_NUMBER_OF_SETTINGS :: nat where
  "HTTP2_NUMBER_OF_SETTINGS = 7"

definition HTTP2_MAX_STREAM_ID :: u32 where
  "HTTP2_MAX_STREAM_ID = 0x7FFFFFFF"

definition setting_parameters ::
  "string \<Rightarrow> u32 \<Rightarrow> u32 \<Rightarrow> u32 \<Rightarrow> InvalidValueBehavior \<Rightarrow> Http2ErrorCode \<Rightarrow> SettingParameters" where
  "setting_parameters n d lo hi b e =
     \<lparr>sp_name = n, sp_default_value = d, sp_min_value = lo, sp_max_value = hi,
      sp_invalid_value_behavior = b, sp_error_value = e\<rparr>"

definition global_settings_parameters :: "SettingParameters list" where
  "global_settings_parameters = [
    setting_parameters ''NULL'' 0 0 0 Clamp NoError,
    setting_parameters ''HEADER_TABLE_SIZE'' 4096 0 4294967295 Clamp ProtocolError,
    setting_parameters ''ENABLE_PUSH'' 1 0 1 Disconnect ProtocolError,
    setting_parameters ''MAX_CONCURRENT_STREAMS'' 4294967295 0 4294967295 Disconnect ProtocolError,
    setting_parameters ''INITIAL_WINDOW_SIZE'' 65535 0 2147483647 Disconnect FlowControlError,
    setting_parameters ''MAX_FRAME_SIZE'' 16384 16384 16777215 Disconnect ProtocolError,
    setting_parameters ''MAX_HEADER_LIST_SIZE'' 16777216 0 16777216 Clamp ProtocolError
  ]"

lemma length_global_settings [simp]: "length global_settings_parameters = 7"
  by (simp add: global_settings_parameters_def)

text \<open>Every default lies in its own range.\<close>

lemma global_settings_defaults:
  "list_all (\<lambda>p. sp_min_value p \<le> sp_default_value p \<and> sp_default_value p \<le> sp_max_value p)
     global_settings_parameters"
  by (simp add: global_settings_parameters_def setting_parameters_def)

end
