(* ===== verification/Frame.thy ===== *)
theory Frame
  imports Slice Byte_Order Protocol
begin

text \<open>
  Frame structures and builders of \<^verbatim>\<open>src/http2/frame.h\<close> and \<^verbatim>\<open>src/http2/frame.cc\<close>.
\<close>

definition HTTP2_STREAM_ID_MASK :: u32 where "HTTP2_STREAM_ID_MASK = 0x7FFFFFFF"
definition HTTP2_FRAME_HEADER_SIZE :: u32 where "HTTP2_FRAME_HEADER_SIZE = 9"

section \<open>Frame structures\<close>

record http2_frame_hdr =
  hd_length :: u32
  hd_type :: u8
  hd_flags :: u8
  hd_reserved :: u8
  hd_stream_id :: u32

record http2_priority_spec =
  ps_depend_stream_id :: u32
  ps_weight :: u16
  ps_exclusive :: u8

record http2_settings_entry =
  se_id :: u16
  se_value :: u32

record http2_frame_data =
  dat_hdr :: http2_frame_hdr
  dat_pad_len :: u8
  dat_data :: slice

record http2_frame_headers =
  hds_hdr :: http2_frame_hdr
  hds_pad_len :: u8
  hds_pspec :: http2_priority_spec
  hds_header_block_fragment :: slice

record http2_frame_priority =
  pri_hdr :: http2_frame_hdr
  pri_pspec :: http2_priority_spec

record http2_frame_rst_stream =
  rst_hdr :: http2_frame_hdr
  rst_error_code :: u32

record http2_frame_settings =
  set_hdr :: http2_frame_hdr
  set_settings :: "http2_settings_entry list"

record http2_frame_push_promise =
  pp_hdr :: http2_frame_hdr
  pp_pad_len :: u8
  pp_promised_stream_id :: u32
  pp_header_block_fragment :: slice
  pp_reserved :: u8

record http2_frame_ping =
  png_hdr :: http2_frame_hdr
  png_opaque_data :: bytes

record http2_frame_goaway =
  ga_hdr :: http2_frame_hdr
  ga_last_stream_id :: u32
  ga_error_code :: u32
  ga_debug_data :: slice
  ga_reserved :: u8

record http2_frame_window_update =
  wu_hdr :: http2_frame_hdr
  wu_window_size_inc :: u32
  wu_reserved :: u8

record http2_frame_continuation =
  con_hdr :: http2_frame_hdr
  con_header_block_fragment :: slice

section \<open>The frame header\<close>

text \<open>
  The pack routine stores the length shifted left by 8 in the first four bytes and overwrites
  the fourth with the type.
\<close>

definition http2_frame_header_pack :: "http2_frame_hdr \<Rightarrow> bytes" where
  "http2_frame_header_pack h =
     take 3 (put_uint32_in_be_stream (push_bit 8 (hd_length h))) @ [hd_type h, hd_flags h] @
     put_uint32_in_be_stream (hd_stream_id h)"

definition http2_frame_header_unpack :: "bytes \<Rightarrow> http2_frame_hdr option" where
  "http2_frame_header_unpack buf =
     Option.bind (get_uint32_from_be_stream buf) (\<lambda>len.
     Option.bind (byte_at buf 3) (\<lambda>type.
     Option.bind (byte_at buf 4) (\<lambda>flags.
     Option.bind (get_uint32_from_be_stream (drop 5 buf)) (\<lambda>stream_id.
       Some \<lparr>hd_length = drop_bit 8 len, hd_type = type, hd_flags = flags, hd_reserved = 0,
             hd_stream_id = stream_id AND HTTP2_STREAM_ID_MASK\<rparr>))))"

definition http2_frame_header_init :: "nat \<Rightarrow> u8 \<Rightarrow> u8 \<Rightarrow> u32 \<Rightarrow> http2_frame_hdr" where
  "http2_frame_header_init len type flags stream_id =
     \<lparr>hd_length = word_of_nat len, hd_type = type, hd_flags = flags, hd_reserved = 0, hd_stream_id = stream_id\<rparr>"

section \<open>Builders\<close>

text \<open>The builders take the flags as an \<^verbatim>\<open>int\<close> whose low byte they keep.\<close>

definition build_http2_frame_settings :: "u32 \<Rightarrow> http2_settings_entry list \<Rightarrow> http2_frame_settings" where
  "build_http2_frame_settings flags settings =
     (let uflags = ucast flags :: u8 in
      if flags AND ucast (frame_flag Flag_Ack) \<noteq> 0
      then \<lparr>set_hdr = http2_frame_header_init 0 (frame_type Type_Settings) uflags 0, set_settings = []\<rparr>
      else \<lparr>set_hdr = http2_frame_header_init (6 * length settings) (frame_type Type_Settings) uflags 0,
            set_settings = settings\<rparr>)"

definition build_http2_frame_ping :: "bytes \<Rightarrow> bool \<Rightarrow> http2_frame_ping" where
  "build_http2_frame_ping data ack =
     (let flags = (if ack then frame_flag Flag_Ack else 0) in
      \<lparr>png_hdr = http2_frame_header_init 8 (frame_type Type_Ping) flags 0, png_opaque_data = take 8 data\<rparr>)"

definition build_http2_frame_goaway :: "u32 \<Rightarrow> u32 \<Rightarrow> slice \<Rightarrow> http2_frame_goaway" where
  "build_http2_frame_goaway last_stream_id err debug =
     \<lparr>ga_hdr = http2_frame_header_init (8 + length debug) (frame_type Type_GoAway) 0 0,
      ga_last_stream_id = last_stream_id, ga_error_code = err, ga_debug_data = debug, ga_reserved = 0\<rparr>"

definition build_http2_frame_window_update :: "u32 \<Rightarrow> u32 \<Rightarrow> http2_frame_window_update" where
  "build_http2_frame_window_update stream_id window_size_inc =
     \<lparr>wu_hdr = http2_frame_header_init 4 (frame_type Type_WindowUpdate) 0 stream_id,
      wu_window_size_inc = window_size_inc, wu_reserved = 0\<rparr>"

definition build_http2_frame_data :: "u32 \<Rightarrow> u32 \<Rightarrow> slice \<Rightarrow> http2_frame_data" where
  "build_http2_frame_data stream_id flags data =
     \<lparr>dat_hdr = http2_frame_header_init (length data) (frame_type Type_Data) (ucast flags) stream_id,
      dat_pad_len = 0, dat_data = data\<rparr>"

definition build_http2_frame_headers ::
  "u32 \<Rightarrow> u32 \<Rightarrow> slice \<Rightarrow> http2_priority_spec option \<Rightarrow> http2_frame_headers" where
  "build_http2_frame_headers stream_id flags header_block spec =
     (let flags = (if spec = None then flags AND NOT (ucast (frame_flag Flag_Priority)) else flags);
          len = length header_block in
      case (if flags AND ucast (frame_flag Flag_Priority) \<noteq> 0
            then (case spec of Some s \<Rightarrow> s | None \<Rightarrow> \<lparr>ps_depend_stream_id = 0, ps_weight = 0, ps_exclusive = 0\<rparr>, len + 5)
            else (\<lparr>ps_depend_stream_id = 0, ps_weight = 0, ps_exclusive = 0\<rparr>, len)) of
        (pspec, len) \<Rightarrow>
          \<lparr>hds_hdr = http2_frame_header_init len (frame_type Type_Headers) (ucast flags) stream_id,
           hds_pad_len = 0, hds_pspec = pspec, hds_header_block_fragment = header_block\<rparr>)"

definition build_http2_frame_push_promise :: "u32 \<Rightarrow> u32 \<Rightarrow> u32 \<Rightarrow> slice \<Rightarrow> http2_frame_push_promise" where
  "build_http2_frame_push_promise associated_stream_id promised_stream_id flags header_block =
     \<lparr>pp_hdr = http2_frame_header_init (4 + length header_block) (frame_type Type_PushPromise) (ucast flags)
        associated_stream_id,
      pp_pad_len = 0, pp_promised_stream_id = promised_stream_id, pp_header_block_fragment = header_block,
      pp_reserved = 0\<rparr>"

definition build_http2_frame_rst_stream :: "u32 \<Rightarrow> u32 \<Rightarrow> u32 \<Rightarrow> http2_frame_rst_stream" where
  "build_http2_frame_rst_stream stream_id flags err =
     \<lparr>rst_hdr = http2_frame_header_init 4 (frame_type Type_RstStream) (ucast flags) stream_id,
      rst_error_code = err\<rparr>"

definition build_http2_frame_priority :: "u32 \<Rightarrow> u32 \<Rightarrow> http2_priority_spec \<Rightarrow> http2_frame_priority" where
  "build_http2_frame_priority stream_id flags spec =
     \<lparr>pri_hdr = http2_frame_header_init 5 (frame_type Type_Priority) (ucast flags) stream_id,
      pri_pspec = spec\<rparr>"

section \<open>Header round trip\<close>

text \<open>A header the nine bytes can carry.\<close>

definition hdr_ok :: "http2_frame_hdr \<Rightarrow> bool" where
  "hdr_ok h \<longleftrightarrow> unat (hd_length h) < 2 ^ 24 \<and> hd_stream_id h \<le> HTTP2_STREAM_ID_MASK \<and> hd_reserved h = 0"

lemma length_header_pack [simp]: "length (http2_frame_header_pack h) = 9"
  by (simp add: http2_frame_header_pack_def put_uint32_bytes)

lemma stream_id_mask:
  assumes "i \<le> HTTP2_STREAM_ID_MASK" shows "i AND HTTP2_STREAM_ID_MASK = i"
proof -
  have m: "HTTP2_STREAM_ID_MASK = mask 31" by (simp add: HTTP2_STREAM_ID_MASK_def mask_eq_exp_minus_1)
  have "unat i \<le> unat (0x7FFFFFFF :: u32)"
    using assms unfolding HTTP2_STREAM_ID_MASK_def by (rule word_le_nat_alt [THEN iffD1])
  then have "take_bit 31 i = i"
    by (simp add: word_unat_eq_iff unsigned_take_bit_eq take_bit_nat_eq_self)
  then show ?thesis by (simp add: m take_bit_eq_mask)
qed

lemma length24_roundtrip:
  fixes t :: u8
  assumes "unat n < 2 ^ 24"
  shows "drop_bit 8 (push_bit 8 n OR ucast t) = (n :: u32)"
proof (rule bit_word_eqI)
  fix k assume k: "k < LENGTH(32)"
  have hi: "\<not> bit n k" if "24 \<le> k" for k
  proof -
    have "take_bit 24 n = n"
      using assms by (simp add: word_unat_eq_iff unsigned_take_bit_eq take_bit_nat_eq_self)
    then show ?thesis using that by (metis bit_take_bit_iff not_less)
  qed
  show "bit (drop_bit 8 (push_bit 8 n OR ucast t)) k \<longleftrightarrow> bit n k"
    using hi [of k] by (cases "k < 24") (auto simp: bit_simps)
qed

text \<open>The first word read back has the type in its low byte.\<close>

lemma header_first_word:
  fixes n :: u32
  shows "get_uint32_from_be_stream (take 3 (put_uint32_in_be_stream (push_bit 8 n)) @ t # rest) =
     Some (push_bit 8 n OR ucast t)"
proof -
  have "push_bit 24 (ucast (ucast (drop_bit 24 (push_bit 8 n)) :: u8) :: u32) OR
      push_bit 16 (ucast (ucast (drop_bit 16 (push_bit 8 n)) :: u8)) OR
      push_bit 8 (ucast (ucast (drop_bit 8 (push_bit 8 n)) :: u8)) OR ucast t = push_bit 8 n OR (ucast t :: u32)"
  proof (rule bit_word_eqI)
    fix k assume "k < LENGTH(32)"
    then show "bit (push_bit 24 (ucast (ucast (drop_bit 24 (push_bit 8 n)) :: u8) :: u32) OR
      push_bit 16 (ucast (ucast (drop_bit 16 (push_bit 8 n)) :: u8)) OR
      push_bit 8 (ucast (ucast (drop_bit 8 (push_bit 8 n)) :: u8)) OR ucast t) k \<longleftrightarrow> bit (push_bit 8 n OR (ucast t :: u32)) k"
      by (cases "k < 8"; cases "k < 16"; cases "k < 24") (auto simp: bit_simps)
  qed
  then show ?thesis by (simp add: put_uint32_bytes)
qed

lemma unpack_pack [roundtrip]:
  assumes "hdr_ok h"
  shows "http2_frame_header_unpack (http2_frame_header_pack h @ rest) = Some h"
proof -
  have l3: "length (take 3 (put_uint32_in_be_stream (push_bit 8 (hd_length h)))) = 3"
    by (simp add: put_uint32_bytes)
  have p: "http2_frame_header_pack h @ rest =
      take 3 (put_uint32_in_be_stream (push_bit 8 (hd_length h))) @ hd_type h # hd_flags h #
      put_uint32_in_be_stream (hd_stream_id h) @ rest"
    by (simp add: http2_frame_header_pack_def)
  have "get_uint32_from_be_stream (http2_frame_header_pack h @ rest) =
      Some (push_bit 8 (hd_length h) OR ucast (hd_type h))"
    unfolding p by (rule header_first_word)
  moreover have "byte_at (http2_frame_header_pack h @ rest) 3 = Some (hd_type h)"
    "byte_at (http2_frame_header_pack h @ rest) 4 = Some (hd_flags h)"
    unfolding p using l3 by (simp_all add: byte_at_def nth_append)
  moreover have "drop 5 (http2_frame_header_pack h @ rest) = put_uint32_in_be_stream (hd_stream_id h) @ rest"
    unfolding p using l3 by simp
  moreover have "drop_bit 8 (push_bit 8 (hd_length h) OR ucast (hd_type h)) = hd_length h"
    using assms by (intro length24_roundtrip) (simp add: hdr_ok_def)
  ultimately show ?thesis
    using assms stream_id_mask [of "hd_stream_id h"]
    by (cases h) (simp add: http2_frame_header_unpack_def get_put_uint32 hdr_ok_def)
qed

end
