(* ===== verification/Metadata.thy ===== *)
theory Metadata
  imports Slice
begin

text \<open>
  \<^verbatim>\<open>src/hpack/metadata.h\<close>: a header is a pair of slices. \<open>ascii\<close> gives the bytes of a C string
  literal.
\<close>

record mdelem_data =
  md_key :: slice
  md_value :: slice

definition MDELEM_SIZE :: "mdelem_data \<Rightarrow> nat" where
  "MDELEM_SIZE m = length (md_key m) + length (md_value m)"

definition mdelem_eq :: "mdelem_data \<Rightarrow> mdelem_data \<Rightarrow> bool" where
  "mdelem_eq a b \<longleftrightarrow> slice_eq (md_key a) (md_key b) \<and> slice_eq (md_value a) (md_value b)"

lemma mdelem_eq_iff [simp]: "mdelem_eq a b \<longleftrightarrow> a = b"
  by (auto simp: mdelem_eq_def)

definition ascii :: "string \<Rightarrow> bytes" where
  "ascii s = map of_char s"

lemma ascii_simps [simp]: "ascii [] = []" "ascii (c # s) = of_char c # ascii s"
  by (simp_all add: ascii_def)

lemma length_ascii [simp]: "length (ascii s) = length s"
  by (simp add: ascii_def)

end
