(* ===== verification/Stream.thy ===== *)
theory Stream
  imports Slice_Buffer Frame Metadata
begin

text \<open>
  Model of \<^verbatim>\<open>src/http2/stream.h\<close> and \<^verbatim>\<open>src/http2/stream.cc\<close>: the transition table, the stream
  object and its operations. The transition diagram that opens \<^verbatim>\<open>stream.cc\<close> is stated as a step
  relation of its own, and the table is shown to be exactly that relation. The send operations
  of the public interface only delegate to the connection and are modelled there.
\<close>

section \<open>The transition table\<close>

datatype http2_stream_event =
  STREAM_EVENT_H_R | STREAM_EVENT_H_S | STREAM_EVENT_PP_R | STREAM_EVENT_PP_S
  | STREAM_EVENT_ES_R | STREAM_EVENT_ES_S | STREAM_EVENT_RST_R | STREAM_EVENT_RST_S

primrec event_code :: "http2_stream_event \<Rightarrow> nat" where
  "event_code STREAM_EVENT_H_R = 0"
| "event_code STREAM_EVENT_H_S = 1"
| "event_code STREAM_EVENT_PP_R = 2"
| "event_code STREAM_EVENT_PP_S = 3"
| "event_code STREAM_EVENT_ES_R = 4"
| "event_code STREAM_EVENT_ES_S = 5"
| "event_code STREAM_EVENT_RST_R = 6"
| "event_code STREAM_EVENT_RST_S = 7"

text \<open>Rows are events, columns the states in enumerator order; \<^verbatim>\<open>kDoNotUse\<close> is \<open>None\<close>.\<close>

definition event_status_table :: "Http2StreamState option list list" where
  "event_status_table = [
    [Some Open, None, Some HalfClosedLocal, None, None, None, None],
    [Some Open, Some HalfClosedRemote, None, None, None, None, None],
    [Some ReservedRemote, None, None, None, None, None, None],
    [Some ReservedLocal, None, None, None, None, None, None],
    [None, None, None, Some HalfClosedRemote, Some Closed, None, None],
    [None, None, None, Some HalfClosedLocal, None, Some Closed, None],
    [None, Some Closed, Some Closed, Some Closed, Some Closed, Some Closed, None],
    [None, Some Closed, Some Closed, Some Closed, Some Closed, Some Closed, None]]"

definition get_next_status :: "http2_stream_event \<Rightarrow> Http2StreamState \<Rightarrow> Http2StreamState option" where
  "get_next_status event current = event_status_table ! event_code event ! nat (state_code current)"

text \<open>The pattern every transition routine repeats: move when the table has an entry.\<close>

definition transition :: "http2_stream_event \<Rightarrow> Http2StreamState \<Rightarrow> Http2StreamState" where
  "transition event current = (case get_next_status event current of Some s \<Rightarrow> s | None \<Rightarrow> current)"

section \<open>The diagram\<close>

text \<open>The edges of the state diagram of \<^verbatim>\<open>stream.cc\<close>, which is that of RFC 7540 Section 5.1.\<close>

inductive diagram :: "http2_stream_event \<Rightarrow> Http2StreamState \<Rightarrow> Http2StreamState \<Rightarrow> bool" where
  idle_send_PP: "diagram STREAM_EVENT_PP_S Idle ReservedLocal"
| idle_recv_PP: "diagram STREAM_EVENT_PP_R Idle ReservedRemote"
| idle_H: "e \<in> {STREAM_EVENT_H_S, STREAM_EVENT_H_R} \<Longrightarrow> diagram e Idle Open"
| reserved_local_send_H: "diagram STREAM_EVENT_H_S ReservedLocal HalfClosedRemote"
| reserved_remote_recv_H: "diagram STREAM_EVENT_H_R ReservedRemote HalfClosedLocal"
| open_recv_ES: "diagram STREAM_EVENT_ES_R Open HalfClosedRemote"
| open_send_ES: "diagram STREAM_EVENT_ES_S Open HalfClosedLocal"
| half_closed_remote_send_ES: "diagram STREAM_EVENT_ES_S HalfClosedRemote Closed"
| half_closed_local_recv_ES: "diagram STREAM_EVENT_ES_R HalfClosedLocal Closed"
| reset: "e \<in> {STREAM_EVENT_RST_S, STREAM_EVENT_RST_R} \<Longrightarrow> s \<notin> {Idle, Closed} \<Longrightarrow> diagram e s Closed"

inductive_cases diagram_ClosedE: "diagram e Closed t"
inductive_simps diagram_simps: "diagram e s t"

lemma next_status_simps [simp]:
  "get_next_status STREAM_EVENT_H_R s = (case s of Idle \<Rightarrow> Some Open | ReservedRemote \<Rightarrow> Some HalfClosedLocal | _ \<Rightarrow> None)"
  "get_next_status STREAM_EVENT_H_S s = (case s of Idle \<Rightarrow> Some Open | ReservedLocal \<Rightarrow> Some HalfClosedRemote | _ \<Rightarrow> None)"
  "get_next_status STREAM_EVENT_PP_R s = (case s of Idle \<Rightarrow> Some ReservedRemote | _ \<Rightarrow> None)"
  "get_next_status STREAM_EVENT_PP_S s = (case s of Idle \<Rightarrow> Some ReservedLocal | _ \<Rightarrow> None)"
  "get_next_status STREAM_EVENT_ES_R s = (case s of Open \<Rightarrow> Some HalfClosedRemote | HalfClosedLocal \<Rightarrow> Some Closed | _ \<Rightarrow> None)"
  "get_next_status STREAM_EVENT_ES_S s = (case s of Open \<Rightarrow> Some HalfClosedLocal | HalfClosedRemote \<Rightarrow> Some Closed | _ \<Rightarrow> None)"
  "get_next_status STREAM_EVENT_RST_R s = (case s of Idle \<Rightarrow> None | Closed \<Rightarrow> None | _ \<Rightarrow> Some Closed)"
  "get_next_status STREAM_EVENT_RST_S s = (case s of Idle \<Rightarrow> None | Closed \<Rightarrow> None | _ \<Rightarrow> Some Closed)"
  by (simp_all add: get_next_status_def event_status_table_def split: Http2StreamState.split)

lemma table_is_diagram: "get_next_status e s = Some t \<longleftrightarrow> diagram e s t"
  by (cases e; cases s) (auto simp: diagram_simps)

lemma transition_diagram: "transition e s = t \<and> s \<noteq> t \<longleftrightarrow> diagram e s t"
  by (cases e; cases s) (auto simp: diagram_simps transition_def)

lemma transition_mono: "s \<le> transition e s"
  by (cases e; cases s) (simp_all add: transition_def state_order)

lemma transition_Closed [simp]: "transition e Closed = Closed"
  by (cases e) (simp_all add: transition_def)

section \<open>The stream object\<close>

text \<open>
  \<^verbatim>\<open>_conn\<close>, the pointer back to the owning connection, is left out: the connection's operations
  take the stream. The table and the state are never out of step, so \<^verbatim>\<open>_state\<close> has the type of
  the enumeration instead of \<^verbatim>\<open>int\<close>.
\<close>

record http2_stream =
  st_connection_id :: u64
  st_stream_id :: u32
  st_state :: Http2StreamState
  st_frame_flags :: u8
  st_frame_type :: u8
  st_read_closed :: bool
  st_write_closed :: bool
  st_spec :: http2_priority_spec
  st_last_error :: u32
  st_data_cache :: slice_buffer
  st_headers :: "mdelem_data list"
  st_public_headers :: "(slice \<times> slice) list"
  st_headers_dirty :: bool

definition http2_stream_new :: "u64 \<Rightarrow> u32 \<Rightarrow> http2_stream" where
  "http2_stream_new connection_id stream_id =
     \<lparr>st_connection_id = connection_id, st_stream_id = stream_id, st_state = Idle,
      st_frame_flags = 0, st_frame_type = 0, st_read_closed = False, st_write_closed = False,
      st_spec = \<lparr>ps_depend_stream_id = 0, ps_weight = 16, ps_exclusive = 0\<rparr>, st_last_error = 0,
      st_data_cache = slice_buffer_new, st_headers = [], st_public_headers = [], st_headers_dirty = True\<rparr>"

definition st_mark_unwritable :: "http2_stream \<Rightarrow> http2_stream" where
  "st_mark_unwritable s = s\<lparr>st_write_closed := True\<rparr>"

definition st_mark_unreadable :: "http2_stream \<Rightarrow> http2_stream" where
  "st_mark_unreadable s = s\<lparr>st_read_closed := True\<rparr>"

definition st_send_push_promise :: "http2_stream \<Rightarrow> http2_stream" where
  "st_send_push_promise s = s\<lparr>st_state := transition STREAM_EVENT_PP_S (st_state s)\<rparr>"

definition st_recv_push_promise :: "http2_stream \<Rightarrow> http2_stream" where
  "st_recv_push_promise s = s\<lparr>st_state := transition STREAM_EVENT_PP_R (st_state s)\<rparr>"

definition st_send_headers :: "http2_stream \<Rightarrow> http2_stream" where
  "st_send_headers s = s\<lparr>st_state := transition STREAM_EVENT_H_S (st_state s)\<rparr>"

definition st_recv_headers :: "mdelem_data list \<Rightarrow> http2_stream \<Rightarrow> http2_stream" where
  "st_recv_headers headers s =
     s\<lparr>st_state := transition STREAM_EVENT_H_R (st_state s), st_headers := headers, st_headers_dirty := True\<rparr>"

definition st_send_rst_stream :: "http2_stream \<Rightarrow> http2_stream" where
  "st_send_rst_stream s = s\<lparr>st_state := transition STREAM_EVENT_RST_S (st_state s)\<rparr>"

definition st_recv_rst_stream :: "u32 \<Rightarrow> http2_stream \<Rightarrow> http2_stream" where
  "st_recv_rst_stream err s =
     s\<lparr>st_state := transition STREAM_EVENT_RST_R (st_state s), st_last_error := err\<rparr>"

definition st_send_end_stream :: "http2_stream \<Rightarrow> http2_stream" where
  "st_send_end_stream s = st_mark_unwritable (s\<lparr>st_state := transition STREAM_EVENT_ES_S (st_state s)\<rparr>)"

definition st_recv_end_stream :: "http2_stream \<Rightarrow> http2_stream" where
  "st_recv_end_stream s = st_mark_unreadable (s\<lparr>st_state := transition STREAM_EVENT_ES_R (st_state s)\<rparr>)"

definition st_save_frame_info :: "http2_frame_hdr \<Rightarrow> http2_stream \<Rightarrow> http2_stream" where
  "st_save_frame_info h s =
     (let s = s\<lparr>st_frame_type := hd_type h, st_frame_flags := hd_flags h\<rparr> in
      if has_flag (st_frame_flags s) Flag_EndStream then st_recv_end_stream s else s)"

definition st_append_headers :: "mdelem_data list \<Rightarrow> http2_stream \<Rightarrow> http2_stream" where
  "st_append_headers headers s = s\<lparr>st_headers := st_headers s @ headers, st_headers_dirty := True\<rparr>"

definition st_append_data :: "slice \<Rightarrow> http2_stream \<Rightarrow> http2_stream" where
  "st_append_data d s = s\<lparr>st_data_cache := sb_add_slice (st_data_cache s) d\<rparr>"

definition st_set_priority_info :: "http2_priority_spec \<Rightarrow> http2_stream \<Rightarrow> http2_stream" where
  "st_set_priority_info info s = s\<lparr>st_spec := info\<rparr>"

definition st_is_closed :: "http2_stream \<Rightarrow> bool" where
  "st_is_closed s \<longleftrightarrow> st_state s = Closed"

text \<open>What the public interface tells of a stream.\<close>

definition st_ConnectionId :: "http2_stream \<Rightarrow> u64" where
  "st_ConnectionId s = st_connection_id s"

definition st_StreamId :: "http2_stream \<Rightarrow> u32" where
  "st_StreamId s = st_stream_id s"

definition st_Flags :: "http2_stream \<Rightarrow> int" where
  "st_Flags s = uint (st_frame_flags s)"

definition st_ErrorCode :: "http2_stream \<Rightarrow> u32" where
  "st_ErrorCode s = st_last_error s"

definition st_CurrentState :: "http2_stream \<Rightarrow> int" where
  "st_CurrentState s = state_code (st_state s)"

section \<open>Reading\<close>

definition st_DataSize :: "http2_stream \<Rightarrow> u32" where
  "st_DataSize s = word_of_nat (sb_get_buffer_length (st_data_cache s))"

text \<open>
  The bytes copied out, the returned count and the stream. The size goes to \<^verbatim>\<open>copy_to_buffer\<close> as it is, so one
  above what is buffered fails the assertion there.
\<close>

definition st_ReadData :: "u32 \<Rightarrow> http2_stream \<Rightarrow> (bytes \<times> u32 \<times> http2_stream) option" where
  "st_ReadData sz s =
     map_option (\<lambda>out. let copied = word_of_nat (length out) :: u32 in
        (out, copied, s\<lparr>st_data_cache := snd (sb_move_header (st_data_cache s) (unat copied))\<rparr>))
      (sb_copy_to_buffer (st_data_cache s) (unat sz))"

definition st_PeekData :: "http2_stream \<Rightarrow> u32 \<times> slice option" where
  "st_PeekData s =
     (if sb_empty (st_data_cache s) then (0, None)
      else case sb_front (st_data_cache s) of
             None \<Rightarrow> (0, None)
           | Some front \<Rightarrow> (word_of_nat (length front), Some front))"

definition st_ensure_headers_decoded :: "http2_stream \<Rightarrow> http2_stream" where
  "st_ensure_headers_decoded s =
     s\<lparr>st_public_headers := map (\<lambda>h. (md_key h, md_value h)) (st_headers s), st_headers_dirty := False\<rparr>"

definition st_GetHeaders :: "http2_stream \<Rightarrow> (slice \<times> slice) list \<times> http2_stream" where
  "st_GetHeaders s =
     (let s = (if st_headers_dirty s then st_ensure_headers_decoded s else s) in (st_public_headers s, s))"

end
