(* ===== verification/Parser.thy ===== *)
theory Parser
  imports Frame
begin

text \<open>
  The payload parsers of \<^verbatim>\<open>src/http2/parser.cc\<close>. \<open>input\<close> is the memory from the payload pointer
  on; a read or a borrowed range beyond it is \<open>Fault\<close>. The returned error code is \<open>Error\<close>.
\<close>

section \<open>Reads\<close>

definition of_read :: "'a option \<Rightarrow> 'a outcome" where
  "of_read r = (case r of None \<Rightarrow> Fault | Some x \<Rightarrow> Ok x)"

definition frame_size_error :: "'a outcome" where
  "frame_size_error = Error (error_code FrameSizeError)"

lemma of_read_simps [simp]: "of_read (Some x) = Ok x" "of_read None = Fault"
  by (simp_all add: of_read_def)

lemma of_read_eq [simp]: "of_read r = Ok x \<longleftrightarrow> r = Some x" "of_read r \<noteq> Error e" "of_read r = Fault \<longleftrightarrow> r = None"
  by (auto simp: of_read_def split: option.splits)

text \<open>
  The padding prologue that three parsers repeat: the pad length, the payload pointer after it
  and the payload size without pad length and padding.
\<close>

definition parse_padding :: "http2_frame_hdr \<Rightarrow> bytes \<Rightarrow> (u8 \<times> bytes \<times> u32) outcome" where
  "parse_padding h input =
     (if has_flag (hd_flags h) Flag_Padded
      then outcome_bind (of_read (byte_at input 0)) (\<lambda>pad_length.
        if ucast pad_length + 1 > hd_length h then frame_size_error
        else Ok (pad_length, drop 1 input, hd_length h - ucast pad_length - 1))
      else Ok (0, input, hd_length h))"

section \<open>Frame parsers\<close>

definition parse_http2_frame_data :: "http2_frame_hdr \<Rightarrow> bytes \<Rightarrow> http2_frame_data outcome" where
  "parse_http2_frame_data h input =
     outcome_bind (parse_padding h input) (\<lambda>(pad_length, data, data_size).
     outcome_bind (of_read (MakeStaticSlice data (unat data_size))) (\<lambda>s.
       Ok \<lparr>dat_hdr = h, dat_pad_len = pad_length, dat_data = s\<rparr>))"

definition parse_http2_frame_headers :: "http2_frame_hdr \<Rightarrow> bytes \<Rightarrow> http2_frame_headers outcome" where
  "parse_http2_frame_headers h input =
     outcome_bind (parse_padding h input) (\<lambda>(pad_length, payload, payload_length).
       if payload_length < 5 then frame_size_error
       else
       outcome_bind
         (if has_flag (hd_flags h) Flag_Priority
          then outcome_bind (of_read (get_uint32_from_be_stream payload)) (\<lambda>dep.
               outcome_bind (of_read (byte_at payload 0)) (\<lambda>b0.
               outcome_bind (of_read (byte_at payload 4)) (\<lambda>b4.
                 Ok (\<lparr>ps_depend_stream_id = dep AND HTTP2_STREAM_ID_MASK, ps_weight = ucast b4 + 1,
                      ps_exclusive = (if b0 AND 0x80 \<noteq> 0 then 1 else 0)\<rparr>,
                     drop 5 payload, payload_length - 5))))
          else Ok (\<lparr>ps_depend_stream_id = 0, ps_weight = 0, ps_exclusive = 0\<rparr>, payload, payload_length))
         (\<lambda>(pspec, payload, payload_length).
       outcome_bind (of_read (MakeStaticSlice payload (unat payload_length))) (\<lambda>s.
         Ok \<lparr>hds_hdr = h, hds_pad_len = pad_length, hds_pspec = pspec, hds_header_block_fragment = s\<rparr>)))"

definition parse_http2_frame_priority :: "http2_frame_hdr \<Rightarrow> bytes \<Rightarrow> http2_frame_priority outcome" where
  "parse_http2_frame_priority h input =
     (if hd_length h \<noteq> 5 then frame_size_error
      else outcome_bind (of_read (get_uint32_from_be_stream input)) (\<lambda>dep.
           outcome_bind (of_read (byte_at input 0)) (\<lambda>b0.
           outcome_bind (of_read (byte_at input 4)) (\<lambda>b4.
             Ok \<lparr>pri_hdr = h, pri_pspec =
               \<lparr>ps_depend_stream_id = dep AND HTTP2_STREAM_ID_MASK, ps_weight = ucast b4 + 1,
                ps_exclusive = (if b0 AND 0x80 \<noteq> 0 then 1 else 0)\<rparr>\<rparr>))))"

definition parse_http2_frame_rst_stream :: "http2_frame_hdr \<Rightarrow> bytes \<Rightarrow> http2_frame_rst_stream outcome" where
  "parse_http2_frame_rst_stream h input =
     (if hd_length h \<noteq> 4 then frame_size_error
      else outcome_bind (of_read (get_uint32_from_be_stream input)) (\<lambda>e.
        Ok \<lparr>rst_hdr = h, rst_error_code = e\<rparr>))"

text \<open>The loop of the SETTINGS parser, \<open>n\<close> entries from the payload pointer on.\<close>

fun parse_settings_loop :: "nat \<Rightarrow> bytes \<Rightarrow> http2_settings_entry list outcome" where
  "parse_settings_loop 0 payload = Ok []"
| "parse_settings_loop (Suc n) payload =
     outcome_bind (of_read (get_uint16_from_be_stream payload)) (\<lambda>i.
     outcome_bind (of_read (get_uint32_from_be_stream (drop 2 payload))) (\<lambda>v.
     outcome_bind (parse_settings_loop n (drop 6 payload)) (\<lambda>es.
       Ok (\<lparr>se_id = i, se_value = v\<rparr> # es))))"

definition parse_http2_frame_settings :: "http2_frame_hdr \<Rightarrow> bytes \<Rightarrow> http2_frame_settings outcome" where
  "parse_http2_frame_settings h input =
     (if hd_length h mod 6 \<noteq> 0 then frame_size_error
      else outcome_bind (parse_settings_loop (unat (hd_length h div 6)) input) (\<lambda>es.
        Ok \<lparr>set_hdr = h, set_settings = es\<rparr>))"

definition parse_http2_frame_push_promise :: "http2_frame_hdr \<Rightarrow> bytes \<Rightarrow> http2_frame_push_promise outcome" where
  "parse_http2_frame_push_promise h input =
     outcome_bind (parse_padding h input) (\<lambda>(pad_len, payload, payload_size).
       if payload_size < 4 then frame_size_error
       else outcome_bind (of_read (get_uint32_from_be_stream payload)) (\<lambda>i.
            outcome_bind (of_read (byte_at payload 0)) (\<lambda>b0.
            outcome_bind (of_read (MakeStaticSlice (drop 4 payload) (unat (payload_size - 4)))) (\<lambda>s.
              Ok \<lparr>pp_hdr = h, pp_pad_len = pad_len, pp_promised_stream_id = i AND HTTP2_STREAM_ID_MASK,
                  pp_header_block_fragment = s, pp_reserved = (if b0 AND 0x80 \<noteq> 0 then 1 else 0)\<rparr>))))"

definition parse_http2_frame_ping :: "http2_frame_hdr \<Rightarrow> bytes \<Rightarrow> http2_frame_ping outcome" where
  "parse_http2_frame_ping h input =
     (if hd_length h \<noteq> 8 then frame_size_error
      else if length input < 8 then Fault
      else Ok \<lparr>png_hdr = h, png_opaque_data = take 8 input\<rparr>)"

definition parse_http2_frame_goaway :: "http2_frame_hdr \<Rightarrow> bytes \<Rightarrow> http2_frame_goaway outcome" where
  "parse_http2_frame_goaway h input =
     (if hd_length h < 8 then frame_size_error
      else outcome_bind (of_read (byte_at input 0)) (\<lambda>b0.
           outcome_bind (of_read (get_uint32_from_be_stream input)) (\<lambda>i.
           outcome_bind (of_read (get_uint32_from_be_stream (drop 4 input))) (\<lambda>e.
           outcome_bind (of_read (MakeStaticSlice (drop 8 input) (unat (hd_length h - 8)))) (\<lambda>s.
             Ok \<lparr>ga_hdr = h, ga_last_stream_id = i AND HTTP2_STREAM_ID_MASK, ga_error_code = e,
                 ga_debug_data = s, ga_reserved = (if b0 AND 0x80 \<noteq> 0 then 1 else 0)\<rparr>)))))"

definition parse_http2_frame_window_update :: "http2_frame_hdr \<Rightarrow> bytes \<Rightarrow> http2_frame_window_update outcome" where
  "parse_http2_frame_window_update h input =
     (if hd_length h \<noteq> 4 then frame_size_error
      else outcome_bind (of_read (byte_at input 0)) (\<lambda>b0.
           outcome_bind (of_read (get_uint32_from_be_stream input)) (\<lambda>i.
             Ok \<lparr>wu_hdr = h, wu_window_size_inc = i AND HTTP2_STREAM_ID_MASK,
                 wu_reserved = (if b0 AND 0x80 \<noteq> 0 then 1 else 0)\<rparr>)))"

definition parse_http2_frame_continuation :: "http2_frame_hdr \<Rightarrow> bytes \<Rightarrow> http2_frame_continuation outcome" where
  "parse_http2_frame_continuation h input =
     outcome_bind (of_read (MakeStaticSlice input (unat (hd_length h)))) (\<lambda>s.
       Ok \<lparr>con_hdr = h, con_header_block_fragment = s\<rparr>)"

section \<open>Which frames the parsers read safely\<close>

text \<open>The whole payload is in the buffer, and a padded frame has its pad length octet.\<close>

definition payload_present :: "http2_frame_hdr \<Rightarrow> bytes \<Rightarrow> bool" where
  "payload_present h input \<longleftrightarrow> unat (hd_length h) \<le> length input \<and>
     (has_flag (hd_flags h) Flag_Padded \<longrightarrow> input \<noteq> [])"

lemma unat_pad_length: "unat (ucast (p :: u8) + 1 :: u32) = unat p + 1"
proof -
  have "unat (ucast p :: u32) = unat p"
    using unat_u8_bound [of p] by (simp add: unsigned_ucast_eq take_bit_nat_eq_self)
  then show ?thesis using unat_u8_bound [of p] by (subst unat_add_u32) simp_all
qed

lemma parse_padding_spec:
  assumes "payload_present h input"
  shows "parse_padding h input = frame_size_error \<or>
    (\<exists>p payload n. parse_padding h input = Ok (p, payload, n) \<and> unat n \<le> length payload \<and>
       (\<exists>pre. input = pre @ payload) \<and> n \<le> hd_length h)"
proof (cases "has_flag (hd_flags h) Flag_Padded")
  case False
  with assms show ?thesis by (simp add: parse_padding_def payload_present_def)
next
  case True
  then obtain b bs where b: "input = b # bs" using assms by (cases input) (auto simp: payload_present_def)
  show ?thesis
  proof (cases "ucast b + 1 > hd_length h")
    case True
    then show ?thesis using \<open>has_flag (hd_flags h) Flag_Padded\<close> b by (simp add: parse_padding_def byte_at_def)
  next
    case False
    have ub: "unat (ucast b :: u32) = unat b"
      using unat_u8_bound [of b] by (simp add: unsigned_ucast_eq take_bit_nat_eq_self)
    have le: "unat b + 1 \<le> unat (hd_length h)" using False unat_pad_length [of b] by (simp add: not_less word_le_nat_alt)
    have e: "hd_length h - ucast b - 1 = hd_length h - (ucast b + 1)" by (simp add: algebra_simps)
    have "ucast b + 1 \<le> hd_length h" using False by simp
    then have n: "unat (hd_length h - ucast b - 1) = unat (hd_length h) - (unat b + 1)"
      unfolding e by (subst unat_sub_u32) (simp_all only: unat_pad_length)
    have "unat (hd_length h - ucast b - 1) \<le> length bs" using assms b n by (simp add: payload_present_def)
    moreover have "hd_length h - ucast b - 1 \<le> hd_length h" using n by (simp add: word_le_nat_alt)
    ultimately show ?thesis
      using True False b by (auto simp: parse_padding_def byte_at_def)
  qed
qed

lemma MakeStaticSlice_present: "n \<le> length bs \<Longrightarrow> \<exists>s. MakeStaticSlice bs n = Some s"
  by (simp add: MakeStaticSlice_def)

lemma get_uint32_present: "4 \<le> length bs \<Longrightarrow> \<exists>x. get_uint32_from_be_stream bs = Some x"
  using get_uint32_None_iff [of bs] by (cases "get_uint32_from_be_stream bs") auto

lemma get_uint16_present: "2 \<le> length bs \<Longrightarrow> \<exists>x. get_uint16_from_be_stream bs = Some x"
  using get_uint16_None_iff [of bs] by (cases "get_uint16_from_be_stream bs") auto

lemma byte_at_present: "i < length bs \<Longrightarrow> \<exists>x. byte_at bs i = Some x"
  by (simp add: byte_at_def)

lemmas reads_present = MakeStaticSlice_present get_uint32_present get_uint16_present byte_at_present

lemma parse_settings_loop_present: "6 * n \<le> length payload \<Longrightarrow> \<exists>es. parse_settings_loop n payload = Ok es \<and> length es = n"
proof (induction n arbitrary: payload)
  case (Suc n)
  have "\<exists>x. get_uint16_from_be_stream payload = Some x" using Suc.prems by (intro get_uint16_present) simp
  moreover have "\<exists>x. get_uint32_from_be_stream (drop 2 payload) = Some x"
    using Suc.prems by (intro get_uint32_present) simp
  moreover have "\<exists>es. parse_settings_loop n (drop 6 payload) = Ok es \<and> length es = n"
    using Suc.prems by (intro Suc.IH) simp
  ultimately show ?case by auto
qed simp

end
