(* ===== verification/Pack.thy ===== *)
theory Pack
  imports Parser Slice_Buffer
begin

text \<open>
  The serialisers of \<^verbatim>\<open>src/http2/pack.cc\<close>. \<open>fill n w\<close> is a fresh slice of \<open>n\<close> bytes into which
  \<open>w\<close> was written: more bytes than \<open>n\<close> are a write past the allocation and fewer leave
  uninitialised bytes in the frame, so both are \<open>None\<close>.
\<close>

definition fill :: "u32 \<Rightarrow> bytes \<Rightarrow> slice option" where
  "fill n w = (if length w = unat n then Some w else None)"

text \<open>The dependency word and weight octet of a priority specification.\<close>

definition pack_dependency :: "http2_priority_spec \<Rightarrow> bytes" where
  "pack_dependency ps =
     put_uint32_in_be_stream
       (if ps_exclusive ps \<noteq> 0 then ps_depend_stream_id ps OR push_bit 31 1 else ps_depend_stream_id ps)"

section \<open>The serialisers\<close>

text \<open>
  The splitting loop for DATA. It does not advance when \<^verbatim>\<open>max_frame_size\<close> is 0, hence the
  partial function.
\<close>

partial_function (option) pack_data_loop ::
  "slice \<Rightarrow> u32 \<Rightarrow> u8 \<Rightarrow> http2_frame_hdr \<Rightarrow> u32 \<Rightarrow> slice_buffer \<Rightarrow> slice_buffer option" where
  "pack_data_loop data max_frame_size end_stream_flag h read_length buffer =
     (if unat read_length < length data
      then (let remain_bytes = word_of_nat (length data) - read_length;
                len = (if remain_bytes < max_frame_size then remain_bytes else max_frame_size);
                is_last = (unat (read_length + len) \<ge> length data);
                h = h\<lparr>hd_length := len,
                      hd_flags := (if is_last then hd_flags h OR end_stream_flag
                                   else hd_flags h AND NOT (frame_flag Flag_EndStream))\<rparr>
            in pack_data_loop data max_frame_size end_stream_flag h (read_length + len)
                 (sb_add_slice buffer (http2_frame_header_pack h @ take (unat len) (drop (unat read_length) data))))
      else Some buffer)"

definition pack_http2_frame_data :: "http2_frame_data \<Rightarrow> u32 \<Rightarrow> slice_buffer option" where
  "pack_http2_frame_data frame max_frame_size =
     (let h = (dat_hdr frame)\<lparr>hd_flags := hd_flags (dat_hdr frame) AND NOT (frame_flag Flag_Padded)\<rparr>;
          end_stream_flag = hd_flags h AND frame_flag Flag_EndStream in
      if length (dat_data frame) = 0
      then Some (sb_add_slice slice_buffer_new
             (http2_frame_header_pack (h\<lparr>hd_length := 0, hd_flags := hd_flags h OR end_stream_flag\<rparr>)))
      else pack_data_loop (dat_data frame) max_frame_size end_stream_flag h 0 slice_buffer_new)"

definition pack_http2_frame_headers :: "http2_frame_headers \<Rightarrow> slice option" where
  "pack_http2_frame_headers f =
     fill (HTTP2_FRAME_HEADER_SIZE + hd_length (hds_hdr f))
       (http2_frame_header_pack (hds_hdr f) @
        (if has_flag (hd_flags (hds_hdr f)) Flag_Padded then [hds_pad_len f] else []) @
        (if has_flag (hd_flags (hds_hdr f)) Flag_Priority
         then pack_dependency (hds_pspec f) @ [ucast (ps_weight (hds_pspec f) - 1)] else []) @
        hds_header_block_fragment f @ replicate (unat (hds_pad_len f)) 0)"

definition pack_http2_frame_priority :: "http2_frame_priority \<Rightarrow> slice" where
  "pack_http2_frame_priority f =
     http2_frame_header_pack (pri_hdr f) @ pack_dependency (pri_pspec f) @
     [if ps_weight (pri_pspec f) \<noteq> 0 then ucast (ps_weight (pri_pspec f) - 1) else 0]"

definition pack_http2_frame_rst_stream :: "http2_frame_rst_stream \<Rightarrow> slice" where
  "pack_http2_frame_rst_stream f =
     http2_frame_header_pack (rst_hdr f) @ put_uint32_in_be_stream (rst_error_code f)"

definition pack_settings_entry :: "http2_settings_entry \<Rightarrow> bytes" where
  "pack_settings_entry e = put_uint16_in_be_stream (se_id e) @ put_uint32_in_be_stream (se_value e)"

definition pack_http2_frame_settings :: "http2_frame_settings \<Rightarrow> slice option" where
  "pack_http2_frame_settings f =
     fill (HTTP2_FRAME_HEADER_SIZE + hd_length (set_hdr f))
       (http2_frame_header_pack (set_hdr f) @ concat (map pack_settings_entry (set_settings f)))"

definition pack_http2_frame_push_promise :: "http2_frame_push_promise \<Rightarrow> slice option" where
  "pack_http2_frame_push_promise f =
     fill (HTTP2_FRAME_HEADER_SIZE + hd_length (pp_hdr f))
       (http2_frame_header_pack (pp_hdr f) @
        (if has_flag (hd_flags (pp_hdr f)) Flag_Padded then [pp_pad_len f] else []) @
        put_uint32_in_be_stream (pp_promised_stream_id f) @
        pp_header_block_fragment f @ replicate (unat (pp_pad_len f)) 0)"

definition pack_http2_frame_ping :: "http2_frame_ping \<Rightarrow> slice" where
  "pack_http2_frame_ping f = http2_frame_header_pack (png_hdr f) @ take 8 (png_opaque_data f)"

definition pack_http2_frame_goaway :: "http2_frame_goaway \<Rightarrow> slice option" where
  "pack_http2_frame_goaway f =
     fill (HTTP2_FRAME_HEADER_SIZE + hd_length (ga_hdr f))
       (http2_frame_header_pack (ga_hdr f) @ put_uint32_in_be_stream (ga_last_stream_id f) @
        put_uint32_in_be_stream (ga_error_code f) @ (if ga_debug_data f \<noteq> [] then ga_debug_data f else []))"

definition pack_http2_frame_window_update :: "http2_frame_window_update \<Rightarrow> slice" where
  "pack_http2_frame_window_update f =
     http2_frame_header_pack (wu_hdr f) @ put_uint32_in_be_stream (wu_window_size_inc f)"

definition pack_http2_frame_continuation :: "http2_frame_continuation \<Rightarrow> slice option" where
  "pack_http2_frame_continuation f =
     fill (HTTP2_FRAME_HEADER_SIZE + hd_length (con_hdr f))
       (http2_frame_header_pack (con_hdr f) @
        (if con_header_block_fragment f \<noteq> [] then con_header_block_fragment f else []))"

lemma fill_header:
  assumes "unat n < 2 ^ 24" "length w = unat n"
  shows "fill (HTTP2_FRAME_HEADER_SIZE + n) (http2_frame_header_pack h @ w) = Some (http2_frame_header_pack h @ w)"
proof -
  have "unat (HTTP2_FRAME_HEADER_SIZE + n) = 9 + unat n"
    using assms(1) by (subst unat_add_u32) (simp_all add: HTTP2_FRAME_HEADER_SIZE_def)
  with assms(2) show ?thesis by (simp add: fill_def)
qed

end
