(* ===== verification/Murmur.thy ===== *)
theory Murmur
  imports Metadata
begin

text \<open>
  \<^verbatim>\<open>murmur_hash3\<close> of \<^verbatim>\<open>src/utils/murmur_hash.cc\<close> and the metadata hashes of
  \<^verbatim>\<open>src/hpack/static_metadata.cc\<close> on it. The seed, drawn from the clock at first use, is a
  parameter. The \<^verbatim>\<open>memcpy\<close> of a block is a little-endian load.
\<close>

definition ROTL32 :: "u32 \<Rightarrow> nat \<Rightarrow> u32" where
  "ROTL32 x r = push_bit r x OR drop_bit (32 - r) x"

definition FMIX32 :: "u32 \<Rightarrow> u32" where
  "FMIX32 h =
     (let h = h XOR drop_bit 16 h; h = h * 0x85ebca6b; h = h XOR drop_bit 13 h;
          h = h * 0xc2b2ae35; h = h XOR drop_bit 16 h in h)"

definition c1 :: u32 where "c1 = 0xcc9e2d51"
definition c2 :: u32 where "c2 = 0x1b873593"

definition murmur_mix_k1 :: "u32 \<Rightarrow> u32" where
  "murmur_mix_k1 k1 = ROTL32 (k1 * c1) 15 * c2"

definition murmur_load_block :: "u8 \<Rightarrow> u8 \<Rightarrow> u8 \<Rightarrow> u8 \<Rightarrow> u32" where
  "murmur_load_block a b c d =
     ucast a OR push_bit 8 (ucast b) OR push_bit 16 (ucast c) OR push_bit 24 (ucast d)"

fun murmur_body :: "bytes \<Rightarrow> u32 \<Rightarrow> u32 \<times> bytes" where
  "murmur_body (a # b # c # d # key) h1 =
     murmur_body key (ROTL32 (h1 XOR murmur_mix_k1 (murmur_load_block a b c d)) 13 * 5 + 0xe6546b64)"
| "murmur_body key h1 = (h1, key)"

fun murmur_tail :: "bytes \<Rightarrow> u32 \<Rightarrow> u32" where
  "murmur_tail [a] h1 = h1 XOR murmur_mix_k1 (ucast a)"
| "murmur_tail [a, b] h1 = h1 XOR murmur_mix_k1 (push_bit 8 (ucast b) XOR ucast a)"
| "murmur_tail [a, b, c] h1 =
     h1 XOR murmur_mix_k1 (push_bit 16 (ucast c) XOR push_bit 8 (ucast b) XOR ucast a)"
| "murmur_tail _ h1 = h1"

definition murmur_hash3 :: "bytes \<Rightarrow> u32 \<Rightarrow> u32" where
  "murmur_hash3 key seed =
     (case murmur_body key seed of (h1, tail) \<Rightarrow>
        FMIX32 (murmur_tail tail h1 XOR word_of_nat (length key)))"

definition mdelem_kv_hash :: "u32 \<Rightarrow> slice \<Rightarrow> u32" where
  "mdelem_kv_hash seed kv = murmur_hash3 kv seed"

definition mdelem_data_hash :: "u32 \<Rightarrow> mdelem_data \<Rightarrow> u32" where
  "mdelem_data_hash seed oth =
     (let k_hash = murmur_hash3 (md_key oth) seed; v_hash = murmur_hash3 (md_value oth) seed
      in ROTL32 k_hash 2 XOR v_hash)"

lemma murmur_body_tail: "length (snd (murmur_body key h)) = length key mod 4"
proof (induction key h rule: murmur_body.induct)
  case (1 a b c d key h1)
  then show ?case by simp
qed auto

end
