(* ===== verification/Hpack_Int.thy ===== *)
theory Hpack_Int
  imports Prelude
begin

text \<open>
  HPACK prefix integers (RFC 7541 Section 5.1): \<^verbatim>\<open>decode_uint32\<close> of
  \<^verbatim>\<open>src/hpack/decode.cc\<close> and \<^verbatim>\<open>uint16_encode_impl\<close>, \<^verbatim>\<open>uint16_encode_length\<close>,
  \<^verbatim>\<open>encode_uint16\<close> of \<^verbatim>\<open>src/hpack/encode.cc\<close>, on 32-bit words.
\<close>

text \<open>A routine that returns \<^verbatim>\<open>nullptr\<close> has no error code of its own; its callers choose one.\<close>

abbreviation nullptr :: "'a outcome" where
  "nullptr \<equiv> Error 0"

text \<open>\<^verbatim>\<open>INT_MASK(bits)\<close> of \<^verbatim>\<open>src/utils/useful.h\<close>, as the \<^verbatim>\<open>uint8_t\<close> the callers pass.\<close>

definition INT_MASK :: "nat \<Rightarrow> u8" where
  "INT_MASK bits = ucast (push_bit bits (1 :: u32) - 1)"

section \<open>Decoding\<close>

text \<open>
  \<open>bs\<close> is the range from \<^verbatim>\<open>src\<close> to \<^verbatim>\<open>src_end\<close>; the value is the integer and the range from
  the returned pointer on. The first byte is read without a check.
\<close>

fun decode_uint32_loop :: "u32 \<Rightarrow> nat \<Rightarrow> bytes \<Rightarrow> (u32 \<times> bytes) outcome" where
  "decode_uint32_loop dst M [] = nullptr"
| "decode_uint32_loop dst M (b # src) =
     (if M \<ge> 32 then nullptr
      else (let addend = push_bit M (ucast (b AND 0x7f)) :: u32 in
        if dst > 0xFFFFFFFF - addend then nullptr
        else if b AND 0x80 \<noteq> 0 then decode_uint32_loop (dst + addend) (M + 7) src
        else Ok (dst + addend, src)))"

definition decode_uint32 :: "bytes \<Rightarrow> u8 \<Rightarrow> (u32 \<times> bytes) outcome" where
  "decode_uint32 src msk = (case src of
       [] \<Rightarrow> Fault
     | b # bs \<Rightarrow> (let dst = ucast (b AND msk) :: u32 in
         if dst = ucast msk then decode_uint32_loop dst 0 bs else Ok (dst, bs)))"

section \<open>Encoding\<close>

function uint16_encode_loop :: "u32 \<Rightarrow> bytes" where
  "uint16_encode_loop I =
     (if I \<ge> 128 then ucast ((I AND 0x7f) OR 0x80) # uint16_encode_loop (drop_bit 7 I)
      else [ucast I])"
  by pat_completeness auto
termination
proof (relation "measure unat")
  fix I :: u32 assume "128 \<le> I"
  then have "128 \<le> unat I" by (simp add: word_le_nat_alt)
  moreover have "unat (drop_bit 7 I) = unat I div 128"
    by (simp only: unat_drop_bit_eq) (simp add: drop_bit_eq_div)
  ultimately show "(drop_bit 7 I, I) \<in> measure unat" by simp
qed simp

declare uint16_encode_loop.simps [simp del]

definition uint16_encode_impl :: "u32 \<Rightarrow> u8 \<Rightarrow> bytes" where
  "uint16_encode_impl I msk =
     (if I < ucast msk then [ucast I] else msk # uint16_encode_loop (I - ucast msk))"

function uint16_length_loop :: "u32 \<Rightarrow> nat \<Rightarrow> nat" where
  "uint16_length_loop I count =
     (if I \<ge> 128 then uint16_length_loop (drop_bit 7 I) (count + 1) else count + 1)"
  by pat_completeness auto
termination
proof (relation "measure (unat \<circ> fst)")
  fix I :: u32 and count assume "128 \<le> I"
  then have "128 \<le> unat I" by (simp add: word_le_nat_alt)
  moreover have "unat (drop_bit 7 I) = unat I div 128"
    by (simp only: unat_drop_bit_eq) (simp add: drop_bit_eq_div)
  ultimately show "((drop_bit 7 I, count + 1), I, count) \<in> measure (unat \<circ> fst)" by simp
qed simp

declare uint16_length_loop.simps [simp del]

definition uint16_encode_length :: "u32 \<Rightarrow> u8 \<Rightarrow> nat" where
  "uint16_encode_length I msk =
     (if I < ucast msk then 1 else uint16_length_loop (I - ucast msk) 1)"

text \<open>
  A slice of the computed length holding what was written into it; \<open>uint16_encode_length_eq\<close>
  below shows that the writes fill it exactly.
\<close>

definition encode_uint16 :: "u32 \<Rightarrow> u8 \<Rightarrow> bytes" where
  "encode_uint16 I msk = take (uint16_encode_length I msk) (uint16_encode_impl I msk)"

section \<open>Lengths\<close>

lemma uint16_length_loop_eq: "uint16_length_loop I count = count + length (uint16_encode_loop I)"
  by (induction I count rule: uint16_length_loop.induct)
     (subst uint16_length_loop.simps, subst uint16_encode_loop.simps, simp)

lemma uint16_encode_length_eq: "uint16_encode_length I msk = length (uint16_encode_impl I msk)"
  by (simp add: uint16_encode_length_def uint16_encode_impl_def uint16_length_loop_eq)

lemma encode_uint16_eq: "encode_uint16 I msk = uint16_encode_impl I msk"
  by (simp add: encode_uint16_def uint16_encode_length_eq)

lemma uint16_encode_loop_not_Nil [simp]: "uint16_encode_loop I \<noteq> []"
  by (subst uint16_encode_loop.simps) simp

lemma uint16_encode_impl_not_Nil [simp]: "uint16_encode_impl I msk \<noteq> []"
  by (simp add: uint16_encode_impl_def)

lemma unat_drop_bit_7: "unat (drop_bit 7 I) = unat (I :: u32) div 128"
  by (simp only: unat_drop_bit_eq) (simp add: drop_bit_eq_div)

lemma length_uint16_encode_loop: "unat I < 128 ^ k \<Longrightarrow> 0 < k \<Longrightarrow> length (uint16_encode_loop I) \<le> k"
proof (induction I arbitrary: k rule: uint16_encode_loop.induct)
  case (1 I)
  show ?case
  proof (cases "128 \<le> I")
    case True
    then have u: "128 \<le> unat I" by (simp add: word_le_nat_alt)
    then obtain j where k: "k = Suc j" "0 < j"
      using 1(2,3) by (cases k; cases "k - 1") auto
    have "unat (drop_bit 7 I) < 128 ^ j"
      using 1(2) k by (simp add: unat_drop_bit_7 less_mult_imp_div_less mult.commute)
    from 1(1) [OF True this k(2)] True k show ?thesis by (subst uint16_encode_loop.simps) simp
  next
    case False
    then show ?thesis using 1(3) by (subst uint16_encode_loop.simps) simp
  qed
qed

lemma length_uint16_encode_impl [bounds]: "length (uint16_encode_impl I msk) \<le> 6"
proof -
  have "unat (I - ucast msk) < 128 ^ 5"
    using unat_u32_bound [of "I - ucast msk"] by simp
  then have "length (uint16_encode_loop (I - ucast msk)) \<le> 5"
    by (rule length_uint16_encode_loop) simp
  then show ?thesis by (simp add: uint16_encode_impl_def)
qed

section \<open>Round trip\<close>

lemma group_byte:
  "ucast (ucast ((I AND 0x7f) OR 0x80) AND 0x7f :: u8) = take_bit 7 (I :: u32)"
  by (rule bit_word_eqI) (auto simp: bit_seven bit_simps)

lemma less_128_take_bit: "(I :: u32) < 128 \<Longrightarrow> take_bit 7 I = I"
proof -
  assume "I < 128"
  then have "unat I < 128" by (simp add: word_less_nat_alt)
  then have "unat (take_bit 7 I) = unat I"
    by (simp add: unsigned_take_bit_eq take_bit_nat_eq_self)
  then show ?thesis by (simp add: word_unat_eq_iff)
qed

lemma last_byte: "I < 128 \<Longrightarrow> ucast (ucast I AND 0x7f :: u8) = (I :: u32)"
proof -
  assume "I < 128"
  moreover have "ucast (ucast I AND 0x7f :: u8) = take_bit 7 I"
    by (rule bit_word_eqI) (auto simp: bit_seven bit_simps)
  ultimately show ?thesis by (simp add: less_128_take_bit)
qed

lemma group_byte_flag: "ucast ((I AND 0x7f) OR 0x80 :: u32) AND 0x80 \<noteq> (0 :: u8)"
proof
  assume "ucast ((I AND 0x7f) OR 0x80 :: u32) AND 0x80 = (0 :: u8)"
  then have "bit (ucast ((I AND 0x7f) OR 0x80 :: u32) AND 0x80 :: u8) 7 = bit (0 :: u8) 7" by simp
  then show False by (simp add: bit_seven bit_simps)
qed

lemma last_byte_flag:
  assumes "(I :: u32) < 128" shows "ucast I AND 0x80 = (0 :: u8)"
proof (rule bit_word_eqI)
  fix n :: nat
  have "\<not> bit I 7"
    using less_128_take_bit [OF assms] by (metis bit_take_bit_iff less_irrefl)
  then show "bit (ucast I AND 0x80 :: u8) n \<longleftrightarrow> bit (0 :: u8) n"
    by (auto simp: bit_seven bit_simps)
qed

lemma decode_loop_encode_loop:
  "unat dst + unat I * 2 ^ M < 2 ^ 32 \<Longrightarrow> M < 32 \<Longrightarrow>
     decode_uint32_loop dst M (uint16_encode_loop I @ rest) = Ok (dst + push_bit M I, rest)"
proof (induction I arbitrary: dst M rule: uint16_encode_loop.induct)
  case (1 I)
  have push: "unat (push_bit M J) = unat J * 2 ^ M" if "unat J * 2 ^ M < 2 ^ 32" for J :: u32
    by (simp only: unsigned_push_bit_eq) (simp add: push_bit_eq_mult take_bit_nat_eq_self [OF that])
  have guard: "\<not> 0xFFFFFFFF - push_bit M J < dst"
    if "unat dst + unat J * 2 ^ M < 2 ^ 32" for J :: u32
  proof -
    have "unat (push_bit M J) = unat J * 2 ^ M" using that by (intro push) simp
    then have "unat (0xFFFFFFFF - push_bit M J) = 2 ^ 32 - 1 - unat J * 2 ^ M"
      using that by (subst unat_sub) (simp_all add: word_le_nat_alt)
    then show ?thesis using that by (simp add: word_less_nat_alt)
  qed
  show ?case
  proof (cases "128 \<le> I")
    case True
    then have u: "128 \<le> unat I" by (simp add: word_le_nat_alt)
    let ?lo = "take_bit 7 I" and ?hi = "drop_bit 7 I"
    have lo: "unat ?lo = unat I mod 128" using unat_take_bit_mod [of 7 I] by simp
    have split: "unat ?lo * 2 ^ M + unat ?hi * 2 ^ (M + 7) = unat I * 2 ^ M"
    proof -
      have "unat ?lo * 2 ^ M + unat ?hi * 2 ^ (M + 7) = (unat I mod 128 + unat I div 128 * 128) * 2 ^ M"
        by (simp only: lo unat_drop_bit_7 power_add distrib_right) simp
      also have "unat I mod 128 + unat I div 128 * 128 = unat I"
        by (rule mod_div_mult_eq)
      finally show ?thesis .
    qed
    have lo_bd: "unat dst + unat ?lo * 2 ^ M < 2 ^ 32" using 1(2) split by linarith
    have "128 * 2 ^ M \<le> unat I * 2 ^ M" using u by simp
    also have "\<dots> < 2 ^ 32" using 1(2) by linarith
    finally have "(2 :: nat) ^ (7 + M) < 2 ^ 32" by (simp add: power_add)
    then have "7 + M < 32" by (rule power_less_imp_less_exp [rotated]) simp
    then have M: "M + 7 < 32" by simp
    have dst: "unat (dst + push_bit M ?lo) = unat dst + unat ?lo * 2 ^ M"
      using lo_bd push [of ?lo] by (subst unat_add_u32) simp_all
    have "decode_uint32_loop (dst + push_bit M ?lo) (M + 7) (uint16_encode_loop ?hi @ rest) =
        Ok (dst + push_bit M ?lo + push_bit (M + 7) ?hi, rest)"
      using 1(2) split dst M by (intro 1(1) True) linarith+
    moreover have "push_bit M ?lo + push_bit (M + 7) ?hi = push_bit M I"
    proof -
      have "?lo + push_bit 7 ?hi = I"
        by (metis add.commute bits_ident)
      then show ?thesis by (metis push_bit_add push_bit_push_bit)
    qed
    ultimately show ?thesis
      using True guard [OF lo_bd] 1(3)
      by (subst uint16_encode_loop.simps) (simp add: group_byte group_byte_flag add.assoc)
  next
    case False
    then show ?thesis
      using guard [OF 1(2)] 1(3)
      by (subst uint16_encode_loop.simps) (simp add: last_byte last_byte_flag not_le)
  qed
qed

text \<open>
  An encoder sets flag bits above the prefix on the first byte; the decoder masks them away.
  \<open>or_first p bs\<close> is \<^verbatim>\<open>buf[0] |= p\<close>.
\<close>

fun or_first :: "u8 \<Rightarrow> bytes \<Rightarrow> bytes" where
  "or_first p [] = []"
| "or_first p (b # bs) = (b OR p) # bs"

lemma or_first_0 [simp]: "or_first 0 bs = bs"
  by (cases bs) auto

lemma length_or_first [simp]: "length (or_first p bs) = length bs"
  by (cases bs) auto

lemma or_first_append: "bs \<noteq> [] \<Longrightarrow> or_first p (bs @ cs) = or_first p bs @ cs"
  by (cases bs) auto

lemma INT_MASK_mask:
  assumes "n \<le> 8" shows "INT_MASK n = mask n" "unat (INT_MASK n) = 2 ^ n - 1"
proof -
  have "INT_MASK n = ucast (mask n :: u32)"
    by (simp add: INT_MASK_def mask_eq_exp_minus_1 push_bit_eq_mult)
  also have "\<dots> = mask n"
    using assms by (intro bit_word_eqI) (auto simp: bit_simps)
  finally show m: "INT_MASK n = mask n" .
  show "unat (INT_MASK n) = 2 ^ n - 1"
  proof -
    from assms have "n \<in> {0, 1, 2, 3, 4, 5, 6, 7, 8}" by auto
    then show ?thesis by (auto simp: INT_MASK_def)
  qed
qed

lemma decode_encode_uint32:
  assumes n: "n \<le> 8" and p: "p AND INT_MASK n = 0"
  shows "decode_uint32 (or_first p (encode_uint16 I (INT_MASK n)) @ rest) (INT_MASK n) = Ok (I, rest)"
proof -
  note m = INT_MASK_mask [OF n]
  have um: "unat (ucast (INT_MASK n) :: u32) = 2 ^ n - 1"
    using m(2) unat_u8_bound [of "INT_MASK n"]
    by (simp add: unsigned_ucast_eq take_bit_nat_eq_self)
  have and_or: "(x OR p) AND INT_MASK n = x AND INT_MASK n" for x
    by (simp add: bit.conj_disj_distrib2 p)
  show ?thesis
  proof (cases "I < ucast (INT_MASK n)")
    case True
    then have lt: "unat I < 2 ^ n - 1" using um by (simp add: word_less_nat_alt)
    have I: "ucast (ucast I AND INT_MASK n :: u8) = I"
    proof -
      have "take_bit n I = I"
        using lt by (simp add: word_unat_eq_iff unsigned_take_bit_eq take_bit_nat_eq_self)
      moreover have "ucast (ucast I AND INT_MASK n :: u8) = take_bit n I"
        using n by (intro bit_word_eqI) (auto simp: m(1) bit_simps)
      ultimately show ?thesis by simp
    qed
    with True show ?thesis
      by (auto simp: encode_uint16_eq uint16_encode_impl_def decode_uint32_def and_or)
  next
    case False
    then have le: "ucast (INT_MASK n) \<le> I" by simp
    have "unat (ucast (INT_MASK n) :: u32) + unat (I - ucast (INT_MASK n)) * 2 ^ 0 < 2 ^ 32"
      using le unat_u32_bound [of I] by (simp add: unat_sub word_le_nat_alt)
    from decode_loop_encode_loop [OF this, of rest] False show ?thesis
      by (simp add: encode_uint16_eq uint16_encode_impl_def decode_uint32_def and_or)
  qed
qed

section \<open>Progress and the mathematical value\<close>

lemma decode_loop_progress:
  "decode_uint32_loop dst M src = Ok (v, rest) \<Longrightarrow>
     \<exists>pre. src = pre @ rest \<and> 0 < length pre \<and> 7 * length pre + M < 39"
proof (induction dst M src rule: decode_uint32_loop.induct)
  case (2 dst M b src)
  let ?a = "push_bit M (ucast (b AND 0x7f)) :: u32"
  from 2(2) have M: "M < 32" by (auto split: if_splits)
  show ?case
  proof (cases "b AND 0x80 \<noteq> 0")
    case True
    with 2(2) M obtain pre where "src = pre @ rest" "0 < length pre" "7 * length pre + (M + 7) < 39"
      using 2(1) [OF _ refl, of] by (auto simp: Let_def split: if_splits)
    then show ?thesis by (intro exI [of _ "b # pre"]) simp
  next
    case False
    with 2(2) M show ?thesis by (auto simp: Let_def split: if_splits intro!: exI [of _ "[b]"])
  qed
qed simp

lemma decode_uint32_progress:
  assumes "decode_uint32 src m = Ok (v, rest)"
  shows "\<exists>pre. src = pre @ rest \<and> 1 \<le> length pre \<and> length pre \<le> 6"
proof (cases src)
  case Nil
  with assms show ?thesis by (simp add: decode_uint32_def)
next
  case (Cons b bs)
  show ?thesis
  proof (cases "(ucast (b AND m) :: u32) = ucast m")
    case True
    with assms Cons have "decode_uint32_loop (ucast m) 0 bs = Ok (v, rest)"
      by (simp add: decode_uint32_def)
    from decode_loop_progress [OF this] obtain pre where "bs = pre @ rest" "7 * length pre < 39" by auto
    with Cons show ?thesis by (intro exI [of _ "b # pre"]) simp
  next
    case False
    with assms Cons show ?thesis by (auto simp: decode_uint32_def intro!: exI [of _ "[b]"])
  qed
qed

lemma decode_uint32_no_fault: "src \<noteq> [] \<Longrightarrow> decode_uint32 src m \<noteq> Fault"
proof -
  have "decode_uint32_loop dst M bs \<noteq> Fault" for dst M bs
    by (induction dst M bs rule: decode_uint32_loop.induct) (auto simp: Let_def)
  then show "src \<noteq> [] \<Longrightarrow> decode_uint32 src m \<noteq> Fault"
    by (auto simp: decode_uint32_def Let_def split: list.splits)
qed

text \<open>The value RFC 7541 Section 5.1 gives, without a size limit.\<close>

fun rfc_int_groups :: "nat \<Rightarrow> bytes \<Rightarrow> (nat \<times> bytes) option" where
  "rfc_int_groups k [] = None"
| "rfc_int_groups k (b # bs) =
     (if b AND 0x80 \<noteq> 0
      then (case rfc_int_groups (k + 7) bs of None \<Rightarrow> None
            | Some (v, rest) \<Rightarrow> Some (unat (b AND 0x7f) * 2 ^ k + v, rest))
      else Some (unat (b AND 0x7f) * 2 ^ k, bs))"

definition rfc_int :: "bytes \<Rightarrow> u8 \<Rightarrow> (nat \<times> bytes) option" where
  "rfc_int src m = (case src of [] \<Rightarrow> None
     | b # bs \<Rightarrow> if b AND m = m
         then map_option (\<lambda>(v, rest). (unat m + v, rest)) (rfc_int_groups 0 bs)
         else Some (unat (b AND m), bs))"

lemma group_value: "unat (b AND 0x7f :: u8) < 128"
proof -
  have "b AND 0x7f \<le> (0x7f :: u8)" by (rule word_and_le1)
  then have "unat (b AND 0x7f) \<le> unat (0x7f :: u8)" by (rule word_le_nat_alt [THEN iffD1])
  then show ?thesis by simp
qed

lemma group_low: "unat (b AND 0x7f :: u8) = unat b mod 128"
proof -
  have "b AND 0x7f = take_bit 7 b" by (simp add: take_bit_eq_mask mask_eq_exp_minus_1)
  then show ?thesis by (simp add: unsigned_take_bit_eq take_bit_eq_mod unat_mod_distrib)
qed

lemma last_group: "b AND 0x80 = 0 \<longleftrightarrow> unat (b :: u8) < 128"
proof -
  have "b AND 0x80 = 0 \<longleftrightarrow> \<not> bit b 7" using and_exp_eq_0_iff_not_bit [of b 7] by simp
  also have "bit b 7 = bit (unat b) 7" by (simp add: bit_unsigned_iff)
  also have "(\<not> bit (unat b) 7) \<longleftrightarrow> even (unat b div 128)" by (simp add: bit_iff_odd)
  also have "\<dots> \<longleftrightarrow> unat b < 128"
  proof -
    have "unat b div 128 < 2" using unat_u8_bound [of b] by simp
    then show ?thesis by (cases "unat b div 128 = 0") (auto simp: div_eq_0_iff elim: less_2_cases)
  qed
  finally show ?thesis .
qed

text \<open>The fifth group is shifted by 28, so only its four low bits are left.\<close>

lemma fifth_addend: "unat (push_bit 28 (ucast (b AND 0x7f :: u8)) :: u32) = 2 ^ 28 * (unat b mod 16)"
proof -
  have u: "unat (ucast (b AND 0x7f) :: u32) = unat (b AND 0x7f)"
    using group_value [of b] by (simp add: unsigned_ucast_eq take_bit_nat_eq_self)
  have "unat (push_bit 28 (ucast (b AND 0x7f)) :: u32) = 2 ^ 28 * (unat b mod 128) mod 2 ^ 32"
    by (simp only: unsigned_push_bit_eq u group_low) (simp add: push_bit_eq_mult take_bit_eq_mod mult.commute)
  also have "\<dots> = 2 ^ 28 * (unat b mod 128 mod 2 ^ 4)"
    using mult_mod_right [of "2 ^ 28" "unat b mod 128" "2 ^ 4 :: nat"] by simp
  also have "\<dots> = 2 ^ 28 * (unat b mod 16)" by (simp add: mod_mod_cancel)
  finally show ?thesis .
qed

lemma addend_exact:
  assumes "M \<le> 21" shows "unat (push_bit M (ucast (b AND 0x7f :: u8)) :: u32) = unat (b AND 0x7f) * 2 ^ M"
proof -
  have ub: "unat (ucast (b AND 0x7f) :: u32) = unat (b AND 0x7f)"
    using group_value [of b] by (simp add: unsigned_ucast_eq take_bit_nat_eq_self)
  have "(2 :: nat) ^ M \<le> 2 ^ 21" using assms by (intro power_increasing) auto
  then have small: "unat (b AND 0x7f) * 2 ^ M < 2 ^ 32"
    using group_value [of b] mult_strict_mono' [of "unat (b AND 0x7f)" 128 "2 ^ M" "2 ^ 21 + 1"] by simp
  show ?thesis
    by (simp only: unsigned_push_bit_eq) (simp add: push_bit_eq_mult ub take_bit_nat_eq_self [OF small])
qed

lemma addend_fits: "\<not> 0xFFFFFFFF - a < dst \<Longrightarrow> unat (dst + a :: u32) = unat dst + unat a"
proof -
  assume ok: "\<not> 0xFFFFFFFF - a < dst"
  have "unat (0xFFFFFFFF - a :: u32) = unat (0xFFFFFFFF :: u32) - unat a"
    using unat_u32_bound [of a] by (intro unat_sub) (simp add: word_le_nat_alt)
  with ok have "unat dst + unat a < 2 ^ 32"
    using unat_u32_bound [of a] by (simp add: word_less_nat_alt)
  then show ?thesis by (simp add: unat_add_u32)
qed

lemma decode_loop_exact:
  "decode_uint32_loop dst M src = Ok (v, rest) \<Longrightarrow> M + 7 * (length src - length rest) \<le> 28 \<Longrightarrow>
     \<exists>g. rfc_int_groups M src = Some (g, rest) \<and> unat v = unat dst + g"
proof (induction dst M src rule: decode_uint32_loop.induct)
  case (2 dst M b src)
  let ?a = "push_bit M (ucast (b AND 0x7f)) :: u32"
  obtain pre where pre: "b # src = pre @ rest" "0 < length pre"
    using decode_loop_progress [OF 2(2)] by blast
  then have M: "M \<le> 21" using 2(3) by (cases pre) auto
  have ok: "\<not> 0xFFFFFFFF - ?a < dst" using 2(2) M by (auto simp: Let_def split: if_splits)
  have da: "unat (dst + ?a) = unat dst + unat (b AND 0x7f) * 2 ^ M"
    using addend_fits [OF ok] addend_exact [OF M] by simp
  show ?case
  proof (cases "b AND 0x80 \<noteq> 0")
    case True
    have rec: "decode_uint32_loop (dst + ?a) (M + 7) src = Ok (v, rest)"
      using 2(2) M ok True by (simp add: Let_def)
    obtain pre' where "src = pre' @ rest" using decode_loop_progress [OF rec] by blast
    then have "M + 7 + 7 * (length src - length rest) \<le> 28" using 2(3) by simp
    with 2(1) [OF _ refl _ True rec] M ok da show ?thesis
      using True by (auto simp: not_le)
  next
    case False
    with 2(2) M ok da show ?thesis by (simp add: Let_def)
  qed
qed simp

text \<open>With a fifth group the loop takes what is left of it, whatever its three high bits.\<close>

lemma decode_loop_fifth:
  "decode_uint32_loop dst M src = Ok (v, rest) \<Longrightarrow> M + 7 * (length src - length rest) = 35 \<Longrightarrow>
     \<exists>pre b g. src = pre @ b # rest \<and> rfc_int_groups M src = Some (g, rest) \<and>
       unat dst + g = unat v + 2 ^ 32 * (unat b div 16) \<and>
       (\<forall>e. unat e < 128 \<and> unat e mod 16 = unat b mod 16 \<longrightarrow> decode_uint32_loop dst M (pre @ e # rest) = Ok (v, rest))"
proof (induction dst M src rule: decode_uint32_loop.induct)
  case (2 dst M b src)
  let ?a = "push_bit M (ucast (b AND 0x7f)) :: u32"
  obtain pre where pre: "b # src = pre @ rest" "0 < length pre" using decode_loop_progress [OF 2(2)] by blast
  have M: "M < 32" and ok: "\<not> 0xFFFFFFFF - ?a < dst" using 2(2) by (auto simp: Let_def split: if_splits)
  note sum = addend_fits [OF ok]
  show ?case
  proof (cases "b AND 0x80 \<noteq> 0")
    case True
    have rec: "decode_uint32_loop (dst + ?a) (M + 7) src = Ok (v, rest)" using 2(2) M ok True by (simp add: Let_def)
    obtain pre' where "src = pre' @ rest" "0 < length pre'" using decode_loop_progress [OF rec] by blast
    then have l: "M + 7 + 7 * (length src - length rest) = 35" "M \<le> 21" using 2(3) by (cases pre'; simp)+
    with 2(1) [OF _ refl _ True rec] M ok obtain pre'' x g where ih: "src = pre'' @ x # rest" "rfc_int_groups (M + 7) src = Some (g, rest)"
      "unat (dst + ?a) + g = unat v + 2 ^ 32 * (unat x div 16)"
      "\<forall>e. unat e < 128 \<and> unat e mod 16 = unat x mod 16 \<longrightarrow> decode_uint32_loop (dst + ?a) (M + 7) (pre'' @ e # rest) = Ok (v, rest)"
      by (auto simp: not_le)
    then show ?thesis using M ok True sum addend_exact [OF l(2), of b]
      by (intro exI [of _ "b # pre''"] exI [of _ x] exI [of _ "unat (b AND 0x7f) * 2 ^ M + g"]) (simp add: Let_def)
  next
    case False
    then have r: "src = rest" "v = dst + ?a" using 2(2) M ok by (simp_all add: Let_def)
    then have m: "M = 28" using 2(3) by simp
    have b: "unat b < 128" using False last_group by simp
    have v: "unat v = unat dst + 2 ^ 28 * (unat b mod 16)" using sum fifth_addend [of b] by (simp add: r m)
    have "unat b * 2 ^ 28 = 2 ^ 28 * (unat b mod 16) + 2 ^ 32 * (unat b div 16)"
    proof -
      obtain q r where "unat b = 16 * q + r" "unat b div 16 = q" "unat b mod 16 = r" by (metis mult_div_mod_eq)
      then show ?thesis by simp
    qed
    moreover have "decode_uint32_loop dst M (e # rest) = Ok (v, rest)" if "unat e < 128 \<and> unat e mod 16 = unat b mod 16" for e
    proof -
      have "push_bit 28 (ucast (e AND 0x7f)) = ?a"
        using fifth_addend [of e] fifth_addend [of b] that by (intro word_unat_eq_iff [THEN iffD2]) (simp add: m)
      then show ?thesis using that ok last_group [of e] by (simp add: m r Let_def)
    qed
    ultimately show ?thesis using False b v m r
      by (intro exI [of _ "[]"] exI [of _ b] exI [of _ "unat b * 2 ^ 28"]) (simp add: group_low)
  qed
qed simp

text \<open>The whole routine: the first byte and then the loop.\<close>

lemma decode_uint32_cases:
  assumes "decode_uint32 src m = Ok (v, rest)"
  obtains b bs where "src = b # bs" "b AND m = m" "decode_uint32_loop (ucast m) 0 bs = Ok (v, rest)"
  | b where "src = b # rest" "b AND m \<noteq> m" "unat v = unat (b AND m)" "rfc_int src m = Some (unat v, rest)"
proof (cases src)
  case (Cons b bs)
  have u: "unat (ucast x :: u32) = unat x" for x :: u8
    using unat_u8_bound [of x] by (simp add: unsigned_ucast_eq take_bit_nat_eq_self)
  then have "ucast (b AND m) = (ucast m :: u32) \<longleftrightarrow> b AND m = m" by (metis word_unat_eq_iff)
  with assms Cons u that show ?thesis by (cases "b AND m = m") (auto simp: decode_uint32_def rfc_int_def)
qed (use assms in \<open>simp add: decode_uint32_def\<close>)

lemma decode_uint32_exact:
  assumes "decode_uint32 src m = Ok (v, rest)" "length src - length rest \<le> 5"
  shows "rfc_int src m = Some (unat v, rest)"
  using assms(1)
proof (cases rule: decode_uint32_cases)
  case (1 b bs)
  have "0 + 7 * (length bs - length rest) \<le> 28" using assms(2) 1(1) decode_loop_progress [OF 1(3)] by auto
  from decode_loop_exact [OF 1(3) this] 1 show ?thesis
    using unat_u8_bound [of m] by (auto simp: rfc_int_def unsigned_ucast_eq take_bit_nat_eq_self)
qed simp

end
