(* ===== verification/Huffman_State.thy ===== *)
theory Huffman_State
  imports Prelude
begin

text \<open>
  The types of \<^verbatim>\<open>src/hpack/huffman.h\<close>: an entry of the decoding table, its two flags, and
  the decoding context.
\<close>

text \<open>\<^verbatim>\<open>http2_huff_decode\<close>: \<^verbatim>\<open>fstate\<close> (next state with the flags OR-ed in) and \<^verbatim>\<open>sym\<close>.\<close>

type_synonym http2_huff_decode = "u16 \<times> u8"

definition HTTP2_HUFF_ACCEPTED :: u16 where
  "HTTP2_HUFF_ACCEPTED = push_bit 14 1"

definition HTTP2_HUFF_SYM :: u16 where
  "HTTP2_HUFF_SYM = push_bit 15 1"

text \<open>\<^verbatim>\<open>http2_hd_huff_decode_context\<close>.\<close>

record http2_hd_huff_decode_context =
  fstate :: u16

end
