(* ===== verification/Huffman_Table_A.thy ===== *)
theory Huffman_Table_A
  imports Huffman_State
begin

text \<open>
  Rows 0 to 127 of \<^verbatim>\<open>huff_decode_table\<close> of \<^verbatim>\<open>src/hpack/huffman_data.cc\<close>, the state
  machine that reads four bits at a time: an entry is the next state with its two flags and
  the symbol it emits. The literals are the source's, row by row.
\<close>

definition huff_decode_rows_0_7 :: "http2_huff_decode list list" where
  "huff_decode_rows_0_7 = [
    \<comment> \<open>0\<close>
    [(0x4, 0), (0x5, 0), (0x7, 0), (0x8, 0), (0xb, 0), (0xc, 0), (0x10, 0), (0x13, 0),
     (0x19, 0), (0x1c, 0), (0x20, 0), (0x23, 0), (0x2a, 0), (0x31, 0), (0x39, 0), (0x4040, 0)],
    \<comment> \<open>1\<close>
    [(0xc000, 48), (0xc000, 49), (0xc000, 50), (0xc000, 97), (0xc000, 99), (0xc000, 101), (0xc000, 105), (0xc000, 111),
     (0xc000, 115), (0xc000, 116), (0xd, 0), (0xe, 0), (0x11, 0), (0x12, 0), (0x14, 0), (0x15, 0)],
    \<comment> \<open>2\<close>
    [(0x8001, 48), (0xc016, 48), (0x8001, 49), (0xc016, 49), (0x8001, 50), (0xc016, 50), (0x8001, 97), (0xc016, 97),
     (0x8001, 99), (0xc016, 99), (0x8001, 101), (0xc016, 101), (0x8001, 105), (0xc016, 105), (0x8001, 111), (0xc016, 111)],
    \<comment> \<open>3\<close>
    [(0x8002, 48), (0x8009, 48), (0x8017, 48), (0xc028, 48), (0x8002, 49), (0x8009, 49), (0x8017, 49), (0xc028, 49),
     (0x8002, 50), (0x8009, 50), (0x8017, 50), (0xc028, 50), (0x8002, 97), (0x8009, 97), (0x8017, 97), (0xc028, 97)],
    \<comment> \<open>4\<close>
    [(0x8003, 48), (0x8006, 48), (0x800a, 48), (0x800f, 48), (0x8018, 48), (0x801f, 48), (0x8029, 48), (0xc038, 48),
     (0x8003, 49), (0x8006, 49), (0x800a, 49), (0x800f, 49), (0x8018, 49), (0x801f, 49), (0x8029, 49), (0xc038, 49)],
    \<comment> \<open>5\<close>
    [(0x8003, 50), (0x8006, 50), (0x800a, 50), (0x800f, 50), (0x8018, 50), (0x801f, 50), (0x8029, 50), (0xc038, 50),
     (0x8003, 97), (0x8006, 97), (0x800a, 97), (0x800f, 97), (0x8018, 97), (0x801f, 97), (0x8029, 97), (0xc038, 97)],
    \<comment> \<open>6\<close>
    [(0x8002, 99), (0x8009, 99), (0x8017, 99), (0xc028, 99), (0x8002, 101), (0x8009, 101), (0x8017, 101), (0xc028, 101),
     (0x8002, 105), (0x8009, 105), (0x8017, 105), (0xc028, 105), (0x8002, 111), (0x8009, 111), (0x8017, 111), (0xc028, 111)],
    \<comment> \<open>7\<close>
    [(0x8003, 99), (0x8006, 99), (0x800a, 99), (0x800f, 99), (0x8018, 99), (0x801f, 99), (0x8029, 99), (0xc038, 99),
     (0x8003, 101), (0x8006, 101), (0x800a, 101), (0x800f, 101), (0x8018, 101), (0x801f, 101), (0x8029, 101), (0xc038, 101)]]"

definition huff_decode_rows_8_15 :: "http2_huff_decode list list" where
  "huff_decode_rows_8_15 = [
    \<comment> \<open>8\<close>
    [(0x8003, 105), (0x8006, 105), (0x800a, 105), (0x800f, 105), (0x8018, 105), (0x801f, 105), (0x8029, 105), (0xc038, 105),
     (0x8003, 111), (0x8006, 111), (0x800a, 111), (0x800f, 111), (0x8018, 111), (0x801f, 111), (0x8029, 111), (0xc038, 111)],
    \<comment> \<open>9\<close>
    [(0x8001, 115), (0xc016, 115), (0x8001, 116), (0xc016, 116), (0xc000, 32), (0xc000, 37), (0xc000, 45), (0xc000, 46),
     (0xc000, 47), (0xc000, 51), (0xc000, 52), (0xc000, 53), (0xc000, 54), (0xc000, 55), (0xc000, 56), (0xc000, 57)],
    \<comment> \<open>10\<close>
    [(0x8002, 115), (0x8009, 115), (0x8017, 115), (0xc028, 115), (0x8002, 116), (0x8009, 116), (0x8017, 116), (0xc028, 116),
     (0x8001, 32), (0xc016, 32), (0x8001, 37), (0xc016, 37), (0x8001, 45), (0xc016, 45), (0x8001, 46), (0xc016, 46)],
    \<comment> \<open>11\<close>
    [(0x8003, 115), (0x8006, 115), (0x800a, 115), (0x800f, 115), (0x8018, 115), (0x801f, 115), (0x8029, 115), (0xc038, 115),
     (0x8003, 116), (0x8006, 116), (0x800a, 116), (0x800f, 116), (0x8018, 116), (0x801f, 116), (0x8029, 116), (0xc038, 116)],
    \<comment> \<open>12\<close>
    [(0x8002, 32), (0x8009, 32), (0x8017, 32), (0xc028, 32), (0x8002, 37), (0x8009, 37), (0x8017, 37), (0xc028, 37),
     (0x8002, 45), (0x8009, 45), (0x8017, 45), (0xc028, 45), (0x8002, 46), (0x8009, 46), (0x8017, 46), (0xc028, 46)],
    \<comment> \<open>13\<close>
    [(0x8003, 32), (0x8006, 32), (0x800a, 32), (0x800f, 32), (0x8018, 32), (0x801f, 32), (0x8029, 32), (0xc038, 32),
     (0x8003, 37), (0x8006, 37), (0x800a, 37), (0x800f, 37), (0x8018, 37), (0x801f, 37), (0x8029, 37), (0xc038, 37)],
    \<comment> \<open>14\<close>
    [(0x8003, 45), (0x8006, 45), (0x800a, 45), (0x800f, 45), (0x8018, 45), (0x801f, 45), (0x8029, 45), (0xc038, 45),
     (0x8003, 46), (0x8006, 46), (0x800a, 46), (0x800f, 46), (0x8018, 46), (0x801f, 46), (0x8029, 46), (0xc038, 46)],
    \<comment> \<open>15\<close>
    [(0x8001, 47), (0xc016, 47), (0x8001, 51), (0xc016, 51), (0x8001, 52), (0xc016, 52), (0x8001, 53), (0xc016, 53),
     (0x8001, 54), (0xc016, 54), (0x8001, 55), (0xc016, 55), (0x8001, 56), (0xc016, 56), (0x8001, 57), (0xc016, 57)]]"

definition huff_decode_rows_16_23 :: "http2_huff_decode list list" where
  "huff_decode_rows_16_23 = [
    \<comment> \<open>16\<close>
    [(0x8002, 47), (0x8009, 47), (0x8017, 47), (0xc028, 47), (0x8002, 51), (0x8009, 51), (0x8017, 51), (0xc028, 51),
     (0x8002, 52), (0x8009, 52), (0x8017, 52), (0xc028, 52), (0x8002, 53), (0x8009, 53), (0x8017, 53), (0xc028, 53)],
    \<comment> \<open>17\<close>
    [(0x8003, 47), (0x8006, 47), (0x800a, 47), (0x800f, 47), (0x8018, 47), (0x801f, 47), (0x8029, 47), (0xc038, 47),
     (0x8003, 51), (0x8006, 51), (0x800a, 51), (0x800f, 51), (0x8018, 51), (0x801f, 51), (0x8029, 51), (0xc038, 51)],
    \<comment> \<open>18\<close>
    [(0x8003, 52), (0x8006, 52), (0x800a, 52), (0x800f, 52), (0x8018, 52), (0x801f, 52), (0x8029, 52), (0xc038, 52),
     (0x8003, 53), (0x8006, 53), (0x800a, 53), (0x800f, 53), (0x8018, 53), (0x801f, 53), (0x8029, 53), (0xc038, 53)],
    \<comment> \<open>19\<close>
    [(0x8002, 54), (0x8009, 54), (0x8017, 54), (0xc028, 54), (0x8002, 55), (0x8009, 55), (0x8017, 55), (0xc028, 55),
     (0x8002, 56), (0x8009, 56), (0x8017, 56), (0xc028, 56), (0x8002, 57), (0x8009, 57), (0x8017, 57), (0xc028, 57)],
    \<comment> \<open>20\<close>
    [(0x8003, 54), (0x8006, 54), (0x800a, 54), (0x800f, 54), (0x8018, 54), (0x801f, 54), (0x8029, 54), (0xc038, 54),
     (0x8003, 55), (0x8006, 55), (0x800a, 55), (0x800f, 55), (0x8018, 55), (0x801f, 55), (0x8029, 55), (0xc038, 55)],
    \<comment> \<open>21\<close>
    [(0x8003, 56), (0x8006, 56), (0x800a, 56), (0x800f, 56), (0x8018, 56), (0x801f, 56), (0x8029, 56), (0xc038, 56),
     (0x8003, 57), (0x8006, 57), (0x800a, 57), (0x800f, 57), (0x8018, 57), (0x801f, 57), (0x8029, 57), (0xc038, 57)],
    \<comment> \<open>22\<close>
    [(0x1a, 0), (0x1b, 0), (0x1d, 0), (0x1e, 0), (0x21, 0), (0x22, 0), (0x24, 0), (0x25, 0),
     (0x2b, 0), (0x2e, 0), (0x32, 0), (0x35, 0), (0x3a, 0), (0x3d, 0), (0x41, 0), (0x4044, 0)],
    \<comment> \<open>23\<close>
    [(0xc000, 61), (0xc000, 65), (0xc000, 95), (0xc000, 98), (0xc000, 100), (0xc000, 102), (0xc000, 103), (0xc000, 104),
     (0xc000, 108), (0xc000, 109), (0xc000, 110), (0xc000, 112), (0xc000, 114), (0xc000, 117), (0x26, 0), (0x27, 0)]]"

definition huff_decode_rows_24_31 :: "http2_huff_decode list list" where
  "huff_decode_rows_24_31 = [
    \<comment> \<open>24\<close>
    [(0x8001, 61), (0xc016, 61), (0x8001, 65), (0xc016, 65), (0x8001, 95), (0xc016, 95), (0x8001, 98), (0xc016, 98),
     (0x8001, 100), (0xc016, 100), (0x8001, 102), (0xc016, 102), (0x8001, 103), (0xc016, 103), (0x8001, 104), (0xc016, 104)],
    \<comment> \<open>25\<close>
    [(0x8002, 61), (0x8009, 61), (0x8017, 61), (0xc028, 61), (0x8002, 65), (0x8009, 65), (0x8017, 65), (0xc028, 65),
     (0x8002, 95), (0x8009, 95), (0x8017, 95), (0xc028, 95), (0x8002, 98), (0x8009, 98), (0x8017, 98), (0xc028, 98)],
    \<comment> \<open>26\<close>
    [(0x8003, 61), (0x8006, 61), (0x800a, 61), (0x800f, 61), (0x8018, 61), (0x801f, 61), (0x8029, 61), (0xc038, 61),
     (0x8003, 65), (0x8006, 65), (0x800a, 65), (0x800f, 65), (0x8018, 65), (0x801f, 65), (0x8029, 65), (0xc038, 65)],
    \<comment> \<open>27\<close>
    [(0x8003, 95), (0x8006, 95), (0x800a, 95), (0x800f, 95), (0x8018, 95), (0x801f, 95), (0x8029, 95), (0xc038, 95),
     (0x8003, 98), (0x8006, 98), (0x800a, 98), (0x800f, 98), (0x8018, 98), (0x801f, 98), (0x8029, 98), (0xc038, 98)],
    \<comment> \<open>28\<close>
    [(0x8002, 100), (0x8009, 100), (0x8017, 100), (0xc028, 100), (0x8002, 102), (0x8009, 102), (0x8017, 102), (0xc028, 102),
     (0x8002, 103), (0x8009, 103), (0x8017, 103), (0xc028, 103), (0x8002, 104), (0x8009, 104), (0x8017, 104), (0xc028, 104)],
    \<comment> \<open>29\<close>
    [(0x8003, 100), (0x8006, 100), (0x800a, 100), (0x800f, 100), (0x8018, 100), (0x801f, 100), (0x8029, 100), (0xc038, 100),
     (0x8003, 102), (0x8006, 102), (0x800a, 102), (0x800f, 102), (0x8018, 102), (0x801f, 102), (0x8029, 102), (0xc038, 102)],
    \<comment> \<open>30\<close>
    [(0x8003, 103), (0x8006, 103), (0x800a, 103), (0x800f, 103), (0x8018, 103), (0x801f, 103), (0x8029, 103), (0xc038, 103),
     (0x8003, 104), (0x8006, 104), (0x800a, 104), (0x800f, 104), (0x8018, 104), (0x801f, 104), (0x8029, 104), (0xc038, 104)],
    \<comment> \<open>31\<close>
    [(0x8001, 108), (0xc016, 108), (0x8001, 109), (0xc016, 109), (0x8001, 110), (0xc016, 110), (0x8001, 112), (0xc016, 112),
     (0x8001, 114), (0xc016, 114), (0x8001, 117), (0xc016, 117), (0xc000, 58), (0xc000, 66), (0xc000, 67), (0xc000, 68)]]"

definition huff_decode_rows_32_39 :: "http2_huff_decode list list" where
  "huff_decode_rows_32_39 = [
    \<comment> \<open>32\<close>
    [(0x8002, 108), (0x8009, 108), (0x8017, 108), (0xc028, 108), (0x8002, 109), (0x8009, 109), (0x8017, 109), (0xc028, 109),
     (0x8002, 110), (0x8009, 110), (0x8017, 110), (0xc028, 110), (0x8002, 112), (0x8009, 112), (0x8017, 112), (0xc028, 112)],
    \<comment> \<open>33\<close>
    [(0x8003, 108), (0x8006, 108), (0x800a, 108), (0x800f, 108), (0x8018, 108), (0x801f, 108), (0x8029, 108), (0xc038, 108),
     (0x8003, 109), (0x8006, 109), (0x800a, 109), (0x800f, 109), (0x8018, 109), (0x801f, 109), (0x8029, 109), (0xc038, 109)],
    \<comment> \<open>34\<close>
    [(0x8003, 110), (0x8006, 110), (0x800a, 110), (0x800f, 110), (0x8018, 110), (0x801f, 110), (0x8029, 110), (0xc038, 110),
     (0x8003, 112), (0x8006, 112), (0x800a, 112), (0x800f, 112), (0x8018, 112), (0x801f, 112), (0x8029, 112), (0xc038, 112)],
    \<comment> \<open>35\<close>
    [(0x8002, 114), (0x8009, 114), (0x8017, 114), (0xc028, 114), (0x8002, 117), (0x8009, 117), (0x8017, 117), (0xc028, 117),
     (0x8001, 58), (0xc016, 58), (0x8001, 66), (0xc016, 66), (0x8001, 67), (0xc016, 67), (0x8001, 68), (0xc016, 68)],
    \<comment> \<open>36\<close>
    [(0x8003, 114), (0x8006, 114), (0x800a, 114), (0x800f, 114), (0x8018, 114), (0x801f, 114), (0x8029, 114), (0xc038, 114),
     (0x8003, 117), (0x8006, 117), (0x800a, 117), (0x800f, 117), (0x8018, 117), (0x801f, 117), (0x8029, 117), (0xc038, 117)],
    \<comment> \<open>37\<close>
    [(0x8002, 58), (0x8009, 58), (0x8017, 58), (0xc028, 58), (0x8002, 66), (0x8009, 66), (0x8017, 66), (0xc028, 66),
     (0x8002, 67), (0x8009, 67), (0x8017, 67), (0xc028, 67), (0x8002, 68), (0x8009, 68), (0x8017, 68), (0xc028, 68)],
    \<comment> \<open>38\<close>
    [(0x8003, 58), (0x8006, 58), (0x800a, 58), (0x800f, 58), (0x8018, 58), (0x801f, 58), (0x8029, 58), (0xc038, 58),
     (0x8003, 66), (0x8006, 66), (0x800a, 66), (0x800f, 66), (0x8018, 66), (0x801f, 66), (0x8029, 66), (0xc038, 66)],
    \<comment> \<open>39\<close>
    [(0x8003, 67), (0x8006, 67), (0x800a, 67), (0x800f, 67), (0x8018, 67), (0x801f, 67), (0x8029, 67), (0xc038, 67),
     (0x8003, 68), (0x8006, 68), (0x800a, 68), (0x800f, 68), (0x8018, 68), (0x801f, 68), (0x8029, 68), (0xc038, 68)]]"

definition huff_decode_rows_40_47 :: "http2_huff_decode list list" where
  "huff_decode_rows_40_47 = [
    \<comment> \<open>40\<close>
    [(0x2c, 0), (0x2d, 0), (0x2f, 0), (0x30, 0), (0x33, 0), (0x34, 0), (0x36, 0), (0x37, 0),
     (0x3b, 0), (0x3c, 0), (0x3e, 0), (0x3f, 0), (0x42, 0), (0x43, 0), (0x45, 0), (0x4048, 0)],
    \<comment> \<open>41\<close>
    [(0xc000, 69), (0xc000, 70), (0xc000, 71), (0xc000, 72), (0xc000, 73), (0xc000, 74), (0xc000, 75), (0xc000, 76),
     (0xc000, 77), (0xc000, 78), (0xc000, 79), (0xc000, 80), (0xc000, 81), (0xc000, 82), (0xc000, 83), (0xc000, 84)],
    \<comment> \<open>42\<close>
    [(0x8001, 69), (0xc016, 69), (0x8001, 70), (0xc016, 70), (0x8001, 71), (0xc016, 71), (0x8001, 72), (0xc016, 72),
     (0x8001, 73), (0xc016, 73), (0x8001, 74), (0xc016, 74), (0x8001, 75), (0xc016, 75), (0x8001, 76), (0xc016, 76)],
    \<comment> \<open>43\<close>
    [(0x8002, 69), (0x8009, 69), (0x8017, 69), (0xc028, 69), (0x8002, 70), (0x8009, 70), (0x8017, 70), (0xc028, 70),
     (0x8002, 71), (0x8009, 71), (0x8017, 71), (0xc028, 71), (0x8002, 72), (0x8009, 72), (0x8017, 72), (0xc028, 72)],
    \<comment> \<open>44\<close>
    [(0x8003, 69), (0x8006, 69), (0x800a, 69), (0x800f, 69), (0x8018, 69), (0x801f, 69), (0x8029, 69), (0xc038, 69),
     (0x8003, 70), (0x8006, 70), (0x800a, 70), (0x800f, 70), (0x8018, 70), (0x801f, 70), (0x8029, 70), (0xc038, 70)],
    \<comment> \<open>45\<close>
    [(0x8003, 71), (0x8006, 71), (0x800a, 71), (0x800f, 71), (0x8018, 71), (0x801f, 71), (0x8029, 71), (0xc038, 71),
     (0x8003, 72), (0x8006, 72), (0x800a, 72), (0x800f, 72), (0x8018, 72), (0x801f, 72), (0x8029, 72), (0xc038, 72)],
    \<comment> \<open>46\<close>
    [(0x8002, 73), (0x8009, 73), (0x8017, 73), (0xc028, 73), (0x8002, 74), (0x8009, 74), (0x8017, 74), (0xc028, 74),
     (0x8002, 75), (0x8009, 75), (0x8017, 75), (0xc028, 75), (0x8002, 76), (0x8009, 76), (0x8017, 76), (0xc028, 76)],
    \<comment> \<open>47\<close>
    [(0x8003, 73), (0x8006, 73), (0x800a, 73), (0x800f, 73), (0x8018, 73), (0x801f, 73), (0x8029, 73), (0xc038, 73),
     (0x8003, 74), (0x8006, 74), (0x800a, 74), (0x800f, 74), (0x8018, 74), (0x801f, 74), (0x8029, 74), (0xc038, 74)]]"

definition huff_decode_rows_48_55 :: "http2_huff_decode list list" where
  "huff_decode_rows_48_55 = [
    \<comment> \<open>48\<close>
    [(0x8003, 75), (0x8006, 75), (0x800a, 75), (0x800f, 75), (0x8018, 75), (0x801f, 75), (0x8029, 75), (0xc038, 75),
     (0x8003, 76), (0x8006, 76), (0x800a, 76), (0x800f, 76), (0x8018, 76), (0x801f, 76), (0x8029, 76), (0xc038, 76)],
    \<comment> \<open>49\<close>
    [(0x8001, 77), (0xc016, 77), (0x8001, 78), (0xc016, 78), (0x8001, 79), (0xc016, 79), (0x8001, 80), (0xc016, 80),
     (0x8001, 81), (0xc016, 81), (0x8001, 82), (0xc016, 82), (0x8001, 83), (0xc016, 83), (0x8001, 84), (0xc016, 84)],
    \<comment> \<open>50\<close>
    [(0x8002, 77), (0x8009, 77), (0x8017, 77), (0xc028, 77), (0x8002, 78), (0x8009, 78), (0x8017, 78), (0xc028, 78),
     (0x8002, 79), (0x8009, 79), (0x8017, 79), (0xc028, 79), (0x8002, 80), (0x8009, 80), (0x8017, 80), (0xc028, 80)],
    \<comment> \<open>51\<close>
    [(0x8003, 77), (0x8006, 77), (0x800a, 77), (0x800f, 77), (0x8018, 77), (0x801f, 77), (0x8029, 77), (0xc038, 77),
     (0x8003, 78), (0x8006, 78), (0x800a, 78), (0x800f, 78), (0x8018, 78), (0x801f, 78), (0x8029, 78), (0xc038, 78)],
    \<comment> \<open>52\<close>
    [(0x8003, 79), (0x8006, 79), (0x800a, 79), (0x800f, 79), (0x8018, 79), (0x801f, 79), (0x8029, 79), (0xc038, 79),
     (0x8003, 80), (0x8006, 80), (0x800a, 80), (0x800f, 80), (0x8018, 80), (0x801f, 80), (0x8029, 80), (0xc038, 80)],
    \<comment> \<open>53\<close>
    [(0x8002, 81), (0x8009, 81), (0x8017, 81), (0xc028, 81), (0x8002, 82), (0x8009, 82), (0x8017, 82), (0xc028, 82),
     (0x8002, 83), (0x8009, 83), (0x8017, 83), (0xc028, 83), (0x8002, 84), (0x8009, 84), (0x8017, 84), (0xc028, 84)],
    \<comment> \<open>54\<close>
    [(0x8003, 81), (0x8006, 81), (0x800a, 81), (0x800f, 81), (0x8018, 81), (0x801f, 81), (0x8029, 81), (0xc038, 81),
     (0x8003, 82), (0x8006, 82), (0x800a, 82), (0x800f, 82), (0x8018, 82), (0x801f, 82), (0x8029, 82), (0xc038, 82)],
    \<comment> \<open>55\<close>
    [(0x8003, 83), (0x8006, 83), (0x800a, 83), (0x800f, 83), (0x8018, 83), (0x801f, 83), (0x8029, 83), (0xc038, 83),
     (0x8003, 84), (0x8006, 84), (0x800a, 84), (0x800f, 84), (0x8018, 84), (0x801f, 84), (0x8029, 84), (0xc038, 84)]]"

definition huff_decode_rows_56_63 :: "http2_huff_decode list list" where
  "huff_decode_rows_56_63 = [
    \<comment> \<open>56\<close>
    [(0xc000, 85), (0xc000, 86), (0xc000, 87), (0xc000, 89), (0xc000, 106), (0xc000, 107), (0xc000, 113), (0xc000, 118),
     (0xc000, 119), (0xc000, 120), (0xc000, 121), (0xc000, 122), (0x46, 0), (0x47, 0), (0x49, 0), (0x404a, 0)],
    \<comment> \<open>57\<close>
    [(0x8001, 85), (0xc016, 85), (0x8001, 86), (0xc016, 86), (0x8001, 87), (0xc016, 87), (0x8001, 89), (0xc016, 89),
     (0x8001, 106), (0xc016, 106), (0x8001, 107), (0xc016, 107), (0x8001, 113), (0xc016, 113), (0x8001, 118), (0xc016, 118)],
    \<comment> \<open>58\<close>
    [(0x8002, 85), (0x8009, 85), (0x8017, 85), (0xc028, 85), (0x8002, 86), (0x8009, 86), (0x8017, 86), (0xc028, 86),
     (0x8002, 87), (0x8009, 87), (0x8017, 87), (0xc028, 87), (0x8002, 89), (0x8009, 89), (0x8017, 89), (0xc028, 89)],
    \<comment> \<open>59\<close>
    [(0x8003, 85), (0x8006, 85), (0x800a, 85), (0x800f, 85), (0x8018, 85), (0x801f, 85), (0x8029, 85), (0xc038, 85),
     (0x8003, 86), (0x8006, 86), (0x800a, 86), (0x800f, 86), (0x8018, 86), (0x801f, 86), (0x8029, 86), (0xc038, 86)],
    \<comment> \<open>60\<close>
    [(0x8003, 87), (0x8006, 87), (0x800a, 87), (0x800f, 87), (0x8018, 87), (0x801f, 87), (0x8029, 87), (0xc038, 87),
     (0x8003, 89), (0x8006, 89), (0x800a, 89), (0x800f, 89), (0x8018, 89), (0x801f, 89), (0x8029, 89), (0xc038, 89)],
    \<comment> \<open>61\<close>
    [(0x8002, 106), (0x8009, 106), (0x8017, 106), (0xc028, 106), (0x8002, 107), (0x8009, 107), (0x8017, 107), (0xc028, 107),
     (0x8002, 113), (0x8009, 113), (0x8017, 113), (0xc028, 113), (0x8002, 118), (0x8009, 118), (0x8017, 118), (0xc028, 118)],
    \<comment> \<open>62\<close>
    [(0x8003, 106), (0x8006, 106), (0x800a, 106), (0x800f, 106), (0x8018, 106), (0x801f, 106), (0x8029, 106), (0xc038, 106),
     (0x8003, 107), (0x8006, 107), (0x800a, 107), (0x800f, 107), (0x8018, 107), (0x801f, 107), (0x8029, 107), (0xc038, 107)],
    \<comment> \<open>63\<close>
    [(0x8003, 113), (0x8006, 113), (0x800a, 113), (0x800f, 113), (0x8018, 113), (0x801f, 113), (0x8029, 113), (0xc038, 113),
     (0x8003, 118), (0x8006, 118), (0x800a, 118), (0x800f, 118), (0x8018, 118), (0x801f, 118), (0x8029, 118), (0xc038, 118)]]"

definition huff_decode_rows_64_71 :: "http2_huff_decode list list" where
  "huff_decode_rows_64_71 = [
    \<comment> \<open>64\<close>
    [(0x8001, 119), (0xc016, 119), (0x8001, 120), (0xc016, 120), (0x8001, 121), (0xc016, 121), (0x8001, 122), (0xc016, 122),
     (0xc000, 38), (0xc000, 42), (0xc000, 44), (0xc000, 59), (0xc000, 88), (0xc000, 90), (0x4b, 0), (0x4e, 0)],
    \<comment> \<open>65\<close>
    [(0x8002, 119), (0x8009, 119), (0x8017, 119), (0xc028, 119), (0x8002, 120), (0x8009, 120), (0x8017, 120), (0xc028, 120),
     (0x8002, 121), (0x8009, 121), (0x8017, 121), (0xc028, 121), (0x8002, 122), (0x8009, 122), (0x8017, 122), (0xc028, 122)],
    \<comment> \<open>66\<close>
    [(0x8003, 119), (0x8006, 119), (0x800a, 119), (0x800f, 119), (0x8018, 119), (0x801f, 119), (0x8029, 119), (0xc038, 119),
     (0x8003, 120), (0x8006, 120), (0x800a, 120), (0x800f, 120), (0x8018, 120), (0x801f, 120), (0x8029, 120), (0xc038, 120)],
    \<comment> \<open>67\<close>
    [(0x8003, 121), (0x8006, 121), (0x800a, 121), (0x800f, 121), (0x8018, 121), (0x801f, 121), (0x8029, 121), (0xc038, 121),
     (0x8003, 122), (0x8006, 122), (0x800a, 122), (0x800f, 122), (0x8018, 122), (0x801f, 122), (0x8029, 122), (0xc038, 122)],
    \<comment> \<open>68\<close>
    [(0x8001, 38), (0xc016, 38), (0x8001, 42), (0xc016, 42), (0x8001, 44), (0xc016, 44), (0x8001, 59), (0xc016, 59),
     (0x8001, 88), (0xc016, 88), (0x8001, 90), (0xc016, 90), (0x4c, 0), (0x4d, 0), (0x4f, 0), (0x51, 0)],
    \<comment> \<open>69\<close>
    [(0x8002, 38), (0x8009, 38), (0x8017, 38), (0xc028, 38), (0x8002, 42), (0x8009, 42), (0x8017, 42), (0xc028, 42),
     (0x8002, 44), (0x8009, 44), (0x8017, 44), (0xc028, 44), (0x8002, 59), (0x8009, 59), (0x8017, 59), (0xc028, 59)],
    \<comment> \<open>70\<close>
    [(0x8003, 38), (0x8006, 38), (0x800a, 38), (0x800f, 38), (0x8018, 38), (0x801f, 38), (0x8029, 38), (0xc038, 38),
     (0x8003, 42), (0x8006, 42), (0x800a, 42), (0x800f, 42), (0x8018, 42), (0x801f, 42), (0x8029, 42), (0xc038, 42)],
    \<comment> \<open>71\<close>
    [(0x8003, 44), (0x8006, 44), (0x800a, 44), (0x800f, 44), (0x8018, 44), (0x801f, 44), (0x8029, 44), (0xc038, 44),
     (0x8003, 59), (0x8006, 59), (0x800a, 59), (0x800f, 59), (0x8018, 59), (0x801f, 59), (0x8029, 59), (0xc038, 59)]]"

definition huff_decode_rows_72_79 :: "http2_huff_decode list list" where
  "huff_decode_rows_72_79 = [
    \<comment> \<open>72\<close>
    [(0x8002, 88), (0x8009, 88), (0x8017, 88), (0xc028, 88), (0x8002, 90), (0x8009, 90), (0x8017, 90), (0xc028, 90),
     (0xc000, 33), (0xc000, 34), (0xc000, 40), (0xc000, 41), (0xc000, 63), (0x50, 0), (0x52, 0), (0x54, 0)],
    \<comment> \<open>73\<close>
    [(0x8003, 88), (0x8006, 88), (0x800a, 88), (0x800f, 88), (0x8018, 88), (0x801f, 88), (0x8029, 88), (0xc038, 88),
     (0x8003, 90), (0x8006, 90), (0x800a, 90), (0x800f, 90), (0x8018, 90), (0x801f, 90), (0x8029, 90), (0xc038, 90)],
    \<comment> \<open>74\<close>
    [(0x8001, 33), (0xc016, 33), (0x8001, 34), (0xc016, 34), (0x8001, 40), (0xc016, 40), (0x8001, 41), (0xc016, 41),
     (0x8001, 63), (0xc016, 63), (0xc000, 39), (0xc000, 43), (0xc000, 124), (0x53, 0), (0x55, 0), (0x58, 0)],
    \<comment> \<open>75\<close>
    [(0x8002, 33), (0x8009, 33), (0x8017, 33), (0xc028, 33), (0x8002, 34), (0x8009, 34), (0x8017, 34), (0xc028, 34),
     (0x8002, 40), (0x8009, 40), (0x8017, 40), (0xc028, 40), (0x8002, 41), (0x8009, 41), (0x8017, 41), (0xc028, 41)],
    \<comment> \<open>76\<close>
    [(0x8003, 33), (0x8006, 33), (0x800a, 33), (0x800f, 33), (0x8018, 33), (0x801f, 33), (0x8029, 33), (0xc038, 33),
     (0x8003, 34), (0x8006, 34), (0x800a, 34), (0x800f, 34), (0x8018, 34), (0x801f, 34), (0x8029, 34), (0xc038, 34)],
    \<comment> \<open>77\<close>
    [(0x8003, 40), (0x8006, 40), (0x800a, 40), (0x800f, 40), (0x8018, 40), (0x801f, 40), (0x8029, 40), (0xc038, 40),
     (0x8003, 41), (0x8006, 41), (0x800a, 41), (0x800f, 41), (0x8018, 41), (0x801f, 41), (0x8029, 41), (0xc038, 41)],
    \<comment> \<open>78\<close>
    [(0x8002, 63), (0x8009, 63), (0x8017, 63), (0xc028, 63), (0x8001, 39), (0xc016, 39), (0x8001, 43), (0xc016, 43),
     (0x8001, 124), (0xc016, 124), (0xc000, 35), (0xc000, 62), (0x56, 0), (0x57, 0), (0x59, 0), (0x5a, 0)],
    \<comment> \<open>79\<close>
    [(0x8003, 63), (0x8006, 63), (0x800a, 63), (0x800f, 63), (0x8018, 63), (0x801f, 63), (0x8029, 63), (0xc038, 63),
     (0x8002, 39), (0x8009, 39), (0x8017, 39), (0xc028, 39), (0x8002, 43), (0x8009, 43), (0x8017, 43), (0xc028, 43)]]"

definition huff_decode_rows_80_87 :: "http2_huff_decode list list" where
  "huff_decode_rows_80_87 = [
    \<comment> \<open>80\<close>
    [(0x8003, 39), (0x8006, 39), (0x800a, 39), (0x800f, 39), (0x8018, 39), (0x801f, 39), (0x8029, 39), (0xc038, 39),
     (0x8003, 43), (0x8006, 43), (0x800a, 43), (0x800f, 43), (0x8018, 43), (0x801f, 43), (0x8029, 43), (0xc038, 43)],
    \<comment> \<open>81\<close>
    [(0x8002, 124), (0x8009, 124), (0x8017, 124), (0xc028, 124), (0x8001, 35), (0xc016, 35), (0x8001, 62), (0xc016, 62),
     (0xc000, 0), (0xc000, 36), (0xc000, 64), (0xc000, 91), (0xc000, 93), (0xc000, 126), (0x5b, 0), (0x5c, 0)],
    \<comment> \<open>82\<close>
    [(0x8003, 124), (0x8006, 124), (0x800a, 124), (0x800f, 124), (0x8018, 124), (0x801f, 124), (0x8029, 124), (0xc038, 124),
     (0x8002, 35), (0x8009, 35), (0x8017, 35), (0xc028, 35), (0x8002, 62), (0x8009, 62), (0x8017, 62), (0xc028, 62)],
    \<comment> \<open>83\<close>
    [(0x8003, 35), (0x8006, 35), (0x800a, 35), (0x800f, 35), (0x8018, 35), (0x801f, 35), (0x8029, 35), (0xc038, 35),
     (0x8003, 62), (0x8006, 62), (0x800a, 62), (0x800f, 62), (0x8018, 62), (0x801f, 62), (0x8029, 62), (0xc038, 62)],
    \<comment> \<open>84\<close>
    [(0x8001, 0), (0xc016, 0), (0x8001, 36), (0xc016, 36), (0x8001, 64), (0xc016, 64), (0x8001, 91), (0xc016, 91),
     (0x8001, 93), (0xc016, 93), (0x8001, 126), (0xc016, 126), (0xc000, 94), (0xc000, 125), (0x5d, 0), (0x5e, 0)],
    \<comment> \<open>85\<close>
    [(0x8002, 0), (0x8009, 0), (0x8017, 0), (0xc028, 0), (0x8002, 36), (0x8009, 36), (0x8017, 36), (0xc028, 36),
     (0x8002, 64), (0x8009, 64), (0x8017, 64), (0xc028, 64), (0x8002, 91), (0x8009, 91), (0x8017, 91), (0xc028, 91)],
    \<comment> \<open>86\<close>
    [(0x8003, 0), (0x8006, 0), (0x800a, 0), (0x800f, 0), (0x8018, 0), (0x801f, 0), (0x8029, 0), (0xc038, 0),
     (0x8003, 36), (0x8006, 36), (0x800a, 36), (0x800f, 36), (0x8018, 36), (0x801f, 36), (0x8029, 36), (0xc038, 36)],
    \<comment> \<open>87\<close>
    [(0x8003, 64), (0x8006, 64), (0x800a, 64), (0x800f, 64), (0x8018, 64), (0x801f, 64), (0x8029, 64), (0xc038, 64),
     (0x8003, 91), (0x8006, 91), (0x800a, 91), (0x800f, 91), (0x8018, 91), (0x801f, 91), (0x8029, 91), (0xc038, 91)]]"

definition huff_decode_rows_88_95 :: "http2_huff_decode list list" where
  "huff_decode_rows_88_95 = [
    \<comment> \<open>88\<close>
    [(0x8002, 93), (0x8009, 93), (0x8017, 93), (0xc028, 93), (0x8002, 126), (0x8009, 126), (0x8017, 126), (0xc028, 126),
     (0x8001, 94), (0xc016, 94), (0x8001, 125), (0xc016, 125), (0xc000, 60), (0xc000, 96), (0xc000, 123), (0x5f, 0)],
    \<comment> \<open>89\<close>
    [(0x8003, 93), (0x8006, 93), (0x800a, 93), (0x800f, 93), (0x8018, 93), (0x801f, 93), (0x8029, 93), (0xc038, 93),
     (0x8003, 126), (0x8006, 126), (0x800a, 126), (0x800f, 126), (0x8018, 126), (0x801f, 126), (0x8029, 126), (0xc038, 126)],
    \<comment> \<open>90\<close>
    [(0x8002, 94), (0x8009, 94), (0x8017, 94), (0xc028, 94), (0x8002, 125), (0x8009, 125), (0x8017, 125), (0xc028, 125),
     (0x8001, 60), (0xc016, 60), (0x8001, 96), (0xc016, 96), (0x8001, 123), (0xc016, 123), (0x60, 0), (0x6e, 0)],
    \<comment> \<open>91\<close>
    [(0x8003, 94), (0x8006, 94), (0x800a, 94), (0x800f, 94), (0x8018, 94), (0x801f, 94), (0x8029, 94), (0xc038, 94),
     (0x8003, 125), (0x8006, 125), (0x800a, 125), (0x800f, 125), (0x8018, 125), (0x801f, 125), (0x8029, 125), (0xc038, 125)],
    \<comment> \<open>92\<close>
    [(0x8002, 60), (0x8009, 60), (0x8017, 60), (0xc028, 60), (0x8002, 96), (0x8009, 96), (0x8017, 96), (0xc028, 96),
     (0x8002, 123), (0x8009, 123), (0x8017, 123), (0xc028, 123), (0x61, 0), (0x65, 0), (0x6f, 0), (0x85, 0)],
    \<comment> \<open>93\<close>
    [(0x8003, 60), (0x8006, 60), (0x800a, 60), (0x800f, 60), (0x8018, 60), (0x801f, 60), (0x8029, 60), (0xc038, 60),
     (0x8003, 96), (0x8006, 96), (0x800a, 96), (0x800f, 96), (0x8018, 96), (0x801f, 96), (0x8029, 96), (0xc038, 96)],
    \<comment> \<open>94\<close>
    [(0x8003, 123), (0x8006, 123), (0x800a, 123), (0x800f, 123), (0x8018, 123), (0x801f, 123), (0x8029, 123), (0xc038, 123),
     (0x62, 0), (0x63, 0), (0x66, 0), (0x69, 0), (0x70, 0), (0x77, 0), (0x86, 0), (0x99, 0)],
    \<comment> \<open>95\<close>
    [(0xc000, 92), (0xc000, 195), (0xc000, 208), (0x64, 0), (0x67, 0), (0x68, 0), (0x6a, 0), (0x6b, 0),
     (0x71, 0), (0x74, 0), (0x78, 0), (0x7e, 0), (0x87, 0), (0x8e, 0), (0x9a, 0), (0xa9, 0)]]"

definition huff_decode_rows_96_103 :: "http2_huff_decode list list" where
  "huff_decode_rows_96_103 = [
    \<comment> \<open>96\<close>
    [(0x8001, 92), (0xc016, 92), (0x8001, 195), (0xc016, 195), (0x8001, 208), (0xc016, 208), (0xc000, 128), (0xc000, 130),
     (0xc000, 131), (0xc000, 162), (0xc000, 184), (0xc000, 194), (0xc000, 224), (0xc000, 226), (0x6c, 0), (0x6d, 0)],
    \<comment> \<open>97\<close>
    [(0x8002, 92), (0x8009, 92), (0x8017, 92), (0xc028, 92), (0x8002, 195), (0x8009, 195), (0x8017, 195), (0xc028, 195),
     (0x8002, 208), (0x8009, 208), (0x8017, 208), (0xc028, 208), (0x8001, 128), (0xc016, 128), (0x8001, 130), (0xc016, 130)],
    \<comment> \<open>98\<close>
    [(0x8003, 92), (0x8006, 92), (0x800a, 92), (0x800f, 92), (0x8018, 92), (0x801f, 92), (0x8029, 92), (0xc038, 92),
     (0x8003, 195), (0x8006, 195), (0x800a, 195), (0x800f, 195), (0x8018, 195), (0x801f, 195), (0x8029, 195), (0xc038, 195)],
    \<comment> \<open>99\<close>
    [(0x8003, 208), (0x8006, 208), (0x800a, 208), (0x800f, 208), (0x8018, 208), (0x801f, 208), (0x8029, 208), (0xc038, 208),
     (0x8002, 128), (0x8009, 128), (0x8017, 128), (0xc028, 128), (0x8002, 130), (0x8009, 130), (0x8017, 130), (0xc028, 130)],
    \<comment> \<open>100\<close>
    [(0x8003, 128), (0x8006, 128), (0x800a, 128), (0x800f, 128), (0x8018, 128), (0x801f, 128), (0x8029, 128), (0xc038, 128),
     (0x8003, 130), (0x8006, 130), (0x800a, 130), (0x800f, 130), (0x8018, 130), (0x801f, 130), (0x8029, 130), (0xc038, 130)],
    \<comment> \<open>101\<close>
    [(0x8001, 131), (0xc016, 131), (0x8001, 162), (0xc016, 162), (0x8001, 184), (0xc016, 184), (0x8001, 194), (0xc016, 194),
     (0x8001, 224), (0xc016, 224), (0x8001, 226), (0xc016, 226), (0xc000, 153), (0xc000, 161), (0xc000, 167), (0xc000, 172)],
    \<comment> \<open>102\<close>
    [(0x8002, 131), (0x8009, 131), (0x8017, 131), (0xc028, 131), (0x8002, 162), (0x8009, 162), (0x8017, 162), (0xc028, 162),
     (0x8002, 184), (0x8009, 184), (0x8017, 184), (0xc028, 184), (0x8002, 194), (0x8009, 194), (0x8017, 194), (0xc028, 194)],
    \<comment> \<open>103\<close>
    [(0x8003, 131), (0x8006, 131), (0x800a, 131), (0x800f, 131), (0x8018, 131), (0x801f, 131), (0x8029, 131), (0xc038, 131),
     (0x8003, 162), (0x8006, 162), (0x800a, 162), (0x800f, 162), (0x8018, 162), (0x801f, 162), (0x8029, 162), (0xc038, 162)]]"

definition huff_decode_rows_104_111 :: "http2_huff_decode list list" where
  "huff_decode_rows_104_111 = [
    \<comment> \<open>104\<close>
    [(0x8003, 184), (0x8006, 184), (0x800a, 184), (0x800f, 184), (0x8018, 184), (0x801f, 184), (0x8029, 184), (0xc038, 184),
     (0x8003, 194), (0x8006, 194), (0x800a, 194), (0x800f, 194), (0x8018, 194), (0x801f, 194), (0x8029, 194), (0xc038, 194)],
    \<comment> \<open>105\<close>
    [(0x8002, 224), (0x8009, 224), (0x8017, 224), (0xc028, 224), (0x8002, 226), (0x8009, 226), (0x8017, 226), (0xc028, 226),
     (0x8001, 153), (0xc016, 153), (0x8001, 161), (0xc016, 161), (0x8001, 167), (0xc016, 167), (0x8001, 172), (0xc016, 172)],
    \<comment> \<open>106\<close>
    [(0x8003, 224), (0x8006, 224), (0x800a, 224), (0x800f, 224), (0x8018, 224), (0x801f, 224), (0x8029, 224), (0xc038, 224),
     (0x8003, 226), (0x8006, 226), (0x800a, 226), (0x800f, 226), (0x8018, 226), (0x801f, 226), (0x8029, 226), (0xc038, 226)],
    \<comment> \<open>107\<close>
    [(0x8002, 153), (0x8009, 153), (0x8017, 153), (0xc028, 153), (0x8002, 161), (0x8009, 161), (0x8017, 161), (0xc028, 161),
     (0x8002, 167), (0x8009, 167), (0x8017, 167), (0xc028, 167), (0x8002, 172), (0x8009, 172), (0x8017, 172), (0xc028, 172)],
    \<comment> \<open>108\<close>
    [(0x8003, 153), (0x8006, 153), (0x800a, 153), (0x800f, 153), (0x8018, 153), (0x801f, 153), (0x8029, 153), (0xc038, 153),
     (0x8003, 161), (0x8006, 161), (0x800a, 161), (0x800f, 161), (0x8018, 161), (0x801f, 161), (0x8029, 161), (0xc038, 161)],
    \<comment> \<open>109\<close>
    [(0x8003, 167), (0x8006, 167), (0x800a, 167), (0x800f, 167), (0x8018, 167), (0x801f, 167), (0x8029, 167), (0xc038, 167),
     (0x8003, 172), (0x8006, 172), (0x800a, 172), (0x800f, 172), (0x8018, 172), (0x801f, 172), (0x8029, 172), (0xc038, 172)],
    \<comment> \<open>110\<close>
    [(0x72, 0), (0x73, 0), (0x75, 0), (0x76, 0), (0x79, 0), (0x7b, 0), (0x7f, 0), (0x82, 0),
     (0x88, 0), (0x8b, 0), (0x8f, 0), (0x92, 0), (0x9b, 0), (0xa2, 0), (0xaa, 0), (0xb4, 0)],
    \<comment> \<open>111\<close>
    [(0xc000, 176), (0xc000, 177), (0xc000, 179), (0xc000, 209), (0xc000, 216), (0xc000, 217), (0xc000, 227), (0xc000, 229),
     (0xc000, 230), (0x7a, 0), (0x7c, 0), (0x7d, 0), (0x80, 0), (0x81, 0), (0x83, 0), (0x84, 0)]]"

definition huff_decode_rows_112_119 :: "http2_huff_decode list list" where
  "huff_decode_rows_112_119 = [
    \<comment> \<open>112\<close>
    [(0x8001, 176), (0xc016, 176), (0x8001, 177), (0xc016, 177), (0x8001, 179), (0xc016, 179), (0x8001, 209), (0xc016, 209),
     (0x8001, 216), (0xc016, 216), (0x8001, 217), (0xc016, 217), (0x8001, 227), (0xc016, 227), (0x8001, 229), (0xc016, 229)],
    \<comment> \<open>113\<close>
    [(0x8002, 176), (0x8009, 176), (0x8017, 176), (0xc028, 176), (0x8002, 177), (0x8009, 177), (0x8017, 177), (0xc028, 177),
     (0x8002, 179), (0x8009, 179), (0x8017, 179), (0xc028, 179), (0x8002, 209), (0x8009, 209), (0x8017, 209), (0xc028, 209)],
    \<comment> \<open>114\<close>
    [(0x8003, 176), (0x8006, 176), (0x800a, 176), (0x800f, 176), (0x8018, 176), (0x801f, 176), (0x8029, 176), (0xc038, 176),
     (0x8003, 177), (0x8006, 177), (0x800a, 177), (0x800f, 177), (0x8018, 177), (0x801f, 177), (0x8029, 177), (0xc038, 177)],
    \<comment> \<open>115\<close>
    [(0x8003, 179), (0x8006, 179), (0x800a, 179), (0x800f, 179), (0x8018, 179), (0x801f, 179), (0x8029, 179), (0xc038, 179),
     (0x8003, 209), (0x8006, 209), (0x800a, 209), (0x800f, 209), (0x8018, 209), (0x801f, 209), (0x8029, 209), (0xc038, 209)],
    \<comment> \<open>116\<close>
    [(0x8002, 216), (0x8009, 216), (0x8017, 216), (0xc028, 216), (0x8002, 217), (0x8009, 217), (0x8017, 217), (0xc028, 217),
     (0x8002, 227), (0x8009, 227), (0x8017, 227), (0xc028, 227), (0x8002, 229), (0x8009, 229), (0x8017, 229), (0xc028, 229)],
    \<comment> \<open>117\<close>
    [(0x8003, 216), (0x8006, 216), (0x800a, 216), (0x800f, 216), (0x8018, 216), (0x801f, 216), (0x8029, 216), (0xc038, 216),
     (0x8003, 217), (0x8006, 217), (0x800a, 217), (0x800f, 217), (0x8018, 217), (0x801f, 217), (0x8029, 217), (0xc038, 217)],
    \<comment> \<open>118\<close>
    [(0x8003, 227), (0x8006, 227), (0x800a, 227), (0x800f, 227), (0x8018, 227), (0x801f, 227), (0x8029, 227), (0xc038, 227),
     (0x8003, 229), (0x8006, 229), (0x800a, 229), (0x800f, 229), (0x8018, 229), (0x801f, 229), (0x8029, 229), (0xc038, 229)],
    \<comment> \<open>119\<close>
    [(0x8001, 230), (0xc016, 230), (0xc000, 129), (0xc000, 132), (0xc000, 133), (0xc000, 134), (0xc000, 136), (0xc000, 146),
     (0xc000, 154), (0xc000, 156), (0xc000, 160), (0xc000, 163), (0xc000, 164), (0xc000, 169), (0xc000, 170), (0xc000, 173)]]"

definition huff_decode_rows_120_127 :: "http2_huff_decode list list" where
  "huff_decode_rows_120_127 = [
    \<comment> \<open>120\<close>
    [(0x8002, 230), (0x8009, 230), (0x8017, 230), (0xc028, 230), (0x8001, 129), (0xc016, 129), (0x8001, 132), (0xc016, 132),
     (0x8001, 133), (0xc016, 133), (0x8001, 134), (0xc016, 134), (0x8001, 136), (0xc016, 136), (0x8001, 146), (0xc016, 146)],
    \<comment> \<open>121\<close>
    [(0x8003, 230), (0x8006, 230), (0x800a, 230), (0x800f, 230), (0x8018, 230), (0x801f, 230), (0x8029, 230), (0xc038, 230),
     (0x8002, 129), (0x8009, 129), (0x8017, 129), (0xc028, 129), (0x8002, 132), (0x8009, 132), (0x8017, 132), (0xc028, 132)],
    \<comment> \<open>122\<close>
    [(0x8003, 129), (0x8006, 129), (0x800a, 129), (0x800f, 129), (0x8018, 129), (0x801f, 129), (0x8029, 129), (0xc038, 129),
     (0x8003, 132), (0x8006, 132), (0x800a, 132), (0x800f, 132), (0x8018, 132), (0x801f, 132), (0x8029, 132), (0xc038, 132)],
    \<comment> \<open>123\<close>
    [(0x8002, 133), (0x8009, 133), (0x8017, 133), (0xc028, 133), (0x8002, 134), (0x8009, 134), (0x8017, 134), (0xc028, 134),
     (0x8002, 136), (0x8009, 136), (0x8017, 136), (0xc028, 136), (0x8002, 146), (0x8009, 146), (0x8017, 146), (0xc028, 146)],
    \<comment> \<open>124\<close>
    [(0x8003, 133), (0x8006, 133), (0x800a, 133), (0x800f, 133), (0x8018, 133), (0x801f, 133), (0x8029, 133), (0xc038, 133),
     (0x8003, 134), (0x8006, 134), (0x800a, 134), (0x800f, 134), (0x8018, 134), (0x801f, 134), (0x8029, 134), (0xc038, 134)],
    \<comment> \<open>125\<close>
    [(0x8003, 136), (0x8006, 136), (0x800a, 136), (0x800f, 136), (0x8018, 136), (0x801f, 136), (0x8029, 136), (0xc038, 136),
     (0x8003, 146), (0x8006, 146), (0x800a, 146), (0x800f, 146), (0x8018, 146), (0x801f, 146), (0x8029, 146), (0xc038, 146)],
    \<comment> \<open>126\<close>
    [(0x8001, 154), (0xc016, 154), (0x8001, 156), (0xc016, 156), (0x8001, 160), (0xc016, 160), (0x8001, 163), (0xc016, 163),
     (0x8001, 164), (0xc016, 164), (0x8001, 169), (0xc016, 169), (0x8001, 170), (0xc016, 170), (0x8001, 173), (0xc016, 173)],
    \<comment> \<open>127\<close>
    [(0x8002, 154), (0x8009, 154), (0x8017, 154), (0xc028, 154), (0x8002, 156), (0x8009, 156), (0x8017, 156), (0xc028, 156),
     (0x8002, 160), (0x8009, 160), (0x8017, 160), (0xc028, 160), (0x8002, 163), (0x8009, 163), (0x8017, 163), (0xc028, 163)]]"

end
