(* ===== verification/Huffman_Table_B.thy ===== *)
theory Huffman_Table_B
  imports Huffman_State
begin

text \<open>
  Rows 128 to 256 of \<^verbatim>\<open>huff_decode_table\<close> of \<^verbatim>\<open>src/hpack/huffman_data.cc\<close>, the state
  machine that reads four bits at a time: an entry is the next state with its two flags and
  the symbol it emits. The literals are the source's, row by row.
\<close>

definition huff_decode_rows_128_135 :: "http2_huff_decode list list" where
  "huff_decode_rows_128_135 = [
    \<comment> \<open>128\<close>
    [(0x8003, 154), (0x8006, 154), (0x800a, 154), (0x800f, 154), (0x8018, 154), (0x801f, 154), (0x8029, 154), (0xc038, 154),
     (0x8003, 156), (0x8006, 156), (0x800a, 156), (0x800f, 156), (0x8018, 156), (0x801f, 156), (0x8029, 156), (0xc038, 156)],
    \<comment> \<open>129\<close>
    [(0x8003, 160), (0x8006, 160), (0x800a, 160), (0x800f, 160), (0x8018, 160), (0x801f, 160), (0x8029, 160), (0xc038, 160),
     (0x8003, 163), (0x8006, 163), (0x800a, 163), (0x800f, 163), (0x8018, 163), (0x801f, 163), (0x8029, 163), (0xc038, 163)],
    \<comment> \<open>130\<close>
    [(0x8002, 164), (0x8009, 164), (0x8017, 164), (0xc028, 164), (0x8002, 169), (0x8009, 169), (0x8017, 169), (0xc028, 169),
     (0x8002, 170), (0x8009, 170), (0x8017, 170), (0xc028, 170), (0x8002, 173), (0x8009, 173), (0x8017, 173), (0xc028, 173)],
    \<comment> \<open>131\<close>
    [(0x8003, 164), (0x8006, 164), (0x800a, 164), (0x800f, 164), (0x8018, 164), (0x801f, 164), (0x8029, 164), (0xc038, 164),
     (0x8003, 169), (0x8006, 169), (0x800a, 169), (0x800f, 169), (0x8018, 169), (0x801f, 169), (0x8029, 169), (0xc038, 169)],
    \<comment> \<open>132\<close>
    [(0x8003, 170), (0x8006, 170), (0x800a, 170), (0x800f, 170), (0x8018, 170), (0x801f, 170), (0x8029, 170), (0xc038, 170),
     (0x8003, 173), (0x8006, 173), (0x800a, 173), (0x800f, 173), (0x8018, 173), (0x801f, 173), (0x8029, 173), (0xc038, 173)],
    \<comment> \<open>133\<close>
    [(0x89, 0), (0x8a, 0), (0x8c, 0), (0x8d, 0), (0x90, 0), (0x91, 0), (0x93, 0), (0x96, 0),
     (0x9c, 0), (0x9f, 0), (0xa3, 0), (0xa6, 0), (0xab, 0), (0xae, 0), (0xb5, 0), (0xbe, 0)],
    \<comment> \<open>134\<close>
    [(0xc000, 178), (0xc000, 181), (0xc000, 185), (0xc000, 186), (0xc000, 187), (0xc000, 189), (0xc000, 190), (0xc000, 196),
     (0xc000, 198), (0xc000, 228), (0xc000, 232), (0xc000, 233), (0x94, 0), (0x95, 0), (0x97, 0), (0x98, 0)],
    \<comment> \<open>135\<close>
    [(0x8001, 178), (0xc016, 178), (0x8001, 181), (0xc016, 181), (0x8001, 185), (0xc016, 185), (0x8001, 186), (0xc016, 186),
     (0x8001, 187), (0xc016, 187), (0x8001, 189), (0xc016, 189), (0x8001, 190), (0xc016, 190), (0x8001, 196), (0xc016, 196)]]"

definition huff_decode_rows_136_143 :: "http2_huff_decode list list" where
  "huff_decode_rows_136_143 = [
    \<comment> \<open>136\<close>
    [(0x8002, 178), (0x8009, 178), (0x8017, 178), (0xc028, 178), (0x8002, 181), (0x8009, 181), (0x8017, 181), (0xc028, 181),
     (0x8002, 185), (0x8009, 185), (0x8017, 185), (0xc028, 185), (0x8002, 186), (0x8009, 186), (0x8017, 186), (0xc028, 186)],
    \<comment> \<open>137\<close>
    [(0x8003, 178), (0x8006, 178), (0x800a, 178), (0x800f, 178), (0x8018, 178), (0x801f, 178), (0x8029, 178), (0xc038, 178),
     (0x8003, 181), (0x8006, 181), (0x800a, 181), (0x800f, 181), (0x8018, 181), (0x801f, 181), (0x8029, 181), (0xc038, 181)],
    \<comment> \<open>138\<close>
    [(0x8003, 185), (0x8006, 185), (0x800a, 185), (0x800f, 185), (0x8018, 185), (0x801f, 185), (0x8029, 185), (0xc038, 185),
     (0x8003, 186), (0x8006, 186), (0x800a, 186), (0x800f, 186), (0x8018, 186), (0x801f, 186), (0x8029, 186), (0xc038, 186)],
    \<comment> \<open>139\<close>
    [(0x8002, 187), (0x8009, 187), (0x8017, 187), (0xc028, 187), (0x8002, 189), (0x8009, 189), (0x8017, 189), (0xc028, 189),
     (0x8002, 190), (0x8009, 190), (0x8017, 190), (0xc028, 190), (0x8002, 196), (0x8009, 196), (0x8017, 196), (0xc028, 196)],
    \<comment> \<open>140\<close>
    [(0x8003, 187), (0x8006, 187), (0x800a, 187), (0x800f, 187), (0x8018, 187), (0x801f, 187), (0x8029, 187), (0xc038, 187),
     (0x8003, 189), (0x8006, 189), (0x800a, 189), (0x800f, 189), (0x8018, 189), (0x801f, 189), (0x8029, 189), (0xc038, 189)],
    \<comment> \<open>141\<close>
    [(0x8003, 190), (0x8006, 190), (0x800a, 190), (0x800f, 190), (0x8018, 190), (0x801f, 190), (0x8029, 190), (0xc038, 190),
     (0x8003, 196), (0x8006, 196), (0x800a, 196), (0x800f, 196), (0x8018, 196), (0x801f, 196), (0x8029, 196), (0xc038, 196)],
    \<comment> \<open>142\<close>
    [(0x8001, 198), (0xc016, 198), (0x8001, 228), (0xc016, 228), (0x8001, 232), (0xc016, 232), (0x8001, 233), (0xc016, 233),
     (0xc000, 1), (0xc000, 135), (0xc000, 137), (0xc000, 138), (0xc000, 139), (0xc000, 140), (0xc000, 141), (0xc000, 143)],
    \<comment> \<open>143\<close>
    [(0x8002, 198), (0x8009, 198), (0x8017, 198), (0xc028, 198), (0x8002, 228), (0x8009, 228), (0x8017, 228), (0xc028, 228),
     (0x8002, 232), (0x8009, 232), (0x8017, 232), (0xc028, 232), (0x8002, 233), (0x8009, 233), (0x8017, 233), (0xc028, 233)]]"

definition huff_decode_rows_144_151 :: "http2_huff_decode list list" where
  "huff_decode_rows_144_151 = [
    \<comment> \<open>144\<close>
    [(0x8003, 198), (0x8006, 198), (0x800a, 198), (0x800f, 198), (0x8018, 198), (0x801f, 198), (0x8029, 198), (0xc038, 198),
     (0x8003, 228), (0x8006, 228), (0x800a, 228), (0x800f, 228), (0x8018, 228), (0x801f, 228), (0x8029, 228), (0xc038, 228)],
    \<comment> \<open>145\<close>
    [(0x8003, 232), (0x8006, 232), (0x800a, 232), (0x800f, 232), (0x8018, 232), (0x801f, 232), (0x8029, 232), (0xc038, 232),
     (0x8003, 233), (0x8006, 233), (0x800a, 233), (0x800f, 233), (0x8018, 233), (0x801f, 233), (0x8029, 233), (0xc038, 233)],
    \<comment> \<open>146\<close>
    [(0x8001, 1), (0xc016, 1), (0x8001, 135), (0xc016, 135), (0x8001, 137), (0xc016, 137), (0x8001, 138), (0xc016, 138),
     (0x8001, 139), (0xc016, 139), (0x8001, 140), (0xc016, 140), (0x8001, 141), (0xc016, 141), (0x8001, 143), (0xc016, 143)],
    \<comment> \<open>147\<close>
    [(0x8002, 1), (0x8009, 1), (0x8017, 1), (0xc028, 1), (0x8002, 135), (0x8009, 135), (0x8017, 135), (0xc028, 135),
     (0x8002, 137), (0x8009, 137), (0x8017, 137), (0xc028, 137), (0x8002, 138), (0x8009, 138), (0x8017, 138), (0xc028, 138)],
    \<comment> \<open>148\<close>
    [(0x8003, 1), (0x8006, 1), (0x800a, 1), (0x800f, 1), (0x8018, 1), (0x801f, 1), (0x8029, 1), (0xc038, 1),
     (0x8003, 135), (0x8006, 135), (0x800a, 135), (0x800f, 135), (0x8018, 135), (0x801f, 135), (0x8029, 135), (0xc038, 135)],
    \<comment> \<open>149\<close>
    [(0x8003, 137), (0x8006, 137), (0x800a, 137), (0x800f, 137), (0x8018, 137), (0x801f, 137), (0x8029, 137), (0xc038, 137),
     (0x8003, 138), (0x8006, 138), (0x800a, 138), (0x800f, 138), (0x8018, 138), (0x801f, 138), (0x8029, 138), (0xc038, 138)],
    \<comment> \<open>150\<close>
    [(0x8002, 139), (0x8009, 139), (0x8017, 139), (0xc028, 139), (0x8002, 140), (0x8009, 140), (0x8017, 140), (0xc028, 140),
     (0x8002, 141), (0x8009, 141), (0x8017, 141), (0xc028, 141), (0x8002, 143), (0x8009, 143), (0x8017, 143), (0xc028, 143)],
    \<comment> \<open>151\<close>
    [(0x8003, 139), (0x8006, 139), (0x800a, 139), (0x800f, 139), (0x8018, 139), (0x801f, 139), (0x8029, 139), (0xc038, 139),
     (0x8003, 140), (0x8006, 140), (0x800a, 140), (0x800f, 140), (0x8018, 140), (0x801f, 140), (0x8029, 140), (0xc038, 140)]]"

definition huff_decode_rows_152_159 :: "http2_huff_decode list list" where
  "huff_decode_rows_152_159 = [
    \<comment> \<open>152\<close>
    [(0x8003, 141), (0x8006, 141), (0x800a, 141), (0x800f, 141), (0x8018, 141), (0x801f, 141), (0x8029, 141), (0xc038, 141),
     (0x8003, 143), (0x8006, 143), (0x800a, 143), (0x800f, 143), (0x8018, 143), (0x801f, 143), (0x8029, 143), (0xc038, 143)],
    \<comment> \<open>153\<close>
    [(0x9d, 0), (0x9e, 0), (0xa0, 0), (0xa1, 0), (0xa4, 0), (0xa5, 0), (0xa7, 0), (0xa8, 0),
     (0xac, 0), (0xad, 0), (0xaf, 0), (0xb1, 0), (0xb6, 0), (0xb9, 0), (0xbf, 0), (0xcf, 0)],
    \<comment> \<open>154\<close>
    [(0xc000, 147), (0xc000, 149), (0xc000, 150), (0xc000, 151), (0xc000, 152), (0xc000, 155), (0xc000, 157), (0xc000, 158),
     (0xc000, 165), (0xc000, 166), (0xc000, 168), (0xc000, 174), (0xc000, 175), (0xc000, 180), (0xc000, 182), (0xc000, 183)],
    \<comment> \<open>155\<close>
    [(0x8001, 147), (0xc016, 147), (0x8001, 149), (0xc016, 149), (0x8001, 150), (0xc016, 150), (0x8001, 151), (0xc016, 151),
     (0x8001, 152), (0xc016, 152), (0x8001, 155), (0xc016, 155), (0x8001, 157), (0xc016, 157), (0x8001, 158), (0xc016, 158)],
    \<comment> \<open>156\<close>
    [(0x8002, 147), (0x8009, 147), (0x8017, 147), (0xc028, 147), (0x8002, 149), (0x8009, 149), (0x8017, 149), (0xc028, 149),
     (0x8002, 150), (0x8009, 150), (0x8017, 150), (0xc028, 150), (0x8002, 151), (0x8009, 151), (0x8017, 151), (0xc028, 151)],
    \<comment> \<open>157\<close>
    [(0x8003, 147), (0x8006, 147), (0x800a, 147), (0x800f, 147), (0x8018, 147), (0x801f, 147), (0x8029, 147), (0xc038, 147),
     (0x8003, 149), (0x8006, 149), (0x800a, 149), (0x800f, 149), (0x8018, 149), (0x801f, 149), (0x8029, 149), (0xc038, 149)],
    \<comment> \<open>158\<close>
    [(0x8003, 150), (0x8006, 150), (0x800a, 150), (0x800f, 150), (0x8018, 150), (0x801f, 150), (0x8029, 150), (0xc038, 150),
     (0x8003, 151), (0x8006, 151), (0x800a, 151), (0x800f, 151), (0x8018, 151), (0x801f, 151), (0x8029, 151), (0xc038, 151)],
    \<comment> \<open>159\<close>
    [(0x8002, 152), (0x8009, 152), (0x8017, 152), (0xc028, 152), (0x8002, 155), (0x8009, 155), (0x8017, 155), (0xc028, 155),
     (0x8002, 157), (0x8009, 157), (0x8017, 157), (0xc028, 157), (0x8002, 158), (0x8009, 158), (0x8017, 158), (0xc028, 158)]]"

definition huff_decode_rows_160_167 :: "http2_huff_decode list list" where
  "huff_decode_rows_160_167 = [
    \<comment> \<open>160\<close>
    [(0x8003, 152), (0x8006, 152), (0x800a, 152), (0x800f, 152), (0x8018, 152), (0x801f, 152), (0x8029, 152), (0xc038, 152),
     (0x8003, 155), (0x8006, 155), (0x800a, 155), (0x800f, 155), (0x8018, 155), (0x801f, 155), (0x8029, 155), (0xc038, 155)],
    \<comment> \<open>161\<close>
    [(0x8003, 157), (0x8006, 157), (0x800a, 157), (0x800f, 157), (0x8018, 157), (0x801f, 157), (0x8029, 157), (0xc038, 157),
     (0x8003, 158), (0x8006, 158), (0x800a, 158), (0x800f, 158), (0x8018, 158), (0x801f, 158), (0x8029, 158), (0xc038, 158)],
    \<comment> \<open>162\<close>
    [(0x8001, 165), (0xc016, 165), (0x8001, 166), (0xc016, 166), (0x8001, 168), (0xc016, 168), (0x8001, 174), (0xc016, 174),
     (0x8001, 175), (0xc016, 175), (0x8001, 180), (0xc016, 180), (0x8001, 182), (0xc016, 182), (0x8001, 183), (0xc016, 183)],
    \<comment> \<open>163\<close>
    [(0x8002, 165), (0x8009, 165), (0x8017, 165), (0xc028, 165), (0x8002, 166), (0x8009, 166), (0x8017, 166), (0xc028, 166),
     (0x8002, 168), (0x8009, 168), (0x8017, 168), (0xc028, 168), (0x8002, 174), (0x8009, 174), (0x8017, 174), (0xc028, 174)],
    \<comment> \<open>164\<close>
    [(0x8003, 165), (0x8006, 165), (0x800a, 165), (0x800f, 165), (0x8018, 165), (0x801f, 165), (0x8029, 165), (0xc038, 165),
     (0x8003, 166), (0x8006, 166), (0x800a, 166), (0x800f, 166), (0x8018, 166), (0x801f, 166), (0x8029, 166), (0xc038, 166)],
    \<comment> \<open>165\<close>
    [(0x8003, 168), (0x8006, 168), (0x800a, 168), (0x800f, 168), (0x8018, 168), (0x801f, 168), (0x8029, 168), (0xc038, 168),
     (0x8003, 174), (0x8006, 174), (0x800a, 174), (0x800f, 174), (0x8018, 174), (0x801f, 174), (0x8029, 174), (0xc038, 174)],
    \<comment> \<open>166\<close>
    [(0x8002, 175), (0x8009, 175), (0x8017, 175), (0xc028, 175), (0x8002, 180), (0x8009, 180), (0x8017, 180), (0xc028, 180),
     (0x8002, 182), (0x8009, 182), (0x8017, 182), (0xc028, 182), (0x8002, 183), (0x8009, 183), (0x8017, 183), (0xc028, 183)],
    \<comment> \<open>167\<close>
    [(0x8003, 175), (0x8006, 175), (0x800a, 175), (0x800f, 175), (0x8018, 175), (0x801f, 175), (0x8029, 175), (0xc038, 175),
     (0x8003, 180), (0x8006, 180), (0x800a, 180), (0x800f, 180), (0x8018, 180), (0x801f, 180), (0x8029, 180), (0xc038, 180)]]"

definition huff_decode_rows_168_175 :: "http2_huff_decode list list" where
  "huff_decode_rows_168_175 = [
    \<comment> \<open>168\<close>
    [(0x8003, 182), (0x8006, 182), (0x800a, 182), (0x800f, 182), (0x8018, 182), (0x801f, 182), (0x8029, 182), (0xc038, 182),
     (0x8003, 183), (0x8006, 183), (0x800a, 183), (0x800f, 183), (0x8018, 183), (0x801f, 183), (0x8029, 183), (0xc038, 183)],
    \<comment> \<open>169\<close>
    [(0xc000, 188), (0xc000, 191), (0xc000, 197), (0xc000, 231), (0xc000, 239), (0xb0, 0), (0xb2, 0), (0xb3, 0),
     (0xb7, 0), (0xb8, 0), (0xba, 0), (0xbb, 0), (0xc0, 0), (0xc7, 0), (0xd0, 0), (0xdf, 0)],
    \<comment> \<open>170\<close>
    [(0x8001, 188), (0xc016, 188), (0x8001, 191), (0xc016, 191), (0x8001, 197), (0xc016, 197), (0x8001, 231), (0xc016, 231),
     (0x8001, 239), (0xc016, 239), (0xc000, 9), (0xc000, 142), (0xc000, 144), (0xc000, 145), (0xc000, 148), (0xc000, 159)],
    \<comment> \<open>171\<close>
    [(0x8002, 188), (0x8009, 188), (0x8017, 188), (0xc028, 188), (0x8002, 191), (0x8009, 191), (0x8017, 191), (0xc028, 191),
     (0x8002, 197), (0x8009, 197), (0x8017, 197), (0xc028, 197), (0x8002, 231), (0x8009, 231), (0x8017, 231), (0xc028, 231)],
    \<comment> \<open>172\<close>
    [(0x8003, 188), (0x8006, 188), (0x800a, 188), (0x800f, 188), (0x8018, 188), (0x801f, 188), (0x8029, 188), (0xc038, 188),
     (0x8003, 191), (0x8006, 191), (0x800a, 191), (0x800f, 191), (0x8018, 191), (0x801f, 191), (0x8029, 191), (0xc038, 191)],
    \<comment> \<open>173\<close>
    [(0x8003, 197), (0x8006, 197), (0x800a, 197), (0x800f, 197), (0x8018, 197), (0x801f, 197), (0x8029, 197), (0xc038, 197),
     (0x8003, 231), (0x8006, 231), (0x800a, 231), (0x800f, 231), (0x8018, 231), (0x801f, 231), (0x8029, 231), (0xc038, 231)],
    \<comment> \<open>174\<close>
    [(0x8002, 239), (0x8009, 239), (0x8017, 239), (0xc028, 239), (0x8001, 9), (0xc016, 9), (0x8001, 142), (0xc016, 142),
     (0x8001, 144), (0xc016, 144), (0x8001, 145), (0xc016, 145), (0x8001, 148), (0xc016, 148), (0x8001, 159), (0xc016, 159)],
    \<comment> \<open>175\<close>
    [(0x8003, 239), (0x8006, 239), (0x800a, 239), (0x800f, 239), (0x8018, 239), (0x801f, 239), (0x8029, 239), (0xc038, 239),
     (0x8002, 9), (0x8009, 9), (0x8017, 9), (0xc028, 9), (0x8002, 142), (0x8009, 142), (0x8017, 142), (0xc028, 142)]]"

definition huff_decode_rows_176_183 :: "http2_huff_decode list list" where
  "huff_decode_rows_176_183 = [
    \<comment> \<open>176\<close>
    [(0x8003, 9), (0x8006, 9), (0x800a, 9), (0x800f, 9), (0x8018, 9), (0x801f, 9), (0x8029, 9), (0xc038, 9),
     (0x8003, 142), (0x8006, 142), (0x800a, 142), (0x800f, 142), (0x8018, 142), (0x801f, 142), (0x8029, 142), (0xc038, 142)],
    \<comment> \<open>177\<close>
    [(0x8002, 144), (0x8009, 144), (0x8017, 144), (0xc028, 144), (0x8002, 145), (0x8009, 145), (0x8017, 145), (0xc028, 145),
     (0x8002, 148), (0x8009, 148), (0x8017, 148), (0xc028, 148), (0x8002, 159), (0x8009, 159), (0x8017, 159), (0xc028, 159)],
    \<comment> \<open>178\<close>
    [(0x8003, 144), (0x8006, 144), (0x800a, 144), (0x800f, 144), (0x8018, 144), (0x801f, 144), (0x8029, 144), (0xc038, 144),
     (0x8003, 145), (0x8006, 145), (0x800a, 145), (0x800f, 145), (0x8018, 145), (0x801f, 145), (0x8029, 145), (0xc038, 145)],
    \<comment> \<open>179\<close>
    [(0x8003, 148), (0x8006, 148), (0x800a, 148), (0x800f, 148), (0x8018, 148), (0x801f, 148), (0x8029, 148), (0xc038, 148),
     (0x8003, 159), (0x8006, 159), (0x800a, 159), (0x800f, 159), (0x8018, 159), (0x801f, 159), (0x8029, 159), (0xc038, 159)],
    \<comment> \<open>180\<close>
    [(0xc000, 171), (0xc000, 206), (0xc000, 215), (0xc000, 225), (0xc000, 236), (0xc000, 237), (0xbc, 0), (0xbd, 0),
     (0xc1, 0), (0xc4, 0), (0xc8, 0), (0xcb, 0), (0xd1, 0), (0xd8, 0), (0xe0, 0), (0xee, 0)],
    \<comment> \<open>181\<close>
    [(0x8001, 171), (0xc016, 171), (0x8001, 206), (0xc016, 206), (0x8001, 215), (0xc016, 215), (0x8001, 225), (0xc016, 225),
     (0x8001, 236), (0xc016, 236), (0x8001, 237), (0xc016, 237), (0xc000, 199), (0xc000, 207), (0xc000, 234), (0xc000, 235)],
    \<comment> \<open>182\<close>
    [(0x8002, 171), (0x8009, 171), (0x8017, 171), (0xc028, 171), (0x8002, 206), (0x8009, 206), (0x8017, 206), (0xc028, 206),
     (0x8002, 215), (0x8009, 215), (0x8017, 215), (0xc028, 215), (0x8002, 225), (0x8009, 225), (0x8017, 225), (0xc028, 225)],
    \<comment> \<open>183\<close>
    [(0x8003, 171), (0x8006, 171), (0x800a, 171), (0x800f, 171), (0x8018, 171), (0x801f, 171), (0x8029, 171), (0xc038, 171),
     (0x8003, 206), (0x8006, 206), (0x800a, 206), (0x800f, 206), (0x8018, 206), (0x801f, 206), (0x8029, 206), (0xc038, 206)]]"

definition huff_decode_rows_184_191 :: "http2_huff_decode list list" where
  "huff_decode_rows_184_191 = [
    \<comment> \<open>184\<close>
    [(0x8003, 215), (0x8006, 215), (0x800a, 215), (0x800f, 215), (0x8018, 215), (0x801f, 215), (0x8029, 215), (0xc038, 215),
     (0x8003, 225), (0x8006, 225), (0x800a, 225), (0x800f, 225), (0x8018, 225), (0x801f, 225), (0x8029, 225), (0xc038, 225)],
    \<comment> \<open>185\<close>
    [(0x8002, 236), (0x8009, 236), (0x8017, 236), (0xc028, 236), (0x8002, 237), (0x8009, 237), (0x8017, 237), (0xc028, 237),
     (0x8001, 199), (0xc016, 199), (0x8001, 207), (0xc016, 207), (0x8001, 234), (0xc016, 234), (0x8001, 235), (0xc016, 235)],
    \<comment> \<open>186\<close>
    [(0x8003, 236), (0x8006, 236), (0x800a, 236), (0x800f, 236), (0x8018, 236), (0x801f, 236), (0x8029, 236), (0xc038, 236),
     (0x8003, 237), (0x8006, 237), (0x800a, 237), (0x800f, 237), (0x8018, 237), (0x801f, 237), (0x8029, 237), (0xc038, 237)],
    \<comment> \<open>187\<close>
    [(0x8002, 199), (0x8009, 199), (0x8017, 199), (0xc028, 199), (0x8002, 207), (0x8009, 207), (0x8017, 207), (0xc028, 207),
     (0x8002, 234), (0x8009, 234), (0x8017, 234), (0xc028, 234), (0x8002, 235), (0x8009, 235), (0x8017, 235), (0xc028, 235)],
    \<comment> \<open>188\<close>
    [(0x8003, 199), (0x8006, 199), (0x800a, 199), (0x800f, 199), (0x8018, 199), (0x801f, 199), (0x8029, 199), (0xc038, 199),
     (0x8003, 207), (0x8006, 207), (0x800a, 207), (0x800f, 207), (0x8018, 207), (0x801f, 207), (0x8029, 207), (0xc038, 207)],
    \<comment> \<open>189\<close>
    [(0x8003, 234), (0x8006, 234), (0x800a, 234), (0x800f, 234), (0x8018, 234), (0x801f, 234), (0x8029, 234), (0xc038, 234),
     (0x8003, 235), (0x8006, 235), (0x800a, 235), (0x800f, 235), (0x8018, 235), (0x801f, 235), (0x8029, 235), (0xc038, 235)],
    \<comment> \<open>190\<close>
    [(0xc2, 0), (0xc3, 0), (0xc5, 0), (0xc6, 0), (0xc9, 0), (0xca, 0), (0xcc, 0), (0xcd, 0),
     (0xd2, 0), (0xd5, 0), (0xd9, 0), (0xdc, 0), (0xe1, 0), (0xe7, 0), (0xef, 0), (0xf6, 0)],
    \<comment> \<open>191\<close>
    [(0xc000, 192), (0xc000, 193), (0xc000, 200), (0xc000, 201), (0xc000, 202), (0xc000, 205), (0xc000, 210), (0xc000, 213),
     (0xc000, 218), (0xc000, 219), (0xc000, 238), (0xc000, 240), (0xc000, 242), (0xc000, 243), (0xc000, 255), (0xce, 0)]]"

definition huff_decode_rows_192_199 :: "http2_huff_decode list list" where
  "huff_decode_rows_192_199 = [
    \<comment> \<open>192\<close>
    [(0x8001, 192), (0xc016, 192), (0x8001, 193), (0xc016, 193), (0x8001, 200), (0xc016, 200), (0x8001, 201), (0xc016, 201),
     (0x8001, 202), (0xc016, 202), (0x8001, 205), (0xc016, 205), (0x8001, 210), (0xc016, 210), (0x8001, 213), (0xc016, 213)],
    \<comment> \<open>193\<close>
    [(0x8002, 192), (0x8009, 192), (0x8017, 192), (0xc028, 192), (0x8002, 193), (0x8009, 193), (0x8017, 193), (0xc028, 193),
     (0x8002, 200), (0x8009, 200), (0x8017, 200), (0xc028, 200), (0x8002, 201), (0x8009, 201), (0x8017, 201), (0xc028, 201)],
    \<comment> \<open>194\<close>
    [(0x8003, 192), (0x8006, 192), (0x800a, 192), (0x800f, 192), (0x8018, 192), (0x801f, 192), (0x8029, 192), (0xc038, 192),
     (0x8003, 193), (0x8006, 193), (0x800a, 193), (0x800f, 193), (0x8018, 193), (0x801f, 193), (0x8029, 193), (0xc038, 193)],
    \<comment> \<open>195\<close>
    [(0x8003, 200), (0x8006, 200), (0x800a, 200), (0x800f, 200), (0x8018, 200), (0x801f, 200), (0x8029, 200), (0xc038, 200),
     (0x8003, 201), (0x8006, 201), (0x800a, 201), (0x800f, 201), (0x8018, 201), (0x801f, 201), (0x8029, 201), (0xc038, 201)],
    \<comment> \<open>196\<close>
    [(0x8002, 202), (0x8009, 202), (0x8017, 202), (0xc028, 202), (0x8002, 205), (0x8009, 205), (0x8017, 205), (0xc028, 205),
     (0x8002, 210), (0x8009, 210), (0x8017, 210), (0xc028, 210), (0x8002, 213), (0x8009, 213), (0x8017, 213), (0xc028, 213)],
    \<comment> \<open>197\<close>
    [(0x8003, 202), (0x8006, 202), (0x800a, 202), (0x800f, 202), (0x8018, 202), (0x801f, 202), (0x8029, 202), (0xc038, 202),
     (0x8003, 205), (0x8006, 205), (0x800a, 205), (0x800f, 205), (0x8018, 205), (0x801f, 205), (0x8029, 205), (0xc038, 205)],
    \<comment> \<open>198\<close>
    [(0x8003, 210), (0x8006, 210), (0x800a, 210), (0x800f, 210), (0x8018, 210), (0x801f, 210), (0x8029, 210), (0xc038, 210),
     (0x8003, 213), (0x8006, 213), (0x800a, 213), (0x800f, 213), (0x8018, 213), (0x801f, 213), (0x8029, 213), (0xc038, 213)],
    \<comment> \<open>199\<close>
    [(0x8001, 218), (0xc016, 218), (0x8001, 219), (0xc016, 219), (0x8001, 238), (0xc016, 238), (0x8001, 240), (0xc016, 240),
     (0x8001, 242), (0xc016, 242), (0x8001, 243), (0xc016, 243), (0x8001, 255), (0xc016, 255), (0xc000, 203), (0xc000, 204)]]"

definition huff_decode_rows_200_207 :: "http2_huff_decode list list" where
  "huff_decode_rows_200_207 = [
    \<comment> \<open>200\<close>
    [(0x8002, 218), (0x8009, 218), (0x8017, 218), (0xc028, 218), (0x8002, 219), (0x8009, 219), (0x8017, 219), (0xc028, 219),
     (0x8002, 238), (0x8009, 238), (0x8017, 238), (0xc028, 238), (0x8002, 240), (0x8009, 240), (0x8017, 240), (0xc028, 240)],
    \<comment> \<open>201\<close>
    [(0x8003, 218), (0x8006, 218), (0x800a, 218), (0x800f, 218), (0x8018, 218), (0x801f, 218), (0x8029, 218), (0xc038, 218),
     (0x8003, 219), (0x8006, 219), (0x800a, 219), (0x800f, 219), (0x8018, 219), (0x801f, 219), (0x8029, 219), (0xc038, 219)],
    \<comment> \<open>202\<close>
    [(0x8003, 238), (0x8006, 238), (0x800a, 238), (0x800f, 238), (0x8018, 238), (0x801f, 238), (0x8029, 238), (0xc038, 238),
     (0x8003, 240), (0x8006, 240), (0x800a, 240), (0x800f, 240), (0x8018, 240), (0x801f, 240), (0x8029, 240), (0xc038, 240)],
    \<comment> \<open>203\<close>
    [(0x8002, 242), (0x8009, 242), (0x8017, 242), (0xc028, 242), (0x8002, 243), (0x8009, 243), (0x8017, 243), (0xc028, 243),
     (0x8002, 255), (0x8009, 255), (0x8017, 255), (0xc028, 255), (0x8001, 203), (0xc016, 203), (0x8001, 204), (0xc016, 204)],
    \<comment> \<open>204\<close>
    [(0x8003, 242), (0x8006, 242), (0x800a, 242), (0x800f, 242), (0x8018, 242), (0x801f, 242), (0x8029, 242), (0xc038, 242),
     (0x8003, 243), (0x8006, 243), (0x800a, 243), (0x800f, 243), (0x8018, 243), (0x801f, 243), (0x8029, 243), (0xc038, 243)],
    \<comment> \<open>205\<close>
    [(0x8003, 255), (0x8006, 255), (0x800a, 255), (0x800f, 255), (0x8018, 255), (0x801f, 255), (0x8029, 255), (0xc038, 255),
     (0x8002, 203), (0x8009, 203), (0x8017, 203), (0xc028, 203), (0x8002, 204), (0x8009, 204), (0x8017, 204), (0xc028, 204)],
    \<comment> \<open>206\<close>
    [(0x8003, 203), (0x8006, 203), (0x800a, 203), (0x800f, 203), (0x8018, 203), (0x801f, 203), (0x8029, 203), (0xc038, 203),
     (0x8003, 204), (0x8006, 204), (0x800a, 204), (0x800f, 204), (0x8018, 204), (0x801f, 204), (0x8029, 204), (0xc038, 204)],
    \<comment> \<open>207\<close>
    [(0xd3, 0), (0xd4, 0), (0xd6, 0), (0xd7, 0), (0xda, 0), (0xdb, 0), (0xdd, 0), (0xde, 0),
     (0xe2, 0), (0xe4, 0), (0xe8, 0), (0xeb, 0), (0xf0, 0), (0xf3, 0), (0xf7, 0), (0xfa, 0)]]"

definition huff_decode_rows_208_215 :: "http2_huff_decode list list" where
  "huff_decode_rows_208_215 = [
    \<comment> \<open>208\<close>
    [(0xc000, 211), (0xc000, 212), (0xc000, 214), (0xc000, 221), (0xc000, 222), (0xc000, 223), (0xc000, 241), (0xc000, 244),
     (0xc000, 245), (0xc000, 246), (0xc000, 247), (0xc000, 248), (0xc000, 250), (0xc000, 251), (0xc000, 252), (0xc000, 253)],
    \<comment> \<open>209\<close>
    [(0x8001, 211), (0xc016, 211), (0x8001, 212), (0xc016, 212), (0x8001, 214), (0xc016, 214), (0x8001, 221), (0xc016, 221),
     (0x8001, 222), (0xc016, 222), (0x8001, 223), (0xc016, 223), (0x8001, 241), (0xc016, 241), (0x8001, 244), (0xc016, 244)],
    \<comment> \<open>210\<close>
    [(0x8002, 211), (0x8009, 211), (0x8017, 211), (0xc028, 211), (0x8002, 212), (0x8009, 212), (0x8017, 212), (0xc028, 212),
     (0x8002, 214), (0x8009, 214), (0x8017, 214), (0xc028, 214), (0x8002, 221), (0x8009, 221), (0x8017, 221), (0xc028, 221)],
    \<comment> \<open>211\<close>
    [(0x8003, 211), (0x8006, 211), (0x800a, 211), (0x800f, 211), (0x8018, 211), (0x801f, 211), (0x8029, 211), (0xc038, 211),
     (0x8003, 212), (0x8006, 212), (0x800a, 212), (0x800f, 212), (0x8018, 212), (0x801f, 212), (0x8029, 212), (0xc038, 212)],
    \<comment> \<open>212\<close>
    [(0x8003, 214), (0x8006, 214), (0x800a, 214), (0x800f, 214), (0x8018, 214), (0x801f, 214), (0x8029, 214), (0xc038, 214),
     (0x8003, 221), (0x8006, 221), (0x800a, 221), (0x800f, 221), (0x8018, 221), (0x801f, 221), (0x8029, 221), (0xc038, 221)],
    \<comment> \<open>213\<close>
    [(0x8002, 222), (0x8009, 222), (0x8017, 222), (0xc028, 222), (0x8002, 223), (0x8009, 223), (0x8017, 223), (0xc028, 223),
     (0x8002, 241), (0x8009, 241), (0x8017, 241), (0xc028, 241), (0x8002, 244), (0x8009, 244), (0x8017, 244), (0xc028, 244)],
    \<comment> \<open>214\<close>
    [(0x8003, 222), (0x8006, 222), (0x800a, 222), (0x800f, 222), (0x8018, 222), (0x801f, 222), (0x8029, 222), (0xc038, 222),
     (0x8003, 223), (0x8006, 223), (0x800a, 223), (0x800f, 223), (0x8018, 223), (0x801f, 223), (0x8029, 223), (0xc038, 223)],
    \<comment> \<open>215\<close>
    [(0x8003, 241), (0x8006, 241), (0x800a, 241), (0x800f, 241), (0x8018, 241), (0x801f, 241), (0x8029, 241), (0xc038, 241),
     (0x8003, 244), (0x8006, 244), (0x800a, 244), (0x800f, 244), (0x8018, 244), (0x801f, 244), (0x8029, 244), (0xc038, 244)]]"

definition huff_decode_rows_216_223 :: "http2_huff_decode list list" where
  "huff_decode_rows_216_223 = [
    \<comment> \<open>216\<close>
    [(0x8001, 245), (0xc016, 245), (0x8001, 246), (0xc016, 246), (0x8001, 247), (0xc016, 247), (0x8001, 248), (0xc016, 248),
     (0x8001, 250), (0xc016, 250), (0x8001, 251), (0xc016, 251), (0x8001, 252), (0xc016, 252), (0x8001, 253), (0xc016, 253)],
    \<comment> \<open>217\<close>
    [(0x8002, 245), (0x8009, 245), (0x8017, 245), (0xc028, 245), (0x8002, 246), (0x8009, 246), (0x8017, 246), (0xc028, 246),
     (0x8002, 247), (0x8009, 247), (0x8017, 247), (0xc028, 247), (0x8002, 248), (0x8009, 248), (0x8017, 248), (0xc028, 248)],
    \<comment> \<open>218\<close>
    [(0x8003, 245), (0x8006, 245), (0x800a, 245), (0x800f, 245), (0x8018, 245), (0x801f, 245), (0x8029, 245), (0xc038, 245),
     (0x8003, 246), (0x8006, 246), (0x800a, 246), (0x800f, 246), (0x8018, 246), (0x801f, 246), (0x8029, 246), (0xc038, 246)],
    \<comment> \<open>219\<close>
    [(0x8003, 247), (0x8006, 247), (0x800a, 247), (0x800f, 247), (0x8018, 247), (0x801f, 247), (0x8029, 247), (0xc038, 247),
     (0x8003, 248), (0x8006, 248), (0x800a, 248), (0x800f, 248), (0x8018, 248), (0x801f, 248), (0x8029, 248), (0xc038, 248)],
    \<comment> \<open>220\<close>
    [(0x8002, 250), (0x8009, 250), (0x8017, 250), (0xc028, 250), (0x8002, 251), (0x8009, 251), (0x8017, 251), (0xc028, 251),
     (0x8002, 252), (0x8009, 252), (0x8017, 252), (0xc028, 252), (0x8002, 253), (0x8009, 253), (0x8017, 253), (0xc028, 253)],
    \<comment> \<open>221\<close>
    [(0x8003, 250), (0x8006, 250), (0x800a, 250), (0x800f, 250), (0x8018, 250), (0x801f, 250), (0x8029, 250), (0xc038, 250),
     (0x8003, 251), (0x8006, 251), (0x800a, 251), (0x800f, 251), (0x8018, 251), (0x801f, 251), (0x8029, 251), (0xc038, 251)],
    \<comment> \<open>222\<close>
    [(0x8003, 252), (0x8006, 252), (0x800a, 252), (0x800f, 252), (0x8018, 252), (0x801f, 252), (0x8029, 252), (0xc038, 252),
     (0x8003, 253), (0x8006, 253), (0x800a, 253), (0x800f, 253), (0x8018, 253), (0x801f, 253), (0x8029, 253), (0xc038, 253)],
    \<comment> \<open>223\<close>
    [(0xc000, 254), (0xe3, 0), (0xe5, 0), (0xe6, 0), (0xe9, 0), (0xea, 0), (0xec, 0), (0xed, 0),
     (0xf1, 0), (0xf2, 0), (0xf4, 0), (0xf5, 0), (0xf8, 0), (0xf9, 0), (0xfb, 0), (0xfc, 0)]]"

definition huff_decode_rows_224_231 :: "http2_huff_decode list list" where
  "huff_decode_rows_224_231 = [
    \<comment> \<open>224\<close>
    [(0x8001, 254), (0xc016, 254), (0xc000, 2), (0xc000, 3), (0xc000, 4), (0xc000, 5), (0xc000, 6), (0xc000, 7),
     (0xc000, 8), (0xc000, 11), (0xc000, 12), (0xc000, 14), (0xc000, 15), (0xc000, 16), (0xc000, 17), (0xc000, 18)],
    \<comment> \<open>225\<close>
    [(0x8002, 254), (0x8009, 254), (0x8017, 254), (0xc028, 254), (0x8001, 2), (0xc016, 2), (0x8001, 3), (0xc016, 3),
     (0x8001, 4), (0xc016, 4), (0x8001, 5), (0xc016, 5), (0x8001, 6), (0xc016, 6), (0x8001, 7), (0xc016, 7)],
    \<comment> \<open>226\<close>
    [(0x8003, 254), (0x8006, 254), (0x800a, 254), (0x800f, 254), (0x8018, 254), (0x801f, 254), (0x8029, 254), (0xc038, 254),
     (0x8002, 2), (0x8009, 2), (0x8017, 2), (0xc028, 2), (0x8002, 3), (0x8009, 3), (0x8017, 3), (0xc028, 3)],
    \<comment> \<open>227\<close>
    [(0x8003, 2), (0x8006, 2), (0x800a, 2), (0x800f, 2), (0x8018, 2), (0x801f, 2), (0x8029, 2), (0xc038, 2),
     (0x8003, 3), (0x8006, 3), (0x800a, 3), (0x800f, 3), (0x8018, 3), (0x801f, 3), (0x8029, 3), (0xc038, 3)],
    \<comment> \<open>228\<close>
    [(0x8002, 4), (0x8009, 4), (0x8017, 4), (0xc028, 4), (0x8002, 5), (0x8009, 5), (0x8017, 5), (0xc028, 5),
     (0x8002, 6), (0x8009, 6), (0x8017, 6), (0xc028, 6), (0x8002, 7), (0x8009, 7), (0x8017, 7), (0xc028, 7)],
    \<comment> \<open>229\<close>
    [(0x8003, 4), (0x8006, 4), (0x800a, 4), (0x800f, 4), (0x8018, 4), (0x801f, 4), (0x8029, 4), (0xc038, 4),
     (0x8003, 5), (0x8006, 5), (0x800a, 5), (0x800f, 5), (0x8018, 5), (0x801f, 5), (0x8029, 5), (0xc038, 5)],
    \<comment> \<open>230\<close>
    [(0x8003, 6), (0x8006, 6), (0x800a, 6), (0x800f, 6), (0x8018, 6), (0x801f, 6), (0x8029, 6), (0xc038, 6),
     (0x8003, 7), (0x8006, 7), (0x800a, 7), (0x800f, 7), (0x8018, 7), (0x801f, 7), (0x8029, 7), (0xc038, 7)],
    \<comment> \<open>231\<close>
    [(0x8001, 8), (0xc016, 8), (0x8001, 11), (0xc016, 11), (0x8001, 12), (0xc016, 12), (0x8001, 14), (0xc016, 14),
     (0x8001, 15), (0xc016, 15), (0x8001, 16), (0xc016, 16), (0x8001, 17), (0xc016, 17), (0x8001, 18), (0xc016, 18)]]"

definition huff_decode_rows_232_239 :: "http2_huff_decode list list" where
  "huff_decode_rows_232_239 = [
    \<comment> \<open>232\<close>
    [(0x8002, 8), (0x8009, 8), (0x8017, 8), (0xc028, 8), (0x8002, 11), (0x8009, 11), (0x8017, 11), (0xc028, 11),
     (0x8002, 12), (0x8009, 12), (0x8017, 12), (0xc028, 12), (0x8002, 14), (0x8009, 14), (0x8017, 14), (0xc028, 14)],
    \<comment> \<open>233\<close>
    [(0x8003, 8), (0x8006, 8), (0x800a, 8), (0x800f, 8), (0x8018, 8), (0x801f, 8), (0x8029, 8), (0xc038, 8),
     (0x8003, 11), (0x8006, 11), (0x800a, 11), (0x800f, 11), (0x8018, 11), (0x801f, 11), (0x8029, 11), (0xc038, 11)],
    \<comment> \<open>234\<close>
    [(0x8003, 12), (0x8006, 12), (0x800a, 12), (0x800f, 12), (0x8018, 12), (0x801f, 12), (0x8029, 12), (0xc038, 12),
     (0x8003, 14), (0x8006, 14), (0x800a, 14), (0x800f, 14), (0x8018, 14), (0x801f, 14), (0x8029, 14), (0xc038, 14)],
    \<comment> \<open>235\<close>
    [(0x8002, 15), (0x8009, 15), (0x8017, 15), (0xc028, 15), (0x8002, 16), (0x8009, 16), (0x8017, 16), (0xc028, 16),
     (0x8002, 17), (0x8009, 17), (0x8017, 17), (0xc028, 17), (0x8002, 18), (0x8009, 18), (0x8017, 18), (0xc028, 18)],
    \<comment> \<open>236\<close>
    [(0x8003, 15), (0x8006, 15), (0x800a, 15), (0x800f, 15), (0x8018, 15), (0x801f, 15), (0x8029, 15), (0xc038, 15),
     (0x8003, 16), (0x8006, 16), (0x800a, 16), (0x800f, 16), (0x8018, 16), (0x801f, 16), (0x8029, 16), (0xc038, 16)],
    \<comment> \<open>237\<close>
    [(0x8003, 17), (0x8006, 17), (0x800a, 17), (0x800f, 17), (0x8018, 17), (0x801f, 17), (0x8029, 17), (0xc038, 17),
     (0x8003, 18), (0x8006, 18), (0x800a, 18), (0x800f, 18), (0x8018, 18), (0x801f, 18), (0x8029, 18), (0xc038, 18)],
    \<comment> \<open>238\<close>
    [(0xc000, 19), (0xc000, 20), (0xc000, 21), (0xc000, 23), (0xc000, 24), (0xc000, 25), (0xc000, 26), (0xc000, 27),
     (0xc000, 28), (0xc000, 29), (0xc000, 30), (0xc000, 31), (0xc000, 127), (0xc000, 220), (0xc000, 249), (0xfd, 0)],
    \<comment> \<open>239\<close>
    [(0x8001, 19), (0xc016, 19), (0x8001, 20), (0xc016, 20), (0x8001, 21), (0xc016, 21), (0x8001, 23), (0xc016, 23),
     (0x8001, 24), (0xc016, 24), (0x8001, 25), (0xc016, 25), (0x8001, 26), (0xc016, 26), (0x8001, 27), (0xc016, 27)]]"

definition huff_decode_rows_240_247 :: "http2_huff_decode list list" where
  "huff_decode_rows_240_247 = [
    \<comment> \<open>240\<close>
    [(0x8002, 19), (0x8009, 19), (0x8017, 19), (0xc028, 19), (0x8002, 20), (0x8009, 20), (0x8017, 20), (0xc028, 20),
     (0x8002, 21), (0x8009, 21), (0x8017, 21), (0xc028, 21), (0x8002, 23), (0x8009, 23), (0x8017, 23), (0xc028, 23)],
    \<comment> \<open>241\<close>
    [(0x8003, 19), (0x8006, 19), (0x800a, 19), (0x800f, 19), (0x8018, 19), (0x801f, 19), (0x8029, 19), (0xc038, 19),
     (0x8003, 20), (0x8006, 20), (0x800a, 20), (0x800f, 20), (0x8018, 20), (0x801f, 20), (0x8029, 20), (0xc038, 20)],
    \<comment> \<open>242\<close>
    [(0x8003, 21), (0x8006, 21), (0x800a, 21), (0x800f, 21), (0x8018, 21), (0x801f, 21), (0x8029, 21), (0xc038, 21),
     (0x8003, 23), (0x8006, 23), (0x800a, 23), (0x800f, 23), (0x8018, 23), (0x801f, 23), (0x8029, 23), (0xc038, 23)],
    \<comment> \<open>243\<close>
    [(0x8002, 24), (0x8009, 24), (0x8017, 24), (0xc028, 24), (0x8002, 25), (0x8009, 25), (0x8017, 25), (0xc028, 25),
     (0x8002, 26), (0x8009, 26), (0x8017, 26), (0xc028, 26), (0x8002, 27), (0x8009, 27), (0x8017, 27), (0xc028, 27)],
    \<comment> \<open>244\<close>
    [(0x8003, 24), (0x8006, 24), (0x800a, 24), (0x800f, 24), (0x8018, 24), (0x801f, 24), (0x8029, 24), (0xc038, 24),
     (0x8003, 25), (0x8006, 25), (0x800a, 25), (0x800f, 25), (0x8018, 25), (0x801f, 25), (0x8029, 25), (0xc038, 25)],
    \<comment> \<open>245\<close>
    [(0x8003, 26), (0x8006, 26), (0x800a, 26), (0x800f, 26), (0x8018, 26), (0x801f, 26), (0x8029, 26), (0xc038, 26),
     (0x8003, 27), (0x8006, 27), (0x800a, 27), (0x800f, 27), (0x8018, 27), (0x801f, 27), (0x8029, 27), (0xc038, 27)],
    \<comment> \<open>246\<close>
    [(0x8001, 28), (0xc016, 28), (0x8001, 29), (0xc016, 29), (0x8001, 30), (0xc016, 30), (0x8001, 31), (0xc016, 31),
     (0x8001, 127), (0xc016, 127), (0x8001, 220), (0xc016, 220), (0x8001, 249), (0xc016, 249), (0xfe, 0), (0xff, 0)],
    \<comment> \<open>247\<close>
    [(0x8002, 28), (0x8009, 28), (0x8017, 28), (0xc028, 28), (0x8002, 29), (0x8009, 29), (0x8017, 29), (0xc028, 29),
     (0x8002, 30), (0x8009, 30), (0x8017, 30), (0xc028, 30), (0x8002, 31), (0x8009, 31), (0x8017, 31), (0xc028, 31)]]"

definition huff_decode_rows_248_255 :: "http2_huff_decode list list" where
  "huff_decode_rows_248_255 = [
    \<comment> \<open>248\<close>
    [(0x8003, 28), (0x8006, 28), (0x800a, 28), (0x800f, 28), (0x8018, 28), (0x801f, 28), (0x8029, 28), (0xc038, 28),
     (0x8003, 29), (0x8006, 29), (0x800a, 29), (0x800f, 29), (0x8018, 29), (0x801f, 29), (0x8029, 29), (0xc038, 29)],
    \<comment> \<open>249\<close>
    [(0x8003, 30), (0x8006, 30), (0x800a, 30), (0x800f, 30), (0x8018, 30), (0x801f, 30), (0x8029, 30), (0xc038, 30),
     (0x8003, 31), (0x8006, 31), (0x800a, 31), (0x800f, 31), (0x8018, 31), (0x801f, 31), (0x8029, 31), (0xc038, 31)],
    \<comment> \<open>250\<close>
    [(0x8002, 127), (0x8009, 127), (0x8017, 127), (0xc028, 127), (0x8002, 220), (0x8009, 220), (0x8017, 220), (0xc028, 220),
     (0x8002, 249), (0x8009, 249), (0x8017, 249), (0xc028, 249), (0xc000, 10), (0xc000, 13), (0xc000, 22), (0x100, 0)],
    \<comment> \<open>251\<close>
    [(0x8003, 127), (0x8006, 127), (0x800a, 127), (0x800f, 127), (0x8018, 127), (0x801f, 127), (0x8029, 127), (0xc038, 127),
     (0x8003, 220), (0x8006, 220), (0x800a, 220), (0x800f, 220), (0x8018, 220), (0x801f, 220), (0x8029, 220), (0xc038, 220)],
    \<comment> \<open>252\<close>
    [(0x8003, 249), (0x8006, 249), (0x800a, 249), (0x800f, 249), (0x8018, 249), (0x801f, 249), (0x8029, 249), (0xc038, 249),
     (0x8001, 10), (0xc016, 10), (0x8001, 13), (0xc016, 13), (0x8001, 22), (0xc016, 22), (0x100, 0), (0x100, 0)],
    \<comment> \<open>253\<close>
    [(0x8002, 10), (0x8009, 10), (0x8017, 10), (0xc028, 10), (0x8002, 13), (0x8009, 13), (0x8017, 13), (0xc028, 13),
     (0x8002, 22), (0x8009, 22), (0x8017, 22), (0xc028, 22), (0x100, 0), (0x100, 0), (0x100, 0), (0x100, 0)],
    \<comment> \<open>254\<close>
    [(0x8003, 10), (0x8006, 10), (0x800a, 10), (0x800f, 10), (0x8018, 10), (0x801f, 10), (0x8029, 10), (0xc038, 10),
     (0x8003, 13), (0x8006, 13), (0x800a, 13), (0x800f, 13), (0x8018, 13), (0x801f, 13), (0x8029, 13), (0xc038, 13)],
    \<comment> \<open>255\<close>
    [(0x8003, 22), (0x8006, 22), (0x800a, 22), (0x800f, 22), (0x8018, 22), (0x801f, 22), (0x8029, 22), (0xc038, 22),
     (0x100, 0), (0x100, 0), (0x100, 0), (0x100, 0), (0x100, 0), (0x100, 0), (0x100, 0), (0x100, 0)]]"

definition huff_decode_rows_256_256 :: "http2_huff_decode list list" where
  "huff_decode_rows_256_256 = [
    \<comment> \<open>256\<close>
    [(0x100, 0), (0x100, 0), (0x100, 0), (0x100, 0), (0x100, 0), (0x100, 0), (0x100, 0), (0x100, 0),
     (0x100, 0), (0x100, 0), (0x100, 0), (0x100, 0), (0x100, 0), (0x100, 0), (0x100, 0), (0x100, 0)]]"

end
