(* ===== verification/Huffman_Tree.thy ===== *)
theory Huffman_Tree
  imports Huffman_Sym_Table Huffman_Table_A Huffman_Table_B
begin

text \<open>
  The whole decoding table, and the code tree it is checked against: the tree whose leaves
  are the 257 symbols, its inner nodes numbered as the table numbers its states. Two facts
  tie the tree to the literals of \<^verbatim>\<open>src/hpack/huffman_data.cc\<close>: every code of
  \<^verbatim>\<open>huff_sym_table\<close> leads from the root to its symbol, and the rows of
  \<^verbatim>\<open>huff_decode_table\<close> are what walking four bits in the tree gives.
\<close>

definition huff_decode_table :: "http2_huff_decode list list" where
  "huff_decode_table = concat [
     huff_decode_rows_0_7,
     huff_decode_rows_8_15,
     huff_decode_rows_16_23,
     huff_decode_rows_24_31,
     huff_decode_rows_32_39,
     huff_decode_rows_40_47,
     huff_decode_rows_48_55,
     huff_decode_rows_56_63,
     huff_decode_rows_64_71,
     huff_decode_rows_72_79,
     huff_decode_rows_80_87,
     huff_decode_rows_88_95,
     huff_decode_rows_96_103,
     huff_decode_rows_104_111,
     huff_decode_rows_112_119,
     huff_decode_rows_120_127,
     huff_decode_rows_128_135,
     huff_decode_rows_136_143,
     huff_decode_rows_144_151,
     huff_decode_rows_152_159,
     huff_decode_rows_160_167,
     huff_decode_rows_168_175,
     huff_decode_rows_176_183,
     huff_decode_rows_184_191,
     huff_decode_rows_192_199,
     huff_decode_rows_200_207,
     huff_decode_rows_208_215,
     huff_decode_rows_216_223,
     huff_decode_rows_224_231,
     huff_decode_rows_232_239,
     huff_decode_rows_240_247,
     huff_decode_rows_248_255,
     huff_decode_rows_256_256]"

section \<open>The code tree\<close>

text \<open>
  An inner node carries its state number and whether input may end there: the padding of
  RFC 7541 Section 5.2 is a prefix of the end-of-string code of at most seven bits.
\<close>

datatype hufftree = HLeaf nat | HNode u16 bool hufftree hufftree

definition huff_tree :: hufftree where
  "huff_tree =
    (HNode 0 True
     (HNode 1 False
      (HNode 2 False
       (HNode 3 False
        (HNode 4 False (HLeaf 48) (HLeaf 49))
        (HNode 5 False (HLeaf 50) (HLeaf 97)))
       (HNode 6 False
        (HNode 7 False (HLeaf 99) (HLeaf 101))
        (HNode 8 False (HLeaf 105) (HLeaf 111))))
      (HNode 9 False
       (HNode 10 False
        (HNode 11 False (HLeaf 115) (HLeaf 116))
        (HNode 12 False
         (HNode 13 False (HLeaf 32) (HLeaf 37))
         (HNode 14 False (HLeaf 45) (HLeaf 46))))
       (HNode 15 False
        (HNode 16 False
         (HNode 17 False (HLeaf 47) (HLeaf 51))
         (HNode 18 False (HLeaf 52) (HLeaf 53)))
        (HNode 19 False
         (HNode 20 False (HLeaf 54) (HLeaf 55))
         (HNode 21 False (HLeaf 56) (HLeaf 57))))))
     (HNode 22 True
      (HNode 23 False
       (HNode 24 False
        (HNode 25 False
         (HNode 26 False (HLeaf 61) (HLeaf 65))
         (HNode 27 False (HLeaf 95) (HLeaf 98)))
        (HNode 28 False
         (HNode 29 False (HLeaf 100) (HLeaf 102))
         (HNode 30 False (HLeaf 103) (HLeaf 104))))
       (HNode 31 False
        (HNode 32 False
         (HNode 33 False (HLeaf 108) (HLeaf 109))
         (HNode 34 False (HLeaf 110) (HLeaf 112)))
        (HNode 35 False
         (HNode 36 False (HLeaf 114) (HLeaf 117))
         (HNode 37 False
          (HNode 38 False (HLeaf 58) (HLeaf 66))
          (HNode 39 False (HLeaf 67) (HLeaf 68))))))
      (HNode 40 True
       (HNode 41 False
        (HNode 42 False
         (HNode 43 False
          (HNode 44 False (HLeaf 69) (HLeaf 70))
          (HNode 45 False (HLeaf 71) (HLeaf 72)))
         (HNode 46 False
          (HNode 47 False (HLeaf 73) (HLeaf 74))
          (HNode 48 False (HLeaf 75) (HLeaf 76))))
        (HNode 49 False
         (HNode 50 False
          (HNode 51 False (HLeaf 77) (HLeaf 78))
          (HNode 52 False (HLeaf 79) (HLeaf 80)))
         (HNode 53 False
          (HNode 54 False (HLeaf 81) (HLeaf 82))
          (HNode 55 False (HLeaf 83) (HLeaf 84)))))
       (HNode 56 True
        (HNode 57 False
         (HNode 58 False
          (HNode 59 False (HLeaf 85) (HLeaf 86))
          (HNode 60 False (HLeaf 87) (HLeaf 89)))
         (HNode 61 False
          (HNode 62 False (HLeaf 106) (HLeaf 107))
          (HNode 63 False (HLeaf 113) (HLeaf 118))))
        (HNode 64 True
         (HNode 65 False
          (HNode 66 False (HLeaf 119) (HLeaf 120))
          (HNode 67 False (HLeaf 121) (HLeaf 122)))
         (HNode 68 True
          (HNode 69 False
           (HNode 70 False (HLeaf 38) (HLeaf 42))
           (HNode 71 False (HLeaf 44) (HLeaf 59)))
          (HNode 72 True
           (HNode 73 False (HLeaf 88) (HLeaf 90))
           (HNode 74 True
            (HNode 75 False
             (HNode 76 False (HLeaf 33) (HLeaf 34))
             (HNode 77 False (HLeaf 40) (HLeaf 41)))
            (HNode 78 False
             (HNode 79 False (HLeaf 63)
              (HNode 80 False (HLeaf 39) (HLeaf 43)))
             (HNode 81 False
              (HNode 82 False (HLeaf 124)
               (HNode 83 False (HLeaf 35) (HLeaf 62)))
              (HNode 84 False
               (HNode 85 False
                (HNode 86 False (HLeaf 0) (HLeaf 36))
                (HNode 87 False (HLeaf 64) (HLeaf 91)))
               (HNode 88 False
                (HNode 89 False (HLeaf 93) (HLeaf 126))
                (HNode 90 False
                 (HNode 91 False (HLeaf 94) (HLeaf 125))
                 (HNode 92 False
                  (HNode 93 False (HLeaf 60) (HLeaf 96))
                  (HNode 94 False (HLeaf 123)
                   (HNode 95 False
                    (HNode 96 False
                     (HNode 97 False
                      (HNode 98 False (HLeaf 92) (HLeaf 195))
                      (HNode 99 False (HLeaf 208)
                       (HNode 100 False (HLeaf 128) (HLeaf 130))))
                     (HNode 101 False
                      (HNode 102 False
                       (HNode 103 False (HLeaf 131) (HLeaf 162))
                       (HNode 104 False (HLeaf 184) (HLeaf 194)))
                      (HNode 105 False
                       (HNode 106 False (HLeaf 224) (HLeaf 226))
                       (HNode 107 False
                        (HNode 108 False (HLeaf 153) (HLeaf 161))
                        (HNode 109 False (HLeaf 167) (HLeaf 172))))))
                    (HNode 110 False
                     (HNode 111 False
                      (HNode 112 False
                       (HNode 113 False
                        (HNode 114 False (HLeaf 176) (HLeaf 177))
                        (HNode 115 False (HLeaf 179) (HLeaf 209)))
                       (HNode 116 False
                        (HNode 117 False (HLeaf 216) (HLeaf 217))
                        (HNode 118 False (HLeaf 227) (HLeaf 229))))
                      (HNode 119 False
                       (HNode 120 False
                        (HNode 121 False (HLeaf 230)
                         (HNode 122 False (HLeaf 129) (HLeaf 132)))
                        (HNode 123 False
                         (HNode 124 False (HLeaf 133) (HLeaf 134))
                         (HNode 125 False (HLeaf 136) (HLeaf 146))))
                       (HNode 126 False
                        (HNode 127 False
                         (HNode 128 False (HLeaf 154) (HLeaf 156))
                         (HNode 129 False (HLeaf 160) (HLeaf 163)))
                        (HNode 130 False
                         (HNode 131 False (HLeaf 164) (HLeaf 169))
                         (HNode 132 False (HLeaf 170) (HLeaf 173))))))
                     (HNode 133 False
                      (HNode 134 False
                       (HNode 135 False
                        (HNode 136 False
                         (HNode 137 False (HLeaf 178) (HLeaf 181))
                         (HNode 138 False (HLeaf 185) (HLeaf 186)))
                        (HNode 139 False
                         (HNode 140 False (HLeaf 187) (HLeaf 189))
                         (HNode 141 False (HLeaf 190) (HLeaf 196))))
                       (HNode 142 False
                        (HNode 143 False
                         (HNode 144 False (HLeaf 198) (HLeaf 228))
                         (HNode 145 False (HLeaf 232) (HLeaf 233)))
                        (HNode 146 False
                         (HNode 147 False
                          (HNode 148 False (HLeaf 1) (HLeaf 135))
                          (HNode 149 False (HLeaf 137) (HLeaf 138)))
                         (HNode 150 False
                          (HNode 151 False (HLeaf 139) (HLeaf 140))
                          (HNode 152 False (HLeaf 141) (HLeaf 143))))))
                      (HNode 153 False
                       (HNode 154 False
                        (HNode 155 False
                         (HNode 156 False
                          (HNode 157 False (HLeaf 147) (HLeaf 149))
                          (HNode 158 False (HLeaf 150) (HLeaf 151)))
                         (HNode 159 False
                          (HNode 160 False (HLeaf 152) (HLeaf 155))
                          (HNode 161 False (HLeaf 157) (HLeaf 158))))
                        (HNode 162 False
                         (HNode 163 False
                          (HNode 164 False (HLeaf 165) (HLeaf 166))
                          (HNode 165 False (HLeaf 168) (HLeaf 174)))
                         (HNode 166 False
                          (HNode 167 False (HLeaf 175) (HLeaf 180))
                          (HNode 168 False (HLeaf 182) (HLeaf 183)))))
                       (HNode 169 False
                        (HNode 170 False
                         (HNode 171 False
                          (HNode 172 False (HLeaf 188) (HLeaf 191))
                          (HNode 173 False (HLeaf 197) (HLeaf 231)))
                         (HNode 174 False
                          (HNode 175 False (HLeaf 239)
                           (HNode 176 False (HLeaf 9) (HLeaf 142)))
                          (HNode 177 False
                           (HNode 178 False (HLeaf 144) (HLeaf 145))
                           (HNode 179 False (HLeaf 148) (HLeaf 159)))))
                        (HNode 180 False
                         (HNode 181 False
                          (HNode 182 False
                           (HNode 183 False (HLeaf 171) (HLeaf 206))
                           (HNode 184 False (HLeaf 215) (HLeaf 225)))
                          (HNode 185 False
                           (HNode 186 False (HLeaf 236) (HLeaf 237))
                           (HNode 187 False
                            (HNode 188 False (HLeaf 199) (HLeaf 207))
                            (HNode 189 False (HLeaf 234) (HLeaf 235)))))
                         (HNode 190 False
                          (HNode 191 False
                           (HNode 192 False
                            (HNode 193 False
                             (HNode 194 False (HLeaf 192) (HLeaf 193))
                             (HNode 195 False (HLeaf 200) (HLeaf 201)))
                            (HNode 196 False
                             (HNode 197 False (HLeaf 202) (HLeaf 205))
                             (HNode 198 False (HLeaf 210) (HLeaf 213))))
                           (HNode 199 False
                            (HNode 200 False
                             (HNode 201 False (HLeaf 218) (HLeaf 219))
                             (HNode 202 False (HLeaf 238) (HLeaf 240)))
                            (HNode 203 False
                             (HNode 204 False (HLeaf 242) (HLeaf 243))
                             (HNode 205 False (HLeaf 255)
                              (HNode 206 False (HLeaf 203) (HLeaf 204))))))
                          (HNode 207 False
                           (HNode 208 False
                            (HNode 209 False
                             (HNode 210 False
                              (HNode 211 False (HLeaf 211) (HLeaf 212))
                              (HNode 212 False (HLeaf 214) (HLeaf 221)))
                             (HNode 213 False
                              (HNode 214 False (HLeaf 222) (HLeaf 223))
                              (HNode 215 False (HLeaf 241) (HLeaf 244))))
                            (HNode 216 False
                             (HNode 217 False
                              (HNode 218 False (HLeaf 245) (HLeaf 246))
                              (HNode 219 False (HLeaf 247) (HLeaf 248)))
                             (HNode 220 False
                              (HNode 221 False (HLeaf 250) (HLeaf 251))
                              (HNode 222 False (HLeaf 252) (HLeaf 253)))))
                           (HNode 223 False
                            (HNode 224 False
                             (HNode 225 False
                              (HNode 226 False (HLeaf 254)
                               (HNode 227 False (HLeaf 2) (HLeaf 3)))
                              (HNode 228 False
                               (HNode 229 False (HLeaf 4) (HLeaf 5))
                               (HNode 230 False (HLeaf 6) (HLeaf 7))))
                             (HNode 231 False
                              (HNode 232 False
                               (HNode 233 False (HLeaf 8) (HLeaf 11))
                               (HNode 234 False (HLeaf 12) (HLeaf 14)))
                              (HNode 235 False
                               (HNode 236 False (HLeaf 15) (HLeaf 16))
                               (HNode 237 False (HLeaf 17) (HLeaf 18)))))
                            (HNode 238 False
                             (HNode 239 False
                              (HNode 240 False
                               (HNode 241 False (HLeaf 19) (HLeaf 20))
                               (HNode 242 False (HLeaf 21) (HLeaf 23)))
                              (HNode 243 False
                               (HNode 244 False (HLeaf 24) (HLeaf 25))
                               (HNode 245 False (HLeaf 26) (HLeaf 27))))
                             (HNode 246 False
                              (HNode 247 False
                               (HNode 248 False (HLeaf 28) (HLeaf 29))
                               (HNode 249 False (HLeaf 30) (HLeaf 31)))
                              (HNode 250 False
                               (HNode 251 False (HLeaf 127) (HLeaf 220))
                               (HNode 252 False (HLeaf 249)
                                (HNode 253 False
                                 (HNode 254 False (HLeaf 10) (HLeaf 13))
                                 (HNode 255 False (HLeaf 22) (HLeaf 256)))))))))))))))))))))))))))))))"

text \<open>The bits of a table code, first bit first (the code is aligned to the high end).\<close>

definition code_bits :: "http2_huff_sym \<Rightarrow> bool list" where
  "code_bits s = map (\<lambda>i. bit (snd s) (31 - i)) [0..<fst s]"

fun follow :: "hufftree \<Rightarrow> bool list \<Rightarrow> hufftree option" where
  "follow t [] = Some t"
| "follow (HLeaf c) (b # bs) = None"
| "follow (HNode i a l r) (b # bs) = follow (if b then r else l) bs"

text \<open>
  What reading \<open>k\<close> bits from a node gives, for all \<open>2 ^ k\<close> inputs in order: the node
  reached and the symbol emitted on the way, \<open>None\<close> after the end-of-string symbol.
  After a symbol reading goes on at the root.
\<close>

fun node_id :: "hufftree \<Rightarrow> u16" where
  "node_id (HNode i a l r) = i"
| "node_id (HLeaf c) = 0x100"

fun node_accept :: "hufftree \<Rightarrow> bool" where
  "node_accept (HNode i a l r) = a"
| "node_accept (HLeaf c) = False"

fun row_of :: "hufftree \<Rightarrow> nat \<Rightarrow> hufftree \<Rightarrow> nat option \<Rightarrow> (hufftree \<times> nat option) option list" where
  "row_of root 0 t em = [Some (t, em)]"
| "row_of root (Suc k) (HLeaf c) em = replicate (2 ^ Suc k) None"
| "row_of root (Suc k) (HNode i a l r) em =
     (case l of HLeaf c \<Rightarrow> if c = 256 then replicate (2 ^ k) None else row_of root k root (Some c)
      | HNode _ _ _ _ \<Rightarrow> row_of root k l em) @
     (case r of HLeaf c \<Rightarrow> if c = 256 then replicate (2 ^ k) None else row_of root k root (Some c)
      | HNode _ _ _ _ \<Rightarrow> row_of root k r em)"

definition entry_of :: "(hufftree \<times> nat option) option \<Rightarrow> http2_huff_decode" where
  "entry_of x = (case x of None \<Rightarrow> (0x100, 0)
     | Some (t, em) \<Rightarrow>
         (node_id t OR (if node_accept t then HTTP2_HUFF_ACCEPTED else 0)
            OR (if em = None then 0 else HTTP2_HUFF_SYM),
          case em of None \<Rightarrow> 0 | Some c \<Rightarrow> word_of_nat c))"

fun rows_of :: "hufftree \<Rightarrow> hufftree \<Rightarrow> http2_huff_decode list list" where
  "rows_of root (HLeaf c) = []"
| "rows_of root (HNode i a l r) =
     map entry_of (row_of root 4 (HNode i a l r) None) # rows_of root l @ rows_of root r"

end
