(* ===== verification/Huffman_Check.thy ===== *)
theory Huffman_Check
  imports Huffman_Tree
begin

text \<open>
  The two literal tables of \<^verbatim>\<open>src/hpack/huffman_data.cc\<close> agree with the code tree. Both
  facts are evaluated by the simplifier over the literals; the equations are arranged so that
  a subtree is never copied: the root stays folded, and the few rows that restart at the root
  are computed once.
\<close>

section \<open>The decoding rows\<close>

definition erow :: "nat \<Rightarrow> hufftree \<Rightarrow> nat option \<Rightarrow> http2_huff_decode list" where
  "erow k t em = map entry_of (row_of huff_tree k t em)"

definition eside :: "nat \<Rightarrow> hufftree \<Rightarrow> nat option \<Rightarrow> http2_huff_decode list" where
  "eside k t em = (case t of
       HLeaf c \<Rightarrow> if c = 256 then replicate (2 ^ k) (0x100, 0) else erow k huff_tree (Some c)
     | HNode _ _ _ _ \<Rightarrow> erow k t em)"

lemma erow_node: "erow (Suc k) (HNode i a l r) em = eside k l em @ eside k r em"
  by (simp add: erow_def eside_def entry_of_def split: hufftree.splits)

lemma erow_0: "erow 0 t em = [entry_of (Some (t, em))]"
  by (simp add: erow_def)

lemma eside_leaf:
  "eside k (HLeaf c) em =
     (if c = 256 then replicate (2 ^ k) (0x100, 0) else erow k huff_tree (Some c))"
  by (simp add: eside_def)

lemma eside_node: "eside k (HNode i a l r) em = erow k (HNode i a l r) em"
  by (simp add: eside_def)

lemma entry_of_simps:
  "entry_of (Some (HNode i True l r, None)) = (i OR 0x4000, 0)"
  "entry_of (Some (HNode i False l r, None)) = (i, 0)"
  "entry_of (Some (HNode i True l r, Some c)) = (i OR 0xC000, word_of_nat c)"
  "entry_of (Some (HNode i False l r, Some c)) = (i OR 0x8000, word_of_nat c)"
  by (simp_all add: entry_of_def HTTP2_HUFF_ACCEPTED_def HTTP2_HUFF_SYM_def or.assoc)

lemmas erow_simps = erow_node erow_0 eside_leaf eside_node entry_of_simps

text \<open>Rows that start at the root with a symbol just emitted.\<close>

lemma entry_of_root: "entry_of (Some (huff_tree, Some c)) = (0xC000, word_of_nat c)"
  by (simp add: huff_tree_def entry_of_simps)

lemma erow_root_1:
  "erow (Suc 0) huff_tree (Some c) = [(0x8001, word_of_nat c), (0xC016, word_of_nat c)]"
  by (subst huff_tree_def) (simp add: erow_simps)

lemma erow_root_2:
  "erow (Suc (Suc 0)) huff_tree (Some c) =
     [(0x8002, word_of_nat c), (0x8009, word_of_nat c), (0x8017, word_of_nat c), (0xC028, word_of_nat c)]"
  by (subst huff_tree_def) (simp add: erow_simps)

lemma erow_root_3:
  "erow (Suc (Suc (Suc 0))) huff_tree (Some c) =
     [(0x8003, word_of_nat c), (0x8006, word_of_nat c), (0x800A, word_of_nat c), (0x800F, word_of_nat c),
      (0x8018, word_of_nat c), (0x801F, word_of_nat c), (0x8029, word_of_nat c), (0xC038, word_of_nat c)]"
  by (subst huff_tree_def) (simp add: erow_simps)

lemma rows_of_erow:
  "rows_of huff_tree (HLeaf c) = []"
  "rows_of huff_tree (HNode i a l r) =
     erow (Suc (Suc (Suc (Suc 0)))) (HNode i a l r) None # rows_of huff_tree l @ rows_of huff_tree r"
  by (simp_all add: erow_def eval_nat_numeral)

lemmas huff_rows_defs =
  huff_decode_rows_0_7_def
  huff_decode_rows_8_15_def huff_decode_rows_16_23_def huff_decode_rows_24_31_def
  huff_decode_rows_32_39_def huff_decode_rows_40_47_def huff_decode_rows_48_55_def
  huff_decode_rows_56_63_def huff_decode_rows_64_71_def huff_decode_rows_72_79_def
  huff_decode_rows_80_87_def huff_decode_rows_88_95_def huff_decode_rows_96_103_def
  huff_decode_rows_104_111_def huff_decode_rows_112_119_def huff_decode_rows_120_127_def
  huff_decode_rows_128_135_def huff_decode_rows_136_143_def huff_decode_rows_144_151_def
  huff_decode_rows_152_159_def huff_decode_rows_160_167_def huff_decode_rows_168_175_def
  huff_decode_rows_176_183_def huff_decode_rows_184_191_def huff_decode_rows_192_199_def
  huff_decode_rows_200_207_def huff_decode_rows_208_215_def huff_decode_rows_216_223_def
  huff_decode_rows_224_231_def huff_decode_rows_232_239_def huff_decode_rows_240_247_def
  huff_decode_rows_248_255_def huff_decode_rows_256_256_def

lemma replicate_powers:
  "replicate (2 ^ 0) x = [x]"
  "replicate (2 ^ Suc 0) x = [x, x]"
  "replicate (2 ^ Suc (Suc 0)) x = [x, x, x, x]"
  "replicate (2 ^ Suc (Suc (Suc 0))) x = [x, x, x, x, x, x, x, x]"
  "replicate 2 x = [x, x]"
  "replicate 4 x = [x, x, x, x]"
  "replicate 8 x = [x, x, x, x, x, x, x, x]"
  "replicate 16 x = [x, x, x, x, x, x, x, x, x, x, x, x, x, x, x, x]"
  by (simp_all add: eval_nat_numeral)

lemma huff_decode_table_eq_rows:
  "huff_decode_table = rows_of huff_tree huff_tree @ [replicate 16 (0x100, 0)]"
  apply (subst (2) huff_tree_def)
  apply (simp only: rows_of_erow erow_simps)
  apply (simp only: entry_of_root erow_root_1 erow_root_2 erow_root_3)
  apply (simp add: replicate_powers)
  apply (simp add: huff_decode_table_def huff_rows_defs)
  done

section \<open>The codes\<close>

text \<open>All codes are followed at once, split by their next bit at each node.\<close>

fun split_codes :: "(nat \<times> bool list) list \<Rightarrow> ((nat \<times> bool list) list \<times> (nat \<times> bool list) list) option" where
  "split_codes [] = Some ([], [])"
| "split_codes ((c, []) # cs) = None"
| "split_codes ((c, b # bs) # cs) = (case split_codes cs of None \<Rightarrow> None
     | Some (xs, ys) \<Rightarrow> Some (if b then (xs, (c, bs) # ys) else ((c, bs) # xs, ys)))"

fun check_codes :: "hufftree \<Rightarrow> (nat \<times> bool list) list \<Rightarrow> bool" where
  "check_codes (HLeaf c) cs \<longleftrightarrow> cs = [(c, [])]"
| "check_codes (HNode i a l r) cs \<longleftrightarrow>
     (case split_codes cs of None \<Rightarrow> False
      | Some (xs, ys) \<Rightarrow> check_codes l xs \<and> check_codes r ys)"

lemma split_codes_member:
  "split_codes cs = Some (xs, ys) \<Longrightarrow> (c, bs) \<in> set cs \<Longrightarrow>
     \<exists>b bs'. bs = b # bs' \<and> (c, bs') \<in> set (if b then ys else xs)"
proof (induction cs arbitrary: xs ys rule: split_codes.induct)
  case (3 d b bs0 cs)
  then obtain xs0 ys0 where s: "split_codes cs = Some (xs0, ys0)"
    by (auto split: option.splits)
  with 3 have eq: "xs = (if b then xs0 else (d, bs0) # xs0)" "ys = (if b then (d, bs0) # ys0 else ys0)"
    by (auto split: if_splits)
  from 3 s consider "c = d" "bs = b # bs0" | "(c, bs) \<in> set cs" by auto
  then show ?case
  proof cases
    case 1
    then show ?thesis by (auto simp: eq)
  next
    case 2
    with 3(1) [OF s] obtain b' bs' where "bs = b' # bs'" "(c, bs') \<in> set (if b' then ys0 else xs0)"
      by blast
    then show ?thesis by (intro exI [of _ b'] exI [of _ bs']) (auto simp: eq split: if_splits)
  qed
qed auto

lemma check_codes_follow:
  "check_codes t cs \<Longrightarrow> (c, bs) \<in> set cs \<Longrightarrow> follow t bs = Some (HLeaf c)"
proof (induction t cs arbitrary: bs rule: check_codes.induct)
  case (1 c' cs)
  then show ?case by auto
next
  case (2 i a l r cs)
  then obtain xs ys where s: "split_codes cs = Some (xs, ys)" "check_codes l xs" "check_codes r ys"
    by (auto split: option.splits)
  from split_codes_member [OF s(1) 2(4)] obtain b bs' where
    bs: "bs = b # bs'" "(c, bs') \<in> set (if b then ys else xs)"
    by blast
  with 2 s show ?case by (cases b) auto
qed

text \<open>The symbols as literals, so that pairing them with their codes evaluates without arithmetic.\<close>

definition huff_symbols :: "nat list" where
  "huff_symbols = [
    0, 1, 2, 3, 4, 5, 6, 7, 8, 9, 10, 11, 12, 13, 14, 15,
    16, 17, 18, 19, 20, 21, 22, 23, 24, 25, 26, 27, 28, 29, 30, 31,
    32, 33, 34, 35, 36, 37, 38, 39, 40, 41, 42, 43, 44, 45, 46, 47,
    48, 49, 50, 51, 52, 53, 54, 55, 56, 57, 58, 59, 60, 61, 62, 63,
    64, 65, 66, 67, 68, 69, 70, 71, 72, 73, 74, 75, 76, 77, 78, 79,
    80, 81, 82, 83, 84, 85, 86, 87, 88, 89, 90, 91, 92, 93, 94, 95,
    96, 97, 98, 99, 100, 101, 102, 103, 104, 105, 106, 107, 108, 109, 110, 111,
    112, 113, 114, 115, 116, 117, 118, 119, 120, 121, 122, 123, 124, 125, 126, 127,
    128, 129, 130, 131, 132, 133, 134, 135, 136, 137, 138, 139, 140, 141, 142, 143,
    144, 145, 146, 147, 148, 149, 150, 151, 152, 153, 154, 155, 156, 157, 158, 159,
    160, 161, 162, 163, 164, 165, 166, 167, 168, 169, 170, 171, 172, 173, 174, 175,
    176, 177, 178, 179, 180, 181, 182, 183, 184, 185, 186, 187, 188, 189, 190, 191,
    192, 193, 194, 195, 196, 197, 198, 199, 200, 201, 202, 203, 204, 205, 206, 207,
    208, 209, 210, 211, 212, 213, 214, 215, 216, 217, 218, 219, 220, 221, 222, 223,
    224, 225, 226, 227, 228, 229, 230, 231, 232, 233, 234, 235, 236, 237, 238, 239,
    240, 241, 242, 243, 244, 245, 246, 247, 248, 249, 250, 251, 252, 253, 254, 255,
    256]"

lemma huff_symbols_eq: "huff_symbols = [0..<257]"
  by (simp add: huff_symbols_def upt_rec)

definition huff_codes :: "(nat \<times> bool list) list" where
  "huff_codes = zip huff_symbols (map code_bits huff_sym_table)"

lemma huff_codes_check: "check_codes huff_tree huff_codes"
  apply (simp only: huff_codes_def huff_symbols_def huff_sym_table_def list.map zip_Cons_Cons zip_Nil)
  apply (simp add: code_bits_def upt_rec)
  apply (simp only: huff_tree_def check_codes.simps split_codes.simps option.case prod.case if_True if_False simp_thms)
  apply (simp only: One_nat_def refl simp_thms)
  done

lemma length_huff_sym_table: "length huff_sym_table = 257"
  by (simp add: huff_sym_table_def)

lemma huff_sym_table_codes:
  assumes "c \<le> 256"
  shows "follow huff_tree (code_bits (huff_sym_table ! c)) = Some (HLeaf c)"
proof (rule check_codes_follow [OF huff_codes_check])
  show "(c, code_bits (huff_sym_table ! c)) \<in> set huff_codes"
    using assms by (auto simp: huff_codes_def huff_symbols_eq in_set_zip length_huff_sym_table
        intro!: exI [of _ c] simp del: upt.simps)
qed

end
