(* ===== verification/Huffman_Decode_Correct.thy ===== *)
theory Huffman_Decode_Correct
  imports Huffman
begin

text \<open>
  The table-driven decoder implements bit-by-bit decoding along the code tree: a refinement of
  \<open>http2_head_huffman_decode\<close> by \<open>tdecode\<close>, with the buffer limit and the padding rule.
\<close>

section \<open>Bits of bytes\<close>

definition byte_bits :: "u8 \<Rightarrow> bool list" where
  "byte_bits c = map (bit c) [7, 6, 5, 4, 3, 2, 1, 0]"

definition nibble_bits :: "u8 \<Rightarrow> bool list" where
  "nibble_bits n = map (bit n) [3, 2, 1, 0]"

definition bits_of :: "bytes \<Rightarrow> bool list" where
  "bits_of bs = concat (map byte_bits bs)"

lemma bits_of_simps [simp]:
  "bits_of [] = []"
  "bits_of (c # bs) = byte_bits c @ bits_of bs"
  "bits_of (xs @ ys) = bits_of xs @ bits_of ys"
  by (simp_all add: bits_of_def)

lemma length_byte_bits [simp]: "length (byte_bits c) = 8"
  by (simp add: byte_bits_def)

lemma length_bits_of [simp]: "length (bits_of bs) = 8 * length bs"
  by (induction bs) auto

lemma length_nibble_bits [simp]: "length (nibble_bits n) = 4"
  by (simp add: nibble_bits_def)

lemma byte_bits_nibbles: "byte_bits c = nibble_bits (drop_bit 4 c) @ nibble_bits (c AND 0xf)"
  by (simp add: byte_bits_def nibble_bits_def bit_simps)

fun bits_val :: "bool list \<Rightarrow> nat" where
  "bits_val [] = 0"
| "bits_val (b # bs) = (if b then 2 ^ length bs else 0) + bits_val bs"

lemma bits_val_less: "bits_val bs < 2 ^ length bs"
  by (induction bs) auto

lemma nibble_val_all: "\<forall>k \<in> set [0..<16]. bits_val (nibble_bits (word_of_nat k)) = k"
  by (simp add: upt_rec nibble_bits_def)

lemma nibble_val:
  assumes "unat n < 16" shows "bits_val (nibble_bits n) = unat n"
  using nibble_val_all assms by (auto dest: bspec [where x = "unat n"])

lemma unat_high_nibble: "unat (drop_bit 4 c :: u8) < 16"
proof -
  have "unat (drop_bit 4 c) = unat c div 16"
    by (simp only: unat_drop_bit_eq) (simp add: drop_bit_eq_div)
  then show ?thesis using unat_u8_bound [of c] by simp
qed

lemma unat_low_nibble: "unat (c AND 0xf :: u8) < 16"
proof -
  have "c AND 0xf \<le> (0xf :: u8)" by (rule word_and_le1)
  then have "unat (c AND 0xf) \<le> unat (0xf :: u8)" by (rule word_le_nat_alt [THEN iffD1])
  then show ?thesis by simp
qed

section \<open>Decoding along the tree\<close>

fun tdecode :: "hufftree \<Rightarrow> bool list \<Rightarrow> bytes \<Rightarrow> (hufftree \<times> bytes) option" where
  "tdecode t [] out = Some (t, out)"
| "tdecode (HLeaf c) (b # bs) out = None"
| "tdecode (HNode i a l r) (b # bs) out =
     (case (if b then r else l) of
        HLeaf c \<Rightarrow> if c = 256 then None else tdecode huff_tree bs (out @ [word_of_nat c])
      | n \<Rightarrow> tdecode n bs out)"

lemma tdecode_append:
  "tdecode t (xs @ ys) out =
     (case tdecode t xs out of None \<Rightarrow> None | Some (t', out') \<Rightarrow> tdecode t' ys out')"
  by (induction t xs out rule: tdecode.induct) (auto split: hufftree.splits)

lemma tdecode_extends: "tdecode t bs out = Some (t', out') \<Longrightarrow> \<exists>ys. out' = out @ ys"
  by (induction t bs out rule: tdecode.induct) (fastforce split: hufftree.splits if_splits)+

lemma tdecode_length: "tdecode t bs out = Some (t', out') \<Longrightarrow> length out \<le> length out'"
  by (auto dest: tdecode_extends)

section \<open>Nodes and table rows\<close>

fun nodes_of :: "hufftree \<Rightarrow> hufftree list" where
  "nodes_of (HLeaf c) = []"
| "nodes_of (HNode i a l r) = HNode i a l r # nodes_of l @ nodes_of r"

fun ids_of :: "hufftree \<Rightarrow> u16 list" where
  "ids_of (HLeaf c) = []"
| "ids_of (HNode i a l r) = i # ids_of l @ ids_of r"

lemma ids_of_nodes: "ids_of t = map node_id (nodes_of t)"
  by (induction t) auto

lemma rows_of_nodes: "rows_of root t = map (\<lambda>n. map entry_of (row_of root 4 n None)) (nodes_of t)"
  by (induction t) auto

lemma huff_tree_ids: "ids_of huff_tree = map word_of_nat [0..<256]"
  by (simp add: huff_tree_def upt_rec)

lemma length_nodes: "length (nodes_of huff_tree) = 256"
proof -
  have "length (ids_of huff_tree) = 256" by (simp add: huff_tree_ids)
  then show ?thesis by (simp add: ids_of_nodes)
qed

lemma node_at_id:
  assumes "n \<in> set (nodes_of huff_tree)"
  obtains k where "k < 256" "node_id n = word_of_nat k" "nodes_of huff_tree ! k = n"
proof -
  from assms obtain k where k: "k < 256" "nodes_of huff_tree ! k = n"
    by (auto simp: in_set_conv_nth length_nodes)
  have "node_id n = ids_of huff_tree ! k"
    using k by (simp add: ids_of_nodes length_nodes)
  then have "node_id n = word_of_nat k"
    using k by (simp add: huff_tree_ids)
  with k show ?thesis by (intro that)
qed

lemma length_huff_decode_table: "length huff_decode_table = 257"
  by (simp add: huff_decode_table_eq_rows rows_of_nodes length_nodes)

lemma table_row_node:
  assumes "n \<in> set (nodes_of huff_tree)"
  shows "unat (node_id n) < 256"
    and "huff_decode_table ! unat (node_id n) = map entry_of (row_of huff_tree 4 n None)"
proof -
  obtain k where k: "k < 256" "node_id n = word_of_nat k" "nodes_of huff_tree ! k = n"
    using assms by (rule node_at_id)
  have u: "unat (node_id n) = k"
    using k by (simp add: unat_of_nat take_bit_nat_eq_self)
  show "unat (node_id n) < 256" using k u by simp
  show "huff_decode_table ! unat (node_id n) = map entry_of (row_of huff_tree 4 n None)"
    using k unfolding u by (simp add: huff_decode_table_eq_rows rows_of_nodes nth_append length_nodes)
qed

lemma table_row_fail: "huff_decode_table ! 256 = replicate 16 (0x100, 0)"
  by (simp add: huff_decode_table_eq_rows rows_of_nodes nth_append length_nodes)

text \<open>Reading a few bits from a node, as a table row is computed: at most one symbol is kept.\<close>

fun walk :: "hufftree \<Rightarrow> bool list \<Rightarrow> nat option \<Rightarrow> (hufftree \<times> nat option) option" where
  "walk t [] em = Some (t, em)"
| "walk (HLeaf c) (b # bs) em = None"
| "walk (HNode i a l r) (b # bs) em =
     (case (if b then r else l) of
        HLeaf c \<Rightarrow> if c = 256 then None else walk huff_tree bs (Some c)
      | n \<Rightarrow> walk n bs em)"

fun is_node :: "hufftree \<Rightarrow> bool" where
  "is_node (HNode i a l r) \<longleftrightarrow> True"
| "is_node (HLeaf c) \<longleftrightarrow> False"

lemma is_node_huff_tree [simp]: "is_node huff_tree"
  by (simp add: huff_tree_def)

lemma length_row_of: "is_node t \<Longrightarrow> length (row_of huff_tree k t em) = 2 ^ k"
  by (induction k arbitrary: t em) (auto elim!: is_node.elims split: hufftree.splits)

lemma row_of_walk:
  "is_node t \<Longrightarrow> row_of huff_tree (length bs) t em ! bits_val bs = walk t bs em"
proof (induction bs arbitrary: t em)
  case (Cons b bs)
  from Cons.prems obtain i a l r where t: "t = HNode i a l r" by (auto elim: is_node.elims)
  have v: "bits_val bs < 2 ^ length bs" by (rule bits_val_less)
  have len: "length (case l of HLeaf c \<Rightarrow> if c = 256 then replicate (2 ^ length bs) None
                 else row_of huff_tree (length bs) huff_tree (Some c)
               | HNode _ _ _ _ \<Rightarrow> row_of huff_tree (length bs) l em) = 2 ^ length bs"
    by (auto simp: length_row_of split: hufftree.splits)
  show ?case
    using v by (auto simp: t nth_append len Cons.IH split: hufftree.splits)
qed simp

text \<open>Within four bits no leaf lies below the root, so a restart emits nothing more.\<close>

fun deep :: "nat \<Rightarrow> hufftree \<Rightarrow> bool" where
  "deep k (HLeaf c) \<longleftrightarrow> False"
| "deep 0 (HNode i a l r) \<longleftrightarrow> True"
| "deep (Suc k) (HNode i a l r) \<longleftrightarrow> deep k l \<and> deep k r"

lemma deep_huff_tree: "deep 4 huff_tree"
  by (simp add: huff_tree_def eval_nat_numeral)

lemma deep_le: "deep k t \<Longrightarrow> j \<le> k \<Longrightarrow> deep j t"
proof (induction k t arbitrary: j rule: deep.induct)
  case (3 k i a l r)
  then show ?case by (cases j) auto
qed auto

lemma deep_walk:
  "deep (length bs) t \<Longrightarrow>
     \<exists>n. is_node n \<and> walk t bs em = Some (n, em) \<and> tdecode t bs out = Some (n, out)"
proof (induction t bs em rule: walk.induct)
  case (1 t em)
  then show ?case by (cases t) auto
next
  case (3 i a l r b bs em)
  then show ?case by (cases b) (auto split: hufftree.splits)
qed auto

definition emitted :: "nat option \<Rightarrow> bytes" where
  "emitted em = (case em of None \<Rightarrow> [] | Some c \<Rightarrow> [word_of_nat c])"

lemma walk_tdecode:
  assumes "is_node t" and "length bs \<le> 4"
  shows "tdecode t bs out =
     (case walk t bs None of None \<Rightarrow> None | Some (n, em) \<Rightarrow> Some (n, out @ emitted em))"
  using assms
proof (induction bs arbitrary: t)
  case (Cons b bs)
  from Cons.prems obtain i a l r where t: "t = HNode i a l r" by (auto elim: is_node.elims)
  have root: "deep (length bs) huff_tree"
    using deep_huff_tree Cons.prems by (auto intro: deep_le)
  show ?case
  proof (cases "if b then r else l")
    case (HLeaf c)
    from deep_walk [OF root, of "Some c" "out @ [word_of_nat c]"] HLeaf
    show ?thesis by (auto simp: t emitted_def)
  next
    case (HNode i' a' l' r')
    with Cons.IH [of "HNode i' a' l' r'"] Cons.prems show ?thesis by (simp add: t)
  qed
qed (simp add: emitted_def)

lemma self_in_nodes: "is_node t \<Longrightarrow> t \<in> set (nodes_of t)"
  by (cases t) auto

lemma walk_nodes:
  "walk t bs em = Some (n, em') \<Longrightarrow> t \<in> set (nodes_of huff_tree) \<Longrightarrow> n \<in> set (nodes_of huff_tree)"
proof (induction t bs em rule: walk.induct)
  case (3 i a l r b bs em)
  have sub: "HNode i a l r \<in> set (nodes_of t) \<Longrightarrow> HNode j x y z \<in> {l, r} \<Longrightarrow>
      HNode j x y z \<in> set (nodes_of t)" for t j x y z
    by (induction t) auto
  note root = self_in_nodes [OF is_node_huff_tree]
  show ?case
  proof (cases "if b then r else l")
    case (HLeaf c)
    with 3 root show ?thesis by (auto split: if_splits)
  next
    case (HNode i' a' l' r')
    with 3 sub [of huff_tree i' a' l' r'] show ?thesis by (auto split: if_splits)
  qed
qed auto

lemma nodes_are_nodes: "n \<in> set (nodes_of t) \<Longrightarrow> is_node n"
  by (induction t) auto

section \<open>The table step refines four tree steps\<close>

text \<open>
  The state of the table decoder against the tree: a node and its flags, or the failure
  state 256 once the end-of-string code has been read.
\<close>

fun state_rel :: "u16 \<Rightarrow> hufftree option \<Rightarrow> bool" where
  "state_rel st None \<longleftrightarrow> st = 0x100"
| "state_rel st (Some t) \<longleftrightarrow> t \<in> set (nodes_of huff_tree) \<and> st AND 0x1ff = node_id t \<and>
     (st AND HTTP2_HUFF_ACCEPTED \<noteq> 0 \<longleftrightarrow> node_accept t)"

lemma small_id_masks:
  assumes "i AND 0xff = (i :: u16)"
  shows "i AND 0x1ff = i" "i AND 0x4000 = 0" "i AND 0x8000 = 0"
proof -
  have "i AND m = i AND (0xff AND m)" for m
    using assms by (metis and.assoc)
  from this [of "0x1ff"] this [of "0x4000"] this [of "0x8000"] assms
  show "i AND 0x1ff = i" "i AND 0x4000 = 0" "i AND 0x8000 = 0" by simp_all
qed

lemma node_id_mask:
  assumes "n \<in> set (nodes_of huff_tree)" shows "node_id n AND 0xff = node_id n"
proof -
  have "unat (take_bit 8 (node_id n)) = unat (node_id n)"
    using table_row_node(1) [OF assms] by (simp add: unsigned_take_bit_eq take_bit_nat_eq_self)
  then have "take_bit 8 (node_id n) = node_id n" by (simp add: word_unat_eq_iff)
  then show ?thesis by (simp add: take_bit_eq_mask mask_eq_exp_minus_1)
qed

lemma entry_of_rel:
  assumes "n \<in> set (nodes_of huff_tree)"
  shows "state_rel (fst (entry_of (Some (n, em)))) (Some n)"
    and "fst (entry_of (Some (n, em))) AND HTTP2_HUFF_SYM \<noteq> 0 \<longleftrightarrow> em \<noteq> None"
    and "emitted em = (case em of None \<Rightarrow> [] | Some c \<Rightarrow> [snd (entry_of (Some (n, em)))])"
  using assms small_id_masks [OF node_id_mask [OF assms]]
  by (auto simp: entry_of_def emitted_def HTTP2_HUFF_ACCEPTED_def HTTP2_HUFF_SYM_def
      bit.conj_disj_distrib2 split: option.splits)

lemma entry_of_fail: "entry_of None = (0x100, 0)"
  by (simp add: entry_of_def)

lemma huff_entry_node:
  assumes "state_rel st (Some t)" and "unat n < 16"
  shows "huff_entry st n = Some (entry_of (walk t (nibble_bits n) None))"
proof -
  have t: "t \<in> set (nodes_of huff_tree)" "st AND 0x1ff = node_id t" using assms by auto
  have nt: "is_node t" using t(1) by (rule nodes_are_nodes)
  have row: "row_of huff_tree 4 t None ! unat n = walk t (nibble_bits n) None"
    using row_of_walk [OF nt, of "nibble_bits n" None] nibble_val [OF assms(2)] by simp
  show ?thesis
    using t table_row_node [OF t(1)] assms(2) row
    by (simp add: huff_entry_def length_huff_decode_table length_row_of [OF nt])
qed

lemma huff_entry_fail: "unat n < 16 \<Longrightarrow> huff_entry 0x100 n = Some (0x100, 0)"
  by (simp add: huff_entry_def length_huff_decode_table table_row_fail)

lemma decode_nibble_node:
  assumes "state_rel (fst e) (Some t)" and "unat n < 16"
  shows "case tdecode t (nibble_bits n) out of
      None \<Rightarrow> \<exists>e'. decode_nibble buflen n (e, out) = Ok (e', out) \<and> state_rel (fst e') None
    | Some (t', out') \<Rightarrow>
        if length out' \<le> max buflen (length out)
        then \<exists>e'. decode_nibble buflen n (e, out) = Ok (e', out') \<and> state_rel (fst e') (Some t')
        else decode_nibble buflen n (e, out) = Error (-1)"
proof -
  have t: "t \<in> set (nodes_of huff_tree)" using assms by simp
  note entry = huff_entry_node [OF assms]
  have td: "tdecode t (nibble_bits n) out = (case walk t (nibble_bits n) None of None \<Rightarrow> None
      | Some (n, em) \<Rightarrow> Some (n, out @ emitted em))"
    by (rule walk_tdecode [OF nodes_are_nodes [OF t]]) simp
  show ?thesis
  proof (cases "walk t (nibble_bits n) None")
    case None
    then show ?thesis
      by (simp add: td entry decode_nibble_def entry_of_fail HTTP2_HUFF_SYM_def)
  next
    case (Some p)
    obtain t' em where p: "p = (t', em)" by force
    have t': "t' \<in> set (nodes_of huff_tree)"
      using Some t by (auto simp: p intro: walk_nodes)
    note rel = entry_of_rel [OF t', of em]
    show ?thesis
    proof (cases em)
      case None
      with rel show ?thesis by (simp add: td entry decode_nibble_def Some p emitted_def)
    next
      case (Some c)
      with rel \<open>walk t (nibble_bits n) None = Some p\<close> show ?thesis
        by (auto simp: td entry decode_nibble_def p emitted_def not_le simp del: split_paired_Ex)
    qed
  qed
qed

lemma decode_nibble_fail:
  "unat n < 16 \<Longrightarrow> fst e = 0x100 \<Longrightarrow> decode_nibble buflen n (e, out) = Ok ((0x100, 0), out)"
  by (simp add: decode_nibble_def huff_entry_fail HTTP2_HUFF_SYM_def)

section \<open>Decoding a whole input\<close>

text \<open>The two half-steps per byte as one run over nibbles.\<close>

fun decode_nibbles ::
  "nat \<Rightarrow> u8 list \<Rightarrow> http2_huff_decode \<times> bytes \<Rightarrow> (http2_huff_decode \<times> bytes) outcome" where
  "decode_nibbles buflen [] s = Ok s"
| "decode_nibbles buflen (n # ns) s =
     (case decode_nibble buflen n s of
        Ok s1 \<Rightarrow> decode_nibbles buflen ns s1 | Error e \<Rightarrow> Error e | Fault \<Rightarrow> Fault)"

definition nibbles :: "bytes \<Rightarrow> u8 list" where
  "nibbles src = concat (map (\<lambda>c. [drop_bit 4 c, c AND 0xf]) src)"

lemma decode_bytes_nibbles: "decode_bytes buflen src s = decode_nibbles buflen (nibbles src) s"
  by (induction buflen src s rule: decode_bytes.induct)
     (auto simp: nibbles_def split: outcome.splits)

lemma bits_of_nibbles: "bits_of src = concat (map nibble_bits (nibbles src))"
  by (induction src) (auto simp: nibbles_def byte_bits_nibbles)

lemma nibbles_small: "n \<in> set (nibbles src) \<Longrightarrow> unat n < 16"
  by (auto simp: nibbles_def unat_high_nibble unat_low_nibble)

lemma decode_nibbles_fail:
  "fst e = 0x100 \<Longrightarrow> \<forall>n \<in> set ns. unat n < 16 \<Longrightarrow>
     \<exists>e'. decode_nibbles buflen ns (e, out) = Ok (e', out) \<and> fst e' = 0x100"
  by (induction ns arbitrary: e) (auto simp: decode_nibble_fail simp del: split_paired_Ex)

text \<open>What the table decoder returns, given what decoding along the tree returns.\<close>

definition decode_agrees ::
  "nat \<Rightarrow> (http2_huff_decode \<times> bytes) outcome \<Rightarrow> (hufftree \<times> bytes) option \<Rightarrow> bool" where
  "decode_agrees lim r d \<longleftrightarrow> (case d of
       None \<Rightarrow> r = Error (-1) \<or> (\<exists>e out. r = Ok (e, out) \<and> fst e = 0x100)
     | Some (t, out) \<Rightarrow> if length out \<le> lim
         then \<exists>e. r = Ok (e, out) \<and> state_rel (fst e) (Some t)
         else r = Error (-1))"

lemma decode_agrees_Error:
  "tdecode t bs out = d \<Longrightarrow> lim < length out \<Longrightarrow> decode_agrees lim (Error (-1)) d"
  by (auto simp: decode_agrees_def split: option.splits dest: tdecode_length)

lemma decode_nibbles_agrees:
  "state_rel (fst e) (Some t) \<Longrightarrow> \<forall>n \<in> set ns. unat n < 16 \<Longrightarrow>
     decode_agrees (max buflen (length out)) (decode_nibbles buflen ns (e, out))
       (tdecode t (concat (map nibble_bits ns)) out)"
proof (induction ns arbitrary: e t out)
  case Nil
  then show ?case by (auto simp: decode_agrees_def simp del: split_paired_Ex)
next
  case (Cons n ns)
  have n: "unat n < 16" using Cons.prems by simp
  note step = decode_nibble_node [OF Cons.prems(1) n, where out = out and buflen = buflen]
  show ?case
  proof (cases "tdecode t (nibble_bits n) out")
    case None
    then obtain e' where e': "decode_nibble buflen n (e, out) = Ok (e', out)" "fst e' = 0x100"
      using step by (auto simp del: split_paired_Ex)
    with decode_nibbles_fail [of e' ns buflen out] Cons.prems None show ?thesis
      by (auto simp: decode_agrees_def tdecode_append)
  next
    case (Some p)
    obtain t1 out1 where p: "p = (t1, out1)" by force
    have grow: "length out \<le> length out1" using Some by (auto simp: p dest: tdecode_length)
    show ?thesis
    proof (cases "length out1 \<le> max buflen (length out)")
      case True
      then obtain e1 where e1: "decode_nibble buflen n (e, out) = Ok (e1, out1)"
          "state_rel (fst e1) (Some t1)"
        using step Some by (auto simp: p simp del: split_paired_Ex state_rel.simps)
      have "max buflen (length out1) = max buflen (length out)"
        using True grow by (auto simp: max_def)
      with Cons.IH [OF e1(2), of out1] Cons.prems e1(1) Some show ?thesis
        by (simp add: p tdecode_append)
    next
      case False
      with step Some have "decode_nibble buflen n (e, out) = Error (-1)" by (simp add: p)
      moreover have "max buflen (length out) < length out1"
        using False by (simp only: not_le)
      note decode_agrees_Error [OF refl this]
      ultimately show ?thesis using Some by (simp add: p tdecode_append)
    qed
  qed
qed

lemma state_rel_start: "state_rel HTTP2_HUFF_ACCEPTED (Some huff_tree)"
  using self_in_nodes [OF is_node_huff_tree]
  by (simp add: HTTP2_HUFF_ACCEPTED_def huff_tree_def)

lemma decode_bytes_agrees:
  "decode_agrees buflen (decode_bytes buflen src ((HTTP2_HUFF_ACCEPTED, 0), []))
     (tdecode huff_tree (bits_of src) [])"
  using decode_nibbles_agrees [of "(HTTP2_HUFF_ACCEPTED, 0)" huff_tree "nibbles src" buflen "[]"]
    state_rel_start
  by (simp add: decode_bytes_nibbles bits_of_nibbles nibbles_small)

text \<open>
  The specification of the one-shot decoder: the symbols along the tree, provided the input
  ends in an accepting node (a padding of at most seven one bits).
\<close>

definition huffman_spec :: "bytes \<Rightarrow> bytes option" where
  "huffman_spec src = (case tdecode huff_tree (bits_of src) [] of
       Some (t, out) \<Rightarrow> if node_accept t then Some out else None
     | None \<Rightarrow> None)"

lemma huffman_decode_refines:
  assumes "length src = n"
  shows "case http2_head_huffman_decode http2_head_huffman_decode_context_init buflen (src @ rest) n True of
      Ok (ctx, out) \<Rightarrow> huffman_spec src = Some out \<and> length out \<le> buflen
    | Error e \<Rightarrow> e = -1 \<and> (case huffman_spec src of None \<Rightarrow> True | Some out \<Rightarrow> buflen < length out)
    | Fault \<Rightarrow> False"
  using decode_bytes_agrees [of buflen src] assms
  by (auto simp: decode_agrees_def huffman_spec_def http2_head_huffman_decode_def
      http2_head_huffman_decode_context_init_def HTTP2_HUFF_ACCEPTED_def
      split: option.splits outcome.splits if_splits)

section \<open>How long a decoded string can be\<close>

text \<open>Every code has at least five bits, so decoding yields at most 8/5 of the input length.\<close>

lemma deep_not_leaf: "deep k (HNode i a l r) \<Longrightarrow> k = Suc j \<Longrightarrow> is_node (if b then r else l)"
  by (cases j; cases l; cases r) auto

lemma tdecode_growth:
  "tdecode t bs out = Some (t', out') \<Longrightarrow> deep k t \<Longrightarrow> k \<le> 4 \<Longrightarrow>
     5 * length out' + k \<le> 5 * length out + length bs + 4"
proof (induction t bs out arbitrary: k rule: tdecode.induct)
  case (3 i a l r b bs out)
  show ?case
  proof (cases "if b then r else l")
    case (HLeaf c)
    have k: "k = 0"
    proof (cases k)
      case (Suc j)
      with "3.prems"(2) have "is_node (if b then r else l)" by (blast intro: deep_not_leaf)
      with HLeaf show ?thesis by simp
    qed
    with 3 HLeaf deep_huff_tree show ?thesis
      by (force split: if_splits)
  next
    case (HNode i' a' l' r')
    have d: "deep (k - 1) (HNode i' a' l' r')"
    proof (cases k)
      case (Suc j)
      with "3.prems"(2) have "deep j (if b then r else l)" by (cases b) auto
      with Suc HNode show ?thesis by simp
    qed simp
    have td: "tdecode (HNode i' a' l' r') bs out = Some (t', out')"
      using "3.prems"(1) HNode by simp
    from "3.IH"(2) [OF HNode td d] "3.prems"(3) show ?thesis
      unfolding list.size(4) by linarith
  qed
qed auto

lemma huffman_spec_length: "huffman_spec src = Some out \<Longrightarrow> 5 * length out \<le> 8 * length src"
  using tdecode_growth [where k = 4 and t = huff_tree and out = "[]"] deep_huff_tree
  by (auto simp: huffman_spec_def split: option.splits if_splits) fastforce

end
