(* ===== verification/Huffman_Encode_Correct.thy ===== *)
theory Huffman_Encode_Correct
  imports Huffman_Decode_Correct
begin

text \<open>
  The bit-accumulating encoder writes exactly the concatenated codes, padded with one bits to
  a byte boundary, and never more than the counted length; the decoder reads it back.
\<close>

section \<open>The shape of the code table\<close>

lemma huff_sym_table_shape_all:
  "list_all (\<lambda>s. 5 \<le> fst s \<and> fst s \<le> 30 \<and> take_bit (32 - fst s) (snd s) = 0) huff_sym_table"
  by (simp add: huff_sym_table_def)

lemma huff_sym_table_shape:
  assumes "c \<le> 256"
  shows "5 \<le> fst (huff_sym_table ! c)" "fst (huff_sym_table ! c) \<le> 30"
    and "take_bit (32 - fst (huff_sym_table ! c)) (snd (huff_sym_table ! c)) = 0"
  using huff_sym_table_shape_all assms
  by (auto simp: list_all_length length_huff_sym_table dest: spec [where x = c])

lemma sym_code_bit:
  assumes "c \<le> 256" and "k < 32"
  shows "bit (snd (huff_sym_table ! c)) (31 - k) \<longleftrightarrow>
    k < fst (huff_sym_table ! c) \<and> code_bits (huff_sym_table ! c) ! k"
proof (cases "k < fst (huff_sym_table ! c)")
  case True
  then show ?thesis by (simp add: code_bits_def)
next
  case False
  have "\<not> bit (take_bit (32 - fst (huff_sym_table ! c)) (snd (huff_sym_table ! c))) (31 - k)"
    using huff_sym_table_shape(3) [OF assms(1)] by simp
  then show ?thesis
    using False assms huff_sym_table_shape(2) [OF assms(1)] by (auto simp: bit_simps)
qed

lemma length_code_bits [simp]: "length (code_bits s) = fst s"
  by (simp add: code_bits_def)

abbreviation enc_bits :: "bytes \<Rightarrow> bool list" where
  "enc_bits src \<equiv> concat (map (\<lambda>b. code_bits (huff_sym_table ! unat b)) src)"

lemma length_enc_bits: "length (enc_bits src) = huffman_nbits src"
  by (induction src) auto

section \<open>The accumulator\<close>

text \<open>The accumulator holds the pending bits from its high end down, and zeros below.\<close>

definition acc_rel :: "u64 \<Rightarrow> bool list \<Rightarrow> bool" where
  "acc_rel a p \<longleftrightarrow> length p \<le> 64 \<and> (\<forall>i < 64. bit a (63 - i) \<longleftrightarrow> i < length p \<and> p ! i)"

lemma acc_rel_0: "acc_rel 0 []"
  by (simp add: acc_rel_def)

lemma acc_rel_append:
  assumes "acc_rel a p" and "length p < 32" and c: "c \<le> 256"
  shows "acc_rel (a OR push_bit (32 - length p) (ucast (snd (huff_sym_table ! c))))
     (p @ code_bits (huff_sym_table ! c))"
proof -
  let ?s = "huff_sym_table ! c" and ?n = "length p"
  have "bit (push_bit (32 - ?n) (ucast (snd ?s)) :: u64) (63 - i) \<longleftrightarrow>
      ?n \<le> i \<and> i - ?n < fst ?s \<and> code_bits ?s ! (i - ?n)" if i: "i < 64" for i
  proof (cases "?n \<le> i \<and> i - ?n < 32")
    case True
    then have "63 - i - (32 - ?n) = 31 - (i - ?n)" and "32 - ?n \<le> 63 - i"
      using assms(2) by auto
    then show ?thesis
      using True i assms(2) sym_code_bit [OF c, of "i - ?n"] by (auto simp: bit_simps)
  next
    case False
    then have "\<not> bit (push_bit (32 - ?n) (ucast (snd ?s)) :: u64) (63 - i)"
      using i assms(2) by (auto simp: bit_simps dest!: bit_imp_le_length)
    with False huff_sym_table_shape(2) [OF c] show ?thesis by auto
  qed
  then show ?thesis
    using assms huff_sym_table_shape(2) [OF c]
    by (auto simp: acc_rel_def bit_simps nth_append)
qed

lemma acc_rel_drop:
  assumes "acc_rel a p" and "k \<le> length p"
  shows "acc_rel (push_bit k a) (drop k p)"
  unfolding acc_rel_def
proof (intro conjI allI impI)
  show "length (drop k p) \<le> 64" using assms by (auto simp: acc_rel_def)
next
  fix i :: nat assume i: "i < 64"
  show "bit (push_bit k a) (63 - i) \<longleftrightarrow> i < length (drop k p) \<and> drop k p ! i"
  proof (cases "k + i < 64")
    case True
    then have "63 - i - k = 63 - (k + i)" by simp
    with True i assms show ?thesis by (auto simp: acc_rel_def bit_simps)
  next
    case False
    then show ?thesis using i assms by (auto simp: acc_rel_def bit_simps)
  qed
qed

lemma acc_rel_top_bit: "acc_rel a p \<Longrightarrow> i < 64 \<Longrightarrow> bit a (63 - i) \<longleftrightarrow> i < length p \<and> p ! i"
  by (simp add: acc_rel_def)

lemma acc_rel_bit: "acc_rel a p \<Longrightarrow> j < 64 \<Longrightarrow> bit a j \<longleftrightarrow> 63 - j < length p \<and> p ! (63 - j)"
  using acc_rel_top_bit [of a p "63 - j"] by simp

text \<open>The byte that is stored is the next eight pending bits, the missing ones zero.\<close>

lemma upt_8: "[0..<8] = [0, 1, 2, 3, 4, 5, 6, 7]"
  by (simp add: eval_nat_numeral)

lemma acc_rel_byte:
  assumes "acc_rel a p"
  shows "byte_bits (ucast (drop_bit 56 a)) = map (\<lambda>i. i < length p \<and> p ! i) [0..<8]"
proof -
  have "bit a (63 - i) \<longleftrightarrow> i < length p \<and> p ! i" if "i < 8" for i
    using acc_rel_top_bit [OF assms] that by simp
  from this [of 0] this [of 1] this [of 2] this [of 3] this [of 4] this [of 5] this [of 6] this [of 7]
  show ?thesis by (simp add: byte_bits_def bit_simps upt_8)
qed

lemma map_nth_take: "k \<le> length p \<Longrightarrow> map (\<lambda>i. i < length p \<and> p ! i) [0..<k] = take k p"
  by (auto intro!: nth_equalityI)

lemma acc_rel_full_byte: "acc_rel a p \<Longrightarrow> 8 \<le> length p \<Longrightarrow> byte_bits (ucast (drop_bit 56 a)) = take 8 p"
  by (simp only: acc_rel_byte map_nth_take)

section \<open>The loops\<close>

text \<open>
  The invariant of the encoder after some input: the bytes written and the pending bits
  together are the codes so far, and written plus free space is the buffer.
\<close>

definition enc_inv :: "nat \<Rightarrow> bool list \<Rightarrow> enc_state \<Rightarrow> bool list \<Rightarrow> bool" where
  "enc_inv dstlen codes s p \<longleftrightarrow>
     acc_rel (acc s) p \<and> nbits s = length p \<and> bits_of (written s) @ p = codes \<and>
     length (written s) + space s = dstlen"

lemma flush_bytes_inv:
  "enc_inv dstlen codes s p \<Longrightarrow>
     (case flush_bytes s of
        None \<Rightarrow> space s < length p div 8
      | Some s' \<Rightarrow> (\<exists>p'. enc_inv dstlen codes s' p' \<and> length p' < 8) \<and> length p div 8 \<le> space s)"
proof (induction s arbitrary: p rule: flush_bytes.induct)
  case (1 s)
  have n: "nbits s = length p" using 1(2) by (simp add: enc_inv_def)
  show ?case
  proof (cases "8 \<le> length p \<and> space s \<noteq> 0")
    case False
    then show ?thesis
      using 1(2) n by (subst flush_bytes.simps) (auto simp: put_byte_def not_le)
  next
    case True
    define s1 where "s1 = s\<lparr>written := written s @ [ucast (drop_bit 56 (acc s))], space := space s - 1\<rparr>"
    define s' where "s' = s1\<lparr>acc := push_bit 8 (acc s), nbits := nbits s - 8\<rparr>"
    have put: "put_byte (ucast (drop_bit 56 (acc s))) s = Some s1" and n8: "8 \<le> nbits s"
      using True n by (simp_all add: put_byte_def s1_def)
    have flush: "flush_bytes s = flush_bytes s'"
      by (subst flush_bytes.simps) (simp add: put n8 s'_def)
    have b: "byte_bits (ucast (drop_bit 56 (acc s))) = take 8 p"
      using 1(2) True by (auto simp: enc_inv_def intro: acc_rel_full_byte)
    have inv: "enc_inv dstlen codes s' (drop 8 p)"
      using 1(2) True b by (auto simp: enc_inv_def s'_def s1_def intro: acc_rel_drop)
    note ih = "1.IH" [OF n8 put inv [unfolded s'_def], folded s'_def]
    have "length p div 8 = Suc (length (drop 8 p) div 8)"
      using True le_div_geq [of 8 "length p"] by simp
    then show ?thesis
      unfolding flush using True ih by (auto simp: s'_def s1_def split: option.splits)
  qed
qed

lemma put_uint32_bits:
  assumes "acc_rel a p" "32 \<le> length p"
  shows "bits_of (put_uint32_in_be_stream (ucast (drop_bit 32 a))) = take 32 p"
proof -
  have b: "byte_bits (ucast (drop_bit 56 (push_bit k a))) = take 8 (drop k p)" if "k + 8 \<le> length p" for k
    using acc_rel_full_byte [OF acc_rel_drop [OF assms(1)]] that by simp
  have "bits_of (put_uint32_in_be_stream (ucast (drop_bit 32 a))) =
     byte_bits (ucast (drop_bit 56 (push_bit 0 a))) @ byte_bits (ucast (drop_bit 56 (push_bit 8 a))) @
     byte_bits (ucast (drop_bit 56 (push_bit 16 a))) @ byte_bits (ucast (drop_bit 56 (push_bit 24 a)))"
    by (simp add: put_uint32_bytes byte_bits_def bit_simps)
  also have "\<dots> = take 8 p @ take 8 (drop 8 p) @ take 8 (drop 16 p) @ take 8 (drop 24 p)"
    using assms(2) by (simp only: b) simp
  also have "\<dots> = take (8 + (8 + (8 + 8))) p"
    by (simp only: take_add drop_drop) simp
  finally show ?thesis by simp
qed

lemma encode_sym_inv:
  assumes inv: "enc_inv dstlen codes s p" and "length p < 32"
  shows "case encode_sym b s of
      None \<Rightarrow> 8 * dstlen < length codes + fst (huff_sym_table ! unat b)
    | Some s' \<Rightarrow> \<exists>p'. enc_inv dstlen (codes @ code_bits (huff_sym_table ! unat b)) s' p' \<and> length p' < 32"
proof -
  let ?c = "code_bits (huff_sym_table ! unat b)"
  let ?a = "acc s OR push_bit (32 - nbits s) (ucast (snd (huff_sym_table ! unat b)))"
  have c: "unat b \<le> 256" using unat_u8_bound [of b] by simp
  have n: "nbits s = length p" using inv by (simp add: enc_inv_def)
  have rel: "acc_rel ?a (p @ ?c)"
    unfolding n using inv assms(2) c by (intro acc_rel_append) (simp_all add: enc_inv_def)
  have inv1: "enc_inv dstlen (codes @ ?c) (s\<lparr>acc := ?a, nbits := nbits s + fst (huff_sym_table ! unat b)\<rparr>) (p @ ?c)"
    using inv rel by (auto simp: enc_inv_def)
  consider "length (p @ ?c) < 32" | "32 \<le> length (p @ ?c)" "4 \<le> space s" | "32 \<le> length (p @ ?c)" "space s < 4"
    by linarith
  then show ?thesis
  proof cases
    case 1
    then show ?thesis using inv1 by (auto simp: encode_sym_def Let_def n)
  next
    case 2
    let ?s' = "\<lparr>acc = push_bit 32 ?a, nbits = nbits s + fst (huff_sym_table ! unat b) - 32, space = space s - 4,
        written = written s @ put_uint32_in_be_stream (ucast (drop_bit 32 ?a))\<rparr>"
    have w: "bits_of (put_uint32_in_be_stream (ucast (drop_bit 32 ?a))) = take 32 (p @ ?c)"
      using rel 2 by (intro put_uint32_bits)
    have "enc_inv dstlen (codes @ ?c) ?s' (drop 32 (p @ ?c))"
      using inv 2 w acc_rel_drop [OF rel 2(1)] by (simp add: enc_inv_def del: take_append drop_append)
    moreover have "length (drop 32 (p @ ?c)) < 32"
      using assms(2) huff_sym_table_shape(2) [OF c] by simp
    moreover have "encode_sym b s = Some ?s'"
      using 2 by (simp add: encode_sym_def Let_def n)
    ultimately show ?thesis by (auto simp del: drop_append)
  next
    case 3
    have "encode_sym b s = flush_bytes (s\<lparr>acc := ?a, nbits := nbits s + fst (huff_sym_table ! unat b)\<rparr>)"
      using 3 by (simp add: encode_sym_def Let_def n)
    moreover have "length codes + fst (huff_sym_table ! unat b) = 8 * length (written s) + length (p @ ?c)"
      and "length (written s) + space s = dstlen"
      using inv by (auto simp: enc_inv_def)
    ultimately show ?thesis
      using flush_bytes_inv [OF inv1] by (fastforce split: option.splits)
  qed
qed

lemma encode_syms_inv:
  "enc_inv dstlen codes s p \<Longrightarrow> length p < 32 \<Longrightarrow>
     (case encode_syms src s of
        None \<Rightarrow> 8 * dstlen < length codes + huffman_nbits src
      | Some s' \<Rightarrow> \<exists>p'. enc_inv dstlen (codes @ enc_bits src) s' p' \<and> length p' < 32)"
proof (induction src arbitrary: codes s p)
  case Nil
  then show ?case by auto
next
  case (Cons b src)
  note step = encode_sym_inv [OF Cons.prems, of b]
  show ?case
  proof (cases "encode_sym b s")
    case None
    with step show ?thesis by simp
  next
    case (Some s1)
    with step obtain p1 where "enc_inv dstlen (codes @ code_bits (huff_sym_table ! unat b)) s1 p1"
        "length p1 < 32" by auto
    from Cons.IH [OF this] Some show ?thesis by (auto split: option.splits)
  qed
qed

section \<open>The whole encoder\<close>

lemma byte_bits_map: "byte_bits c = map (\<lambda>i. bit c (7 - i)) [0..<8]"
  by (simp add: byte_bits_def upt_8)

lemma pad_byte:
  assumes rel: "acc_rel a p" and p: "0 < length p" "length p < 8"
  shows "byte_bits (ucast (drop_bit 56 a) OR (push_bit (8 - length p) 1 - 1)) =
     p @ replicate (8 - length p) True"
proof (rule nth_equalityI)
  fix i assume "i < length (byte_bits (ucast (drop_bit 56 a) OR (push_bit (8 - length p) 1 - 1)))"
  then have i: "i < 8" by simp
  have m: "push_bit (8 - length p) 1 - 1 = (mask (8 - length p) :: u8)"
    by (simp add: mask_eq_exp_minus_1 push_bit_eq_mult)
  have nth: "byte_bits c ! i = bit c (7 - i)" for c
    using i by (simp add: byte_bits_map)
  have "bit a (63 - i) \<longleftrightarrow> i < length p \<and> p ! i"
    using acc_rel_top_bit [OF rel] i by simp
  moreover have "56 + (7 - i) = 63 - i" using i by simp
  ultimately show "byte_bits (ucast (drop_bit 56 a) OR (push_bit (8 - length p) 1 - 1)) ! i =
      (p @ replicate (8 - length p) True) ! i"
    using i p unfolding nth m by (auto simp: bit_simps nth_append)
qed (use p in simp)

theorem huffman_encode_bits:
  "case http2_head_huffman_encode dstlen src of
     None \<Rightarrow> dstlen < http2_head_huffman_encode_count src
   | Some out \<Rightarrow> length out = http2_head_huffman_encode_count src \<and> length out \<le> dstlen \<and>
       (\<exists>k < 8. bits_of out = enc_bits src @ replicate k True)"
proof -
  let ?s0 = "\<lparr>acc = 0, nbits = 0, space = dstlen, written = []\<rparr>"
  have "enc_inv dstlen [] ?s0 []" by (simp add: enc_inv_def acc_rel_0)
  note syms = encode_syms_inv [OF this, of src]
  have count: "8 * dstlen < huffman_nbits src \<Longrightarrow> dstlen < http2_head_huffman_encode_count src"
    by (simp add: http2_head_huffman_encode_count_def)
  show ?thesis
  proof (cases "encode_syms src ?s0")
    case None
    with syms count show ?thesis by (simp add: http2_head_huffman_encode_def)
  next
    case (Some s)
    with syms obtain p where inv: "enc_inv dstlen (enc_bits src) s p" by auto
    note fl = flush_bytes_inv [OF inv]
    have len: "8 * length (written s) + length p = huffman_nbits src" "length (written s) + space s = dstlen"
      using inv length_enc_bits [of src] by (auto simp: enc_inv_def dest: arg_cong [where f = length])
    show ?thesis
    proof (cases "flush_bytes s")
      case None
      with fl len Some show ?thesis
        by (simp add: http2_head_huffman_encode_def http2_head_huffman_encode_count_def)
    next
      case flushed: (Some s1)
      with fl obtain q where q: "enc_inv dstlen (enc_bits src) s1 q" "length q < 8" by auto
      have len1: "8 * length (written s1) + length q = huffman_nbits src"
          "length (written s1) + space s1 = dstlen" "nbits s1 = length q" "acc_rel (acc s1) q"
          "bits_of (written s1) @ q = enc_bits src"
        using q length_enc_bits [of src] by (auto simp: enc_inv_def dest: arg_cong [where f = length])
      have enc: "http2_head_huffman_encode dstlen src = map_option written (encode_tail s1)"
        by (simp add: http2_head_huffman_encode_def Some flushed)
      show ?thesis
      proof (cases "q = []")
        case True
        with len1 enc show ?thesis
          by (auto simp: encode_tail_def http2_head_huffman_encode_count_def intro!: exI [of _ 0])
      next
        case False
        have cnt: "http2_head_huffman_encode_count src = Suc (length (written s1))"
          using len1(1) q(2) False
          by (cases q) (auto simp: http2_head_huffman_encode_count_def)
        show ?thesis
          using enc len1 q(2) False cnt pad_byte [OF len1(4)]
          by (auto simp: encode_tail_def put_byte_def intro!: exI [of _ "8 - length q"])
      qed
    qed
  qed
qed

end
