(* ===== verification/Huffman_Properties.thy ===== *)
theory Huffman_Properties
  imports Huffman_Encode_Correct
begin

text \<open>
  What the Huffman component promises its callers: the tables are consistent, decoding inverts
  encoding, and the encoder never writes past a buffer of the counted size.
\<close>

lemma tdecode_code:
  "follow t bs = Some (HLeaf c) \<Longrightarrow> is_node t \<Longrightarrow> c \<noteq> 256 \<Longrightarrow>
     tdecode t bs out = Some (huff_tree, out @ [word_of_nat c])"
proof (induction t bs arbitrary: out rule: follow.induct)
  case (3 i a l r b bs)
  show ?case
  proof (cases "if b then r else l")
    case (HLeaf c')
    with 3 show ?thesis by (cases bs) auto
  next
    case (HNode i' a' l' r')
    with 3 show ?thesis by auto
  qed
qed auto

lemma tdecode_enc_bits: "tdecode huff_tree (enc_bits src) out = Some (huff_tree, out @ src)"
proof (induction src arbitrary: out)
  case (Cons b src)
  have "unat b < 256" by (rule unat_u8_bound)
  then have "tdecode huff_tree (code_bits (huff_sym_table ! unat b)) out = Some (huff_tree, out @ [b])"
    using tdecode_code [OF huff_sym_table_codes [of "unat b"], of out] by simp
  with Cons.IH show ?case by (simp add: tdecode_append)
qed simp

lemma padding_accepted_all:
  "list_all (\<lambda>k. case follow huff_tree (replicate k True) of
      Some t \<Rightarrow> is_node t \<and> node_accept t | None \<Rightarrow> False) [0, 1, 2, 3, 4, 5, 6, 7]"
  by (simp add: huff_tree_def eval_nat_numeral)

lemma follow_node_tdecode:
  "follow t bs = Some n \<Longrightarrow> is_node n \<Longrightarrow> tdecode t bs out = Some (n, out)"
proof (induction t bs rule: follow.induct)
  case (3 i a l r b bs)
  then show ?case by (cases "if b then r else l"; cases bs) auto
qed auto

lemma padding_accepted:
  assumes "k < 8"
  obtains t where "tdecode huff_tree (replicate k True) out = Some (t, out)" "node_accept t"
proof -
  from assms have "k \<in> set [0, 1, 2, 3, 4, 5, 6, 7]" by auto
  with padding_accepted_all have "case follow huff_tree (replicate k True) of
      Some t \<Rightarrow> is_node t \<and> node_accept t | None \<Rightarrow> False"
    unfolding list_all_iff by (rule bspec)
  then obtain t where "follow huff_tree (replicate k True) = Some t" "is_node t" "node_accept t"
    by (auto split: option.splits)
  then show ?thesis by (blast intro: that follow_node_tdecode)
qed

lemma huffman_spec_encoded:
  assumes "bits_of out = enc_bits src @ replicate k True" "k < 8"
  shows "huffman_spec out = Some src"
proof -
  obtain t where "tdecode huff_tree (replicate k True) src = Some (t, src)" "node_accept t"
    using assms(2) by (rule padding_accepted)
  with assms(1) show ?thesis by (simp add: huffman_spec_def tdecode_append tdecode_enc_bits)
qed

text \<open>One-shot decoding with a large enough buffer is the specification.\<close>

lemma huffman_decode_ok:
  assumes "length src = n" "8 * n \<le> 5 * buflen" "huffman_spec src = Some out"
  shows "\<exists>ctx. http2_head_huffman_decode http2_head_huffman_decode_context_init buflen (src @ rest) n True
    = Ok (ctx, out)"
  using huffman_decode_refines [OF assms(1), of buflen rest] huffman_spec_length [OF assms(3)] assms
  by (auto split: outcome.splits option.splits)

lemma huffman_decode_error:
  assumes "length src = n" "huffman_spec src = None"
  shows "http2_head_huffman_decode http2_head_huffman_decode_context_init buflen (src @ rest) n True
    = Error (-1)"
  using huffman_decode_refines [OF assms(1), of buflen rest] assms
  by (auto split: outcome.splits option.splits)

section \<open>Properties\<close>

text \<open>C26. The two literal tables agree: every code of \<^verbatim>\<open>huff_sym_table\<close> is the path of its symbol
  in one prefix code tree, and \<^verbatim>\<open>huff_decode_table\<close> is exactly the nibble-at-a-time automaton of
  that tree (next state, accept flag, emitted symbol), with a failure row for state 256.\<close>

theorem huffman_tables_consistent:
  "(\<forall>c \<le> 256. follow huff_tree (code_bits (huff_sym_table ! c)) = Some (HLeaf c)) \<and>
   huff_decode_table = rows_of huff_tree huff_tree @ [replicate 16 (0x100, 0)]"
  by (simp add: huff_sym_table_codes huff_decode_table_eq_rows)

theorem huffman_tables_consistent_witness:
  "follow huff_tree (code_bits (huff_sym_table ! 97)) = Some (HLeaf 97)"
  using huffman_tables_consistent by simp

text \<open>C9. Huffman decoding inverts Huffman encoding: whenever the encoder of a byte string
  succeeds, the decoder, given the output as its final block and room for the string, returns
  exactly the string.\<close>

theorem huffman_roundtrip:
  assumes "http2_head_huffman_encode dstlen src = Some out" and "length src \<le> buflen"
  shows "\<exists>ctx. http2_head_huffman_decode http2_head_huffman_decode_context_init buflen out (length out) True
    = Ok (ctx, src)"
proof -
  from assms(1) huffman_encode_bits [of dstlen src]
  obtain k where "bits_of out = enc_bits src @ replicate k True" "k < 8" by auto
  then have "huffman_spec out = Some src" by (rule huffman_spec_encoded)
  with huffman_decode_refines [of out "length out" buflen "[]"] assms(2) show ?thesis
    by (auto split: outcome.splits)
qed

theorem huffman_roundtrip_witness:
  "http2_head_huffman_encode 3 [0x61, 0x62] = Some [0x1C, 0x7F] \<and>
   (\<exists>ctx. http2_head_huffman_decode http2_head_huffman_decode_context_init 2 [0x1C, 0x7F] 2 True
      = Ok (ctx, [0x61, 0x62]))"
proof -
  have "huff_sym_table ! 97 = (5, 0x18000000)" "huff_sym_table ! 98 = (6, 0x8c000000)"
    by (simp_all add: huff_sym_table_def)
  then have "http2_head_huffman_encode 3 [0x61, 0x62] = Some [0x1C, 0x7F]"
    by (simp add: http2_head_huffman_encode_def encode_sym_def Let_def flush_bytes.simps put_byte_def encode_tail_def)
  then show ?thesis using huffman_roundtrip [of 3 "[0x61, 0x62]" "[0x1C, 0x7F]" 2] by (simp add: numeral_2_eq_2)
qed

text \<open>C34. The encoder succeeds exactly when the destination has the counted size, and then writes
  exactly that many bytes; it is a store outside the destination otherwise.\<close>

theorem huffman_encode_count_exact:
  "(http2_head_huffman_encode dstlen src = None \<longleftrightarrow> dstlen < http2_head_huffman_encode_count src) \<and>
   (\<forall>out. http2_head_huffman_encode dstlen src = Some out \<longrightarrow>
      length out = http2_head_huffman_encode_count src)"
  using huffman_encode_bits [of dstlen src] by (auto split: option.splits)

theorem huffman_encode_count_exact_witness:
  "length [0x1C :: u8, 0x7F] = http2_head_huffman_encode_count [0x61, 0x62] \<and>
   http2_head_huffman_encode 1 [0x61, 0x62] = None"
proof -
  have "huff_sym_table ! 97 = (5, 0x18000000)" "huff_sym_table ! 98 = (6, 0x8c000000)"
    by (simp_all add: huff_sym_table_def)
  then have "http2_head_huffman_encode 3 [0x61, 0x62] = Some [0x1C, 0x7F]"
    by (simp add: http2_head_huffman_encode_def encode_sym_def Let_def flush_bytes.simps put_byte_def encode_tail_def)
  then have "length [0x1C :: u8, 0x7F] = http2_head_huffman_encode_count [0x61, 0x62]"
    using huffman_encode_count_exact [of 3 "[0x61, 0x62]"] by blast
  with huffman_encode_count_exact [of 1 "[0x61, 0x62]"] show ?thesis by simp
qed

end
