(* ===== verification/Hpack_String.thy ===== *)
theory Hpack_String
  imports Hpack_Int Huffman_Properties Metadata
begin

text \<open>
  HPACK string literals (RFC 7541 Section 5.2): \<^verbatim>\<open>decode_string\<close>, \<^verbatim>\<open>parse_string\<close> and
  \<^verbatim>\<open>parse_string_key\<close> of \<^verbatim>\<open>src/hpack/decode.cc\<close>. A pointer into the buffer is the range of
  bytes from it to \<^verbatim>\<open>buf_end\<close>.
\<close>

section \<open>The code\<close>

text \<open>
  \<^verbatim>\<open>decode_string\<close>: sizes are 64-bit words. The source range is not compared with the end of
  the buffer, so a length beyond it makes the Huffman decoder read outside (\<open>Fault\<close>).
\<close>

definition decode_string :: "bytes \<Rightarrow> nat \<Rightarrow> nat \<Rightarrow> (bytes \<times> bytes) outcome" where
  "decode_string src src_len len =
     (let alloc_size = word_of_nat len * 3 :: u64 in
      if alloc_size div 3 \<noteq> word_of_nat len then nullptr
      else (case http2_head_huffman_decode http2_head_huffman_decode_context_init
                   (unat alloc_size) src src_len True of
              Ok (ctx, value) \<Rightarrow> Ok (value, drop src_len src)
            | Error e \<Rightarrow> nullptr
            | Fault \<Rightarrow> Fault))"

definition parse_string :: "bytes \<Rightarrow> (bytes \<times> bytes) outcome" where
  "parse_string buf = (case buf of
       [] \<Rightarrow> nullptr
     | b # _ \<Rightarrow>
         (let huffman_decode = (b AND 0x80 \<noteq> 0) in
          outcome_bind (decode_uint32 buf (INT_MASK 7)) (\<lambda>(str_len, buf).
            if huffman_decode then decode_string buf (unat str_len) (unat str_len)
            else (let remaining = word_of_nat (length buf) :: u32 in
              if str_len \<le> remaining then Ok (take (unat str_len) buf, drop (unat str_len) buf)
              else nullptr))))"

definition isupper :: "u8 \<Rightarrow> bool" where
  "isupper c \<longleftrightarrow> 0x41 \<le> c \<and> c \<le> 0x5A"

text \<open>The loop that copies a plain key and gives up at an upper-case letter.\<close>

fun copy_key :: "bytes \<Rightarrow> nat \<Rightarrow> bytes \<Rightarrow> (bytes \<times> bytes) outcome" where
  "copy_key buf 0 dst = Ok (dst, buf)"
| "copy_key [] (Suc n) dst = Fault"
| "copy_key (c # buf) (Suc n) dst =
     (if isupper c then nullptr else copy_key buf n (dst @ [c]))"

text \<open>\<open>dst\<close> is the string on entry; the callers pass an empty one.\<close>

definition parse_string_key :: "bytes \<Rightarrow> bytes \<Rightarrow> (bytes \<times> bytes) outcome" where
  "parse_string_key dst buf = (case buf of
       [] \<Rightarrow> nullptr
     | b # _ \<Rightarrow>
         (let huffman_decode = (b AND 0x80 \<noteq> 0) in
          outcome_bind (decode_uint32 buf (INT_MASK 7)) (\<lambda>(str_len, buf).
            if huffman_decode then decode_string buf (unat str_len) (unat str_len)
            else (let remaining = word_of_nat (length buf) :: u32 in
              if str_len \<le> remaining then copy_key buf (unat str_len) dst
              else nullptr))))"

section \<open>Lemmas\<close>

lemma copy_key_plain:
  "copy_key (s @ rest) (length s) dst = (if list_ex isupper s then nullptr else Ok (dst @ s, rest))"
  by (induction s arbitrary: dst) auto

lemma copy_key_progress: "copy_key buf n dst = Ok (out, rest) \<Longrightarrow> \<exists>pre. buf = pre @ rest"
  by (induction buf n dst rule: copy_key.induct) (auto split: if_splits)

lemma unat_alloc: "n < 2 ^ 32 \<Longrightarrow> unat (word_of_nat n * 3 :: u64) = 3 * n"
proof -
  assume "n < 2 ^ 32"
  then have "n * 3 < 2 ^ 64" by simp
  then show ?thesis by (simp add: unat_word_ariths unat_of_nat take_bit_nat_eq_self)
qed

lemma alloc_no_overflow: "n < 2 ^ 32 \<Longrightarrow> (word_of_nat n * 3 :: u64) div 3 = word_of_nat n"
  by (rule word_unat_eq_iff [THEN iffD2])
     (simp only: unat_div unat_alloc, simp add: unat_of_nat take_bit_nat_eq_self)

lemma decode_string_spec:
  assumes "length src = n" "n < 2 ^ 32"
  shows "decode_string (src @ rest) n n = (case huffman_spec src of None \<Rightarrow> nullptr | Some s \<Rightarrow> Ok (s, rest))"
proof (cases "huffman_spec src")
  case None
  show ?thesis
    using huffman_decode_error [OF assms(1) None, of "3 * n" rest] assms None
    by (simp add: decode_string_def Let_def alloc_no_overflow unat_alloc)
next
  case (Some s)
  have "8 * n \<le> 5 * (3 * n)" by simp
  from huffman_decode_ok [OF assms(1) this Some, of rest] assms Some show ?thesis
    by (auto simp: decode_string_def Let_def alloc_no_overflow unat_alloc)
qed

lemma decode_string_shorter: "decode_string src n k = Ok (s, rest) \<Longrightarrow> length rest \<le> length src"
  by (auto simp: decode_string_def Let_def split: if_splits outcome.splits)

lemma copy_key_shorter: "copy_key buf n dst = Ok (out, rest) \<Longrightarrow> length rest \<le> length buf"
  by (drule copy_key_progress) auto

lemma decode_uint32_shorter: "decode_uint32 src m = Ok (v, rest) \<Longrightarrow> length rest < length src"
  by (drule decode_uint32_progress) auto

lemma parse_string_shorter [bounds]:
  "parse_string buf = Ok (s, rest) \<Longrightarrow> length rest < length buf"
  by (auto simp: parse_string_def outcome_bind_eq_Ok Let_def simp del: length_greater_0_conv
       dest!: decode_string_shorter decode_uint32_shorter split: if_splits list.splits)

lemma parse_string_key_shorter [bounds]:
  "parse_string_key dst buf = Ok (s, rest) \<Longrightarrow> length rest < length buf"
  by (auto simp: parse_string_key_def outcome_bind_eq_Ok Let_def simp del: length_greater_0_conv
       dest!: decode_string_shorter decode_uint32_shorter copy_key_shorter split: if_splits list.splits)

section \<open>Round trips\<close>

text \<open>A literal string on the wire: the length with a 7-bit prefix, then the octets.\<close>

definition plain_string :: "bytes \<Rightarrow> bytes" where
  "plain_string s = encode_uint16 (word_of_nat (length s)) (INT_MASK 7) @ s"

definition huffman_string :: "bytes \<Rightarrow> bytes" where
  "huffman_string enc = or_first 0x80 (encode_uint16 (word_of_nat (length enc)) (INT_MASK 7)) @ enc"

lemma mask7: "INT_MASK 7 = 0x7f"
  by (simp add: INT_MASK_def)

lemma encode_first_byte:
  obtains b bs where "encode_uint16 I (INT_MASK 7) = b # bs" "b AND 0x80 = 0"
proof (cases "I < 0x7f")
  case True
  then have "I < 128" by (rule order.strict_trans) simp
  then have "ucast I AND 0x80 = (0 :: u8)" by (rule last_byte_flag)
  with True show ?thesis by (intro that) (auto simp: encode_uint16_eq uint16_encode_impl_def mask7)
next
  case False
  then show ?thesis by (intro that) (auto simp: encode_uint16_eq uint16_encode_impl_def mask7)
qed

lemma parse_plain_string [roundtrip]:
  assumes "length (s @ rest) < 2 ^ 32"
  shows "parse_string (plain_string s @ rest) = Ok (s, rest)"
proof -
  obtain b bs where b: "encode_uint16 (word_of_nat (length s)) (INT_MASK 7) = b # bs" "b AND 0x80 = 0"
    by (rule encode_first_byte)
  have d: "decode_uint32 (b # bs @ s @ rest) (INT_MASK 7) = Ok (word_of_nat (length s), s @ rest)"
    using decode_encode_uint32 [of 7 0 "word_of_nat (length s)" "s @ rest"] b by simp
  have "unat (word_of_nat (length s) :: u32) = length s"
    "unat (word_of_nat (length (s @ rest)) :: u32) = length (s @ rest)"
    using assms by (intro unat_of_nat_u32, simp)+
  then show ?thesis
    using b d by (simp add: plain_string_def parse_string_def word_le_nat_alt)
qed

lemma parse_plain_string_key [roundtrip]:
  assumes "length (s @ rest) < 2 ^ 32"
  shows "parse_string_key dst (plain_string s @ rest) =
    (if list_ex isupper s then nullptr else Ok (dst @ s, rest))"
proof -
  obtain b bs where b: "encode_uint16 (word_of_nat (length s)) (INT_MASK 7) = b # bs" "b AND 0x80 = 0"
    by (rule encode_first_byte)
  have d: "decode_uint32 (b # bs @ s @ rest) (INT_MASK 7) = Ok (word_of_nat (length s), s @ rest)"
    using decode_encode_uint32 [of 7 0 "word_of_nat (length s)" "s @ rest"] b by simp
  have "unat (word_of_nat (length s) :: u32) = length s"
    "unat (word_of_nat (length (s @ rest)) :: u32) = length (s @ rest)"
    using assms by (intro unat_of_nat_u32, simp)+
  then show ?thesis
    using b d by (simp add: plain_string_def parse_string_key_def word_le_nat_alt copy_key_plain)
qed

lemma parse_huffman_string:
  assumes "length enc < 2 ^ 32"
  shows "parse_string (huffman_string enc @ rest) =
      (case huffman_spec enc of None \<Rightarrow> nullptr | Some s \<Rightarrow> Ok (s, rest))"
    and "parse_string_key dst (huffman_string enc @ rest) =
      (case huffman_spec enc of None \<Rightarrow> nullptr | Some s \<Rightarrow> Ok (s, rest))"
proof -
  obtain b bs where b: "encode_uint16 (word_of_nat (length enc)) (INT_MASK 7) = b # bs" "b AND 0x80 = 0"
    by (rule encode_first_byte)
  have flag: "(b OR 0x80) AND 0x80 \<noteq> 0"
    by (simp add: bit.conj_disj_distrib2)
  have "0x80 AND INT_MASK 7 = 0" by (simp add: mask7)
  then have d: "decode_uint32 ((b OR 0x80) # bs @ enc @ rest) (INT_MASK 7) = Ok (word_of_nat (length enc), enc @ rest)"
    using decode_encode_uint32 [of 7 "0x80" "word_of_nat (length enc)" "enc @ rest"] b by simp
  have u: "unat (word_of_nat (length enc) :: u32) = length enc"
    using assms by (intro unat_of_nat_u32) simp
  show "parse_string (huffman_string enc @ rest) =
      (case huffman_spec enc of None \<Rightarrow> nullptr | Some s \<Rightarrow> Ok (s, rest))"
    using b d flag by (simp add: huffman_string_def parse_string_def u decode_string_spec [OF refl assms])
  show "parse_string_key dst (huffman_string enc @ rest) =
      (case huffman_spec enc of None \<Rightarrow> nullptr | Some s \<Rightarrow> Ok (s, rest))"
    using b d flag by (simp add: huffman_string_def parse_string_key_def u decode_string_spec [OF refl assms])
qed

end
