(* ===== verification/Static_Table.thy ===== *)
theory Static_Table
  imports Murmur Hpack_String
begin

text \<open>
  The HPACK static table of \<^verbatim>\<open>src/hpack/static_metadata.cc\<close> with the two hash containers
  built from it. The containers are the map and the set they implement: \<^verbatim>\<open>emplace\<close> keeps an
  entry that is already there.
\<close>

record static_metadata =
  sm_kv :: mdelem_data
  sm_index :: u32

text \<open>The constructor on two string literals; \<^verbatim>\<open>nullptr\<close> gives the empty slice.\<close>

definition static_metadata_new :: "string \<Rightarrow> string \<Rightarrow> u32 \<Rightarrow> static_metadata" where
  "static_metadata_new k v idx =
     \<lparr>sm_kv = \<lparr>md_key = ascii k, md_value = ascii v\<rparr>, sm_index = idx\<rparr>"

text \<open>The hash the constructor stores, as a function of the entry and the seed.\<close>

definition sm_hash :: "u32 \<Rightarrow> static_metadata \<Rightarrow> u32" where
  "sm_hash seed sm = mdelem_data_hash seed (sm_kv sm)"

definition HPACK_STATIC_MDELEM_STANDARD_COUNT :: nat where
  "HPACK_STATIC_MDELEM_STANDARD_COUNT = 61"

definition static_mdelem_table :: "static_metadata list" where
  "static_mdelem_table = [
    static_metadata_new '''' '''' 0,
    static_metadata_new '':authority'' '''' 1,
    static_metadata_new '':method'' ''GET'' 2,
    static_metadata_new '':method'' ''POST'' 3,
    static_metadata_new '':path'' ''/'' 4,
    static_metadata_new '':path'' ''/index.html'' 5,
    static_metadata_new '':scheme'' ''http'' 6,
    static_metadata_new '':scheme'' ''https'' 7,
    static_metadata_new '':status'' ''200'' 8,
    static_metadata_new '':status'' ''204'' 9,
    static_metadata_new '':status'' ''206'' 10,
    static_metadata_new '':status'' ''304'' 11,
    static_metadata_new '':status'' ''400'' 12,
    static_metadata_new '':status'' ''404'' 13,
    static_metadata_new '':status'' ''500'' 14,
    static_metadata_new ''accept-charset'' '''' 15,
    static_metadata_new ''accept-encoding'' ''gzip, deflate'' 16,
    static_metadata_new ''accept-language'' '''' 17,
    static_metadata_new ''accept-ranges'' '''' 18,
    static_metadata_new ''accept'' '''' 19,
    static_metadata_new ''access-control-allow-origin'' '''' 20,
    static_metadata_new ''age'' '''' 21,
    static_metadata_new ''allow'' '''' 22,
    static_metadata_new ''authorization'' '''' 23,
    static_metadata_new ''cache-control'' '''' 24,
    static_metadata_new ''content-disposition'' '''' 25,
    static_metadata_new ''content-encoding'' '''' 26,
    static_metadata_new ''content-language'' '''' 27,
    static_metadata_new ''content-length'' '''' 28,
    static_metadata_new ''content-location'' '''' 29,
    static_metadata_new ''content-range'' '''' 30,
    static_metadata_new ''content-type'' '''' 31,
    static_metadata_new ''cookie'' '''' 32,
    static_metadata_new ''date'' '''' 33,
    static_metadata_new ''etag'' '''' 34,
    static_metadata_new ''expect'' '''' 35,
    static_metadata_new ''expires'' '''' 36,
    static_metadata_new ''from'' '''' 37,
    static_metadata_new ''host'' '''' 38,
    static_metadata_new ''if-match'' '''' 39,
    static_metadata_new ''if-modified-since'' '''' 40,
    static_metadata_new ''if-none-match'' '''' 41,
    static_metadata_new ''if-range'' '''' 42,
    static_metadata_new ''if-unmodified-since'' '''' 43,
    static_metadata_new ''last-modified'' '''' 44,
    static_metadata_new ''link'' '''' 45,
    static_metadata_new ''location'' '''' 46,
    static_metadata_new ''max-forwards'' '''' 47,
    static_metadata_new ''proxy-authenticate'' '''' 48,
    static_metadata_new ''proxy-authorization'' '''' 49,
    static_metadata_new ''range'' '''' 50,
    static_metadata_new ''referer'' '''' 51,
    static_metadata_new ''refresh'' '''' 52,
    static_metadata_new ''retry-after'' '''' 53,
    static_metadata_new ''server'' '''' 54,
    static_metadata_new ''set-cookie'' '''' 55,
    static_metadata_new ''strict-transport-security'' '''' 56,
    static_metadata_new ''transfer-encoding'' '''' 57,
    static_metadata_new ''user-agent'' '''' 58,
    static_metadata_new ''vary'' '''' 59,
    static_metadata_new ''via'' '''' 60,
    static_metadata_new ''www-authenticate'' '''' 61
  ]"

text \<open>\<^verbatim>\<open>hpack_static_headers[i].data()\<close>\<close>

definition static_mdelem :: "nat \<Rightarrow> mdelem_data option" where
  "static_mdelem i =
     (if i < length static_mdelem_table then Some (sm_kv (static_mdelem_table ! i)) else None)"

section \<open>The lookup containers\<close>

text \<open>The loop of \<^verbatim>\<open>init_static_metadata_context\<close> over the indices 1 to 61.\<close>

definition emplace_static :: "static_metadata list \<Rightarrow> nat \<Rightarrow> (mdelem_data \<rightharpoonup> u32) \<Rightarrow> (mdelem_data \<rightharpoonup> u32)" where
  "emplace_static tab i m =
     (let md = sm_kv (tab ! i) in if m md = None then m(md \<mapsto> word_of_nat i) else m)"

definition init_full_match :: "static_metadata list \<Rightarrow> (mdelem_data \<rightharpoonup> u32)" where
  "init_full_match tab =
     fold (emplace_static tab) [1..<Suc HPACK_STATIC_MDELEM_STANDARD_COUNT] Map.empty"

definition init_key_exists :: "static_metadata list \<Rightarrow> slice set" where
  "init_key_exists tab =
     fold (\<lambda>i s. insert (md_key (sm_kv (tab ! i))) s) [1..<Suc HPACK_STATIC_MDELEM_STANDARD_COUNT] {}"

definition full_match_static_mdelem_index :: "mdelem_data \<Rightarrow> u32" where
  "full_match_static_mdelem_index mdel =
     (case init_full_match static_mdelem_table mdel of Some i \<Rightarrow> i | None \<Rightarrow> 0)"

definition check_key_exists :: "slice \<Rightarrow> bool" where
  "check_key_exists k \<longleftrightarrow> k \<in> init_key_exists static_mdelem_table"

section \<open>Lemmas\<close>

lemma length_static_mdelem_table: "length static_mdelem_table = 62"
  by (simp add: static_mdelem_table_def)

lemma static_table_indices: "map sm_index static_mdelem_table = map word_of_nat [0..<62]"
  by (simp add: static_mdelem_table_def static_metadata_new_def upt_rec)

lemma unat_of_char_u8: "unat (of_char c :: u8) = of_char c"
proof -
  have "(of_char c :: u8) = word_of_nat (of_char c)" by (simp add: of_nat_of_char)
  moreover have "of_char c < (256 :: nat)" by (metis mod_less_divisor of_char_mod_256 zero_less_numeral)
  ultimately show ?thesis by (simp add: unat_of_nat take_bit_nat_eq_self)
qed

lemma ascii_inject [simp]: "ascii s = ascii t \<longleftrightarrow> s = t"
proof -
  have "inj (of_char :: char \<Rightarrow> u8)"
  proof (rule injI)
    fix c d :: char assume "(of_char c :: u8) = of_char d"
    then have "unat (of_char c :: u8) = unat (of_char d :: u8)" by simp
    then show "c = d" by (simp add: unat_of_char_u8)
  qed
  then show ?thesis by (simp add: ascii_def inj_map_eq_map)
qed

lemma static_table_distinct: "distinct (map sm_kv (tl static_mdelem_table))"
  by (simp add: static_mdelem_table_def static_metadata_new_def del: ascii_simps)

lemma static_keys_plain:
  "list_all (\<lambda>s. \<not> list_ex isupper (md_key (sm_kv s))) static_mdelem_table"
  by (simp add: static_mdelem_table_def static_metadata_new_def isupper_def)

lemma static_keys_not_bin:
  "list_all (\<lambda>s. drop (length (md_key (sm_kv s)) - 4) (md_key (sm_kv s)) \<noteq> ascii ''-bin'') static_mdelem_table"
  by (simp add: static_mdelem_table_def static_metadata_new_def)

lemma static_sizes:
  "list_all (\<lambda>s. length (md_key (sm_kv s)) < 64 \<and> length (md_value (sm_kv s)) < 64) static_mdelem_table"
  by (simp add: static_mdelem_table_def static_metadata_new_def del: ascii_simps)

lemma static_mdelem_nth: "i < 62 \<Longrightarrow> static_mdelem i = Some (sm_kv (static_mdelem_table ! i))"
  by (simp add: static_mdelem_def length_static_mdelem_table)

lemma full_match_fold_sound:
  "fold (emplace_static tab) is m md = Some v
     \<Longrightarrow> m md = Some v \<or> (\<exists>j \<in> set is. sm_kv (tab ! j) = md \<and> v = word_of_nat j)"
  by (induction "is" arbitrary: m) (fastforce simp: emplace_static_def Let_def split: if_splits)+

lemma full_match_fold_keeps: "m md \<noteq> None \<Longrightarrow> fold (emplace_static tab) is m md \<noteq> None"
proof (induction "is" arbitrary: m)
  case (Cons i "is")
  then have "emplace_static tab i m md \<noteq> None" by (simp add: emplace_static_def Let_def)
  then have "fold (emplace_static tab) is (emplace_static tab i m) md \<noteq> None" by (rule Cons.IH)
  then show ?case by simp
qed simp

lemma full_match_fold_complete:
  "j \<in> set is \<Longrightarrow> fold (emplace_static tab) is m (sm_kv (tab ! j)) \<noteq> None"
proof (induction "is" arbitrary: m)
  case (Cons i "is")
  have "emplace_static tab i m (sm_kv (tab ! i)) \<noteq> None" by (simp add: emplace_static_def Let_def)
  from full_match_fold_keeps [of "emplace_static tab i m", OF this] Cons show ?case by auto
qed simp

lemma full_match_sound:
  assumes "full_match_static_mdelem_index mdel = i" "i \<noteq> 0"
  shows "unat i \<le> 61 \<and> static_mdelem (unat i) = Some mdel"
proof -
  have "init_full_match static_mdelem_table mdel = Some i"
    using assms by (auto simp: full_match_static_mdelem_index_def split: option.splits)
  then obtain j where j: "j \<in> set [1..<62]" "sm_kv (static_mdelem_table ! j) = mdel" "i = word_of_nat j"
    unfolding init_full_match_def HPACK_STATIC_MDELEM_STANDARD_COUNT_def
    using full_match_fold_sound [of static_mdelem_table _ Map.empty mdel i] by fastforce
  then have "unat i = j" by (simp add: unat_of_nat take_bit_nat_eq_self)
  with j show ?thesis by (simp add: static_mdelem_nth)
qed

lemma full_match_complete:
  assumes "1 \<le> j" "j \<le> 61" "static_mdelem j = Some md"
  shows "full_match_static_mdelem_index md = word_of_nat j"
proof -
  have md: "sm_kv (static_mdelem_table ! j) = md" using assms by (simp add: static_mdelem_nth)
  have "init_full_match static_mdelem_table md \<noteq> None"
    unfolding init_full_match_def HPACK_STATIC_MDELEM_STANDARD_COUNT_def md [symmetric]
    using assms by (intro full_match_fold_complete) simp
  then obtain v where v: "init_full_match static_mdelem_table md = Some v" by auto
  then obtain k where k: "k \<in> set [1..<62]" "sm_kv (static_mdelem_table ! k) = md" "v = word_of_nat k"
    unfolding init_full_match_def HPACK_STATIC_MDELEM_STANDARD_COUNT_def
    using full_match_fold_sound [of static_mdelem_table _ Map.empty md v] by fastforce
  have kb: "1 \<le> k" "k < 62" using k(1) by auto
  have "map sm_kv (tl static_mdelem_table) ! (k - 1) = map sm_kv (tl static_mdelem_table) ! (j - 1)"
    using kb assms(1,2) md k(2) by (simp add: nth_tl length_static_mdelem_table)
  moreover have "k - 1 < length (map sm_kv (tl static_mdelem_table))"
    "j - 1 < length (map sm_kv (tl static_mdelem_table))"
    using kb assms(1,2) by (simp_all add: length_static_mdelem_table)
  ultimately have "k - 1 = j - 1"
    using nth_eq_iff_index_eq [OF static_table_distinct] by blast
  then have "k = j" using kb assms(1,2) by linarith
  with v k show ?thesis by (simp add: full_match_static_mdelem_index_def)
qed

lemma check_key_exists_iff:
  "check_key_exists k \<longleftrightarrow> (\<exists>j md. 1 \<le> j \<and> j \<le> 61 \<and> static_mdelem j = Some md \<and> md_key md = k)"
proof -
  have "fold (\<lambda>i s. insert (md_key (sm_kv (tab ! i))) s) is s = s \<union> (\<lambda>i. md_key (sm_kv (tab ! i))) ` set is"
    for "is" and tab :: "static_metadata list" and s
    by (induction "is" arbitrary: s) auto
  then have "check_key_exists k \<longleftrightarrow> (\<exists>j \<in> set [1..<62]. k = md_key (sm_kv (static_mdelem_table ! j)))"
    by (auto simp: check_key_exists_def init_key_exists_def HPACK_STATIC_MDELEM_STANDARD_COUNT_def)
  then show ?thesis by (fastforce simp: static_mdelem_nth static_mdelem_def length_static_mdelem_table split: if_splits)
qed

lemma static_mdelem_facts:
  assumes "static_mdelem j = Some md"
  shows "\<not> list_ex isupper (md_key md)" "length (md_key md) < 64" "length (md_value md) < 64"
    "drop (length (md_key md) - 4) (md_key md) \<noteq> ascii ''-bin''"
proof -
  have "static_mdelem_table ! j \<in> set static_mdelem_table" "md = sm_kv (static_mdelem_table ! j)"
    using assms by (auto simp: static_mdelem_def split: if_splits)
  then show "\<not> list_ex isupper (md_key md)" "length (md_key md) < 64" "length (md_value md) < 64"
    "drop (length (md_key md) - 4) (md_key md) \<noteq> ascii ''-bin''"
    using static_keys_plain static_keys_not_bin static_sizes unfolding list_all_iff by fastforce+
qed

end
