(* ===== verification/Hpack_Encode.thy ===== *)
theory Hpack_Encode
  imports Hpack_String
begin

text \<open>
  The header representations of RFC 7541 Section 6, as \<^verbatim>\<open>src/hpack/encode.cc\<close> writes them.
  \<open>alloc\<close> is a slice of the computed size holding what the routine wrote into it; the lemma
  \<open>alloc_exact\<close> applies in every case where the sizes fit 32 bits, so nothing is cut or
  left over.
\<close>

definition alloc :: "nat \<Rightarrow> bytes \<Rightarrow> slice" where
  "alloc n w = take n w"

lemma alloc_exact [simp]: "n = length w \<Longrightarrow> alloc n w = w"
  by (simp add: alloc_def)

definition encode_mdelem_data_impl :: "mdelem_data \<Rightarrow> u8 \<Rightarrow> slice" where
  "encode_mdelem_data_impl mdel type =
     (let key_size = word_of_nat (length (md_key mdel)) :: u32;
          value_size = word_of_nat (length (md_value mdel)) :: u32;
          key_len_size = uint16_encode_length key_size (INT_MASK 7);
          value_len_size = uint16_encode_length value_size (INT_MASK 7);
          sz = 1 + key_len_size + value_len_size + MDELEM_SIZE mdel
      in alloc sz
          ([type] @ uint16_encode_impl key_size (INT_MASK 7) @ take (unat key_size) (md_key mdel)
           @ uint16_encode_impl value_size (INT_MASK 7) @ take (unat value_size) (md_value mdel)))"

definition encode_index :: "u32 \<Rightarrow> slice" where
  "encode_index index = or_first 0x80 (encode_uint16 index (INT_MASK 7))"

definition encode_update_max_size :: "u32 \<Rightarrow> slice" where
  "encode_update_max_size max_size = or_first 0x20 (encode_uint16 max_size (INT_MASK 5))"

definition encode_with_incremental_indexing :: "mdelem_data \<Rightarrow> slice" where
  "encode_with_incremental_indexing mdel = encode_mdelem_data_impl mdel 0x40"

definition encode_without_indexing_key :: "mdelem_data \<Rightarrow> u32 \<Rightarrow> slice" where
  "encode_without_indexing_key mdel key_index =
     (let value_size = word_of_nat (length (md_value mdel)) :: u32;
          key_index_size = uint16_encode_length key_index (INT_MASK 4);
          value_len_size = uint16_encode_length value_size (INT_MASK 7);
          sz = key_index_size + value_len_size + unat value_size
      in alloc sz
          (uint16_encode_impl key_index (INT_MASK 4)
           @ uint16_encode_impl value_size (INT_MASK 7) @ take (unat value_size) (md_value mdel)))"

definition encode_without_indexing :: "mdelem_data \<Rightarrow> slice" where
  "encode_without_indexing mdel = encode_mdelem_data_impl mdel 0x0"

definition encode_never_indexed :: "mdelem_data \<Rightarrow> slice" where
  "encode_never_indexed mdel = encode_mdelem_data_impl mdel 0x10"

section \<open>What is on the wire\<close>

text \<open>Both strings of the element have a size a \<^verbatim>\<open>uint32_t\<close> holds.\<close>

definition mdelem_fits :: "mdelem_data \<Rightarrow> bool" where
  "mdelem_fits m \<longleftrightarrow> length (md_key m) < 2 ^ 32 \<and> length (md_value m) < 2 ^ 32"

lemma mdelem_fits_sizes:
  assumes "mdelem_fits m"
  shows "unat (word_of_nat (length (md_key m)) :: u32) = length (md_key m)"
    and "unat (word_of_nat (length (md_value m)) :: u32) = length (md_value m)"
  using assms by (simp_all only: mdelem_fits_def unat_of_nat_u32)

lemma encode_mdelem_wire:
  assumes "mdelem_fits m"
  shows "encode_mdelem_data_impl m t = t # plain_string (md_key m) @ plain_string (md_value m)"
  by (simp add: encode_mdelem_data_impl_def Let_def mdelem_fits_sizes [OF assms] MDELEM_SIZE_def
      uint16_encode_length_eq plain_string_def encode_uint16_eq)

lemma encode_without_indexing_key_wire:
  assumes "mdelem_fits m"
  shows "encode_without_indexing_key m i = encode_uint16 i (INT_MASK 4) @ plain_string (md_value m)"
  by (simp add: encode_without_indexing_key_def Let_def mdelem_fits_sizes [OF assms]
      uint16_encode_length_eq plain_string_def encode_uint16_eq)

lemma encode_uint16_not_Nil [simp]: "encode_uint16 I m \<noteq> []"
  by (simp add: encode_uint16_eq)

lemma or_first_eq_Nil [simp]: "or_first p bs = [] \<longleftrightarrow> bs = []"
  by (cases bs) auto

text \<open>The first byte of an index tells the representation apart.\<close>

lemma encode_index_first:
  obtains b bs where "encode_index i = b # bs" "b AND 0x80 \<noteq> 0"
proof -
  obtain c cs where c: "encode_uint16 i (INT_MASK 7) = c # cs"
    using encode_uint16_not_Nil [of i "INT_MASK 7"] by (cases "encode_uint16 i (INT_MASK 7)") auto
  have "(c OR 0x80) AND 0x80 \<noteq> 0" by (simp add: bit.conj_disj_distrib2)
  with c show ?thesis by (intro that [of "c OR 0x80" cs]) (simp_all add: encode_index_def)
qed

lemma decode_encode_index [roundtrip]:
  "decode_uint32 (encode_index i @ rest) (INT_MASK 7) = Ok (i, rest)"
  unfolding encode_index_def by (rule decode_encode_uint32) (simp_all add: INT_MASK_def)

lemma decode_encode_update_max_size [roundtrip]:
  "decode_uint32 (encode_update_max_size i @ rest) (INT_MASK 5) = Ok (i, rest)"
  unfolding encode_update_max_size_def by (rule decode_encode_uint32) (simp_all add: INT_MASK_def)

lemma encode_uint16_small_mask:
  assumes n: "n < 8" and "encode_uint16 I (INT_MASK n) = b # bs"
  shows "unat b < 2 ^ n"
proof -
  have m: "unat (INT_MASK n) = 2 ^ n - 1" using n by (intro INT_MASK_mask) simp
  show ?thesis
  proof (cases "I < ucast (INT_MASK n)")
    case True
    then have lt: "unat I < unat (INT_MASK n)"
      using unat_u8_bound [of "INT_MASK n"]
      by (simp add: word_less_nat_alt unsigned_ucast_eq take_bit_nat_eq_self)
    moreover have "unat (ucast I :: u8) = unat I"
      using lt unat_u8_bound [of "INT_MASK n"] by (simp add: unsigned_ucast_eq take_bit_nat_eq_self)
    moreover have "b = ucast I" using assms(2) True by (simp add: encode_uint16_eq uint16_encode_impl_def)
    ultimately show ?thesis using m by simp
  next
    case False
    then have "b = INT_MASK n" using assms(2) by (simp add: encode_uint16_eq uint16_encode_impl_def)
    with m show ?thesis by simp
  qed
qed

text \<open>A byte below \<open>2 ^ n\<close> has none of the flag bits from \<open>n\<close> up.\<close>

lemma small_byte_bit: "unat (b :: u8) < 2 ^ n \<Longrightarrow> n \<le> k \<Longrightarrow> \<not> bit b k"
proof
  assume b: "unat b < 2 ^ n" and k: "n \<le> k" and "bit b k"
  then have "bit (unat b) k" by (simp add: bit_unsigned_iff)
  then have "odd (unat b div 2 ^ k)" by (simp add: bit_iff_odd)
  moreover have "(2 :: nat) ^ n \<le> 2 ^ k" using k by (rule power_increasing) simp
  ultimately show False using b by (simp add: div_less)
qed

lemma bit_mask_zero: "\<not> bit (b :: u8) k \<Longrightarrow> b AND push_bit k 1 = 0"
  by (rule bit_word_eqI) (auto simp: bit_simps)

lemma small_byte_flags:
  assumes "unat (b :: u8) < 16"
  shows "b AND 0x80 = 0" "b AND 0x40 = 0" "b AND 0x20 = 0"
  using small_byte_bit [of b 4] assms
    bit_mask_zero [of b 7] bit_mask_zero [of b 6] bit_mask_zero [of b 5]
  by (simp_all add: push_bit_eq_mult)

end
