(* ===== verification/Dynamic_Table.thy ===== *)
theory Dynamic_Table
  imports Metadata
begin

text \<open>
  The HPACK dynamic table: the service interface of \<^verbatim>\<open>src/hpack/metadata.h\<close> as a record of
  operations with a locale for its contract, and the deque implementation of
  \<^verbatim>\<open>src/hpack/dynamic_metadata.cc\<close>, which the interpretation at the end shows to keep it.
\<close>

section \<open>The abstract table\<close>

text \<open>RFC 7541 Section 4.1: the size of an entry.\<close>

definition entry_size :: "mdelem_data \<Rightarrow> nat" where
  "entry_size m = MDELEM_SIZE m + 32"

definition entries_size :: "mdelem_data list \<Rightarrow> nat" where
  "entries_size es = sum_list (map entry_size es)"

text \<open>RFC 7541 Section 4.3: the newest entries that fit.\<close>

fun fit :: "nat \<Rightarrow> mdelem_data list \<Rightarrow> mdelem_data list" where
  "fit n [] = []"
| "fit n (e # es) = (if entry_size e \<le> n then e # fit (n - entry_size e) es else [])"

lemma entries_size_simps [simp]:
  "entries_size [] = 0" "entries_size (e # es) = entry_size e + entries_size es"
  "entries_size (es @ fs) = entries_size es + entries_size fs"
  by (simp_all add: entries_size_def)

lemma fit_size: "entries_size (fit n es) \<le> n"
  by (induction n es rule: fit.induct) auto

lemma fit_prefix: "\<exists>ds. es = fit n es @ ds"
  by (induction n es rule: fit.induct) auto

lemma fit_all: "entries_size es \<le> n \<Longrightarrow> fit n es = es"
  by (induction n es rule: fit.induct) auto

lemma fit_snoc: "n < entries_size (es @ [e]) \<Longrightarrow> fit n (es @ [e]) = fit n es"
  by (induction n es rule: fit.induct) auto

lemma fit_snocs: "(\<And>k. k < length ds \<Longrightarrow> n < entries_size (es @ take (Suc k) ds)) \<Longrightarrow> fit n (es @ ds) = fit n es"
proof (induction ds rule: rev_induct)
  case (snoc d ds)
  have "n < entries_size ((es @ ds) @ [d])" using snoc.prems [of "length ds"] by simp
  moreover have "fit n (es @ ds) = fit n es"
  proof (rule snoc.IH)
    fix k assume "k < length ds"
    then show "n < entries_size (es @ take (Suc k) ds)" using snoc.prems [of k] by simp
  qed
  ultimately show ?case using fit_snoc [of n "es @ ds" d] by simp
qed simp

section \<open>The service contract\<close>

record 't dynamic_table_service =
  svc_get_mdelem_data :: "'t \<Rightarrow> nat \<Rightarrow> mdelem_data option"
  svc_push_mdelem_data :: "'t \<Rightarrow> mdelem_data \<Rightarrow> 't"
  svc_update_max_table_size :: "'t \<Rightarrow> u32 \<Rightarrow> 't"
  svc_max_table_size_limit :: "'t \<Rightarrow> u32"

locale dynamic_table_contract =
  fixes svc :: "'t dynamic_table_service"
    and entries :: "'t \<Rightarrow> mdelem_data list"
    and msize :: "'t \<Rightarrow> u32"
    and tinv :: "'t \<Rightarrow> bool"
  assumes get_entry: "tinv t \<Longrightarrow> svc_get_mdelem_data svc t i =
        (if i < length (entries t) then Some (entries t ! i) else None)"
    and push_inv: "tinv t \<Longrightarrow> unat (msize t) + entry_size m < 2 ^ 32 \<Longrightarrow> tinv (svc_push_mdelem_data svc t m)"
    and push_entries: "tinv t \<Longrightarrow> unat (msize t) + entry_size m < 2 ^ 32 \<Longrightarrow>
        entries (svc_push_mdelem_data svc t m) = fit (unat (msize t)) (m # entries t)"
    and push_msize: "msize (svc_push_mdelem_data svc t m) = msize t"
    and push_limit: "svc_max_table_size_limit svc (svc_push_mdelem_data svc t m) = svc_max_table_size_limit svc t"
    and update_inv: "tinv t \<Longrightarrow> tinv (svc_update_max_table_size svc t n)"
    and update_entries: "tinv t \<Longrightarrow> entries (svc_update_max_table_size svc t n) = fit (unat n) (entries t)"
    and update_msize: "msize (svc_update_max_table_size svc t n) = n"
    and update_limit: "svc_max_table_size_limit svc (svc_update_max_table_size svc t n) = svc_max_table_size_limit svc t"
    and size_bound: "tinv t \<Longrightarrow> entries_size (entries t) \<le> unat (msize t)"

section \<open>The deque implementation\<close>

record dynamic_metadata_table =
  dt_max_table_size_limit :: u32
  dt_max_table_size :: u32
  dt_current_table_size :: u32
  dt_dynamic_table :: "mdelem_data list"

definition dynamic_metadata_table_new :: "u32 \<Rightarrow> dynamic_metadata_table" where
  "dynamic_metadata_table_new default_max_size =
     \<lparr>dt_max_table_size_limit = default_max_size, dt_max_table_size = default_max_size,
      dt_current_table_size = 0, dt_dynamic_table = []\<rparr>"

definition dt_get_mdelem_data :: "dynamic_metadata_table \<Rightarrow> nat \<Rightarrow> mdelem_data option" where
  "dt_get_mdelem_data t index =
     (let n = length (dt_dynamic_table t) in if index \<ge> n then None else Some (dt_dynamic_table t ! index))"

function dt_adjust_dynamic_table_size :: "dynamic_metadata_table \<Rightarrow> dynamic_metadata_table" where
  "dt_adjust_dynamic_table_size t =
     (if dt_current_table_size t > dt_max_table_size t \<and> dt_dynamic_table t \<noteq> []
      then (let entry = last (dt_dynamic_table t); element_size = word_of_nat (MDELEM_SIZE entry) :: u32
            in dt_adjust_dynamic_table_size
                 (t\<lparr>dt_current_table_size := dt_current_table_size t - (element_size + 32),
                    dt_dynamic_table := butlast (dt_dynamic_table t)\<rparr>))
      else t)"
  by pat_completeness auto
termination
  by (relation "measure (length \<circ> dt_dynamic_table)") simp_all

declare dt_adjust_dynamic_table_size.simps [simp del]

definition dt_push_mdelem_data :: "dynamic_metadata_table \<Rightarrow> mdelem_data \<Rightarrow> dynamic_metadata_table" where
  "dt_push_mdelem_data t md =
     dt_adjust_dynamic_table_size
       (t\<lparr>dt_dynamic_table := md # dt_dynamic_table t,
          dt_current_table_size := dt_current_table_size t + word_of_nat (MDELEM_SIZE md) + 32\<rparr>)"

definition dt_update_max_table_size_limit :: "dynamic_metadata_table \<Rightarrow> u32 \<Rightarrow> dynamic_metadata_table" where
  "dt_update_max_table_size_limit t limit = t\<lparr>dt_max_table_size_limit := limit\<rparr>"

definition dt_update_max_table_size :: "dynamic_metadata_table \<Rightarrow> u32 \<Rightarrow> dynamic_metadata_table" where
  "dt_update_max_table_size t n = dt_adjust_dynamic_table_size (t\<lparr>dt_max_table_size := n\<rparr>)"

definition dt_entry_count :: "dynamic_metadata_table \<Rightarrow> nat" where
  "dt_entry_count t = length (dt_dynamic_table t)"

fun dt_index_loop :: "mdelem_data list \<Rightarrow> mdelem_data \<Rightarrow> nat \<Rightarrow> int" where
  "dt_index_loop [] mdel i = -1"
| "dt_index_loop (e # es) mdel i =
     (if slice_eq (md_key mdel) (md_key e) \<and> slice_eq (md_value mdel) (md_value e) then int i
      else dt_index_loop es mdel (i + 1))"

definition dt_get_mdelem_data_index :: "dynamic_metadata_table \<Rightarrow> mdelem_data \<Rightarrow> int" where
  "dt_get_mdelem_data_index t mdel = dt_index_loop (dt_dynamic_table t) mdel 0"

definition dynamic_metadata_service :: "dynamic_metadata_table dynamic_table_service" where
  "dynamic_metadata_service =
     \<lparr>svc_get_mdelem_data = dt_get_mdelem_data, svc_push_mdelem_data = dt_push_mdelem_data,
      svc_update_max_table_size = dt_update_max_table_size,
      svc_max_table_size_limit = dt_max_table_size_limit\<rparr>"

section \<open>The implementation keeps the contract\<close>

text \<open>The running size is the sum of the entry sizes, and it is within the maximum.\<close>

definition dt_size_ok :: "dynamic_metadata_table \<Rightarrow> bool" where
  "dt_size_ok t \<longleftrightarrow> unat (dt_current_table_size t) = entries_size (dt_dynamic_table t)"

definition dt_inv :: "dynamic_metadata_table \<Rightarrow> bool" where
  "dt_inv t \<longleftrightarrow> dt_size_ok t \<and> dt_current_table_size t \<le> dt_max_table_size t"

lemma dt_adjust_spec:
  "dt_size_ok t \<Longrightarrow>
     dt_inv (dt_adjust_dynamic_table_size t) \<and>
     dt_dynamic_table (dt_adjust_dynamic_table_size t) = fit (unat (dt_max_table_size t)) (dt_dynamic_table t) \<and>
     dt_max_table_size (dt_adjust_dynamic_table_size t) = dt_max_table_size t \<and>
     dt_max_table_size_limit (dt_adjust_dynamic_table_size t) = dt_max_table_size_limit t"
proof (induction t rule: dt_adjust_dynamic_table_size.induct)
  case (1 t)
  show ?case
  proof (cases "dt_current_table_size t > dt_max_table_size t \<and> dt_dynamic_table t \<noteq> []")
    case True
    then obtain es e where es: "dt_dynamic_table t = es @ [e]"
      by (metis append_butlast_last_id)
    let ?t = "t\<lparr>dt_current_table_size := dt_current_table_size t - (word_of_nat (MDELEM_SIZE e) + 32),
        dt_dynamic_table := es\<rparr>"
    have cur: "unat (dt_current_table_size t) = entries_size es + entry_size e"
      using 1(2) es by (simp add: dt_size_ok_def)
    then have lt: "MDELEM_SIZE e + 32 < 2 ^ 32"
      using unat_u32_bound [of "dt_current_table_size t"] by (simp add: entry_size_def)
    then have sz: "unat (word_of_nat (MDELEM_SIZE e) + 32 :: u32) = entry_size e"
      by (subst unat_add_u32) (simp_all add: unat_of_nat_u32 entry_size_def)
    have "dt_size_ok ?t"
      using cur sz by (simp add: dt_size_ok_def unat_sub_u32 word_le_nat_alt)
    with 1(1) [OF True refl refl] es True have ih:
      "dt_inv (dt_adjust_dynamic_table_size ?t)"
      "dt_dynamic_table (dt_adjust_dynamic_table_size ?t) = fit (unat (dt_max_table_size t)) es"
      "dt_max_table_size (dt_adjust_dynamic_table_size ?t) = dt_max_table_size t"
      "dt_max_table_size_limit (dt_adjust_dynamic_table_size ?t) = dt_max_table_size_limit t"
      by simp_all
    have "fit (unat (dt_max_table_size t)) (es @ [e]) = fit (unat (dt_max_table_size t)) es"
      using True cur by (intro fit_snoc) (simp add: word_less_nat_alt)
    moreover have "dt_adjust_dynamic_table_size t = dt_adjust_dynamic_table_size ?t"
      using True es by (subst dt_adjust_dynamic_table_size.simps) (simp add: Let_def)
    ultimately show ?thesis using ih es by simp
  next
    case False
    then have stop: "dt_adjust_dynamic_table_size t = t"
      by (subst dt_adjust_dynamic_table_size.simps) (simp only: if_False)
    have "dt_current_table_size t \<le> dt_max_table_size t"
    proof (cases "dt_dynamic_table t = []")
      case True
      then have "unat (dt_current_table_size t) = 0" using 1(2) by (simp add: dt_size_ok_def)
      then show ?thesis by (simp add: word_le_nat_alt)
    next
      case ne: False
      with False show ?thesis by simp
    qed
    then show ?thesis
      using 1(2) by (simp add: stop dt_inv_def dt_size_ok_def fit_all word_le_nat_alt)
  qed
qed

lemma dt_inv_new: "dt_inv (dynamic_metadata_table_new n)"
  by (simp add: dt_inv_def dt_size_ok_def dynamic_metadata_table_new_def)

lemma dt_push_size_ok:
  assumes "dt_inv t" "unat (dt_max_table_size t) + entry_size m < 2 ^ 32"
  shows "dt_size_ok (t\<lparr>dt_dynamic_table := m # dt_dynamic_table t,
    dt_current_table_size := dt_current_table_size t + word_of_nat (MDELEM_SIZE m) + 32\<rparr>)"
proof -
  have "unat (dt_current_table_size t) \<le> unat (dt_max_table_size t)"
    using assms(1) by (simp add: dt_inv_def word_le_nat_alt)
  then have b: "unat (dt_current_table_size t) + entry_size m < 2 ^ 32" using assms(2) by simp
  then have m: "unat (word_of_nat (MDELEM_SIZE m) :: u32) = MDELEM_SIZE m"
    by (intro unat_of_nat_u32) (simp add: entry_size_def)
  have "unat (dt_current_table_size t + word_of_nat (MDELEM_SIZE m) :: u32) = unat (dt_current_table_size t) + MDELEM_SIZE m"
    using b m by (subst unat_add_u32) (simp_all add: entry_size_def)
  then have "unat (dt_current_table_size t + word_of_nat (MDELEM_SIZE m) + 32 :: u32) = unat (dt_current_table_size t) + entry_size m"
    using b by (subst unat_add_u32) (simp_all add: entry_size_def)
  then show ?thesis using assms(1) by (simp add: dt_inv_def dt_size_ok_def)
qed

lemma dt_update_size_ok: "dt_inv t \<Longrightarrow> dt_size_ok (t\<lparr>dt_max_table_size := n\<rparr>)"
  by (simp add: dt_inv_def dt_size_ok_def)

lemma dt_adjust_frame:
  "dt_max_table_size (dt_adjust_dynamic_table_size t) = dt_max_table_size t \<and>
   dt_max_table_size_limit (dt_adjust_dynamic_table_size t) = dt_max_table_size_limit t"
proof (induction t rule: dt_adjust_dynamic_table_size.induct)
  case (1 t)
  show ?case
  proof (cases "dt_current_table_size t > dt_max_table_size t \<and> dt_dynamic_table t \<noteq> []")
    case True
    from 1 [OF True refl refl] show ?thesis
      using True by (subst (1 2) dt_adjust_dynamic_table_size.simps) (simp add: Let_def)
  next
    case False
    then have "dt_adjust_dynamic_table_size t = t"
      by (subst dt_adjust_dynamic_table_size.simps) (simp only: if_False)
    then show ?thesis by simp
  qed
qed

interpretation dt: dynamic_table_contract dynamic_metadata_service dt_dynamic_table dt_max_table_size dt_inv
proof unfold_locales
  fix t i assume "dt_inv t"
  show "svc_get_mdelem_data dynamic_metadata_service t i =
      (if i < length (dt_dynamic_table t) then Some (dt_dynamic_table t ! i) else None)"
    by (simp add: dynamic_metadata_service_def dt_get_mdelem_data_def)
next
  fix t m assume "dt_inv t" "unat (dt_max_table_size t) + entry_size m < 2 ^ 32"
  from dt_adjust_spec [OF dt_push_size_ok [OF this]]
  show "dt_inv (svc_push_mdelem_data dynamic_metadata_service t m)"
    and "dt_dynamic_table (svc_push_mdelem_data dynamic_metadata_service t m) =
      fit (unat (dt_max_table_size t)) (m # dt_dynamic_table t)"
    by (simp_all add: dynamic_metadata_service_def dt_push_mdelem_data_def)
next
  fix t n assume "dt_inv t"
  from dt_adjust_spec [OF dt_update_size_ok [OF this, of n]]
  show "dt_inv (svc_update_max_table_size dynamic_metadata_service t n)"
    and "dt_dynamic_table (svc_update_max_table_size dynamic_metadata_service t n) =
      fit (unat n) (dt_dynamic_table t)"
    by (simp_all add: dynamic_metadata_service_def dt_update_max_table_size_def)
next
  fix t assume "dt_inv t"
  then show "entries_size (dt_dynamic_table t) \<le> unat (dt_max_table_size t)"
    by (simp add: dt_inv_def dt_size_ok_def word_le_nat_alt)
qed (simp_all add: dynamic_metadata_service_def dt_push_mdelem_data_def dt_update_max_table_size_def dt_adjust_frame)

text \<open>The linear search returns the newest equal entry.\<close>

lemma dt_index_loop_spec:
  "dt_index_loop es m i = (if m \<in> set es then int i + int (length (takeWhile (\<lambda>e. e \<noteq> m) es)) else -1)"
  by (induction es arbitrary: i) auto

lemma takeWhile_index: "m \<in> set es \<Longrightarrow> es ! length (takeWhile (\<lambda>e. e \<noteq> m) es) = m \<and> length (takeWhile (\<lambda>e. e \<noteq> m) es) < length es"
  by (induction es) auto

end
