(* ===== verification/Compressor.thy ===== *)
theory Compressor
  imports Static_Table Hpack_Encode Slice_Buffer Dynamic_Table
begin

text \<open>
  The HPACK compressor of \<^verbatim>\<open>src/hpack/send_record.cc\<close>: the circular array of element sizes that
  tracks the peer's dynamic table, the 64-slot cuckoo table of sent elements, and the choice of a
  representation for each header. A failed \<^verbatim>\<open>assert\<close>, and a read outside the size array, is
  \<open>None\<close>; \<^verbatim>\<open>Hpack_Roundtrip\<close> shows that no state the compressor reaches has one. Allocation
  is taken to succeed. The hash seed is a parameter.
\<close>

record send_record =
  sr_mdel :: mdelem_data
  sr_index :: u32

record compressor =
  c_max_table_size :: u32
  c_max_table_elems :: u32
  c_cap_table_elems :: u32
  c_max_usable_size :: u32
  c_tail_remote_index :: u32
  c_table_size :: u32
  c_table_elems :: u32
  c_table_elem_size :: "u16 list"
  c_entries :: "send_record list"

definition HPACK_NUM_VALUES :: nat where "HPACK_NUM_VALUES = 64"
definition HPACK_INITIAL_TABLE_SIZE :: u32 where "HPACK_INITIAL_TABLE_SIZE = 4096"

definition mdelem_none :: mdelem_data where "mdelem_none = \<lparr>md_key = [], md_value = []\<rparr>"

section \<open>The cuckoo table\<close>

definition HASH_FRAGMENT_2 :: "u32 \<Rightarrow> nat" where
  "HASH_FRAGMENT_2 x = unat (drop_bit 6 x AND 63)"

definition HASH_FRAGMENT_3 :: "u32 \<Rightarrow> nat" where
  "HASH_FRAGMENT_3 x = unat (drop_bit 12 x AND 63)"

definition TableEmptyAt :: "send_record list \<Rightarrow> nat \<Rightarrow> bool" where
  "TableEmptyAt hashtable i \<longleftrightarrow> mdelem_eq (sr_mdel (hashtable ! i)) mdelem_none"

definition FullMatches :: "send_record list \<Rightarrow> mdelem_data \<Rightarrow> nat \<Rightarrow> bool" where
  "FullMatches hashtable element i \<longleftrightarrow> mdelem_eq element (sr_mdel (hashtable ! i))"

definition UpdateIndex :: "send_record list \<Rightarrow> nat \<Rightarrow> u32 \<Rightarrow> send_record list" where
  "UpdateIndex hashtable i hpack_index = hashtable[i := (hashtable ! i)\<lparr>sr_index := hpack_index\<rparr>]"

definition SetIndex :: "send_record list \<Rightarrow> nat \<Rightarrow> mdelem_data \<Rightarrow> u32 \<Rightarrow> send_record list" where
  "SetIndex hashtable i element hpack_index =
     UpdateIndex (hashtable[i := (hashtable ! i)\<lparr>sr_mdel := element\<rparr>]) i hpack_index"

datatype match_result = MDELEM_FULL_MATCH | MDELEM_KEY_MATCH | MDELEM_NOT_MATCH

text \<open>The result and the out parameter \<^verbatim>\<open>index\<close>, which is 0 on entry.\<close>

definition GetMatchingIndex :: "compressor \<Rightarrow> mdelem_data \<Rightarrow> u32 \<Rightarrow> match_result \<times> u32" where
  "GetMatchingIndex c mdel key_hash =
     (let e = c_entries c;
          cuckoo_first = HASH_FRAGMENT_2 key_hash;
          cuckoo_second = HASH_FRAGMENT_3 key_hash in
      if TableEmptyAt e cuckoo_first \<and> TableEmptyAt e cuckoo_second then (MDELEM_NOT_MATCH, 0)
      else if FullMatches e mdel cuckoo_first then (MDELEM_FULL_MATCH, sr_index (e ! cuckoo_first))
      else if FullMatches e mdel cuckoo_second then (MDELEM_FULL_MATCH, sr_index (e ! cuckoo_second))
      else
        (let key_match_a = (\<not> TableEmptyAt e cuckoo_first \<and>
               slice_eq (md_key (sr_mdel (e ! cuckoo_first))) (md_key mdel));
             key_match_b = (\<not> TableEmptyAt e cuckoo_second \<and>
               slice_eq (md_key (sr_mdel (e ! cuckoo_second))) (md_key mdel)) in
         if \<not> key_match_a \<and> \<not> key_match_b then (MDELEM_NOT_MATCH, 0)
         else
           (let candidate_a = (if key_match_a then sr_index (e ! cuckoo_first) else 0);
                candidate_b = (if key_match_b then sr_index (e ! cuckoo_second) else 0);
                max_idx = max candidate_a candidate_b;
                min_idx = min candidate_a candidate_b in
            (MDELEM_KEY_MATCH,
             if min_idx > c_tail_remote_index c then min_idx
             else if max_idx > c_tail_remote_index c then max_idx
             else c_tail_remote_index c))))"

definition ReplaceOlderIndex ::
  "send_record list \<Rightarrow> mdelem_data \<Rightarrow> nat \<Rightarrow> nat \<Rightarrow> u32 \<Rightarrow> send_record list" where
  "ReplaceOlderIndex hashtable value hash_index_a hash_index_b new_index =
     (let hpack_idx_a = sr_index (hashtable ! hash_index_a);
          hpack_idx_b = sr_index (hashtable ! hash_index_b);
          id = (if hpack_idx_a < hpack_idx_b then hash_index_a else hash_index_b)
      in SetIndex hashtable id value new_index)"

definition UpdateAddOrEvict :: "send_record list \<Rightarrow> mdelem_data \<Rightarrow> u32 \<Rightarrow> u32 \<Rightarrow> send_record list" where
  "UpdateAddOrEvict hashtable value value_hash new_index =
     (let cuckoo_first = HASH_FRAGMENT_2 value_hash; cuckoo_second = HASH_FRAGMENT_3 value_hash in
      if FullMatches hashtable value cuckoo_first then UpdateIndex hashtable cuckoo_first new_index
      else if TableEmptyAt hashtable cuckoo_first then SetIndex hashtable cuckoo_first value new_index
      else if FullMatches hashtable value cuckoo_second then UpdateIndex hashtable cuckoo_second new_index
      else if TableEmptyAt hashtable cuckoo_second then SetIndex hashtable cuckoo_second value new_index
      else ReplaceOlderIndex hashtable value cuckoo_first cuckoo_second new_index)"

section \<open>The size array\<close>

text \<open>\<^verbatim>\<open>c->table_elem_size[i % c->cap_table_elems]\<close>\<close>

definition elem_size_at :: "compressor \<Rightarrow> u32 \<Rightarrow> u16 option" where
  "elem_size_at c i =
     (let j = unat (i mod c_cap_table_elems c) in
      if c_cap_table_elems c \<noteq> 0 \<and> j < length (c_table_elem_size c)
      then Some (c_table_elem_size c ! j) else None)"

definition evict_entry :: "compressor \<Rightarrow> compressor option" where
  "evict_entry c =
     (let c = c\<lparr>c_tail_remote_index := c_tail_remote_index c + 1\<rparr> in
      if \<not> c_tail_remote_index c > 0 then None
      else (case elem_size_at c (c_tail_remote_index c) of None \<Rightarrow> None
        | Some sz \<Rightarrow>
            if \<not> c_table_size c \<ge> ucast sz then None
            else if \<not> c_table_elems c > 0 then None
            else Some (c\<lparr>c_table_size := c_table_size c - ucast sz, c_table_elems := c_table_elems c - 1\<rparr>)))"

lemma evict_entry_elems: "evict_entry c = Some c' \<Longrightarrow> unat (c_table_elems c') < unat (c_table_elems c)"
  by (auto simp: evict_entry_def Let_def unat_sub_u32 word_le_nat_alt word_less_nat_alt
      split: option.splits if_splits)

text \<open>The three eviction loops, by the condition that keeps them going.\<close>

function evict_while :: "(compressor \<Rightarrow> bool) \<Rightarrow> compressor \<Rightarrow> compressor option" where
  "evict_while P c =
     (if P c then (case evict_entry c of None \<Rightarrow> None | Some c' \<Rightarrow> evict_while P c') else Some c)"
  by pat_completeness auto
termination
  by (relation "measure (\<lambda>(P, c). unat (c_table_elems c))") (auto dest: evict_entry_elems)

declare evict_while.simps [simp del]

definition prepare_space_for_new_elem :: "compressor \<Rightarrow> nat \<Rightarrow> (u32 \<times> compressor) option" where
  "prepare_space_for_new_elem c elem_size =
     (let new_index = c_tail_remote_index c + c_table_elems c + 1 in
      if \<not> elem_size < 65536 then None
      else if elem_size > unat (c_max_table_size c)
      then map_option (\<lambda>c. (0, c)) (evict_while (\<lambda>c. c_table_size c > 0) c)
      else
        Option.bind (evict_while (\<lambda>c. unat (c_table_size c) + elem_size > unat (c_max_table_size c)) c) (\<lambda>c.
          if \<not> c_table_elems c < c_max_table_elems c then None
          else (let j = unat (new_index mod c_cap_table_elems c) in
            if c_cap_table_elems c = 0 \<or> length (c_table_elem_size c) \<le> j then None
            else Some (new_index,
              c\<lparr>c_table_elem_size := (c_table_elem_size c)[j := word_of_nat elem_size],
                c_table_size := c_table_size c + word_of_nat elem_size,
                c_table_elems := c_table_elems c + 1\<rparr>))))"

definition add_elem :: "compressor \<Rightarrow> mdelem_data \<Rightarrow> nat \<Rightarrow> u32 \<Rightarrow> compressor option" where
  "add_elem c elem elem_size key_hash =
     (case prepare_space_for_new_elem c elem_size of None \<Rightarrow> None
      | Some (new_index, c) \<Rightarrow>
          Some (if new_index \<noteq> 0
                then c\<lparr>c_entries := UpdateAddOrEvict (c_entries c) elem key_hash new_index\<rparr> else c))"

definition dynidx :: "compressor \<Rightarrow> u32 \<Rightarrow> u32" where
  "dynidx c elem_index =
     1 + word_of_nat HPACK_STATIC_MDELEM_STANDARD_COUNT + c_tail_remote_index c + c_table_elems c - elem_index"

section \<open>Sizes\<close>

definition get_base64_encoded_size :: "nat \<Rightarrow> nat" where
  "get_base64_encoded_size raw_length = raw_length div 3 * 4 + [0, 2, 3] ! (raw_length mod 3)"

definition grpc_key_is_binary_header :: "bytes \<Rightarrow> nat \<Rightarrow> bool" where
  "grpc_key_is_binary_header buf len \<longleftrightarrow>
     (if len < 5 then False else memcmp_eq (drop (len - 4) buf) (ascii ''-bin'') 4)"

definition get_size_in_hpack_table :: "mdelem_data \<Rightarrow> bool \<Rightarrow> nat" where
  "get_size_in_hpack_table elem use_true_binary_metadata =
     (let key_len = length (md_key elem); overhead_and_key = 32 + key_len; value_len = length (md_value elem) in
      if grpc_key_is_binary_header (md_key elem) key_len
      then overhead_and_key + (if use_true_binary_metadata then value_len + 1 else get_base64_encoded_size value_len)
      else overhead_and_key + value_len)"

section \<open>Encoding\<close>

definition hpack_encode_header :: "u32 \<Rightarrow> compressor \<Rightarrow> mdelem_data \<Rightarrow> bool \<Rightarrow> (slice \<times> compressor) option" where
  "hpack_encode_header seed c mdel use_true_binary_metadata =
     (let key_hash = mdelem_kv_hash seed (md_key mdel);
          decoder_space_usage = get_size_in_hpack_table mdel use_true_binary_metadata in
      case GetMatchingIndex c mdel key_hash of (result, indices_key) \<Rightarrow>
        if result = MDELEM_NOT_MATCH \<or> indices_key \<le> c_tail_remote_index c
        then (if check_key_exists (md_key mdel)
              then map_option (\<lambda>c. (encode_with_incremental_indexing mdel, c))
                     (add_elem c mdel decoder_space_usage key_hash)
              else Some (encode_without_indexing mdel, c))
        else (let idx = dynidx c indices_key in
              if result = MDELEM_FULL_MATCH then Some (encode_index idx, c)
              else Some (encode_without_indexing_key mdel idx, c)))"

definition compressor_encode_one :: "u32 \<Rightarrow> compressor \<Rightarrow> mdelem_data \<Rightarrow> bool \<Rightarrow> (slice \<times> compressor) option" where
  "compressor_encode_one seed c md use_true_binary_metadata =
     (let index = full_match_static_mdelem_index md in
      if index \<noteq> 0 then Some (encode_index index, c)
      else hpack_encode_header seed c md use_true_binary_metadata)"

fun compressor_encode_headers ::
  "u32 \<Rightarrow> compressor \<Rightarrow> mdelem_data list \<Rightarrow> slice_buffer \<Rightarrow> bool \<Rightarrow> (compressor \<times> slice_buffer) option" where
  "compressor_encode_headers seed c [] output b = Some (c, output)"
| "compressor_encode_headers seed c (md # metadata) output b =
     (case compressor_encode_one seed c md b of None \<Rightarrow> None
      | Some (s, c) \<Rightarrow> compressor_encode_headers seed c metadata (sb_add_slice output s) b)"

section \<open>Set-up and resizing\<close>

definition elems_for_bytes :: "u32 \<Rightarrow> u32" where
  "elems_for_bytes n = (n + 31) div 32"

definition compressor_init :: compressor where
  "compressor_init =
     \<lparr>c_max_table_size = HPACK_INITIAL_TABLE_SIZE,
      c_max_table_elems = elems_for_bytes HPACK_INITIAL_TABLE_SIZE,
      c_cap_table_elems = elems_for_bytes HPACK_INITIAL_TABLE_SIZE,
      c_max_usable_size = HPACK_INITIAL_TABLE_SIZE,
      c_tail_remote_index = 0, c_table_size = 0, c_table_elems = 0,
      c_table_elem_size = replicate (unat (elems_for_bytes HPACK_INITIAL_TABLE_SIZE)) 0,
      c_entries = replicate HPACK_NUM_VALUES \<lparr>sr_mdel = mdelem_none, sr_index = 0\<rparr>\<rparr>"

text \<open>The copy loop of \<^verbatim>\<open>rebuild_elems\<close>, \<open>n\<close> elements from \<open>i\<close> on.\<close>

fun rebuild_loop :: "compressor \<Rightarrow> u32 \<Rightarrow> nat \<Rightarrow> nat \<Rightarrow> u16 list \<Rightarrow> u16 list option" where
  "rebuild_loop c new_cap i 0 arr = Some arr"
| "rebuild_loop c new_cap i (Suc n) arr =
     (let ofs = c_tail_remote_index c + word_of_nat i + 1; j = unat (ofs mod new_cap) in
      case elem_size_at c ofs of None \<Rightarrow> None
      | Some sz \<Rightarrow> if new_cap = 0 \<or> length arr \<le> j then None
                   else rebuild_loop c new_cap (i + 1) n (arr[j := sz]))"

definition rebuild_elems :: "compressor \<Rightarrow> u32 \<Rightarrow> compressor option" where
  "rebuild_elems c new_cap =
     (if c_table_elems c > new_cap then Some c
      else map_option (\<lambda>arr. c\<lparr>c_cap_table_elems := new_cap, c_table_elem_size := arr\<rparr>)
             (rebuild_loop c new_cap 0 (unat (c_table_elems c)) (replicate (unat new_cap) 0)))"

definition compressor_set_max_table_size :: "compressor \<Rightarrow> u32 \<Rightarrow> compressor option" where
  "compressor_set_max_table_size c max_table_size =
     (let max_table_size = min max_table_size (c_max_usable_size c) in
      if max_table_size = c_max_table_size c then Some c
      else Option.bind (evict_while (\<lambda>c. c_table_size c > 0 \<and> c_table_size c > max_table_size) c) (\<lambda>c.
        let c = c\<lparr>c_max_table_size := max_table_size, c_max_table_elems := elems_for_bytes max_table_size\<rparr> in
        if c_max_table_elems c > c_cap_table_elems c
        then rebuild_elems c (max (c_max_table_elems c) (2 * c_cap_table_elems c))
        else if c_max_table_elems c < c_cap_table_elems c div 3
        then (let new_cap = max (c_max_table_elems c) 16 in
              if new_cap \<noteq> c_cap_table_elems c then rebuild_elems c new_cap else Some c)
        else Some c))"

definition compressor_set_max_usable_size :: "compressor \<Rightarrow> u32 \<Rightarrow> compressor option" where
  "compressor_set_max_usable_size c max_table_size =
     (let c = c\<lparr>c_max_usable_size := max_table_size\<rparr>
      in compressor_set_max_table_size c (min (c_max_table_size c) max_table_size))"

definition compressor_destroy :: "compressor \<Rightarrow> compressor" where
  "compressor_destroy c =
     c\<lparr>c_entries := map (\<lambda>e. e\<lparr>sr_mdel := mdelem_none\<rparr>) (c_entries c), c_table_elem_size := []\<rparr>"

end
