(* ===== verification/Hpack_Decode.thy ===== *)
theory Hpack_Decode
  imports Static_Table Dynamic_Table Protocol
begin

text \<open>
  \<^verbatim>\<open>decode_headers\<close> of \<^verbatim>\<open>src/hpack/hpack.cc\<close>, for any implementation \<open>svc\<close> of the dynamic table
  service. One pass of the loop is \<open>decode_one\<close>; an error carries the code the function returns.
\<close>

section \<open>The code\<close>

text \<open>A null pointer from a callee is turned into an error code.\<close>

fun null_is :: "Http2ErrorCode \<Rightarrow> 'a outcome \<Rightarrow> 'a outcome" where
  "null_is e (Error _) = Error (error_code e)"
| "null_is e r = r"

definition hpack_static_headers :: "u32 \<Rightarrow> mdelem_data outcome" where
  "hpack_static_headers i = (case static_mdelem (unat i) of Some m \<Rightarrow> Ok m | None \<Rightarrow> Fault)"

text \<open>The lookup both indexed branches share: 1 to 61 is the static table, the rest the dynamic one.\<close>

definition lookup_index :: "'t dynamic_table_service \<Rightarrow> 't \<Rightarrow> u32 \<Rightarrow> mdelem_data outcome" where
  "lookup_index svc t int_value =
     (if unat int_value \<le> HPACK_STATIC_MDELEM_STANDARD_COUNT then hpack_static_headers int_value
      else (case svc_get_mdelem_data svc t
                  (unat (int_value - word_of_nat (HPACK_STATIC_MDELEM_STANDARD_COUNT + 1))) of
              None \<Rightarrow> Error (error_code CompressionError)
            | Some m \<Rightarrow> Ok m))"

definition decode_indexed ::
  "'t dynamic_table_service \<Rightarrow> 't \<Rightarrow> bytes \<Rightarrow> ('t \<times> mdelem_data option \<times> bytes) outcome" where
  "decode_indexed svc t buf =
     outcome_bind (null_is CompressionError (decode_uint32 buf (INT_MASK 7))) (\<lambda>(int_value, buf).
       if int_value = 0 then Error (error_code CompressionError)
       else outcome_bind (lookup_index svc t int_value) (\<lambda>mdel. Ok (t, Some mdel, buf)))"

definition decode_size_update ::
  "'t dynamic_table_service \<Rightarrow> 't \<Rightarrow> bytes \<Rightarrow> ('t \<times> mdelem_data option \<times> bytes) outcome" where
  "decode_size_update svc t buf =
     outcome_bind (null_is CompressionError (decode_uint32 buf (INT_MASK 5))) (\<lambda>(int_value, buf).
       if int_value > svc_max_table_size_limit svc t then Error (error_code CompressionError)
       else Ok (svc_update_max_table_size svc t int_value, None, buf))"

text \<open>The name of a literal: new, or by reference.\<close>

definition decode_name ::
  "'t dynamic_table_service \<Rightarrow> 't \<Rightarrow> u32 \<Rightarrow> bytes \<Rightarrow> (bytes \<times> bytes) outcome" where
  "decode_name svc t int_value buf =
     (if int_value = 0 then null_is ProtocolError (parse_string_key [] buf)
      else outcome_bind (lookup_index svc t int_value) (\<lambda>mdel. Ok (md_key mdel, buf)))"

definition decode_literal ::
  "'t dynamic_table_service \<Rightarrow> 't \<Rightarrow> bytes \<Rightarrow> nat \<Rightarrow> bool \<Rightarrow> ('t \<times> mdelem_data option \<times> bytes) outcome" where
  "decode_literal svc t buf prefix_bits add_to_dynamic_table =
     outcome_bind (null_is CompressionError (decode_uint32 buf (INT_MASK prefix_bits))) (\<lambda>(int_value, buf).
     outcome_bind (decode_name svc t int_value buf) (\<lambda>(k, buf).
     outcome_bind (null_is CompressionError (parse_string buf)) (\<lambda>(v, buf).
       let mdel = \<lparr>md_key = k, md_value = v\<rparr> in
       Ok (if add_to_dynamic_table then svc_push_mdelem_data svc t mdel else t, Some mdel, buf))))"

definition decode_one ::
  "'t dynamic_table_service \<Rightarrow> 't \<Rightarrow> bytes \<Rightarrow> ('t \<times> mdelem_data option \<times> bytes) outcome" where
  "decode_one svc t buf = (case buf of
       [] \<Rightarrow> Fault
     | b # _ \<Rightarrow>
         if b AND 0x80 \<noteq> 0 then decode_indexed svc t buf
         else if b AND 0x40 \<noteq> 0 then decode_literal svc t buf 6 True
         else if b AND 0x20 \<noteq> 0 then decode_size_update svc t buf
         else decode_literal svc t buf 4 False)"

lemma null_is_Ok [simp]: "null_is e r = Ok x \<longleftrightarrow> r = Ok x"
  by (cases r) auto

lemma null_is_Fault [simp]: "null_is e r = Fault \<longleftrightarrow> r = Fault"
  by (cases r) auto

lemma decode_one_shorter [bounds]: "decode_one svc t buf = Ok (t', m, rest) \<Longrightarrow> length rest < length buf"
  by (auto simp: decode_one_def decode_indexed_def decode_literal_def decode_size_update_def decode_name_def
      outcome_bind_eq_Ok Let_def split: list.splits if_splits
      dest!: decode_uint32_shorter parse_string_shorter parse_string_key_shorter)

text \<open>
  The loop. The result is the returned code, the table and the headers pushed so far; it is
  \<open>None\<close> when a read falls outside the buffer.
\<close>

function decode_headers ::
  "'t dynamic_table_service \<Rightarrow> 't \<Rightarrow> bytes \<Rightarrow> mdelem_data list \<Rightarrow> (u32 \<times> 't \<times> mdelem_data list) option" where
  "decode_headers svc t buf hs =
     (if buf = [] then Some (error_code NoError, t, hs)
      else (case decode_one svc t buf of
              Ok (t', m, rest) \<Rightarrow>
                decode_headers svc t' rest (case m of None \<Rightarrow> hs | Some x \<Rightarrow> hs @ [x])
            | Error e \<Rightarrow> Some (e, t, hs)
            | Fault \<Rightarrow> None))"
  by pat_completeness auto
termination
  by (relation "measure (\<lambda>(svc, t, buf, hs). length buf)") (auto dest: decode_one_shorter)

declare decode_headers.simps [simp del]

lemma decode_headers_Nil [simp]: "decode_headers svc t [] hs = Some (error_code NoError, t, hs)"
  by (subst decode_headers.simps) simp

lemma decode_headers_Ok:
  "buf \<noteq> [] \<Longrightarrow> decode_one svc t buf = Ok (t', m, rest) \<Longrightarrow>
     decode_headers svc t buf hs = decode_headers svc t' rest (case m of None \<Rightarrow> hs | Some x \<Rightarrow> hs @ [x])"
  by (subst decode_headers.simps) simp

lemma decode_headers_Error:
  "buf \<noteq> [] \<Longrightarrow> decode_one svc t buf = Error e \<Longrightarrow> decode_headers svc t buf hs = Some (e, t, hs)"
  by (subst decode_headers.simps) simp

section \<open>Decoded strings are bounded by the input\<close>

lemma decode_string_length:
  assumes "decode_string src n n = Ok (s, rest)" "n < 2 ^ 32"
  shows "length s + length rest \<le> 2 * length src"
proof -
  have len: "n \<le> length src"
  proof (rule ccontr)
    assume "\<not> n \<le> length src"
    then show False
      using assms(1) by (auto simp: decode_string_def http2_head_huffman_decode_def Let_def split: outcome.splits if_splits)
  qed
  then have "decode_string (take n src @ drop n src) n n =
      (case huffman_spec (take n src) of None \<Rightarrow> nullptr | Some s \<Rightarrow> Ok (s, drop n src))"
    using assms(2) by (intro decode_string_spec) simp_all
  with assms(1) have "huffman_spec (take n src) = Some s" "rest = drop n src"
    by (auto split: option.splits)
  with huffman_spec_length [of "take n src" s] len show ?thesis by simp
qed

lemma copy_key_length: "copy_key buf n dst = Ok (s, rest) \<Longrightarrow> length s + length rest = length dst + length buf"
  by (induction buf n dst rule: copy_key.induct) (auto split: if_splits)

lemma parse_string_length:
  "parse_string buf = Ok (s, rest) \<Longrightarrow> length s + length rest \<le> 2 * length buf"
  by (auto simp: parse_string_def outcome_bind_eq_Ok Let_def split: list.splits if_splits
      dest!: decode_uint32_shorter decode_string_length [OF _ unat_u32_bound])

lemma parse_string_key_length:
  "parse_string_key [] buf = Ok (s, rest) \<Longrightarrow> length s + length rest \<le> 2 * length buf"
  by (auto simp: parse_string_key_def outcome_bind_eq_Ok Let_def split: list.splits if_splits
      dest!: decode_uint32_shorter copy_key_length decode_string_length [OF _ unat_u32_bound])

section \<open>The table invariant under any input\<close>

context dynamic_table_contract
begin

lemma entry_in_table_size: "tinv t \<Longrightarrow> i < length (entries t) \<Longrightarrow> entry_size (entries t ! i) \<le> unat (msize t)"
proof -
  assume "tinv t" "i < length (entries t)"
  then have "entry_size (entries t ! i) \<le> entries_size (entries t)"
    unfolding entries_size_def by (intro member_le_sum_list) auto
  with \<open>tinv t\<close> show ?thesis using size_bound by fastforce
qed

lemma lookup_index_key_length:
  assumes "tinv t" "lookup_index svc t i = Ok m"
  shows "length (md_key m) \<le> unat (msize t) + 64"
proof (cases "unat i \<le> 61")
  case True
  then show ?thesis
    using assms(2) static_mdelem_facts(2) [of "unat i" m]
    by (auto simp: lookup_index_def HPACK_STATIC_MDELEM_STANDARD_COUNT_def hpack_static_headers_def split: option.splits)
next
  case False
  then obtain j where "j < length (entries t)" "m = entries t ! j"
    using assms by (auto simp: lookup_index_def HPACK_STATIC_MDELEM_STANDARD_COUNT_def get_entry split: option.splits if_splits)
  with entry_in_table_size [OF assms(1), of j] show ?thesis by (simp add: entry_size_def MDELEM_SIZE_def)
qed

text \<open>
  While the maximum size stays below the limit, every header block keeps the table's invariant,
  whatever the peer sends.
\<close>

lemma decode_one_inv:
  assumes inv: "tinv t" "msize t \<le> svc_max_table_size_limit svc t"
    and small: "length buf \<le> 2 ^ 28" "unat (svc_max_table_size_limit svc t) \<le> 2 ^ 29"
    and ok: "decode_one svc t buf = Ok (t', m, rest)"
  shows "tinv t' \<and> msize t' \<le> svc_max_table_size_limit svc t' \<and>
    svc_max_table_size_limit svc t' = svc_max_table_size_limit svc t"
proof -
  have ms: "unat (msize t) \<le> 2 ^ 29" using inv(2) small(2) by (simp add: word_le_nat_alt)
  obtain b bs where b: "buf = b # bs" using ok by (cases buf) (auto simp: decode_one_def)
  have lit: ?thesis if lit: "decode_literal svc t buf n add = Ok (t', m, rest)" for n add
  proof -
    obtain i b1 k b2 v b3 where *: "decode_uint32 buf (INT_MASK n) = Ok (i, b1)" "decode_name svc t i b1 = Ok (k, b2)"
      "parse_string b2 = Ok (v, b3)" "t' = (if add then svc_push_mdelem_data svc t \<lparr>md_key = k, md_value = v\<rparr> else t)"
      using lit by (fastforce simp: decode_literal_def outcome_bind_eq_Ok Let_def)
    have b1: "length b1 < 2 ^ 28" using decode_uint32_shorter [OF *(1)] small(1) by simp
    have k: "length k \<le> 2 ^ 29 + 2 ^ 29 + 64 \<and> length b2 \<le> length b1"
      using *(2) lookup_index_key_length [OF inv(1), of i] ms b1
        parse_string_key_length [of b1 k b2] parse_string_key_shorter [of "[]" b1 k b2]
      by (force simp: decode_name_def outcome_bind_eq_Ok split: if_splits)
    have "length v \<le> 2 ^ 29" using parse_string_length [OF *(3)] k b1 by simp
    with k ms have "unat (msize t) + entry_size \<lparr>md_key = k, md_value = v\<rparr> < 2 ^ 32"
      by (simp add: entry_size_def MDELEM_SIZE_def)
    with *(4) inv show ?thesis by (simp add: push_inv push_msize push_limit)
  qed
  show ?thesis
    using ok inv lit [of 6 True] lit [of 4 False]
    by (auto simp: decode_one_def b decode_indexed_def decode_size_update_def outcome_bind_eq_Ok
        update_inv update_msize update_limit not_less split: if_splits)
qed

lemma decode_headers_inv:
  "tinv t \<Longrightarrow> msize t \<le> svc_max_table_size_limit svc t \<Longrightarrow> length buf \<le> 2 ^ 28 \<Longrightarrow>
   unat (svc_max_table_size_limit svc t) \<le> 2 ^ 29 \<Longrightarrow> decode_headers svc t buf hs = Some (e, t', hs') \<Longrightarrow>
     tinv t' \<and> msize t' \<le> svc_max_table_size_limit svc t' \<and>
     svc_max_table_size_limit svc t' = svc_max_table_size_limit svc t"
proof (induction "length buf" arbitrary: buf t hs rule: less_induct)
  case less
  show ?case
  proof (cases "buf = []")
    case True
    with less.prems show ?thesis by simp
  next
    case False
    show ?thesis
    proof (cases "decode_one svc t buf")
      case (Ok r)
      obtain t1 m rest where r: "r = (t1, m, rest)" by (cases r)
      have one: "decode_one svc t buf = Ok (t1, m, rest)" using Ok r by simp
      have step: "tinv t1 \<and> msize t1 \<le> svc_max_table_size_limit svc t1 \<and>
          svc_max_table_size_limit svc t1 = svc_max_table_size_limit svc t"
        using less.prems one by (intro decode_one_inv) auto
      have shorter: "length rest < length buf" using one by (rule decode_one_shorter)
      have "decode_headers svc t1 rest (case m of None \<Rightarrow> hs | Some x \<Rightarrow> hs @ [x]) = Some (e, t', hs')"
        using less.prems(5) decode_headers_Ok [OF False one] by simp
      from less.hyps [OF shorter _ _ _ _ this] step less.prems(3,4) shorter show ?thesis by auto
    next
      case (Error e')
      with less.prems decode_headers_Error [OF False, of svc t e'] show ?thesis by simp
    next
      case Fault
      with less.prems False show ?thesis by (subst (asm) decode_headers.simps) simp
    qed
  qed
qed

end

end
