(* ===== verification/Connection.thy ===== *)
theory Connection
  imports Stream Pack Compressor Hpack_Decode "HOL-Library.AList"
begin

text \<open>
  The connection of \<^verbatim>\<open>src/http2/connection.h\<close> and the sending half of \<^verbatim>\<open>src/http2/connection.cc\<close>:
  its state, the calls it makes to the user's services, and every operation that sends.

  The user's \<^verbatim>\<open>SendService\<close> and \<^verbatim>\<open>FlowControlHandler\<close> are code outside the library; they are the
  functions of a record \<open>services\<close>, whose answers may depend on everything the connection has
  told the user before. The calls themselves, in order, are the log \<open>cn_log\<close>. A value
  \<open>None\<close> of an operation means that it reads or writes outside a buffer or does not return.
\<close>

section \<open>Calls to the user\<close>

record WindowUpdate =
  connection_window_size_increment :: u32
  stream_window_size_increment :: u32

text \<open>
  \<open>SendRawData\<close> carries the bytes and the result; the stream callbacks carry the stream as the
  handler sees it at that moment. All calls of one connection pass the same connection id.
\<close>

datatype user_call =
  SendRawData bytes int
  | OnStreamHeaders http2_stream
  | OnStreamData http2_stream
  | OnStreamClosed http2_stream u32
  | OnSettings "(u16 \<times> u32) list" bool
  | OnPing u64 bool
  | OnGoAway u32 u32 bytes
  | OnShutdownComplete
  | OnDataReceived u32 u32
  | OnPreSendData u32 u32
  | OnWindowUpdate u32 u32

record services =
  sv_send :: "user_call list \<Rightarrow> bytes \<Rightarrow> int"
  sv_data_received :: "user_call list \<Rightarrow> u32 \<Rightarrow> u32 \<Rightarrow> WindowUpdate"
  sv_pre_send_data :: "user_call list \<Rightarrow> u32 \<Rightarrow> u32 \<Rightarrow> WindowUpdate"
  sv_hash_seed :: u32

section \<open>State\<close>

text \<open>
  \<^verbatim>\<open>_streams\<close> is an association list without duplicate keys; nothing depends on the order of the
  \<^verbatim>\<open>std::map\<close>. The two handler pointers matter only as null or not. The 64-bit send window
  is an unbounded \<open>int\<close>: 2^32 maximal WINDOW_UPDATEs would be needed to overflow it.
\<close>

record http2_connection =
  cn_dynamic_table :: dynamic_metadata_table
  cn_event_handler :: bool
  cn_flow_control :: bool
  cn_connection_id :: u64
  cn_client_side :: bool
  cn_ping_pending :: bool
  cn_settings_pending :: bool
  cn_preface_sent :: bool
  cn_initial_settings_sent :: bool
  cn_local_settings :: "u32 list"
  cn_remote_settings :: "u32 list"
  cn_finish_handshake :: bool
  cn_last_stream_id :: u32
  cn_next_local_stream_id :: u32
  cn_streams :: "(u32 \<times> http2_stream) list"
  cn_send_record :: compressor
  cn_received_goaway_stream_id :: u32
  cn_received_goaway :: bool
  cn_sent_goaway_stream_id :: u32
  cn_sent_goaway :: bool
  cn_draining :: bool
  cn_next_frame_limit :: bool
  cn_next_stream_id_limit :: u32
  cn_request_settings :: "(u16 \<times> u32) list"
  cn_buffered_mode :: bool
  cn_send_buffer :: slice_buffer
  cn_connection_send_window :: int
  cn_log :: "user_call list"

definition PREFACE :: bytes where
  "PREFACE = [0x50, 0x52, 0x49, 0x20, 0x2a, 0x20, 0x48, 0x54, 0x54, 0x50, 0x2f, 0x32,
              0x2e, 0x30, 0x0d, 0x0a, 0x0d, 0x0a, 0x53, 0x4d, 0x0d, 0x0a, 0x0d, 0x0a]"

definition INITIAL_WINDOW_SIZE :: u32 where "INITIAL_WINDOW_SIZE = 65535"
definition MAX_FRAME_SIZE :: u32 where "MAX_FRAME_SIZE = 16384"
definition MAX_HEADER_LIST_SIZE :: u32 where "MAX_HEADER_LIST_SIZE = 8192"

definition setting_index :: "Http2SettingsId \<Rightarrow> nat" where
  "setting_index i = unat (settings_id i)"

definition default_settings :: "u32 list" where
  "default_settings = map sp_default_value global_settings_parameters"

text \<open>
  The constructor. The compressor starts at the default table size, so the resize that the
  constructor asks for is written out; \<open>None\<close> is unreachable.
\<close>

definition http2_connection_new :: "u64 \<Rightarrow> bool \<Rightarrow> http2_connection option" where
  "http2_connection_new cid client_side =
     map_option (\<lambda>send_record.
       \<lparr>cn_dynamic_table = dynamic_metadata_table_new (default_settings ! setting_index Set_HeaderTableSize),
        cn_event_handler = False, cn_flow_control = False, cn_connection_id = cid,
        cn_client_side = client_side, cn_ping_pending = False, cn_settings_pending = False,
        cn_preface_sent = False, cn_initial_settings_sent = False,
        cn_local_settings = default_settings
          [setting_index Set_InitialWindowSize := INITIAL_WINDOW_SIZE,
           setting_index Set_MaxFrameSize := MAX_FRAME_SIZE,
           setting_index Set_MaxHeaderListSize := MAX_HEADER_LIST_SIZE],
        cn_remote_settings = default_settings,
        cn_finish_handshake = client_side, cn_last_stream_id = 0,
        cn_next_local_stream_id = (if client_side then 1 else 2), cn_streams = [],
        cn_send_record = send_record, cn_received_goaway_stream_id = 0, cn_received_goaway = False,
        cn_sent_goaway_stream_id = 0, cn_sent_goaway = False, cn_draining = False,
        cn_next_frame_limit = False, cn_next_stream_id_limit = 0, cn_request_settings = [],
        cn_buffered_mode = False, cn_send_buffer = slice_buffer_new,
        cn_connection_send_window = uint INITIAL_WINDOW_SIZE, cn_log = []\<rparr>)
     (compressor_set_max_table_size compressor_init (default_settings ! setting_index Set_HeaderTableSize))"

definition set_event_handler :: "bool \<Rightarrow> http2_connection \<Rightarrow> http2_connection" where
  "set_event_handler h c = c\<lparr>cn_event_handler := h\<rparr>"

definition set_flow_control_handler :: "bool \<Rightarrow> http2_connection \<Rightarrow> http2_connection" where
  "set_flow_control_handler h c = c\<lparr>cn_flow_control := h\<rparr>"

section \<open>Streams of the connection\<close>

definition find_stream :: "u32 \<Rightarrow> http2_connection \<Rightarrow> http2_stream option" where
  "find_stream i c = map_of (cn_streams c) i"

text \<open>A stream is a shared object; after each mutation it is stored back under its identifier.\<close>

definition put_stream :: "http2_stream \<Rightarrow> http2_connection \<Rightarrow> http2_connection" where
  "put_stream s c = c\<lparr>cn_streams := AList.update (st_stream_id s) s (cn_streams c)\<rparr>"

definition destroy_stream :: "u32 \<Rightarrow> http2_connection \<Rightarrow> http2_connection" where
  "destroy_stream i c = c\<lparr>cn_streams := AList.delete i (cn_streams c)\<rparr>"

definition create_stream :: "http2_connection \<Rightarrow> http2_stream option \<times> http2_connection" where
  "create_stream c =
     (if cn_next_local_stream_id c \<ge> HTTP2_MAX_STREAM_ID \<or> cn_received_goaway c \<or> cn_sent_goaway c
      then (None, c)
      else let max_streams = cn_remote_settings c ! setting_index Set_MaxConcurrentStreams in
        if max_streams \<noteq> 0 \<and> length (cn_streams c) \<ge> unat max_streams then (None, c)
        else let stream = http2_stream_new (cn_connection_id c) (cn_next_local_stream_id c) in
          (Some stream, (put_stream stream c)\<lparr>cn_next_local_stream_id := cn_next_local_stream_id c + 2\<rparr>))"

section \<open>Calls and raw output\<close>

definition call_user :: "user_call \<Rightarrow> http2_connection \<Rightarrow> http2_connection" where
  "call_user e c = c\<lparr>cn_log := cn_log c @ [e]\<rparr>"

text \<open>A call on the event handler, if there is one.\<close>

definition notify :: "user_call \<Rightarrow> http2_connection \<Rightarrow> http2_connection" where
  "notify e c = (if cn_event_handler c then call_user e c else c)"

definition notify_stream_closed :: "http2_stream \<Rightarrow> u32 \<Rightarrow> http2_connection \<Rightarrow> http2_connection" where
  "notify_stream_closed s err c = notify (OnStreamClosed s err) c"

definition check_drain_complete :: "http2_connection \<Rightarrow> http2_connection" where
  "check_drain_complete c =
     (if cn_draining c \<and> cn_streams c = [] then notify OnShutdownComplete (c\<lparr>cn_draining := False\<rparr>) else c)"

text \<open>The repeated closing step: erase a closed stream and check whether a drain is done.\<close>

definition destroy_if_closed :: "http2_stream \<Rightarrow> http2_connection \<Rightarrow> http2_connection" where
  "destroy_if_closed s c =
     (if st_is_closed s then check_drain_complete (destroy_stream (st_stream_id s) c) else c)"

definition call_send :: "services \<Rightarrow> bytes \<Rightarrow> http2_connection \<Rightarrow> int \<times> http2_connection" where
  "call_send S b c = (let ret = sv_send S (cn_log c) b in (ret, call_user (SendRawData b ret) c))"

text \<open>\<^verbatim>\<open>static_cast<int>\<close> of a size.\<close>

definition int_of_size :: "nat \<Rightarrow> int" where
  "int_of_size n = sint (word_of_nat n :: 32 word)"

definition buffer_raw_data :: "slice \<Rightarrow> http2_connection \<Rightarrow> http2_connection" where
  "buffer_raw_data s c = c\<lparr>cn_send_buffer := sb_add_slice (cn_send_buffer c) s\<rparr>"

definition send_raw_data :: "services \<Rightarrow> slice \<Rightarrow> http2_connection \<Rightarrow> int \<times> http2_connection" where
  "send_raw_data S s c =
     (if cn_buffered_mode c then (int_of_size (length s), buffer_raw_data s c) else call_send S s c)"

fun send_slices :: "services \<Rightarrow> slice list \<Rightarrow> int \<Rightarrow> http2_connection \<Rightarrow> int \<times> http2_connection" where
  "send_slices S [] total_sent c = (total_sent, c)"
| "send_slices S (s # ss) total_sent c =
     (case call_send S s c of (ret, c) \<Rightarrow>
        if ret < 0 then (-1, c) else send_slices S ss (total_sent + ret) c)"

definition live_slices :: "slice_buffer \<Rightarrow> slice list" where
  "live_slices sb = drop (sb_start sb) (sb_vs sb)"

definition send_raw_buffer :: "services \<Rightarrow> slice_buffer \<Rightarrow> http2_connection \<Rightarrow> int \<times> http2_connection" where
  "send_raw_buffer S sb c =
     (if cn_buffered_mode c
      then (int_of_size (sb_get_buffer_length sb), fold buffer_raw_data (live_slices sb) c)
      else send_slices S (live_slices sb) 0 c)"

definition set_buffered_mode :: "bool \<Rightarrow> http2_connection \<Rightarrow> http2_connection" where
  "set_buffered_mode enable c = c\<lparr>cn_buffered_mode := enable\<rparr>"

definition flush_buffer :: "services \<Rightarrow> http2_connection \<Rightarrow> bool \<times> http2_connection" where
  "flush_buffer S c =
     (if sb_empty (cn_send_buffer c) then (True, c)
      else let prev = cn_buffered_mode c in
        (case send_raw_buffer S (cn_send_buffer c) (c\<lparr>cn_buffered_mode := False\<rparr>) of (ret, c) \<Rightarrow>
          (ret \<ge> 0, (if ret \<ge> 0 then c\<lparr>cn_send_buffer := sb_clear_buffer (cn_send_buffer c)\<rparr> else c)
             \<lparr>cn_buffered_mode := prev\<rparr>)))"

text \<open>\<^verbatim>\<open>send_http2_frame\<close>, overloaded on the frame type.\<close>

definition send_frame_data :: "services \<Rightarrow> http2_frame_data \<Rightarrow> http2_connection \<Rightarrow> (int \<times> http2_connection) option" where
  "send_frame_data S frame c =
     map_option (\<lambda>sb. send_raw_buffer S sb c)
       (pack_http2_frame_data frame (cn_remote_settings c ! setting_index Set_MaxFrameSize))"

definition send_frame_headers :: "services \<Rightarrow> http2_frame_headers \<Rightarrow> http2_connection \<Rightarrow> (int \<times> http2_connection) option" where
  "send_frame_headers S frame c = map_option (\<lambda>s. send_raw_data S s c) (pack_http2_frame_headers frame)"

definition send_frame_priority :: "services \<Rightarrow> http2_frame_priority \<Rightarrow> http2_connection \<Rightarrow> int \<times> http2_connection" where
  "send_frame_priority S frame c = send_raw_data S (pack_http2_frame_priority frame) c"

definition send_frame_rst_stream :: "services \<Rightarrow> http2_frame_rst_stream \<Rightarrow> http2_connection \<Rightarrow> int \<times> http2_connection" where
  "send_frame_rst_stream S frame c = send_raw_data S (pack_http2_frame_rst_stream frame) c"

definition send_frame_settings :: "services \<Rightarrow> http2_frame_settings \<Rightarrow> http2_connection \<Rightarrow> (int \<times> http2_connection) option" where
  "send_frame_settings S frame c = map_option (\<lambda>s. send_raw_data S s c) (pack_http2_frame_settings frame)"

definition send_frame_push_promise ::
  "services \<Rightarrow> http2_frame_push_promise \<Rightarrow> http2_connection \<Rightarrow> (int \<times> http2_connection) option" where
  "send_frame_push_promise S frame c = map_option (\<lambda>s. send_raw_data S s c) (pack_http2_frame_push_promise frame)"

definition send_frame_ping :: "services \<Rightarrow> http2_frame_ping \<Rightarrow> http2_connection \<Rightarrow> int \<times> http2_connection" where
  "send_frame_ping S frame c = send_raw_data S (pack_http2_frame_ping frame) c"

definition send_frame_goaway :: "services \<Rightarrow> http2_frame_goaway \<Rightarrow> http2_connection \<Rightarrow> (int \<times> http2_connection) option" where
  "send_frame_goaway S frame c = map_option (\<lambda>s. send_raw_data S s c) (pack_http2_frame_goaway frame)"

definition send_frame_window_update ::
  "services \<Rightarrow> http2_frame_window_update \<Rightarrow> http2_connection \<Rightarrow> int \<times> http2_connection" where
  "send_frame_window_update S frame c = send_raw_data S (pack_http2_frame_window_update frame) c"

section \<open>Preface and settings\<close>

text \<open>The entries for local settings that differ from the defaults, identifiers 1 to 6.\<close>

definition initial_settings_entries :: "http2_connection \<Rightarrow> http2_settings_entry list" where
  "initial_settings_entries c =
     map (\<lambda>i. \<lparr>se_id = word_of_nat i, se_value = cn_local_settings c ! i\<rparr>)
       (filter (\<lambda>i. cn_local_settings c ! i \<noteq> sp_default_value (global_settings_parameters ! i))
         [1..<HTTP2_NUMBER_OF_SETTINGS])"

definition ensure_preface_sent :: "services \<Rightarrow> http2_connection \<Rightarrow> http2_connection option" where
  "ensure_preface_sent S c =
     (if \<not> cn_client_side c \<or> cn_preface_sent c then Some c
      else (case call_send S PREFACE c of (ret, c) \<Rightarrow>
        if ret < 0 then Some c
        else do {
          (ret, c) \<leftarrow> send_frame_settings S (build_http2_frame_settings 0 (initial_settings_entries c)) c;
          Some (c\<lparr>cn_settings_pending := True, cn_preface_sent := True\<rparr>)
        }))"

definition send_initial_settings :: "services \<Rightarrow> http2_connection \<Rightarrow> http2_connection option" where
  "send_initial_settings S c =
     (if cn_initial_settings_sent c then Some c
      else let c = c\<lparr>cn_initial_settings_sent := True\<rparr> in do {
        (ret, c) \<leftarrow> send_frame_settings S (build_http2_frame_settings 0 (initial_settings_entries c)) c;
        Some (c\<lparr>cn_settings_pending := True\<rparr>)
      })"

section \<open>Connection-level sends\<close>

text \<open>\<^verbatim>\<open>memcpy\<close> between a \<^verbatim>\<open>uint64_t\<close> and eight bytes on a little-endian host.\<close>

definition mem_of_u64 :: "u64 \<Rightarrow> bytes" where
  "mem_of_u64 n = map (\<lambda>i. ucast (drop_bit (8 * i) n)) [0..<8]"

definition u64_of_mem :: "bytes \<Rightarrow> u64" where
  "u64_of_mem bs = foldr (\<lambda>b n. ucast b OR push_bit 8 n) bs 0"

definition send_ping :: "services \<Rightarrow> u64 \<Rightarrow> http2_connection \<Rightarrow> (bool \<times> http2_connection) option" where
  "send_ping S info c = do {
     c \<leftarrow> ensure_preface_sent S c;
     if cn_ping_pending c then Some (False, c)
     else (case send_frame_ping S (build_http2_frame_ping (mem_of_u64 info) False) c of (ret, c) \<Rightarrow>
       Some (True, c\<lparr>cn_ping_pending := True\<rparr>))
   }"

definition send_settings :: "services \<Rightarrow> (u16 \<times> u32) list \<Rightarrow> http2_connection \<Rightarrow> (bool \<times> http2_connection) option" where
  "send_settings S settings c = do {
     c \<leftarrow> ensure_preface_sent S c;
     if settings = [] then Some (False, c)
     else if cn_settings_pending c then Some (False, c)
     else do {
       (ret, c) \<leftarrow> send_frame_settings S
          (build_http2_frame_settings 0 (map (\<lambda>(i, v). \<lparr>se_id = i, se_value = v\<rparr>) settings))
          (c\<lparr>cn_settings_pending := True, cn_request_settings := settings\<rparr>);
       Some (True, c)
     }
   }"

definition send_rst_stream :: "services \<Rightarrow> u32 \<Rightarrow> u32 \<Rightarrow> http2_connection \<Rightarrow> (bool \<times> http2_connection) option" where
  "send_rst_stream S stream_id err c = do {
     c \<leftarrow> ensure_preface_sent S c;
     case find_stream stream_id c of None \<Rightarrow> Some (False, c)
     | Some stream \<Rightarrow>
         (case send_frame_rst_stream S (build_http2_frame_rst_stream stream_id 0 err) c of (ret, c) \<Rightarrow>
           let stream = st_send_rst_stream stream in
           Some (True, destroy_if_closed stream (put_stream stream c)))
   }"

definition send_goaway :: "services \<Rightarrow> u32 \<Rightarrow> u32 \<Rightarrow> bytes \<Rightarrow> http2_connection \<Rightarrow> http2_connection option" where
  "send_goaway S err last_stream_id debug c = do {
     c \<leftarrow> ensure_preface_sent S c;
     let last_stream_id = (if last_stream_id = 0 then cn_last_stream_id c else last_stream_id);
     (ret, c) \<leftarrow> send_frame_goaway S (build_http2_frame_goaway last_stream_id err debug) c;
     Some (c\<lparr>cn_sent_goaway_stream_id := last_stream_id, cn_sent_goaway := True\<rparr>)
   }"

text \<open>The common call with both optional arguments left out.\<close>

definition goaway :: "services \<Rightarrow> u32 \<Rightarrow> http2_connection \<Rightarrow> http2_connection option" where
  "goaway S err c = send_goaway S err 0 [] c"

definition drain :: "services \<Rightarrow> http2_connection \<Rightarrow> http2_connection option" where
  "drain S c =
     (if cn_sent_goaway c then Some c
      else do {
        c \<leftarrow> send_goaway S (error_code NoError) (cn_last_stream_id c) [] c;
        Some (check_drain_complete (c\<lparr>cn_draining := True\<rparr>))
      })"

definition send_window_update ::
  "services \<Rightarrow> u32 \<Rightarrow> WindowUpdate \<Rightarrow> http2_connection \<Rightarrow> (bool \<times> http2_connection) option" where
  "send_window_update S stream_id wu c = do {
     c \<leftarrow> ensure_preface_sent S c;
     let conn_inc = connection_window_size_increment wu AND 0x7fffffff;
     let stream_inc = stream_window_size_increment wu AND 0x7fffffff;
     let stream_inc = (if stream_inc > 0 \<and> find_stream stream_id c = None then 0 else stream_inc);
     let s = slice_plus
        (if stream_inc > 0 then pack_http2_frame_window_update (build_http2_frame_window_update stream_id stream_inc) else [])
        (if conn_inc > 0 then pack_http2_frame_window_update (build_http2_frame_window_update 0 conn_inc) else []);
     (case send_raw_data S s c of (ret, c) \<Rightarrow> Some (ret \<ge> 0 \<and> s \<noteq> [], c))
   }"

text \<open>The pairs of strings that the user passes become header fields.\<close>

definition mdels_of :: "(bytes \<times> bytes) list \<Rightarrow> mdelem_data list" where
  "mdels_of headers = map (\<lambda>(k, v). \<lparr>md_key = k, md_value = v\<rparr>) headers"

definition encode_header_block ::
  "services \<Rightarrow> (bytes \<times> bytes) list \<Rightarrow> http2_connection \<Rightarrow> (slice \<times> http2_connection) option" where
  "encode_header_block S headers c = do {
     (send_record, fragment) \<leftarrow>
        compressor_encode_headers (sv_hash_seed S) (cn_send_record c) (mdels_of headers) slice_buffer_new True;
     Some (sb_merge fragment, c\<lparr>cn_send_record := send_record\<rparr>)
   }"

definition send_push_promise ::
  "services \<Rightarrow> u32 \<Rightarrow> (bytes \<times> bytes) list \<Rightarrow> http2_connection \<Rightarrow> (http2_stream option \<times> http2_connection) option" where
  "send_push_promise S request_stream_id headers c =
     (if cn_client_side c then Some (None, c)
      else if cn_local_settings c ! setting_index Set_EnablePush = 0 then Some (None, c)
      else (case create_stream c of
        (None, c) \<Rightarrow> Some (None, c)
      | (Some promised, c) \<Rightarrow> do {
          (block, c) \<leftarrow> encode_header_block S headers c;
          (ret, c) \<leftarrow> send_frame_push_promise S
             (build_http2_frame_push_promise request_stream_id (st_stream_id promised)
                (ucast (frame_flag Flag_EndHeaders)) block) c;
          let promised = st_send_push_promise promised;
          Some (Some promised, put_stream promised c)
        }))"

section \<open>Stream-level sends\<close>

definition send_binary_in_headers_frame ::
  "services \<Rightarrow> u32 \<Rightarrow> (bytes \<times> bytes) list \<Rightarrow> u32 \<Rightarrow> http2_connection \<Rightarrow> (int \<times> http2_connection) option" where
  "send_binary_in_headers_frame S stream_id headers flags c = do {
     (block, c) \<leftarrow> encode_header_block S headers c;
     send_frame_headers S (build_http2_frame_headers stream_id flags block None) c
   }"

definition send_binary_in_data_frame ::
  "services \<Rightarrow> u32 \<Rightarrow> bytes \<Rightarrow> u32 \<Rightarrow> bool \<Rightarrow> http2_connection \<Rightarrow> (int \<times> http2_connection) option" where
  "send_binary_in_data_frame S stream_id data sz end_of_stream c =
     (if sz = 0 \<and> \<not> end_of_stream then Some (0, c)
      else if \<not> cn_flow_control c \<and> sz > 0 \<and> uint sz > cn_connection_send_window c then Some (0, c)
      else do {
        let c = (if cn_flow_control c then c
                 else c\<lparr>cn_connection_send_window := cn_connection_send_window c - uint sz\<rparr>);
        c \<leftarrow> (if sz > 0 \<and> cn_flow_control c
              then (let wu = sv_pre_send_data S (cn_log c) stream_id sz in
                map_option snd (send_window_update S stream_id wu (call_user (OnPreSendData stream_id sz) c)))
              else Some c);
        let flags = (if end_of_stream then ucast (frame_flag Flag_EndStream) else 0);
        send_frame_data S (build_http2_frame_data stream_id flags (slice_copy data (unat sz))) c
      })"

text \<open>
  The three operations a stream delegates to. They take the stream by its identifier: a stream
  that is no longer in \<^verbatim>\<open>_streams\<close> is refused, and one that is there is the caller's object.
\<close>

definition stream_send_headers ::
  "services \<Rightarrow> u32 \<Rightarrow> (bytes \<times> bytes) list \<Rightarrow> bool \<Rightarrow> http2_connection \<Rightarrow> (bool \<times> http2_connection) option" where
  "stream_send_headers S stream_id headers end_stream c = do {
     c \<leftarrow> ensure_preface_sent S c;
     case find_stream stream_id c of None \<Rightarrow> Some (False, c)
     | Some stream \<Rightarrow> do {
         let flags = ucast (frame_flag Flag_EndHeaders) OR (if end_stream then ucast (frame_flag Flag_EndStream) else 0);
         (ret, c) \<leftarrow> send_binary_in_headers_frame S stream_id headers flags c;
         if ret < 0 then Some (False, c)
         else let stream = st_send_headers stream;
                  stream = (if end_stream then st_send_end_stream stream else stream)
              in Some (True, destroy_if_closed stream (put_stream stream c))
       }
   }"

definition stream_send_data ::
  "services \<Rightarrow> u32 \<Rightarrow> bytes \<Rightarrow> u32 \<Rightarrow> bool \<Rightarrow> http2_connection \<Rightarrow> (bool \<times> http2_connection) option" where
  "stream_send_data S stream_id data sz end_stream c = do {
     c \<leftarrow> ensure_preface_sent S c;
     case find_stream stream_id c of None \<Rightarrow> Some (False, c)
     | Some stream \<Rightarrow> do {
         (ret, c) \<leftarrow> send_binary_in_data_frame S stream_id data sz end_stream c;
         if ret < 0 then Some (False, c)
         else let stream = (if end_stream then st_send_end_stream stream else stream)
              in Some (True, destroy_if_closed stream (put_stream stream c))
       }
   }"

definition stream_send_trailing_headers ::
  "services \<Rightarrow> u32 \<Rightarrow> (bytes \<times> bytes) list \<Rightarrow> http2_connection \<Rightarrow> (bool \<times> http2_connection) option" where
  "stream_send_trailing_headers S stream_id headers c = do {
     c \<leftarrow> ensure_preface_sent S c;
     case find_stream stream_id c of None \<Rightarrow> Some (False, c)
     | Some stream \<Rightarrow> do {
         (ret, c) \<leftarrow> send_binary_in_headers_frame S stream_id headers
            (ucast (frame_flag Flag_EndHeaders) OR ucast (frame_flag Flag_EndStream)) c;
         let stream = st_send_end_stream (st_send_headers stream);
         Some (True, destroy_if_closed stream (put_stream stream c))
       }
   }"

definition stream_send_rst_stream ::
  "services \<Rightarrow> u32 \<Rightarrow> u32 \<Rightarrow> http2_connection \<Rightarrow> (bool \<times> http2_connection) option" where
  "stream_send_rst_stream S stream_id err c = send_rst_stream S stream_id err c"

section \<open>Queries\<close>

record ConnectionInfo =
  active_streams :: u32
  last_stream_id :: u32
  received_goaway :: bool
  sent_goaway :: bool
  draining :: bool
  connection_window :: int

definition get_connection_info :: "http2_connection \<Rightarrow> ConnectionInfo" where
  "get_connection_info c =
     \<lparr>active_streams = word_of_nat (length (cn_streams c)), last_stream_id = cn_last_stream_id c,
      received_goaway = cn_received_goaway c, sent_goaway = cn_sent_goaway c, draining = cn_draining c,
      connection_window = cn_connection_send_window c\<rparr>"

text \<open>The two settings queries index an array of seven without a check.\<close>

definition remote_setting :: "nat \<Rightarrow> http2_connection \<Rightarrow> u32 option" where
  "remote_setting i c = (if i < HTTP2_NUMBER_OF_SETTINGS then Some (cn_remote_settings c ! i) else None)"

definition local_setting :: "nat \<Rightarrow> http2_connection \<Rightarrow> u32 option" where
  "local_setting i c = (if i < HTTP2_NUMBER_OF_SETTINGS then Some (cn_local_settings c ! i) else None)"

end
