(* ===== verification/Connection_Receive.thy ===== *)
theory Connection_Receive
  imports Connection
begin

text \<open>
  The receiving half of \<^verbatim>\<open>src/http2/connection.cc\<close>: one handler per frame type, the routines that
  parse a payload and call its handler, and \<^verbatim>\<open>package_process\<close>. A handler returns the stream
  pointer it was given, as it leaves it, with the connection.
\<close>

type_synonym handled = "(http2_stream option \<times> http2_connection) option"

text \<open>Leave a handler with a GOAWAY, or stream pointer and connection as they are.\<close>

definition reject :: "services \<Rightarrow> u32 \<Rightarrow> http2_stream option \<Rightarrow> http2_connection \<Rightarrow> handled" where
  "reject S err stream c = map_option (\<lambda>c. (stream, c)) (goaway S err c)"

definition odd_id :: "u32 \<Rightarrow> bool" where
  "odd_id i \<longleftrightarrow> i AND 1 \<noteq> 0"

section \<open>DATA and header blocks\<close>

text \<open>The credit to give back for received data: the handler's choice, or all of it.\<close>

definition received_credit :: "services \<Rightarrow> u32 \<Rightarrow> u32 \<Rightarrow> http2_connection \<Rightarrow> WindowUpdate \<times> http2_connection" where
  "received_credit S stream_id data_size c =
     (if cn_flow_control c
      then (sv_data_received S (cn_log c) stream_id data_size, call_user (OnDataReceived stream_id data_size) c)
      else (\<lparr>connection_window_size_increment = data_size, stream_window_size_increment = data_size\<rparr>, c))"

definition received_data :: "services \<Rightarrow> http2_stream option \<Rightarrow> http2_frame_data \<Rightarrow> http2_connection \<Rightarrow> handled" where
  "received_data S stream frame c =
     (let h = dat_hdr frame; data_size = word_of_nat (length (dat_data frame)) in
      if hd_stream_id h = 0 then reject S (error_code ProtocolError) stream c
      else if ucast (dat_pad_len frame) \<ge> hd_length h then reject S (error_code ProtocolError) stream c
      else case stream of None \<Rightarrow> Some (None, c)
      | Some s \<Rightarrow>
          let s = st_save_frame_info h s; c = put_stream s c in
          if dat_data frame = [] then Some (Some s, c)
          else
            let s = st_append_data (dat_data frame) s;
                c = notify (OnStreamData s) (put_stream s c);
                (wu, c) = received_credit S (st_stream_id s) data_size c
            in do {
              (sent, c) \<leftarrow> send_window_update S (st_stream_id s) wu c;
              Some (Some s, if st_is_closed s then notify_stream_closed s 0 c else c)
            })"

text \<open>HPACK decoding of a block on the connection's dynamic table.\<close>

definition decode_block :: "slice \<Rightarrow> http2_connection \<Rightarrow> (u32 \<times> mdelem_data list \<times> http2_connection) option" where
  "decode_block block c = do {
     (err, table, headers) \<leftarrow> decode_headers dynamic_metadata_service (cn_dynamic_table c) block [];
     Some (err, headers, c\<lparr>cn_dynamic_table := table\<rparr>)
   }"

text \<open>END_HEADERS ends the block and reports the stream; without it only a CONTINUATION may follow.\<close>

definition finish_block :: "http2_frame_hdr \<Rightarrow> http2_stream \<Rightarrow> http2_connection \<Rightarrow> http2_connection" where
  "finish_block h s c =
     (if has_flag (hd_flags h) Flag_EndHeaders
      then notify (OnStreamHeaders s) (c\<lparr>cn_next_frame_limit := False, cn_next_stream_id_limit := 0\<rparr>)
      else c\<lparr>cn_next_frame_limit := True, cn_next_stream_id_limit := hd_stream_id h\<rparr>)"

definition received_headers :: "services \<Rightarrow> http2_stream option \<Rightarrow> http2_frame_headers \<Rightarrow> http2_connection \<Rightarrow> handled" where
  "received_headers S stream frame c =
     (let h = hds_hdr frame in
      if hd_stream_id h = 0 then reject S (error_code ProtocolError) stream c
      else if ucast (hds_pad_len frame) \<ge> hd_length h then reject S (error_code ProtocolError) stream c
      else do {
        (err, headers, c) \<leftarrow> decode_block (hds_header_block_fragment frame) c;
        if err \<noteq> error_code NoError then reject S err stream c
        else if (case stream of Some s \<Rightarrow> st_state s \<noteq> Idle | None \<Rightarrow> False)
        then reject S (error_code ProtocolError) stream c
        else if stream = None \<and> odd_id (hd_stream_id h) = cn_client_side c
        then reject S (error_code ProtocolError) stream c
        else if stream = None \<and> cn_sent_goaway c \<and> hd_stream_id h > cn_sent_goaway_stream_id c
        then Some (stream, c)
        else
          let s = (case stream of Some s \<Rightarrow> s
                   | None \<Rightarrow> http2_stream_new (cn_connection_id c) (hd_stream_id h));
              s = st_save_frame_info h (st_recv_headers headers s)
          in Some (Some s, finish_block h s (put_stream s c))
      })"

definition received_continuation ::
  "services \<Rightarrow> http2_stream option \<Rightarrow> http2_frame_continuation \<Rightarrow> http2_connection \<Rightarrow> handled" where
  "received_continuation S stream frame c =
     (let h = con_hdr frame in
      if \<not> cn_next_frame_limit c then reject S (error_code ProtocolError) stream c
      else case stream of None \<Rightarrow> reject S (error_code ProtocolError) stream c
      | Some s \<Rightarrow> do {
          (err, headers, c) \<leftarrow> decode_block (con_header_block_fragment frame) c;
          if err \<noteq> error_code NoError then reject S err stream c
          else
            let s = st_save_frame_info h (st_append_headers headers s); c = put_stream s c in
            Some (Some s,
              if has_flag (hd_flags h) Flag_EndHeaders
              then notify (OnStreamHeaders s) (c\<lparr>cn_next_frame_limit := False, cn_next_stream_id_limit := 0\<rparr>)
              else c)
        })"

text \<open>
  PUSH_PROMISE. A promised stream that is not known yet is a fresh object that is reported to the
  handler and never stored in \<^verbatim>\<open>_streams\<close>. The stream pointer that was passed in is the same
  object when its identifier is the promised one.
\<close>

definition received_push_promise ::
  "services \<Rightarrow> http2_stream option \<Rightarrow> http2_frame_push_promise \<Rightarrow> http2_connection \<Rightarrow> handled" where
  "received_push_promise S stream frame c =
     (let h = pp_hdr frame; promised_id = pp_promised_stream_id frame; known = find_stream promised_id c in
      if ucast (pp_pad_len frame) \<ge> hd_length h then reject S (error_code ProtocolError) stream c
      else if promised_id = 0 then reject S (error_code ProtocolError) stream c
      else if promised_id mod 2 \<noteq> 0 then reject S (error_code ProtocolError) stream c
      else if cn_local_settings c ! setting_index Set_EnablePush = 0
      then reject S (error_code ProtocolError) stream c
      else if (case known of Some p \<Rightarrow> st_state p \<noteq> Idle | None \<Rightarrow> False)
      then reject S (error_code ProtocolError) stream c
      else do {
        (err, headers, c) \<leftarrow> decode_block (pp_header_block_fragment frame) c;
        if err \<noteq> error_code NoError then reject S err stream c
        else
          let p = (case known of Some p \<Rightarrow> p | None \<Rightarrow> http2_stream_new (cn_connection_id c) promised_id);
              p = st_append_headers headers (st_save_frame_info h (st_recv_push_promise p));
              c = (if known = None then c else put_stream p c)
          in Some (map_option (\<lambda>s. if st_stream_id s = promised_id then p else s) stream, finish_block h p c)
      })"

section \<open>Stream control\<close>

definition received_priority :: "services \<Rightarrow> http2_stream option \<Rightarrow> http2_frame_priority \<Rightarrow> http2_connection \<Rightarrow> handled" where
  "received_priority S stream frame c =
     (let h = pri_hdr frame in
      if hd_length h \<noteq> 5 then reject S (error_code FrameSizeError) stream c
      else if hd_stream_id h = 0 then reject S (error_code ProtocolError) stream c
      else if hd_stream_id h = ps_depend_stream_id (pri_pspec frame)
      then reject S (error_code ProtocolError) stream c
      else case stream of None \<Rightarrow> Some (None, c)
      | Some s \<Rightarrow>
          let s = st_save_frame_info h (st_set_priority_info (pri_pspec frame) s) in
          Some (Some s, put_stream s c))"

definition received_rst_stream :: "services \<Rightarrow> http2_stream option \<Rightarrow> http2_frame_rst_stream \<Rightarrow> http2_connection \<Rightarrow> handled" where
  "received_rst_stream S stream frame c =
     (let h = rst_hdr frame in
      if hd_length h \<noteq> 4 then reject S (error_code FrameSizeError) stream c
      else case stream of None \<Rightarrow> reject S (error_code ProtocolError) stream c
      | Some s \<Rightarrow>
          let s = st_save_frame_info h (st_recv_rst_stream (rst_error_code frame) s) in
          Some (Some s, notify_stream_closed s (rst_error_code frame) (put_stream s c)))"

definition received_window_update ::
  "services \<Rightarrow> http2_stream option \<Rightarrow> http2_frame_window_update \<Rightarrow> http2_connection \<Rightarrow> handled" where
  "received_window_update S stream frame c =
     (let h = wu_hdr frame; inc = wu_window_size_inc frame;
          tell = (\<lambda>i c. if cn_flow_control c then call_user (OnWindowUpdate i inc) c else c) in
      if hd_length h \<noteq> 4 then reject S (error_code FrameSizeError) stream c
      else if inc < 1 \<or> inc > 2147483647 then reject S (error_code ProtocolError) stream c
      else case stream of
        None \<Rightarrow> Some (None, tell 0 (c\<lparr>cn_connection_send_window := cn_connection_send_window c + uint inc\<rparr>))
      | Some s \<Rightarrow>
          let s = st_save_frame_info h s in
          Some (Some s, tell (hd_stream_id h) (put_stream s c)))"

section \<open>Connection control\<close>

text \<open>
  The loop over the entries of a SETTINGS frame: \<open>Inl\<close> the error that disconnects, or \<open>Inr\<close> the
  list reported to the handler, with the connection as the entries so far have changed it.
\<close>

definition clamp_setting :: "SettingParameters \<Rightarrow> u32 \<Rightarrow> u32" where
  "clamp_setting p v =
     (let v = (if v < sp_min_value p then sp_min_value p else v)
      in if v > sp_max_value p then sp_max_value p else v)"

fun apply_settings ::
  "http2_settings_entry list \<Rightarrow> (u16 \<times> u32) list \<Rightarrow> http2_connection \<Rightarrow>
     ((u32 + (u16 \<times> u32) list) \<times> http2_connection) option" where
  "apply_settings [] reported c = Some (Inr reported, c)"
| "apply_settings (e # es) reported c =
     (let i = unat (se_id e); v = se_value e in
      if i < HTTP2_NUMBER_OF_SETTINGS
      then let p = global_settings_parameters ! i; out = (v < sp_min_value p \<or> v > sp_max_value p) in
        if out \<and> sp_invalid_value_behavior p = Disconnect
        then Some (Inl (error_code (sp_error_value p)), c)
        else let v = (if out then clamp_setting p v else v);
                 c = c\<lparr>cn_remote_settings := (cn_remote_settings c)[i := v]\<rparr> in do {
          send_record \<leftarrow> (if i = setting_index Set_HeaderTableSize
                         then compressor_set_max_table_size (cn_send_record c) v else Some (cn_send_record c));
          apply_settings es (reported @ [(se_id e, v)]) (c\<lparr>cn_send_record := send_record\<rparr>)
        }
      else apply_settings es (reported @ [(se_id e, v)]) c)"

text \<open>The acknowledged settings come into force.\<close>

definition apply_requested :: "(u16 \<times> u32) list \<Rightarrow> u32 list \<Rightarrow> u32 list" where
  "apply_requested req settings =
     fold (\<lambda>(i, v) ls. if unat i < HTTP2_NUMBER_OF_SETTINGS then ls[unat i := v] else ls) req settings"

definition received_settings :: "services \<Rightarrow> http2_frame_settings \<Rightarrow> http2_connection \<Rightarrow> http2_connection option" where
  "received_settings S frame c =
     (let h = set_hdr frame in
      if hd_length h mod 6 \<noteq> 0 then goaway S (error_code FrameSizeError) c
      else if hd_stream_id h \<noteq> 0 then goaway S (error_code ProtocolError) c
      else if has_flag (hd_flags h) Flag_Ack
      then if hd_length h \<noteq> 0 then goaway S (error_code FrameSizeError) c
           else Some (notify (OnSettings [] True)
             (c\<lparr>cn_local_settings := apply_requested (cn_request_settings c) (cn_local_settings c),
                cn_settings_pending := False, cn_request_settings := []\<rparr>))
      else do {
        (r, c) \<leftarrow> apply_settings (set_settings frame) [] c;
        case r of Inl err \<Rightarrow> goaway S err c
        | Inr reported \<Rightarrow>
            map_option snd (send_frame_settings S
              (build_http2_frame_settings (ucast (frame_flag Flag_Ack)) []) (notify (OnSettings reported False) c))
      })"

definition received_ping :: "services \<Rightarrow> http2_frame_ping \<Rightarrow> http2_connection \<Rightarrow> http2_connection option" where
  "received_ping S frame c =
     (let h = png_hdr frame; ping_data = u64_of_mem (png_opaque_data frame) in
      if hd_length h \<noteq> 8 then goaway S (error_code FrameSizeError) c
      else if hd_stream_id h \<noteq> 0 then goaway S (error_code ProtocolError) c
      else if has_flag (hd_flags h) Flag_Ack
      then Some (notify (OnPing ping_data True) (c\<lparr>cn_ping_pending := False\<rparr>))
      else Some (snd (send_frame_ping S (build_http2_frame_ping (png_opaque_data frame) True)
             (notify (OnPing ping_data False) c))))"

definition received_goaway :: "services \<Rightarrow> http2_frame_goaway \<Rightarrow> http2_connection \<Rightarrow> http2_connection option" where
  "received_goaway S frame c =
     (if hd_stream_id (ga_hdr frame) \<noteq> 0 then goaway S (error_code ProtocolError) c
      else let last = ga_last_stream_id frame;
               c = c\<lparr>cn_received_goaway_stream_id := last, cn_received_goaway := True,
                     cn_streams := map (\<lambda>(i, s). (i, if odd_id i = cn_client_side c \<and> i > last
                                                     then st_mark_unwritable s else s)) (cn_streams c)\<rparr>
           in Some (notify (OnGoAway last (ga_error_code frame) (ga_debug_data frame)) c))"

section \<open>Parsing and dispatch\<close>

text \<open>Each forwarder parses the payload; an error is a GOAWAY and a null stream.\<close>

definition parsed :: "services \<Rightarrow> 'f outcome \<Rightarrow> ('f \<Rightarrow> http2_connection \<Rightarrow> handled) \<Rightarrow> http2_connection \<Rightarrow> handled" where
  "parsed S r k c = (case r of Fault \<Rightarrow> None | Error err \<Rightarrow> reject S err None c | Ok frame \<Rightarrow> k frame c)"

definition stream_of :: "http2_frame_hdr \<Rightarrow> http2_connection \<Rightarrow> http2_stream option" where
  "stream_of h c = (if hd_stream_id h > 0 then find_stream (hd_stream_id h) c else None)"

definition no_stream :: "http2_connection option \<Rightarrow> handled" where
  "no_stream r = map_option (\<lambda>c. (None, c)) r"

definition internal_data_process :: "services \<Rightarrow> http2_frame_hdr \<Rightarrow> bytes \<Rightarrow> http2_connection \<Rightarrow> handled" where
  "internal_data_process S h payload c =
     parsed S (parse_http2_frame_data h payload) (received_data S (stream_of h c)) c"

definition internal_headers_process :: "services \<Rightarrow> http2_frame_hdr \<Rightarrow> bytes \<Rightarrow> http2_connection \<Rightarrow> handled" where
  "internal_headers_process S h payload c =
     parsed S (parse_http2_frame_headers h payload) (received_headers S (stream_of h c)) c"

definition internal_priority_process :: "services \<Rightarrow> http2_frame_hdr \<Rightarrow> bytes \<Rightarrow> http2_connection \<Rightarrow> handled" where
  "internal_priority_process S h payload c =
     parsed S (parse_http2_frame_priority h payload) (received_priority S (stream_of h c)) c"

definition internal_rst_stream_process :: "services \<Rightarrow> http2_frame_hdr \<Rightarrow> bytes \<Rightarrow> http2_connection \<Rightarrow> handled" where
  "internal_rst_stream_process S h payload c =
     parsed S (parse_http2_frame_rst_stream h payload) (received_rst_stream S (stream_of h c)) c"

definition internal_settings_process :: "services \<Rightarrow> http2_frame_hdr \<Rightarrow> bytes \<Rightarrow> http2_connection \<Rightarrow> handled" where
  "internal_settings_process S h payload c =
     parsed S (parse_http2_frame_settings h payload) (\<lambda>frame c. no_stream (received_settings S frame c)) c"

definition internal_push_promise_process :: "services \<Rightarrow> http2_frame_hdr \<Rightarrow> bytes \<Rightarrow> http2_connection \<Rightarrow> handled" where
  "internal_push_promise_process S h payload c =
     parsed S (parse_http2_frame_push_promise h payload) (received_push_promise S (stream_of h c)) c"

definition internal_ping_process :: "services \<Rightarrow> http2_frame_hdr \<Rightarrow> bytes \<Rightarrow> http2_connection \<Rightarrow> handled" where
  "internal_ping_process S h payload c =
     parsed S (parse_http2_frame_ping h payload) (\<lambda>frame c. no_stream (received_ping S frame c)) c"

definition internal_goaway_process :: "services \<Rightarrow> http2_frame_hdr \<Rightarrow> bytes \<Rightarrow> http2_connection \<Rightarrow> handled" where
  "internal_goaway_process S h payload c =
     parsed S (parse_http2_frame_goaway h payload) (\<lambda>frame c. no_stream (received_goaway S frame c)) c"

definition internal_window_update_process :: "services \<Rightarrow> http2_frame_hdr \<Rightarrow> bytes \<Rightarrow> http2_connection \<Rightarrow> handled" where
  "internal_window_update_process S h payload c =
     parsed S (parse_http2_frame_window_update h payload) (received_window_update S (stream_of h c)) c"

definition internal_continuation_process :: "services \<Rightarrow> http2_frame_hdr \<Rightarrow> bytes \<Rightarrow> http2_connection \<Rightarrow> handled" where
  "internal_continuation_process S h payload c =
     parsed S (parse_http2_frame_continuation h payload) (received_continuation S (stream_of h c)) c"

definition frame_process_func_array ::
  "(services \<Rightarrow> http2_frame_hdr \<Rightarrow> bytes \<Rightarrow> http2_connection \<Rightarrow> handled) list" where
  "frame_process_func_array =
     [internal_data_process, internal_headers_process, internal_priority_process,
      internal_rst_stream_process, internal_settings_process, internal_push_promise_process,
      internal_ping_process, internal_goaway_process, internal_window_update_process,
      internal_continuation_process]"

text \<open>Only identifiers of streams that the peer opens are tracked.\<close>

definition track_last_stream :: "u32 \<Rightarrow> http2_connection \<Rightarrow> http2_connection" where
  "track_last_stream i c =
     (if i > 0 \<and> odd_id i \<noteq> cn_client_side c \<and> i > cn_last_stream_id c
      then c\<lparr>cn_last_stream_id := i\<rparr> else c)"

definition package_process :: "services \<Rightarrow> bytes \<Rightarrow> u32 \<Rightarrow> http2_connection \<Rightarrow> (int \<times> http2_connection) option" where
  "package_process S package package_length c =
     (if package_length < HTTP2_FRAME_HEADER_SIZE then Some (-1, c)
      else do {
        h \<leftarrow> http2_frame_header_unpack package;
        let consumed = int_of_size (unat (hd_length h + HTTP2_FRAME_HEADER_SIZE));
        if package_length < hd_length h + HTTP2_FRAME_HEADER_SIZE then Some (-1, c)
        else if cn_next_frame_limit c \<and>
            (hd_type h \<noteq> frame_type Type_Continuation \<or> hd_stream_id h \<noteq> cn_next_stream_id_limit c)
        then map_option (\<lambda>c. (-1, c)) (goaway S (error_code ProtocolError) c)
        else if cn_sent_goaway c \<and> hd_stream_id h > cn_sent_goaway_stream_id c then Some (consumed, c)
        else let c = track_last_stream (hd_stream_id h) c in
          if hd_type h > frame_type Type_Continuation then Some (consumed, c)
          else do {
            (stream, c) \<leftarrow> (frame_process_func_array ! unat (hd_type h)) S h (drop (unat HTTP2_FRAME_HEADER_SIZE) package) c;
            Some (consumed, case stream of Some s \<Rightarrow> destroy_if_closed s c | None \<Rightarrow> c)
          }
      })"

end
