(* ===== verification/Transport.thy ===== *)
theory Transport
  imports Connection_Receive
begin

text \<open>
  The transport adaptor of \<^verbatim>\<open>src/http2.cc\<close>: the preface check and the frame loop of
  \<^verbatim>\<open>ReceivedData\<close>, and the entry points that forward to the connection.
\<close>

section \<open>Receiving\<close>

text \<open>A processed frame was consumed whole, with its nine bytes of header.\<close>

lemma unpack_length: "http2_frame_header_unpack buf = Some h \<Longrightarrow> unat (hd_length h) < 2 ^ 24"
proof -
  have "unat (drop_bit 8 w) < 2 ^ 24" for w :: u32
    using unat_u32_bound [of w] by (simp add: unat_drop_bit_div)
  then show "http2_frame_header_unpack buf = Some h \<Longrightarrow> unat (hd_length h) < 2 ^ 24"
    by (auto simp: http2_frame_header_unpack_def bind_eq_Some_conv)
qed

lemma frame_total_nat:
  assumes "unat n < 2 ^ 24"
  shows "unat (n + HTTP2_FRAME_HEADER_SIZE) = unat n + 9"
  using assms by (subst unat_add_u32) (simp_all add: HTTP2_FRAME_HEADER_SIZE_def)

lemma int_of_size_small: "n < 2 ^ 31 \<Longrightarrow> int_of_size n = int n"
  unfolding int_of_size_def by (simp add: sint_word_ariths signed_of_nat signed_take_bit_int_eq_self)

lemma package_process_consumed:
  assumes "package_process S buf n c = Some (r, c')"
  shows "r = -1 \<or> (\<exists>h. http2_frame_header_unpack buf = Some h \<and> r = int (unat (hd_length h)) + 9)"
proof -
  have "int_of_size (unat (hd_length h + HTTP2_FRAME_HEADER_SIZE)) = int (unat (hd_length h)) + 9"
    if "http2_frame_header_unpack buf = Some h" for h
    using unpack_length [OF that] by (simp add: frame_total_nat int_of_size_small)
  with assms show ?thesis
    by (auto simp: package_process_def bind_eq_Some_conv Let_def split: if_splits)
qed

text \<open>
  The frame loop: \<open>pos\<close> is \<^verbatim>\<open>buf - start\<close>. The buffer is exactly the \<^verbatim>\<open>len\<close> bytes that were
  received; reading past it is a fault.
\<close>

function frame_loop :: "services \<Rightarrow> bytes \<Rightarrow> nat \<Rightarrow> http2_connection \<Rightarrow> (int \<times> http2_connection) option" where
  "frame_loop S buf pos c =
     (if length buf < unat HTTP2_FRAME_HEADER_SIZE then Some (int_of_size pos, c)
      else case http2_frame_header_unpack buf of None \<Rightarrow> None
      | Some h \<Rightarrow>
          if hd_length h > cn_local_settings c ! setting_index Set_MaxFrameSize
          then map_option (\<lambda>c. (-1, c)) (goaway S (error_code FrameSizeError) c)
          else let frame_total = hd_length h + HTTP2_FRAME_HEADER_SIZE in
            if unat frame_total > length buf then Some (int_of_size pos, c)
            else case package_process S buf frame_total c of None \<Rightarrow> None
            | Some (consumed, c') \<Rightarrow>
                if consumed < 0 then Some (-1, c')
                else frame_loop S (drop (nat consumed) buf) (pos + nat consumed) c')"
  by pat_completeness auto
termination
  by (relation "measure (\<lambda>(S, buf, pos, c). length buf)")
     (auto dest!: package_process_consumed simp: HTTP2_FRAME_HEADER_SIZE_def nat_add_distrib)

declare frame_loop.simps [simp del]

definition ReceivedData :: "services \<Rightarrow> bytes \<Rightarrow> http2_connection \<Rightarrow> (int \<times> http2_connection) option" where
  "ReceivedData S buf c =
     (if \<not> cn_finish_handshake c
      then if length buf < length PREFACE then Some (0, c)
        else if take (length PREFACE) buf \<noteq> PREFACE
        then map_option (\<lambda>c. (-1, c)) (goaway S (error_code ProtocolError) c)
        else do {
          c \<leftarrow> send_initial_settings S (c\<lparr>cn_finish_handshake := True\<rparr>);
          frame_loop S (drop (length PREFACE) buf) (length PREFACE) c
        }
      else frame_loop S buf 0 c)"

section \<open>Entry points\<close>

text \<open>\<^verbatim>\<open>SendWindowUpdate\<close> addresses the connection or one stream, never both.\<close>

definition SendWindowUpdate :: "services \<Rightarrow> u32 \<Rightarrow> u32 \<Rightarrow> http2_connection \<Rightarrow> (bool \<times> http2_connection) option" where
  "SendWindowUpdate S stream_id increment c =
     send_window_update S stream_id
       (if stream_id = 0
        then \<lparr>connection_window_size_increment = increment, stream_window_size_increment = 0\<rparr>
        else \<lparr>connection_window_size_increment = 0, stream_window_size_increment = increment\<rparr>) c"

definition Shutdown :: "services \<Rightarrow> http2_connection \<Rightarrow> http2_connection option" where
  "Shutdown S c = goaway S (error_code NoError) c"

text \<open>\<^verbatim>\<open>ScopedBufferedMode\<close>: what runs at the end of its scope.\<close>

definition scoped_buffered_begin :: "http2_connection \<Rightarrow> http2_connection" where
  "scoped_buffered_begin c = set_buffered_mode True c"

definition scoped_buffered_end :: "services \<Rightarrow> http2_connection \<Rightarrow> http2_connection" where
  "scoped_buffered_end S c = set_buffered_mode False (snd (flush_buffer S c))"

section \<open>The user's view\<close>

text \<open>
  Everything the user of a transport can call, as one step relation. \<open>None\<close> results (undefined
  behaviour) are not steps.
\<close>

inductive user_step :: "services \<Rightarrow> http2_connection \<Rightarrow> http2_connection \<Rightarrow> bool" for S where
  us_SetEventHandler: "user_step S c (set_event_handler h c)"
| us_SetFlowControlHandler: "user_step S c (set_flow_control_handler h c)"
| us_CreateStream: "create_stream c = (r, c') \<Longrightarrow> user_step S c c'"
| us_SendSettings: "send_settings S settings c = Some (r, c') \<Longrightarrow> user_step S c c'"
| us_SendPing: "send_ping S info c = Some (r, c') \<Longrightarrow> user_step S c c'"
| us_SendGoAway: "send_goaway S err last_id debug c = Some c' \<Longrightarrow> user_step S c c'"
| us_SendPushPromise: "send_push_promise S i headers c = Some (p, c') \<Longrightarrow> user_step S c c'"
| us_ReceivedData: "ReceivedData S buf c = Some (r, c') \<Longrightarrow> user_step S c c'"
| us_Drain: "drain S c = Some c' \<Longrightarrow> user_step S c c'"
| us_Shutdown: "Shutdown S c = Some c' \<Longrightarrow> user_step S c c'"
| us_SendWindowUpdate: "SendWindowUpdate S i inc c = Some (r, c') \<Longrightarrow> user_step S c c'"
| us_SetBufferedMode: "user_step S c (set_buffered_mode b c)"
| us_Flush: "flush_buffer S c = (r, c') \<Longrightarrow> user_step S c c'"
| us_SendHeaders: "stream_send_headers S i headers es c = Some (r, c') \<Longrightarrow> user_step S c c'"
| us_SendData: "stream_send_data S i data (word_of_nat (length data)) es c = Some (r, c') \<Longrightarrow>
    length data < 2 ^ 32 \<Longrightarrow> user_step S c c'"
| us_SendTrailingHeaders: "stream_send_trailing_headers S i headers c = Some (r, c') \<Longrightarrow> user_step S c c'"
| us_SendRSTStream: "stream_send_rst_stream S i err c = Some (r, c') \<Longrightarrow> user_step S c c'"
| us_ReadData: "find_stream i c = Some s \<Longrightarrow> st_ReadData n s = Some (out, copied, s') \<Longrightarrow> user_step S c (put_stream s' c)"
| us_GetHeaders: "find_stream i c = Some s \<Longrightarrow> user_step S c (put_stream (snd (st_GetHeaders s)) c)"

inductive user_reach :: "services \<Rightarrow> http2_connection \<Rightarrow> bool" for S where
  reach_new: "http2_connection_new cid client_side = Some c \<Longrightarrow> user_reach S c"
| reach_user_step: "user_reach S c \<Longrightarrow> user_step S c c' \<Longrightarrow> user_reach S c'"

end
