(* ===== verification/Stream_Properties.thy ===== *)
theory Stream_Properties
  imports Stream
begin

text \<open>
  What the stream object promises: its state moves along the diagram and only forwards, the data
  read is the data received in order, and the public headers are always the decoded ones.
\<close>

section \<open>Invariant\<close>

text \<open>The cache counts right, and clean public headers are those of the stream.\<close>

definition stream_inv :: "http2_stream \<Rightarrow> bool" where
  "stream_inv s \<longleftrightarrow> sb_inv (st_data_cache s) \<and>
     (\<not> st_headers_dirty s \<longrightarrow> st_public_headers s = map (\<lambda>h. (md_key h, md_value h)) (st_headers s))"

lemmas stream_op_defs =
  st_mark_unwritable_def st_mark_unreadable_def st_send_push_promise_def st_recv_push_promise_def
  st_send_headers_def st_recv_headers_def st_send_rst_stream_def st_recv_rst_stream_def
  st_send_end_stream_def st_recv_end_stream_def st_save_frame_info_def st_append_headers_def
  st_append_data_def st_set_priority_info_def

text \<open>The operations of the connection on a stream, as one step relation.\<close>

inductive stream_step :: "http2_stream \<Rightarrow> http2_stream \<Rightarrow> bool" where
  step_mark_unwritable: "stream_step s (st_mark_unwritable s)"
| step_send_push_promise: "stream_step s (st_send_push_promise s)"
| step_recv_push_promise: "stream_step s (st_recv_push_promise s)"
| step_send_headers: "stream_step s (st_send_headers s)"
| step_recv_headers: "stream_step s (st_recv_headers hs s)"
| step_send_rst_stream: "stream_step s (st_send_rst_stream s)"
| step_recv_rst_stream: "stream_step s (st_recv_rst_stream e s)"
| step_send_end_stream: "stream_step s (st_send_end_stream s)"
| step_save_frame_info: "stream_step s (st_save_frame_info h s)"
| step_append_headers: "stream_step s (st_append_headers hs s)"
| step_append_data: "stream_step s (st_append_data d s)"
| step_set_priority_info: "stream_step s (st_set_priority_info p s)"
| step_ReadData: "st_ReadData n s = Some (out, copied, t) \<Longrightarrow> stream_step s t"
| step_GetHeaders: "stream_step s (snd (st_GetHeaders s))"

inductive stream_reach :: "http2_stream \<Rightarrow> http2_stream \<Rightarrow> bool" where
  reach_refl: "stream_reach s s"
| reach_step: "stream_reach s t \<Longrightarrow> stream_step t u \<Longrightarrow> stream_reach s u"

lemma stream_inv_new: "stream_inv (http2_stream_new cid i)"
  by (simp add: stream_inv_def http2_stream_new_def sb_inv_new)

lemma stream_step_inv: "stream_step s t \<Longrightarrow> stream_inv s \<Longrightarrow> stream_inv t"
  by (induction rule: stream_step.induct)
     (auto simp: stream_inv_def stream_op_defs Let_def sb_inv_add st_ReadData_def st_GetHeaders_def
        st_ensure_headers_decoded_def intro: sb_move_header_spec)

lemma stream_reach_inv: "stream_reach s t \<Longrightarrow> stream_inv s \<Longrightarrow> stream_inv t"
  by (induction rule: stream_reach.induct) (auto intro: stream_step_inv)

text \<open>A step moves the state along one edge of the diagram or leaves it.\<close>

lemma transition_edge: "\<forall>e'. \<not> diagram e' a (transition e a) \<Longrightarrow> transition e a = a"
  using transition_diagram [of e a "transition e a"] by auto

lemma stream_step_state: "stream_step s t \<Longrightarrow> st_state t = st_state s \<or> (\<exists>e. diagram e (st_state s) (st_state t))"
  by (induction rule: stream_step.induct)
     (auto simp: stream_op_defs Let_def st_ReadData_def st_GetHeaders_def st_ensure_headers_decoded_def intro: transition_edge)

lemma diagram_less: "diagram e s t \<Longrightarrow> s < t"
  using transition_diagram [of e s t] transition_mono [of s e] by (auto simp: order_less_le)

lemma stream_step_mono: "stream_step s t \<Longrightarrow> st_state s \<le> st_state t"
  using stream_step_state [of s t] diagram_less by (auto simp: order.strict_implies_order)

lemma Closed_top: "s \<le> Closed"
  by (cases s) (simp_all add: state_order)

section \<open>Properties of the state machine\<close>

text \<open>C17. The table of \<^verbatim>\<open>stream.cc\<close> is the diagram drawn above it: an entry that is not \<^verbatim>\<open>kDoNotUse\<close> is an
  edge, every edge is an entry, and a transition without an edge leaves the state alone.\<close>

theorem stream_table_is_diagram:
  "(get_next_status e s = Some t \<longleftrightarrow> diagram e s t) \<and> (transition e s = t \<and> s \<noteq> t \<longleftrightarrow> diagram e s t)"
  by (intro conjI table_is_diagram transition_diagram)

text \<open>A stream only moves forwards: whatever operations are applied to it, its state never decreases
  in the order of the enumeration, so a closed stream stays closed and no stream becomes idle again;
  its cache and header invariants are kept.\<close>

theorem stream_state_monotone:
  assumes "stream_reach s t"
  shows "st_state s \<le> st_state t \<and> (st_is_closed s \<longrightarrow> st_is_closed t) \<and> (stream_inv s \<longrightarrow> stream_inv t)"
proof -
  from assms have "st_state s \<le> st_state t"
    by (induction rule: stream_reach.induct) (auto intro: order.trans dest: stream_step_mono)
  moreover from this have "st_is_closed s \<longrightarrow> st_is_closed t"
    using Closed_top [of "st_state t"] by (auto simp: st_is_closed_def)
  ultimately show ?thesis using stream_reach_inv [OF assms] by blast
qed

theorem stream_state_monotone_witness:
  "st_state (http2_stream_new 1 3) \<le> st_state (st_send_end_stream (st_send_headers (http2_stream_new 1 3))) \<and>
   st_state (st_send_end_stream (st_send_headers (http2_stream_new 1 3))) = HalfClosedLocal"
proof -
  have "stream_reach (http2_stream_new 1 3) (st_send_end_stream (st_send_headers (http2_stream_new 1 3)))"
    by (rule reach_step [OF reach_step [OF reach_refl step_send_headers] step_send_end_stream])
  from stream_state_monotone [OF this] show ?thesis
    by (simp add: stream_op_defs http2_stream_new_def transition_def)
qed

text \<open>The events a stream has seen, folded over the table; and those among them that the stream acted on, in order.\<close>

definition state_after :: "http2_stream_event list \<Rightarrow> Http2StreamState" where
  "state_after es = foldl (\<lambda>s e. transition e s) Idle es"

fun acted_from :: "Http2StreamState \<Rightarrow> http2_stream_event list \<Rightarrow> http2_stream_event list" where
  "acted_from s [] = []"
| "acted_from s (e # es) =
     (case get_next_status e s of None \<Rightarrow> acted_from s es | Some t \<Rightarrow> e # acted_from t es)"

definition acted_on :: "http2_stream_event list \<Rightarrow> http2_stream_event list" where
  "acted_on es = acted_from Idle es"

lemma state_after_snoc [simp]: "state_after (es @ [e]) = transition e (state_after es)"
  by (simp add: state_after_def)

lemma acted_from_snoc:
  "acted_from s (es @ [e]) = acted_from s es @
     (if get_next_status e (foldl (\<lambda>s e. transition e s) s es) = None then [] else [e])"
  by (induction es arbitrary: s) (auto simp: transition_def split: option.splits simp del: next_status_simps)

lemma acted_on_snoc [simp]:
  "acted_on (es @ [e]) = acted_on es @ (if get_next_status e (state_after es) = None then [] else [e])"
  by (simp add: acted_on_def acted_from_snoc state_after_def del: next_status_simps)

text \<open>A life that runs to its end: opened by headers and ended by both sides, or promised and then ended by the one
  side that a promised stream has.\<close>

definition ordinary_lives :: "http2_stream_event list list" where
  "ordinary_lives =
     [[STREAM_EVENT_H_S, STREAM_EVENT_ES_S, STREAM_EVENT_ES_R], [STREAM_EVENT_H_S, STREAM_EVENT_ES_R, STREAM_EVENT_ES_S],
      [STREAM_EVENT_H_R, STREAM_EVENT_ES_S, STREAM_EVENT_ES_R], [STREAM_EVENT_H_R, STREAM_EVENT_ES_R, STREAM_EVENT_ES_S],
      [STREAM_EVENT_PP_S, STREAM_EVENT_H_S, STREAM_EVENT_ES_S], [STREAM_EVENT_PP_R, STREAM_EVENT_H_R, STREAM_EVENT_ES_R]]"

text \<open>One that was begun and then cut off by a reset.\<close>

definition reset_lives :: "http2_stream_event list list" where
  "reset_lives = [take n life @ [r]. life \<leftarrow> ordinary_lives, n \<leftarrow> [1, 2], r \<leftarrow> [STREAM_EVENT_RST_S, STREAM_EVENT_RST_R]]"

text \<open>What a stream in each state has acted on.\<close>

fun lives :: "Http2StreamState \<Rightarrow> http2_stream_event list list" where
  "lives Idle = [[]]"
| "lives ReservedLocal = [[STREAM_EVENT_PP_S]]"
| "lives ReservedRemote = [[STREAM_EVENT_PP_R]]"
| "lives Open = [[STREAM_EVENT_H_S], [STREAM_EVENT_H_R]]"
| "lives HalfClosedLocal = [[STREAM_EVENT_H_S, STREAM_EVENT_ES_S], [STREAM_EVENT_H_R, STREAM_EVENT_ES_S], [STREAM_EVENT_PP_R, STREAM_EVENT_H_R]]"
| "lives HalfClosedRemote = [[STREAM_EVENT_H_S, STREAM_EVENT_ES_R], [STREAM_EVENT_H_R, STREAM_EVENT_ES_R], [STREAM_EVENT_PP_S, STREAM_EVENT_H_S]]"
| "lives Closed = ordinary_lives @ reset_lives"

lemmas life_defs = ordinary_lives_def reset_lives_def

lemma acted_on_lives: "acted_on es \<in> set (lives (state_after es))"
proof (induction es rule: rev_induct)
  case Nil
  show ?case by (simp add: state_after_def acted_on_def)
next
  case (snoc e es)
  then show ?case
    by (cases e; cases "state_after es") (auto simp: transition_def life_defs)
qed

lemma lives_apart: "l \<in> set (lives s) \<Longrightarrow> l \<in> set (lives t) \<Longrightarrow> s = t"
  by (cases s; cases t) (auto simp: life_defs)

text \<open>C28. A stream is closed exactly when what it acted on, in order, is one of the lives that end: opened by headers,
  then END_STREAM from both sides in either order; promised, then the headers and the END_STREAM of the side that
  promised; or a part of such a life, at least its first event, and then RST_STREAM from either side. Events that come
  when the table has no entry for them, such as an END_STREAM or a PUSH_PROMISE out of place, do not count.\<close>

theorem stream_closed_only_when_done:
  "state_after es = Closed \<longleftrightarrow> acted_on es \<in> set ordinary_lives \<or> acted_on es \<in> set reset_lives"
  using acted_on_lives [of es] lives_apart [of "acted_on es" "state_after es" Closed] by auto

theorem stream_closed_only_when_done_witness:
  "let es = [STREAM_EVENT_ES_S, STREAM_EVENT_H_S, STREAM_EVENT_PP_R, STREAM_EVENT_ES_S, STREAM_EVENT_H_R, STREAM_EVENT_ES_R] in
     state_after es = Closed \<and> acted_on es = [STREAM_EVENT_H_S, STREAM_EVENT_ES_S, STREAM_EVENT_ES_R] \<and>
     state_after (butlast es) \<noteq> Closed"
  by (simp add: stream_closed_only_when_done life_defs acted_on_def)

section \<open>The data cache is a queue\<close>

datatype data_op = Received slice | Reading u32

text \<open>What a reader collects while data arrives.\<close>

fun run_data_ops :: "data_op list \<Rightarrow> http2_stream \<Rightarrow> (bytes \<times> http2_stream) option" where
  "run_data_ops [] s = Some ([], s)"
| "run_data_ops (Received d # ops) s = run_data_ops ops (st_append_data d s)"
| "run_data_ops (Reading n # ops) s =
     (case st_ReadData n s of None \<Rightarrow> None
      | Some (out, copied, s) \<Rightarrow> map_option (\<lambda>(rest, s). (out @ rest, s)) (run_data_ops ops s))"

fun received_bytes :: "data_op list \<Rightarrow> bytes" where
  "received_bytes [] = []"
| "received_bytes (Received d # ops) = d @ received_bytes ops"
| "received_bytes (Reading n # ops) = received_bytes ops"

text \<open>How much is asked for, and that no read asks for more than is there, when \<open>k\<close> bytes are buffered.\<close>

fun asked_bytes :: "data_op list \<Rightarrow> nat" where
  "asked_bytes [] = 0"
| "asked_bytes (Received d # ops) = asked_bytes ops"
| "asked_bytes (Reading n # ops) = unat n + asked_bytes ops"

fun reads_covered :: "nat \<Rightarrow> data_op list \<Rightarrow> bool" where
  "reads_covered k [] \<longleftrightarrow> True"
| "reads_covered k (Received d # ops) \<longleftrightarrow> reads_covered (k + length d) ops"
| "reads_covered k (Reading n # ops) \<longleftrightarrow> unat n \<le> k \<and> reads_covered (k - unat n) ops"

lemma ReadData_None:
  "sb_inv (st_data_cache s) \<Longrightarrow> st_ReadData n s = None \<longleftrightarrow> length (sb_contents (st_data_cache s)) < unat n"
  by (auto simp: st_ReadData_def sb_copy_take)

lemma ReadData_Some:
  assumes "sb_inv (st_data_cache s)" "unat n \<le> length (sb_contents (st_data_cache s))"
  shows "\<exists>t. st_ReadData n s = Some (take (unat n) (sb_contents (st_data_cache s)), n, t) \<and>
    sb_inv (st_data_cache t) \<and> sb_contents (st_data_cache t) = drop (unat n) (sb_contents (st_data_cache s))"
  using assms by (simp add: st_ReadData_def Let_def sb_copy_take min_def sb_move_header_spec)

lemma append_data_spec:
  "sb_inv (st_data_cache s) \<Longrightarrow> sb_inv (st_data_cache (st_append_data d s))"
  "sb_inv (st_data_cache s) \<Longrightarrow> sb_contents (st_data_cache (st_append_data d s)) = sb_contents (st_data_cache s) @ d"
  by (simp_all add: st_append_data_def sb_inv_add sb_contents_add)

text \<open>C27. Reading a stream gives its data in order. A run of received chunks and reads, in any interleaving, goes
  through exactly when no read asks for more than is buffered when it comes; \<^verbatim>\<open>copy_to_buffer\<close> asserts that, while
  \<^verbatim>\<open>transport.h\<close> calls the size of \<^verbatim>\<open>ReadData\<close> a maximum. Each read then gives as many bytes as it asked for, and what
  was read followed by what is still buffered is what was buffered at the start followed by the chunks in the order
  they came, nothing lost, repeated or reordered.\<close>

theorem stream_data_in_order:
  assumes "stream_inv s"
  shows "if reads_covered (length (sb_contents (st_data_cache s))) ops
    then \<exists>out t. run_data_ops ops s = Some (out, t) \<and> length out = asked_bytes ops \<and>
      out @ sb_contents (st_data_cache t) = sb_contents (st_data_cache s) @ received_bytes ops
    else run_data_ops ops s = None"
proof -
  have "sb_inv (st_data_cache s)" using assms by (simp add: stream_inv_def)
  then show ?thesis
  proof (induction ops arbitrary: s)
    case (Cons p ops)
    show ?case
    proof (cases p)
      case (Received d)
      then show ?thesis using Cons.IH [OF append_data_spec(1) [OF Cons.prems], of d]
        by (simp add: append_data_spec(2) [OF Cons.prems] split: if_splits)
    next
      case (Reading n)
      show ?thesis
      proof (cases "unat n \<le> length (sb_contents (st_data_cache s))")
        case True
        from ReadData_Some [OF Cons.prems this] obtain t where
          t: "st_ReadData n s = Some (take (unat n) (sb_contents (st_data_cache s)), n, t)" "sb_inv (st_data_cache t)"
            "sb_contents (st_data_cache t) = drop (unat n) (sb_contents (st_data_cache s))" by blast
        from Cons.IH [OF t(2)] True Reading t show ?thesis by (auto split: if_splits)
      next
        case False
        then have "st_ReadData n s = None" using ReadData_None [OF Cons.prems] by simp
        with False Reading show ?thesis by simp
      qed
    qed
  qed simp
qed

theorem stream_data_in_order_witness:
  "(\<exists>t. run_data_ops [Received [1, 2, 3], Reading 2, Received [4], Reading 1] (http2_stream_new 0 1) = Some ([1, 2, 3], t) \<and>
     sb_contents (st_data_cache t) = [4]) \<and>
   run_data_ops [Received [1, 2, 3], Reading 4] (http2_stream_new 0 1) = None"
proof -
  have "sb_contents (st_data_cache (http2_stream_new 0 1)) = []" by (simp add: http2_stream_new_def sb_contents_new)
  then show ?thesis
    using stream_data_in_order [OF stream_inv_new, of 0 1 "[Received [1, 2, 3], Reading 2, Received [4], Reading 1]"]
      stream_data_in_order [OF stream_inv_new, of 0 1 "[Received [1, 2, 3], Reading 4]"]
    by (auto simp: append_eq_Cons_conv)
qed

text \<open>The public headers are always those last decoded, however often and whenever they are read.\<close>

theorem stream_headers_current:
  assumes "stream_reach (http2_stream_new cid i) s"
  shows "fst (st_GetHeaders s) = map (\<lambda>h. (md_key h, md_value h)) (st_headers s)"
  using stream_reach_inv [OF assms stream_inv_new]
  by (simp add: stream_inv_def st_GetHeaders_def Let_def st_ensure_headers_decoded_def)

theorem stream_headers_current_witness:
  "fst (st_GetHeaders (st_append_headers [\<lparr>md_key = [97], md_value = [98]\<rparr>] (snd (st_GetHeaders (http2_stream_new 0 1))))) =
     [([97], [98])]"
proof -
  let ?s = "st_append_headers [\<lparr>md_key = [97], md_value = [98]\<rparr>] (snd (st_GetHeaders (http2_stream_new 0 1)))"
  have "stream_reach (http2_stream_new 0 1) ?s" by (rule reach_step [OF reach_step [OF reach_refl step_GetHeaders] step_append_headers])
  from stream_headers_current [OF this] show ?thesis
    by (simp add: st_append_headers_def st_GetHeaders_def Let_def st_ensure_headers_decoded_def http2_stream_new_def)
qed

end
