(* ===== verification/Connection_Effects.thy ===== *)
theory Connection_Effects
  imports Transport Stream_Properties "HOL-Library.Sublist"
begin

text \<open>
  What sending changes. The locale \<open>send_effect\<close> states what a relation between connection states
  has to allow for every operation that only sends to be in it: a call of the user, a slice put
  into the send buffer, and the flags of the preface and of GOAWAY. It is interpreted below on
  \<open>calm\<close>, which says that nothing else changes, and later on the relations of the invariants about
  shutting down.
\<close>

section \<open>The interface\<close>

locale send_effect =
  fixes R :: "http2_connection \<Rightarrow> http2_connection \<Rightarrow> bool"
  assumes R_refl: "R c c"
    and R_trans: "R a b \<Longrightarrow> R b c \<Longrightarrow> R a c"
    and R_call: "e \<noteq> OnShutdownComplete \<Longrightarrow> R c (call_user e c)"
    and R_buffer: "R c (buffer_raw_data s c)"
    and R_settings: "R c (c\<lparr>cn_settings_pending := True\<rparr>)"
    and R_preface: "R c (c\<lparr>cn_settings_pending := True, cn_preface_sent := True\<rparr>)"
    and R_goaway: "R c (c\<lparr>cn_sent_goaway_stream_id := i, cn_sent_goaway := True\<rparr>)"
begin

lemma notify: "e \<noteq> OnShutdownComplete \<Longrightarrow> R c (notify e c)"
  by (simp add: notify_def R_call R_refl)

lemma call_send: "R c (snd (call_send S b c))"
  by (simp add: call_send_def R_call Let_def)

lemma send_raw_data: "R c (snd (send_raw_data S s c))"
  by (simp add: send_raw_data_def R_buffer call_send)

lemma send_slices: "R c (snd (send_slices S ss n c))"
proof (induction ss arbitrary: n c)
  case (Cons s ss)
  show ?case
    using call_send [of c S s] Cons.IH
    by (auto split: prod.splits intro: R_trans)
qed (simp add: R_refl)

lemma buffer_all: "R c (fold buffer_raw_data ss c)"
  by (induction ss arbitrary: c) (auto intro: R_trans R_buffer R_refl)

lemma send_raw_buffer: "R c (snd (send_raw_buffer S sb c))"
  by (simp add: send_raw_buffer_def buffer_all send_slices)

lemma send_frame:
  "send_frame_data S fd c = Some (r, c') \<Longrightarrow> R c c'"
  "send_frame_headers S fh c = Some (r, c') \<Longrightarrow> R c c'"
  "send_frame_settings S fs c = Some (r, c') \<Longrightarrow> R c c'"
  "send_frame_push_promise S fp c = Some (r, c') \<Longrightarrow> R c c'"
  "send_frame_goaway S fg c = Some (r, c') \<Longrightarrow> R c c'"
  "send_frame_priority S fo c = (r, c') \<Longrightarrow> R c c'"
  "send_frame_rst_stream S fr c = (r, c') \<Longrightarrow> R c c'"
  "send_frame_ping S fi c = (r, c') \<Longrightarrow> R c c'"
  "send_frame_window_update S fw c = (r, c') \<Longrightarrow> R c c'"
  using send_raw_data send_raw_buffer
  by (auto simp: send_frame_data_def send_frame_headers_def send_frame_settings_def
      send_frame_push_promise_def send_frame_goaway_def send_frame_priority_def send_frame_rst_stream_def
      send_frame_ping_def send_frame_window_update_def map_option_case split: option.splits)
     (metis snd_conv)+

lemma ensure_preface: "ensure_preface_sent S c = Some c' \<Longrightarrow> R c c'"
  using call_send [of c S PREFACE] R_preface R_refl
  by (auto simp: ensure_preface_sent_def bind_eq_Some_conv split: if_splits prod.splits
      dest!: send_frame(3) intro: R_trans)

lemma send_goaway: "send_goaway S err i debug c = Some c' \<Longrightarrow> R c c'"
  using R_goaway
  by (auto simp: send_goaway_def bind_eq_Some_conv Let_def dest!: ensure_preface send_frame(5)
      intro: R_trans)

lemma goaway: "goaway S err c = Some c' \<Longrightarrow> R c c'"
  by (simp add: goaway_def send_goaway)

lemma reject: "reject S err stream c = Some (s', c') \<Longrightarrow> R c c' \<and> s' = stream"
  by (auto simp: reject_def dest: goaway)

lemma send_window_update: "send_window_update S i wu c = Some (r, c') \<Longrightarrow> R c c'"
proof -
  assume u: "send_window_update S i wu c = Some (r, c')"
  obtain d where d: "ensure_preface_sent S c = Some d"
    using u by (auto simp: send_window_update_def bind_eq_Some_conv)
  have "\<exists>s. c' = snd (send_raw_data S s d)"
    using u d by (auto simp: send_window_update_def Let_def split: prod.splits) (metis snd_conv)+
  with ensure_preface [OF d] send_raw_data [of d] show ?thesis by (auto intro: R_trans)
qed

end

section \<open>Calm steps\<close>

text \<open>The part of a connection that sending leaves alone.\<close>

definition core :: "http2_connection \<Rightarrow> http2_connection" where
  "core c = c\<lparr>cn_log := [], cn_send_buffer := slice_buffer_new, cn_settings_pending := False,
     cn_preface_sent := False, cn_sent_goaway := False, cn_sent_goaway_stream_id := 0\<rparr>"

definition calm :: "http2_connection \<Rightarrow> http2_connection \<Rightarrow> bool" where
  "calm c c' \<longleftrightarrow> core c' = core c \<and> prefix (cn_log c) (cn_log c') \<and>
     (sb_inv (cn_send_buffer c) \<longrightarrow> sb_inv (cn_send_buffer c'))"

lemma calm_refl [intro, simp]: "calm c c"
  by (simp add: calm_def)

lemma calm_trans [trans]: "calm a b \<Longrightarrow> calm b c \<Longrightarrow> calm a c"
  by (auto simp: calm_def intro: prefix_order.trans)

lemma core_fields:
  assumes "core c' = core c"
  shows "cn_dynamic_table c' = cn_dynamic_table c" "cn_event_handler c' = cn_event_handler c"
    "cn_flow_control c' = cn_flow_control c" "cn_connection_id c' = cn_connection_id c"
    "cn_client_side c' = cn_client_side c" "cn_ping_pending c' = cn_ping_pending c"
    "cn_initial_settings_sent c' = cn_initial_settings_sent c"
    "cn_local_settings c' = cn_local_settings c" "cn_remote_settings c' = cn_remote_settings c"
    "cn_finish_handshake c' = cn_finish_handshake c" "cn_last_stream_id c' = cn_last_stream_id c"
    "cn_next_local_stream_id c' = cn_next_local_stream_id c" "cn_streams c' = cn_streams c"
    "cn_send_record c' = cn_send_record c" "cn_received_goaway_stream_id c' = cn_received_goaway_stream_id c"
    "cn_received_goaway c' = cn_received_goaway c" "cn_draining c' = cn_draining c"
    "cn_next_frame_limit c' = cn_next_frame_limit c" "cn_next_stream_id_limit c' = cn_next_stream_id_limit c"
    "cn_request_settings c' = cn_request_settings c" "cn_buffered_mode c' = cn_buffered_mode c"
    "cn_connection_send_window c' = cn_connection_send_window c"
  using assms by (cases c; cases c'; simp add: core_def)+

lemma calm_core: "calm c c' \<Longrightarrow> core c' = core c"
  by (simp add: calm_def)

lemmas calm_fields = core_fields [OF calm_core]

lemma calm_find [simp]: "calm c c' \<Longrightarrow> find_stream i c' = find_stream i c"
  by (simp add: find_stream_def calm_fields(13))

section \<open>The sending operations are calm\<close>

lemma call_user_calm: "calm c (call_user e c)"
  by (simp add: calm_def call_user_def core_def)

lemma notify_calm: "calm c (notify e c)"
  by (simp add: notify_def call_user_calm)

text \<open>Assigning the flags that \<open>calm\<close> ignores.\<close>

lemma calm_flags [simp]:
  "calm c (d\<lparr>cn_settings_pending := b\<rparr>) \<longleftrightarrow> calm c d"
  "calm c (d\<lparr>cn_preface_sent := b\<rparr>) \<longleftrightarrow> calm c d"
  "calm c (d\<lparr>cn_sent_goaway := b\<rparr>) \<longleftrightarrow> calm c d"
  "calm c (d\<lparr>cn_sent_goaway_stream_id := i\<rparr>) \<longleftrightarrow> calm c d"
  by (simp_all add: calm_def core_def)

interpretation calm_send: send_effect calm
proof unfold_locales
  show "calm c (buffer_raw_data s c)" for c s
    by (simp add: calm_def buffer_raw_data_def core_def sb_inv_add)
qed (auto simp: call_user_calm intro: calm_trans)

lemmas send_raw_data_calm = calm_send.send_raw_data
lemmas send_raw_buffer_calm = calm_send.send_raw_buffer
lemmas send_frame_calm = calm_send.send_frame
lemmas ensure_preface_calm = calm_send.ensure_preface
lemmas send_goaway_calm = calm_send.send_goaway
lemmas goaway_calm = calm_send.goaway
lemmas reject_calm = calm_send.reject
lemmas send_window_update_calm = calm_send.send_window_update

text \<open>
  The drain check is calm except for the flag it resets. What erasing a closed stream does is
  stated over the association list.
\<close>

lemma check_drain_streams [simp]: "cn_streams (check_drain_complete c) = cn_streams c"
  by (simp add: check_drain_complete_def notify_def call_user_def)

lemma check_drain_core: "core (check_drain_complete c) = core (c\<lparr>cn_draining := cn_draining (check_drain_complete c)\<rparr>)"
  by (simp add: check_drain_complete_def notify_def call_user_def core_def)

lemma check_drain_buffer [simp]: "cn_send_buffer (check_drain_complete c) = cn_send_buffer c"
  by (simp add: check_drain_complete_def notify_def call_user_def)

end
