(* ===== verification/Connection_Invariant.thy ===== *)
theory Connection_Invariant
  imports Connection_Effects
begin

text \<open>
  The invariant of a connection and its preservation by every operation of the public interface,
  hence in every reachable state: the stream map is keyed right and holds no closed stream, local
  identifiers are below the next one, all settings are in their ranges, the HPACK table and the
  send buffer are well-formed, and the send window is never negative.
\<close>

section \<open>The invariant\<close>

text \<open>Streams outside \<open>X\<close> are not closed; \<open>X\<close> is the stream a handler is working on.\<close>

definition streams_ok :: "u32 set \<Rightarrow> http2_connection \<Rightarrow> bool" where
  "streams_ok X c \<longleftrightarrow> distinct (map fst (cn_streams c)) \<and>
     (\<forall>i s. find_stream i c = Some s \<longrightarrow> st_stream_id s = i \<and> stream_inv s \<and> (i \<notin> X \<longrightarrow> \<not> st_is_closed s))"

definition ids_ok :: "http2_connection \<Rightarrow> bool" where
  "ids_ok c \<longleftrightarrow> odd_id (cn_next_local_stream_id c) = cn_client_side c \<and>
     cn_next_local_stream_id c \<le> 0x80000000 \<and> 0 < cn_next_local_stream_id c \<and>
     (\<forall>i s. find_stream i c = Some s \<longrightarrow> odd_id i = cn_client_side c \<longrightarrow> i < cn_next_local_stream_id c)"

definition setting_ok :: "nat \<Rightarrow> u32 \<Rightarrow> bool" where
  "setting_ok i v \<longleftrightarrow> sp_min_value (global_settings_parameters ! i) \<le> v \<and>
     v \<le> sp_max_value (global_settings_parameters ! i)"

definition settings_ok :: "http2_connection \<Rightarrow> bool" where
  "settings_ok c \<longleftrightarrow> length (cn_local_settings c) = HTTP2_NUMBER_OF_SETTINGS \<and>
     length (cn_remote_settings c) = HTTP2_NUMBER_OF_SETTINGS \<and>
     (\<forall>i < HTTP2_NUMBER_OF_SETTINGS. setting_ok i (cn_remote_settings c ! i))"

definition table_ok :: "dynamic_metadata_table \<Rightarrow> bool" where
  "table_ok t \<longleftrightarrow> dt_inv t \<and> dt_max_table_size t \<le> dt_max_table_size_limit t \<and> dt_max_table_size_limit t = 4096"

definition conn_inv :: "u32 set \<Rightarrow> http2_connection \<Rightarrow> bool" where
  "conn_inv X c \<longleftrightarrow> streams_ok X c \<and> ids_ok c \<and> settings_ok c \<and> table_ok (cn_dynamic_table c) \<and>
     sb_inv (cn_send_buffer c) \<and> 0 \<le> cn_connection_send_window c"

lemmas inv_defs = conn_inv_def streams_ok_def ids_ok_def settings_ok_def

lemma conn_inv_weaken: "conn_inv {} c \<Longrightarrow> conn_inv X c"
  by (auto simp: conn_inv_def streams_ok_def)

lemma calm_inv: "calm c c' \<Longrightarrow> conn_inv X c \<Longrightarrow> conn_inv X c'"
  by (simp add: inv_defs calm_fields) (simp add: calm_def)

text \<open>Fields the invariant does not read.\<close>

lemma conn_inv_fields [simp]:
  "conn_inv X (c\<lparr>cn_draining := b\<rparr>) = conn_inv X c"
  "conn_inv X (c\<lparr>cn_event_handler := b\<rparr>) = conn_inv X c"
  "conn_inv X (c\<lparr>cn_flow_control := b\<rparr>) = conn_inv X c"
  "conn_inv X (c\<lparr>cn_ping_pending := b\<rparr>) = conn_inv X c"
  "conn_inv X (c\<lparr>cn_settings_pending := b\<rparr>) = conn_inv X c"
  "conn_inv X (c\<lparr>cn_initial_settings_sent := b\<rparr>) = conn_inv X c"
  "conn_inv X (c\<lparr>cn_finish_handshake := b\<rparr>) = conn_inv X c"
  "conn_inv X (c\<lparr>cn_last_stream_id := i\<rparr>) = conn_inv X c"
  "conn_inv X (c\<lparr>cn_received_goaway := b\<rparr>) = conn_inv X c"
  "conn_inv X (c\<lparr>cn_received_goaway_stream_id := i\<rparr>) = conn_inv X c"
  "conn_inv X (c\<lparr>cn_next_frame_limit := b\<rparr>) = conn_inv X c"
  "conn_inv X (c\<lparr>cn_next_stream_id_limit := i\<rparr>) = conn_inv X c"
  "conn_inv X (c\<lparr>cn_request_settings := rs\<rparr>) = conn_inv X c"
  "conn_inv X (c\<lparr>cn_buffered_mode := b\<rparr>) = conn_inv X c"
  "conn_inv X (c\<lparr>cn_send_record := r\<rparr>) = conn_inv X c"
  "conn_inv X (c\<lparr>cn_log := l\<rparr>) = conn_inv X c"
  by (simp_all add: inv_defs find_stream_def)

lemma conn_inv_window: "conn_inv X c \<Longrightarrow> 0 \<le> w \<Longrightarrow> conn_inv X (c\<lparr>cn_connection_send_window := w\<rparr>)"
  by (simp add: inv_defs find_stream_def)

lemma find_fields [simp]:
  "find_stream i (c\<lparr>cn_draining := b\<rparr>) = find_stream i c"
  "find_stream i (c\<lparr>cn_request_settings := rs\<rparr>) = find_stream i c"
  "find_stream i (c\<lparr>cn_send_record := r\<rparr>) = find_stream i c"
  "find_stream i (c\<lparr>cn_dynamic_table := t\<rparr>) = find_stream i c"
  "find_stream i (c\<lparr>cn_connection_send_window := w\<rparr>) = find_stream i c"
  "find_stream i (c\<lparr>cn_last_stream_id := j\<rparr>) = find_stream i c"
  "find_stream i (c\<lparr>cn_next_frame_limit := b\<rparr>) = find_stream i c"
  "find_stream i (c\<lparr>cn_next_stream_id_limit := j\<rparr>) = find_stream i c"
  "find_stream i (c\<lparr>cn_settings_pending := b\<rparr>) = find_stream i c"
  "find_stream i (c\<lparr>cn_next_local_stream_id := j\<rparr>) = find_stream i c"
  by (simp_all add: find_stream_def)

section \<open>The stream map\<close>

lemma find_put [simp]:
  "find_stream i (put_stream s c) = (if i = st_stream_id s then Some s else find_stream i c)"
  by (simp add: find_stream_def put_stream_def update_conv')

lemma find_destroy [simp]:
  "find_stream i (destroy_stream j c) = (if i = j then None else find_stream i c)"
  by (simp add: find_stream_def destroy_stream_def delete_conv')

lemma put_fields [simp]:
  "cn_dynamic_table (put_stream s c) = cn_dynamic_table c" "cn_local_settings (put_stream s c) = cn_local_settings c"
  "cn_remote_settings (put_stream s c) = cn_remote_settings c" "cn_send_buffer (put_stream s c) = cn_send_buffer c"
  "cn_next_local_stream_id (put_stream s c) = cn_next_local_stream_id c" "cn_client_side (put_stream s c) = cn_client_side c"
  "cn_connection_send_window (put_stream s c) = cn_connection_send_window c"
  "distinct (map fst (cn_streams (put_stream s c))) = distinct (map fst (cn_streams c))"
  by (auto simp: put_stream_def update_keys)

lemma destroy_fields [simp]:
  "cn_dynamic_table (destroy_stream i c) = cn_dynamic_table c" "cn_local_settings (destroy_stream i c) = cn_local_settings c"
  "cn_remote_settings (destroy_stream i c) = cn_remote_settings c" "cn_send_buffer (destroy_stream i c) = cn_send_buffer c"
  "cn_next_local_stream_id (destroy_stream i c) = cn_next_local_stream_id c"
  "cn_client_side (destroy_stream i c) = cn_client_side c"
  "cn_connection_send_window (destroy_stream i c) = cn_connection_send_window c"
  "distinct (map fst (cn_streams c)) \<Longrightarrow> distinct (map fst (cn_streams (destroy_stream i c)))"
  by (simp_all add: destroy_stream_def distinct_delete)

lemma conn_inv_put:
  assumes "conn_inv X c" "stream_inv s"
    and "find_stream (st_stream_id s) c \<noteq> None \<or> odd_id (st_stream_id s) \<noteq> cn_client_side c"
    and "st_is_closed s \<longrightarrow> st_stream_id s \<in> X"
  shows "conn_inv X (put_stream s c)"
proof -
  have "streams_ok X (put_stream s c)" using assms(1,2,4) by (auto simp: conn_inv_def streams_ok_def)
  moreover have "ids_ok (put_stream s c)" using assms(1,3) by (auto simp: conn_inv_def ids_ok_def)
  ultimately show ?thesis using assms(1) by (simp add: conn_inv_def settings_ok_def)
qed

lemma conn_inv_destroy: "conn_inv (insert i X) c \<Longrightarrow> conn_inv X (destroy_stream i c)"
  by (auto simp: inv_defs)

lemma conn_inv_drain_check: "conn_inv X c \<Longrightarrow> conn_inv X (check_drain_complete c)"
  by (auto simp: check_drain_complete_def intro: calm_inv [OF notify_calm])

text \<open>What a handler leaves behind, and how \<^verbatim>\<open>package_process\<close> and the senders settle it.\<close>

definition working_on :: "http2_stream option \<Rightarrow> http2_connection \<Rightarrow> bool" where
  "working_on stream c \<longleftrightarrow> (case stream of None \<Rightarrow> conn_inv {} c
     | Some s \<Rightarrow> conn_inv {st_stream_id s} c \<and> find_stream (st_stream_id s) c = Some s)"

lemma streams_ok_open:
  assumes "streams_ok {i} c" "find_stream i c = Some s" "\<not> st_is_closed s"
  shows "streams_ok {} c"
proof -
  have "st_stream_id t = j \<and> stream_inv t \<and> \<not> st_is_closed t" if "find_stream j c = Some t" for j t
    using that assms by (cases "j = i") (simp_all add: streams_ok_def)
  then show ?thesis using assms(1) by (simp add: streams_ok_def)
qed

lemma working_on_settled:
  "working_on (Some s) c \<Longrightarrow> conn_inv {} (destroy_if_closed s c)"
proof (cases "st_is_closed s")
  case True
  assume "working_on (Some s) c"
  then show ?thesis
    using True by (simp add: working_on_def destroy_if_closed_def conn_inv_drain_check conn_inv_destroy)
next
  case False
  assume w: "working_on (Some s) c"
  then have "conn_inv {} c" using False streams_ok_open [of "st_stream_id s" c s] by (simp add: working_on_def conn_inv_def)
  then show ?thesis using False by (simp add: destroy_if_closed_def)
qed

lemma working_on_put:
  assumes "conn_inv {st_stream_id s} c" "stream_inv s"
    and "find_stream (st_stream_id s) c \<noteq> None \<or> odd_id (st_stream_id s) \<noteq> cn_client_side c"
  shows "working_on (Some s) (put_stream s c)"
  using conn_inv_put [OF assms(1-3)] by (simp add: working_on_def)

lemma working_on_calm: "calm c c' \<Longrightarrow> working_on stream c \<Longrightarrow> working_on stream c'"
  by (auto simp: working_on_def calm_inv split: option.splits)

lemma working_on_found: "conn_inv {} c \<Longrightarrow> find_stream i c = Some s \<Longrightarrow> working_on (Some s) c"
  by (auto simp: working_on_def conn_inv_weaken) (auto simp: inv_defs)

section \<open>Stream operations keep identity and invariant\<close>

lemma st_ids [simp]:
  "st_stream_id (st_mark_unwritable s) = st_stream_id s" "st_stream_id (st_send_push_promise s) = st_stream_id s"
  "st_stream_id (st_recv_push_promise s) = st_stream_id s" "st_stream_id (st_send_headers s) = st_stream_id s"
  "st_stream_id (st_recv_headers hs s) = st_stream_id s" "st_stream_id (st_send_rst_stream s) = st_stream_id s"
  "st_stream_id (st_recv_rst_stream e s) = st_stream_id s" "st_stream_id (st_send_end_stream s) = st_stream_id s"
  "st_stream_id (st_save_frame_info h s) = st_stream_id s" "st_stream_id (st_append_headers hs s) = st_stream_id s"
  "st_stream_id (st_append_data d s) = st_stream_id s" "st_stream_id (st_set_priority_info p s) = st_stream_id s"
  "st_stream_id (snd (st_GetHeaders s)) = st_stream_id s"
  "st_stream_id (http2_stream_new cid i) = i"
  by (simp_all add: stream_op_defs Let_def st_GetHeaders_def st_ensure_headers_decoded_def http2_stream_new_def)

lemmas stream_inv_ops = stream_step.intros(1-12) [THEN stream_step_inv] step_GetHeaders [THEN stream_step_inv]

text \<open>A read changes only the cache.\<close>

lemma ReadData_kept:
  assumes "st_ReadData n s = Some (out, copied, t)"
  shows "st_stream_id t = st_stream_id s" "st_is_closed t = st_is_closed s" "stream_inv s \<Longrightarrow> stream_inv t"
  using assms step_ReadData [OF assms, THEN stream_step_inv] by (auto simp: st_ReadData_def Let_def st_is_closed_def)

declare stream_inv_ops [simp] stream_inv_new [simp]

lemma new_not_closed [simp]:
  "\<not> st_is_closed (http2_stream_new cid i)" "\<not> st_is_closed (st_send_push_promise (http2_stream_new cid i))"
  by (simp_all add: st_is_closed_def http2_stream_new_def st_send_push_promise_def transition_def)

end
