(* ===== verification/Connection_Safety.thy ===== *)
theory Connection_Safety
  imports Connection_Invariant
begin

text \<open>
  Every operation of the transport keeps the invariant of the connection: first the sends, then
  the ten frame handlers, \<^verbatim>\<open>package_process\<close> and the frame loop, at last every reachable state.
\<close>

section \<open>Sends\<close>

lemma odd_id_odd: "odd_id i \<longleftrightarrow> odd i"
  by (simp add: odd_id_def and_one_eq mod_2_eq_odd)

lemma odd_id_step [simp]: "odd_id (i + 2) = odd_id i"
  by (simp add: odd_id_odd)

lemma next_id_bounds:
  assumes "n < HTTP2_MAX_STREAM_ID" "0 < n"
  shows "n < n + 2" "n + 2 \<le> 0x80000000" "0 < n + (2 :: u32)"
proof -
  have n: "unat n < 0x7FFFFFFF" using assms(1) by (simp add: HTTP2_MAX_STREAM_ID_def word_less_nat_alt)
  then have "unat (n + 2) = unat n + 2" by (subst unat_add_u32) simp_all
  with n show "n < n + 2" "n + 2 \<le> 0x80000000" "0 < n + 2"
    by (simp_all add: word_less_nat_alt word_le_nat_alt)
qed

lemma create_stream_inv:
  assumes "conn_inv {} c" "create_stream c = (r, c')"
  shows "conn_inv {} c' \<and> (case r of None \<Rightarrow> c' = c
     | Some s \<Rightarrow> find_stream (st_stream_id s) c' = Some s \<and> s = http2_stream_new (cn_connection_id c) (cn_next_local_stream_id c))"
proof (cases r)
  case None
  with assms show ?thesis by (auto simp: create_stream_def Let_def split: if_splits)
next
  case (Some s)
  let ?n = "cn_next_local_stream_id c" and ?new = "http2_stream_new (cn_connection_id c) (cn_next_local_stream_id c)"
  have c': "s = ?new" "c' = (put_stream ?new c)\<lparr>cn_next_local_stream_id := ?n + 2\<rparr>" "?n < HTTP2_MAX_STREAM_ID"
    using assms(2) Some by (auto simp: create_stream_def Let_def not_le split: if_splits)
  have pos: "0 < ?n" using assms(1) by (simp add: conn_inv_def ids_ok_def)
  note b = next_id_bounds [OF c'(3) pos]
  have f: "find_stream i c' = (if i = ?n then Some ?new else find_stream i c)" for i
    by (simp add: c'(2))
  have "streams_ok {} c'"
    using assms(1) f by (auto simp: conn_inv_def streams_ok_def c'(2))
  moreover have "ids_ok c'"
    unfolding ids_ok_def f
    using assms(1) b by (auto simp: conn_inv_def ids_ok_def c'(2) intro: order.strict_trans)
  ultimately have "conn_inv {} c'" using assms(1) by (simp add: conn_inv_def settings_ok_def c'(2))
  with Some c'(1) f show ?thesis by simp
qed

lemma encode_header_block_eq:
  "encode_header_block S headers c = Some (block, c') \<Longrightarrow> \<exists>r. c' = c\<lparr>cn_send_record := r\<rparr>"
  by (auto simp: encode_header_block_def bind_eq_Some_conv)

lemma send_ping_inv: "conn_inv {} c \<Longrightarrow> send_ping S info c = Some (r, c') \<Longrightarrow> conn_inv {} c'"
  by (auto simp: send_ping_def bind_eq_Some_conv split: if_splits prod.splits
      dest!: ensure_preface_calm send_frame_calm(8)) (blast intro: calm_inv)+

lemma send_settings_inv:
  assumes "conn_inv {} c" "send_settings S ss c = Some (r, c')"
  shows "conn_inv {} c'"
proof -
  from assms(2) obtain d where d: "ensure_preface_sent S c = Some d" by (auto simp: send_settings_def bind_eq_Some_conv)
  have di: "conn_inv {} d" using calm_inv [OF ensure_preface_calm [OF d] assms(1)] .
  then have "conn_inv {} (d\<lparr>cn_settings_pending := True, cn_request_settings := ss\<rparr>)" by simp
  from calm_inv [OF send_frame_calm(3) this] assms(2) d di show ?thesis
    by (auto simp: send_settings_def bind_eq_Some_conv split: if_splits)
qed

lemma send_goaway_inv: "conn_inv X c \<Longrightarrow> send_goaway S err i debug c = Some c' \<Longrightarrow> conn_inv X c'"
  by (rule calm_inv [OF send_goaway_calm])

lemma goaway_inv: "conn_inv X c \<Longrightarrow> goaway S err c = Some c' \<Longrightarrow> conn_inv X c'"
  by (rule calm_inv [OF goaway_calm])

lemma send_window_update_inv: "conn_inv X c \<Longrightarrow> send_window_update S i wu c = Some (r, c') \<Longrightarrow> conn_inv X c'"
  by (rule calm_inv [OF send_window_update_calm])

lemma drain_inv: "conn_inv {} c \<Longrightarrow> drain S c = Some c' \<Longrightarrow> conn_inv {} c'"
  by (auto simp: drain_def bind_eq_Some_conv split: if_splits
      dest!: send_goaway_calm intro!: conn_inv_drain_check intro: calm_inv)

text \<open>The tail that every operation on a found stream shares.\<close>

lemma settle_stream:
  assumes "conn_inv {} c" "find_stream i c = Some s" "stream_inv t" "st_stream_id t = st_stream_id s"
  shows "conn_inv {} (destroy_if_closed t (put_stream t c))"
proof (rule working_on_settled [OF working_on_put])
  show "find_stream (st_stream_id t) c \<noteq> None \<or> odd_id (st_stream_id t) \<noteq> cn_client_side c"
    using assms by (auto simp: conn_inv_def streams_ok_def)
qed (use assms in \<open>simp_all add: conn_inv_weaken\<close>)

lemma found_inv: "conn_inv X c \<Longrightarrow> find_stream i c = Some s \<Longrightarrow> stream_inv s \<and> st_stream_id s = i"
  by (auto simp: conn_inv_def streams_ok_def)

lemma send_rst_stream_inv: "conn_inv {} c \<Longrightarrow> send_rst_stream S i err c = Some (r, c') \<Longrightarrow> conn_inv {} c'"
proof -
  assume a: "conn_inv {} c" "send_rst_stream S i err c = Some (r, c')"
  from a(2) obtain d where d: "ensure_preface_sent S c = Some d" by (auto simp: send_rst_stream_def bind_eq_Some_conv)
  have di: "conn_inv {} d" using calm_inv [OF ensure_preface_calm [OF d] a(1)] .
  show ?thesis
  proof (cases "find_stream i d")
    case None
    with a(2) d di show ?thesis by (simp add: send_rst_stream_def)
  next
    case (Some s)
    obtain n e where e: "send_frame_rst_stream S (build_http2_frame_rst_stream i 0 err) d = (n, e)" by fastforce
    then have "conn_inv {} e" "find_stream i e = Some s"
      using send_frame_calm(7) [OF e] di Some by (auto intro: calm_inv)
    from settle_stream [OF this, of "st_send_rst_stream s"] found_inv [OF this] a(2) d Some e
    show ?thesis by (simp add: send_rst_stream_def Let_def)
  qed
qed

lemma binary_headers_calm:
  "send_binary_in_headers_frame S i headers flags c = Some (n, c') \<Longrightarrow> \<exists>r. calm (c\<lparr>cn_send_record := r\<rparr>) c'"
  by (auto simp: send_binary_in_headers_frame_def bind_eq_Some_conv dest!: encode_header_block_eq send_frame_calm(2))

lemma binary_data_calm:
  assumes "send_binary_in_data_frame S i data sz es c = Some (n, c')" "0 \<le> cn_connection_send_window c"
  shows "\<exists>w \<ge> 0. calm (c\<lparr>cn_connection_send_window := w\<rparr>) c'"
proof -
  let ?w = "cn_connection_send_window c" and ?d = "c\<lparr>cn_connection_send_window := cn_connection_send_window c - uint sz\<rparr>"
  have "calm c c' \<or> (calm ?d c' \<and> 0 \<le> ?w - uint sz)"
    using assms by (auto simp: send_binary_in_data_frame_def bind_eq_Some_conv Let_def word_gt_0 split: if_splits
        dest!: send_window_update_calm send_frame_calm(1) intro: calm_trans call_user_calm)
  moreover have "c\<lparr>cn_connection_send_window := ?w\<rparr> = c" by simp
  ultimately show ?thesis using assms(2) by metis
qed

lemma find_calm_update:
  "calm (c\<lparr>cn_send_record := r\<rparr>) c' \<Longrightarrow> find_stream i c' = find_stream i c"
  "calm (c\<lparr>cn_connection_send_window := w\<rparr>) c' \<Longrightarrow> find_stream i c' = find_stream i c"
  by simp_all

lemma inv_calm_update:
  "calm (c\<lparr>cn_send_record := r\<rparr>) c' \<Longrightarrow> conn_inv X c \<Longrightarrow> conn_inv X c'"
  "calm (c\<lparr>cn_connection_send_window := w\<rparr>) c' \<Longrightarrow> 0 \<le> w \<Longrightarrow> conn_inv X c \<Longrightarrow> conn_inv X c'"
  by (auto intro: calm_inv conn_inv_window)

lemma stream_send_headers_inv:
  assumes "conn_inv {} c" "stream_send_headers S i headers es c = Some (r, c')"
  shows "conn_inv {} c'"
proof -
  from assms(2) obtain d where d: "ensure_preface_sent S c = Some d" by (auto simp: stream_send_headers_def bind_eq_Some_conv)
  have di: "conn_inv {} d" using calm_inv [OF ensure_preface_calm [OF d] assms(1)] .
  show ?thesis
  proof (cases "find_stream i d")
    case None
    with assms(2) d di show ?thesis by (simp add: stream_send_headers_def)
  next
    case (Some s)
    obtain n e where e: "send_binary_in_headers_frame S i headers
        (ucast (frame_flag Flag_EndHeaders) OR (if es then ucast (frame_flag Flag_EndStream) else 0)) d = Some (n, e)"
      "(if n < 0 then c' = e else let t = (if es then st_send_end_stream (st_send_headers s) else st_send_headers s) in
         c' = destroy_if_closed t (put_stream t e))"
      using assms(2) d Some by (auto simp: stream_send_headers_def Let_def bind_eq_Some_conv split: if_splits)
    obtain rec where calm: "calm (d\<lparr>cn_send_record := rec\<rparr>) e" using binary_headers_calm [OF e(1)] by blast
    have ei: "conn_inv {} e" "find_stream i e = Some s" using calm di Some by (auto intro: inv_calm_update)
    from settle_stream [OF ei] found_inv [OF ei] e(2) ei(1) show ?thesis
      by (auto simp: Let_def split: if_splits)
  qed
qed

lemma stream_send_trailing_headers_inv:
  assumes "conn_inv {} c" "stream_send_trailing_headers S i headers c = Some (r, c')"
  shows "conn_inv {} c'"
proof -
  from assms(2) obtain d where d: "ensure_preface_sent S c = Some d" by (auto simp: stream_send_trailing_headers_def bind_eq_Some_conv)
  have di: "conn_inv {} d" using calm_inv [OF ensure_preface_calm [OF d] assms(1)] .
  show ?thesis
  proof (cases "find_stream i d")
    case None
    with assms(2) d di show ?thesis by (simp add: stream_send_trailing_headers_def)
  next
    case (Some s)
    obtain n e where e: "send_binary_in_headers_frame S i headers
        (ucast (frame_flag Flag_EndHeaders) OR ucast (frame_flag Flag_EndStream)) d = Some (n, e)"
      "c' = destroy_if_closed (st_send_end_stream (st_send_headers s)) (put_stream (st_send_end_stream (st_send_headers s)) e)"
      using assms(2) d Some by (auto simp: stream_send_trailing_headers_def Let_def bind_eq_Some_conv)
    obtain rec where calm: "calm (d\<lparr>cn_send_record := rec\<rparr>) e" using binary_headers_calm [OF e(1)] by blast
    have ei: "conn_inv {} e" "find_stream i e = Some s" using calm di Some by (auto intro: inv_calm_update)
    from settle_stream [OF ei] found_inv [OF ei] e(2) show ?thesis by simp
  qed
qed

lemma stream_send_data_inv:
  assumes "conn_inv {} c" "stream_send_data S i data sz es c = Some (r, c')"
  shows "conn_inv {} c'"
proof -
  from assms(2) obtain d where d: "ensure_preface_sent S c = Some d" by (auto simp: stream_send_data_def bind_eq_Some_conv)
  have di: "conn_inv {} d" using calm_inv [OF ensure_preface_calm [OF d] assms(1)] .
  show ?thesis
  proof (cases "find_stream i d")
    case None
    with assms(2) d di show ?thesis by (simp add: stream_send_data_def)
  next
    case (Some s)
    obtain n e where e: "send_binary_in_data_frame S i data sz es d = Some (n, e)"
      "(if n < 0 then c' = e else let t = (if es then st_send_end_stream s else s) in
         c' = destroy_if_closed t (put_stream t e))"
      using assms(2) d Some by (auto simp: stream_send_data_def Let_def bind_eq_Some_conv split: if_splits)
    have "0 \<le> cn_connection_send_window d" using di by (simp add: conn_inv_def)
    then obtain w where calm: "calm (d\<lparr>cn_connection_send_window := w\<rparr>) e" "0 \<le> w" using binary_data_calm [OF e(1)] by blast
    have ei: "conn_inv {} e" "find_stream i e = Some s" using calm di Some by (auto intro: inv_calm_update)
    from settle_stream [OF ei] found_inv [OF ei] e(2) ei(1) show ?thesis
      by (auto simp: Let_def split: if_splits)
  qed
qed

lemma send_push_promise_inv:
  assumes "conn_inv {} c" "send_push_promise S i headers c = Some (p, c')"
  shows "conn_inv {} c'"
proof -
  obtain r d where cs: "create_stream c = (r, d)" by fastforce
  note d = create_stream_inv [OF assms(1) cs]
  show ?thesis
  proof (cases "cn_client_side c \<or> cn_local_settings c ! setting_index Set_EnablePush = 0 \<or> r = None")
    case True
    with assms d cs show ?thesis by (auto simp: send_push_promise_def split: if_splits)
  next
    case False
    then obtain s where s: "r = Some s" by auto
    obtain block e n f where e: "encode_header_block S headers d = Some (block, e)"
      "send_frame_push_promise S (build_http2_frame_push_promise i (st_stream_id s) (ucast (frame_flag Flag_EndHeaders)) block) e = Some (n, f)"
      "c' = put_stream (st_send_push_promise s) f"
      using assms(2) False cs s by (auto simp: send_push_promise_def bind_eq_Some_conv Let_def split: if_splits)
    obtain rec where "e = d\<lparr>cn_send_record := rec\<rparr>" using encode_header_block_eq [OF e(1)] by blast
    then have calm: "calm (d\<lparr>cn_send_record := rec\<rparr>) f" using send_frame_calm(4) [OF e(2)] by simp
    then have fi: "conn_inv {} f" "find_stream (st_stream_id s) f = Some s"
      using d s by (auto intro: inv_calm_update)
    show ?thesis unfolding e(3)
      using fi found_inv [OF fi] d s
      by (intro conn_inv_put) auto
  qed
qed

lemma flush_inv: "conn_inv {} c \<Longrightarrow> flush_buffer S c = (r, c') \<Longrightarrow> conn_inv {} c'"
proof -
  assume a: "conn_inv {} c" "flush_buffer S c = (r, c')"
  obtain n d where d: "send_raw_buffer S (cn_send_buffer c) (c\<lparr>cn_buffered_mode := False\<rparr>) = (n, d)" by fastforce
  have "conn_inv {} d" using send_raw_buffer_calm [of "c\<lparr>cn_buffered_mode := False\<rparr>" S] d a(1)
    by (auto intro: calm_inv simp: d dest: spec [of _ "cn_send_buffer c"]) (metis calm_inv conn_inv_fields(14) d snd_conv send_raw_buffer_calm)
  moreover have "conn_inv {} (d\<lparr>cn_send_buffer := sb_clear_buffer b\<rparr>) = conn_inv {} d" if "conn_inv {} d" for b
    using that by (simp add: inv_defs sb_inv_clear find_stream_def)
  ultimately show ?thesis using a d by (auto simp: flush_buffer_def Let_def split: if_splits)
qed

section \<open>Handlers\<close>

lemma reject_working:
  assumes "working_on stream c" "reject S err stream c = Some (s', c')"
  shows "working_on s' c'"
  using reject_calm [OF assms(2)] assms(1) by (auto intro: working_on_calm)

lemma stream_of_working: "conn_inv {} c \<Longrightarrow> working_on (stream_of h c) c"
  by (auto simp: stream_of_def working_on_def conn_inv_weaken split: option.splits dest: found_inv)

lemma stream_of_Some: "stream_of h c = Some s \<Longrightarrow> find_stream (hd_stream_id h) c = Some s"
  by (auto simp: stream_of_def split: if_splits)

text \<open>Storing a worked-on stream under its identifier.\<close>

lemma working_on_update:
  assumes "working_on (Some s) c" "stream_inv t" "st_stream_id t = st_stream_id s"
  shows "working_on (Some t) (put_stream t c)"
  using assms by (intro working_on_put) (auto simp: working_on_def)

lemma working_on_inv: "working_on (Some s) c \<Longrightarrow> stream_inv s"
  by (auto simp: working_on_def dest: found_inv)

lemma working_on_fields [simp]:
  "working_on st (c\<lparr>cn_next_frame_limit := b, cn_next_stream_id_limit := j\<rparr>) = working_on st c"
  by (simp_all add: working_on_def split: option.splits)

lemma decode_block_inv:
  assumes "conn_inv X c" "length block \<le> 2 ^ 28" "decode_block block c = Some (err, hs, c')"
  shows "conn_inv X c' \<and> (\<exists>t. c' = c\<lparr>cn_dynamic_table := t\<rparr>)"
proof -
  obtain t where t: "decode_headers dynamic_metadata_service (cn_dynamic_table c) block [] = Some (err, t, hs)"
    "c' = c\<lparr>cn_dynamic_table := t\<rparr>"
    using assms(3) by (auto simp: decode_block_def bind_eq_Some_conv)
  have "table_ok t"
    using dt.decode_headers_inv [OF _ _ assms(2) _ t(1)] assms(1)
    by (auto simp: conn_inv_def table_ok_def dynamic_metadata_service_def)
  then have "conn_inv X c'" using assms(1) t(2) by (simp add: inv_defs find_stream_def)
  with t(2) show ?thesis by blast
qed

lemma decode_block_working:
  assumes "working_on stream c" "length block \<le> 2 ^ 28" "decode_block block c = Some (err, hs, c')"
  shows "working_on stream c' \<and> (\<forall>i. find_stream i c' = find_stream i c) \<and> cn_client_side c' = cn_client_side c"
proof -
  obtain X where X: "conn_inv X c" using assms(1) by (cases stream) (auto simp: working_on_def)
  obtain t where t: "c' = c\<lparr>cn_dynamic_table := t\<rparr>" using decode_block_inv [OF X assms(2,3)] by blast
  then show ?thesis
    using decode_block_inv [OF _ assms(2,3)] assms(1) by (cases stream) (simp_all add: working_on_def)
qed

lemma finish_block_working: "working_on stream c \<Longrightarrow> working_on stream (finish_block h s c)"
  by (auto simp: finish_block_def intro: working_on_calm [OF notify_calm])

lemma received_data_working:
  assumes "conn_inv {} c" "received_data S (stream_of (dat_hdr f) c) f c = Some (s', c')"
  shows "working_on s' c'"
proof -
  note w = stream_of_working [OF assms(1), of "dat_hdr f"]
  show ?thesis
  proof (cases "hd_stream_id (dat_hdr f) = 0 \<or> ucast (dat_pad_len f) \<ge> hd_length (dat_hdr f)")
    case True
    with assms(2) have "reject S (error_code ProtocolError) (stream_of (dat_hdr f) c) c = Some (s', c')"
      by (auto simp: received_data_def Let_def split: if_splits)
    with w show ?thesis by (rule reject_working)
  next
    case ok: False
    show ?thesis
    proof (cases "stream_of (dat_hdr f) c")
      case None
      with assms(2) ok w show ?thesis by (auto simp: received_data_def Let_def)
    next
      case (Some s)
      let ?s = "st_save_frame_info (dat_hdr f) s" and ?t = "st_append_data (dat_data f) (st_save_frame_info (dat_hdr f) s)"
      have ws: "working_on (Some s) c" using w Some by simp
      have w1: "working_on (Some ?s) (put_stream ?s c)"
        using working_on_inv [OF ws] by (intro working_on_update [OF ws]) simp_all
      have w2: "working_on (Some ?t) (put_stream ?t (put_stream ?s c))"
        using working_on_inv [OF w1] by (intro working_on_update [OF w1]) simp_all
      show ?thesis
      proof (cases "dat_data f = []")
        case True
        with assms(2) ok Some w1 show ?thesis by (simp add: received_data_def Let_def)
      next
        case False
        let ?n = "notify (OnStreamData ?t) (put_stream ?t (put_stream ?s c))"
        obtain wu d where cr: "received_credit S (st_stream_id s) (word_of_nat (length (dat_data f))) ?n = (wu, d)" by fastforce
        obtain r e where e: "send_window_update S (st_stream_id s) wu d = Some (r, e)" "s' = Some ?t"
          "c' = (if st_is_closed ?t then notify_stream_closed ?t 0 e else e)"
          using assms(2) ok Some False cr by (auto simp: received_data_def Let_def bind_eq_Some_conv)
        have "calm ?n d" using cr by (auto simp: received_credit_def call_user_calm split: if_splits)
        then have d: "calm (put_stream ?t (put_stream ?s c)) d" by (rule calm_trans [OF notify_calm])
        have "calm (put_stream ?t (put_stream ?s c)) e"
          using d send_window_update_calm [OF e(1)] by (rule calm_trans)
        moreover have "calm e c'" unfolding e(3) notify_stream_closed_def by (simp add: notify_calm)
        ultimately show ?thesis unfolding e(2) using w2 by (blast intro: working_on_calm)
      qed
    qed
  qed
qed

lemma received_headers_working:
  assumes "conn_inv {} c" "length (hds_header_block_fragment f) \<le> 2 ^ 28"
    and "received_headers S (stream_of (hds_hdr f) c) f c = Some (s', c')"
  shows "working_on s' c'"
proof (cases "hd_stream_id (hds_hdr f) = 0 \<or> ucast (hds_pad_len f) \<ge> hd_length (hds_hdr f)")
  case True
  with assms(3) have "reject S (error_code ProtocolError) (stream_of (hds_hdr f) c) c = Some (s', c')"
    by (auto simp: received_headers_def Let_def split: if_splits)
  with stream_of_working [OF assms(1)] show ?thesis by (rule reject_working)
next
  case ok: False
  let ?st = "stream_of (hds_hdr f) c" and ?i = "hd_stream_id (hds_hdr f)"
  obtain err hs d where d: "decode_block (hds_header_block_fragment f) c = Some (err, hs, d)"
    using assms(3) ok by (auto simp: received_headers_def Let_def bind_eq_Some_conv)
  note w = decode_block_working [OF stream_of_working [OF assms(1), of "hds_hdr f"] assms(2) d]
  let ?s = "case ?st of Some s \<Rightarrow> s | None \<Rightarrow> http2_stream_new (cn_connection_id d) ?i"
  let ?t = "st_save_frame_info (hds_hdr f) (st_recv_headers hs ?s)"
  have new: "working_on (Some ?t) (put_stream ?t d)"
    if "?st = None \<longrightarrow> odd_id ?i \<noteq> cn_client_side d"
  proof (cases ?st)
    case None
    then show ?thesis using that w by (intro working_on_put) (auto simp: working_on_def conn_inv_weaken)
  next
    case (Some s)
    have ws: "working_on (Some s) d" using w Some by simp
    show ?thesis using working_on_inv [OF ws] Some by (auto intro: working_on_update [OF ws])
  qed
  have "reject S err ?st d = Some (s', c') \<or> reject S (error_code ProtocolError) ?st d = Some (s', c') \<or>
     (s' = ?st \<and> c' = d) \<or> ((?st = None \<longrightarrow> odd_id ?i \<noteq> cn_client_side d) \<and> s' = Some ?t \<and> c' = finish_block (hds_hdr f) ?t (put_stream ?t d))"
    using assms(3) ok d by (cases ?st) (auto simp: received_headers_def Let_def split: if_splits)
  then show ?thesis
    using w new by (auto intro: reject_working finish_block_working)
qed

lemma received_continuation_working:
  assumes "conn_inv {} c" "length (con_header_block_fragment f) \<le> 2 ^ 28"
    and "received_continuation S (stream_of (con_hdr f) c) f c = Some (s', c')"
  shows "working_on s' c'"
proof (cases "\<not> cn_next_frame_limit c \<or> stream_of (con_hdr f) c = None")
  case True
  with assms(3) have "reject S (error_code ProtocolError) (stream_of (con_hdr f) c) c = Some (s', c')"
    by (auto simp: received_continuation_def Let_def split: option.splits if_splits)
  with stream_of_working [OF assms(1)] show ?thesis by (rule reject_working)
next
  case False
  then obtain s where s: "stream_of (con_hdr f) c = Some s" by auto
  obtain err hs d where d: "decode_block (con_header_block_fragment f) c = Some (err, hs, d)"
    using assms(3) False s by (auto simp: received_continuation_def Let_def bind_eq_Some_conv)
  have w: "working_on (Some s) d"
    using decode_block_working [OF stream_of_working [OF assms(1)] assms(2) d] s by metis
  let ?t = "st_save_frame_info (con_hdr f) (st_append_headers hs s)"
  have "working_on (Some ?t) (put_stream ?t d)"
    using working_on_inv [OF w] by (intro working_on_update [OF w]) simp_all
  then show ?thesis
    using assms(3) False s d w
    by (auto simp: received_continuation_def Let_def split: if_splits intro: reject_working
        working_on_calm [OF notify_calm])
qed

lemma promised_open [simp]:
  assumes "st_state p = Idle"
  shows "\<not> st_is_closed (st_append_headers hs (st_save_frame_info h (st_recv_push_promise p)))"
  using assms by (simp add: stream_op_defs st_is_closed_def Let_def transition_def)

lemma new_idle [simp]: "st_state (http2_stream_new cid i) = Idle"
  by (simp add: http2_stream_new_def)

lemma received_push_promise_working:
  assumes "conn_inv {} c" "length (pp_header_block_fragment f) \<le> 2 ^ 28"
    and "received_push_promise S (stream_of (pp_hdr f) c) f c = Some (s', c')"
  shows "working_on s' c'"
proof -
  let ?h = "pp_hdr f" and ?st = "stream_of (pp_hdr f) c" and ?pid = "pp_promised_stream_id f"
  let ?known = "find_stream ?pid c"
  note w0 = stream_of_working [OF assms(1), of ?h]
  consider (rej) "reject S (error_code ProtocolError) ?st c = Some (s', c')"
    | (go) "\<not> (case ?known of Some p \<Rightarrow> st_state p \<noteq> Idle | None \<Rightarrow> False)"
      "(do {
        (err, headers, c) \<leftarrow> decode_block (pp_header_block_fragment f) c;
        if err \<noteq> error_code NoError then reject S err ?st c
        else
          let p = (case ?known of Some p \<Rightarrow> p | None \<Rightarrow> http2_stream_new (cn_connection_id c) ?pid);
              p = st_append_headers headers (st_save_frame_info ?h (st_recv_push_promise p));
              c = (if ?known = None then c else put_stream p c)
          in Some (map_option (\<lambda>s. if st_stream_id s = ?pid then p else s) ?st, finish_block ?h p c)
      }) = Some (s', c')"
    using assms(3) unfolding received_push_promise_def Let_def by (auto split: if_splits)
  then show ?thesis
  proof cases
    case rej
    with w0 show ?thesis by (rule reject_working)
  next
    case go
    obtain err hs d where d: "decode_block (pp_header_block_fragment f) c = Some (err, hs, d)"
      using go(2) by (auto simp: bind_eq_Some_conv)
    note w = decode_block_working [OF w0 assms(2) d]
    show ?thesis
    proof (cases "err = error_code NoError")
      case False
      with go(2) d w show ?thesis by (auto intro: reject_working)
    next
      case True
      let ?base = "case ?known of Some p \<Rightarrow> p | None \<Rightarrow> http2_stream_new (cn_connection_id d) ?pid"
      let ?p = "st_append_headers hs (st_save_frame_info ?h (st_recv_push_promise ?base))"
      let ?e = "if ?known = None then d else put_stream ?p d"
      let ?s = "map_option (\<lambda>s. if st_stream_id s = ?pid then ?p else s) ?st"
      have s': "s' = ?s" "c' = finish_block ?h ?p ?e" using go(2) d True by (simp_all add: Let_def)
      have idle: "st_state ?base = Idle" using go(1) by (cases ?known) auto
      have base: "stream_inv ?base \<and> st_stream_id ?base = ?pid"
        using assms(1) by (cases ?known) (auto dest: found_inv)
      have "working_on ?s ?e"
      proof (cases "?known = None")
        case True
        then have "\<forall>s. ?st = Some s \<longrightarrow> st_stream_id s \<noteq> ?pid"
          using stream_of_Some [of ?h c] found_inv [OF assms(1)] by force
        then have "?s = ?st" by (cases ?st) auto
        with True w show ?thesis by simp
      next
        case False
        have np: "\<not> st_is_closed ?p" using idle by (rule promised_open)
        have pid: "st_stream_id ?p = ?pid" "stream_inv ?p" using base by simp_all
        have fd: "find_stream ?pid d \<noteq> None" using False w by simp
        have put: "conn_inv X d \<Longrightarrow> conn_inv X (put_stream ?p d)" for X
          using pid np fd by (intro conn_inv_put) simp_all
        show ?thesis
        proof (cases ?st)
          case None
          with put w False show ?thesis by (simp add: working_on_def)
        next
          case (Some s)
          with put w False base show ?thesis by (auto simp: working_on_def)
        qed
      qed
      then show ?thesis unfolding s' by (rule finish_block_working)
    qed
  qed
qed

lemma received_priority_working:
  assumes "conn_inv {} c" "received_priority S (stream_of (pri_hdr f) c) f c = Some (s', c')"
  shows "working_on s' c'"
  using assms(2) stream_of_working [OF assms(1), of "pri_hdr f"]
  by (cases "stream_of (pri_hdr f) c")
     (auto simp: received_priority_def Let_def working_on_inv split: if_splits
       intro: reject_working working_on_update)

lemma received_rst_stream_working:
  assumes "conn_inv {} c" "received_rst_stream S (stream_of (rst_hdr f) c) f c = Some (s', c')"
  shows "working_on s' c'"
proof (cases "hd_length (rst_hdr f) \<noteq> 4 \<or> stream_of (rst_hdr f) c = None")
  case True
  with assms(2) stream_of_working [OF assms(1), of "rst_hdr f"] show ?thesis
    by (auto simp: received_rst_stream_def Let_def split: if_splits option.splits intro: reject_working)
next
  case False
  then obtain s where s: "stream_of (rst_hdr f) c = Some s" by auto
  let ?t = "st_save_frame_info (rst_hdr f) (st_recv_rst_stream (rst_error_code f) s)"
  have ws: "working_on (Some s) c" using stream_of_working [OF assms(1)] s by metis
  have "working_on (Some ?t) (put_stream ?t c)"
    using working_on_inv [OF ws] by (intro working_on_update [OF ws]) simp_all
  from working_on_calm [OF notify_calm this] False assms(2) s show ?thesis
    by (auto simp: received_rst_stream_def notify_stream_closed_def Let_def)
qed

lemma received_window_update_working:
  assumes "conn_inv {} c" "received_window_update S (stream_of (wu_hdr f) c) f c = Some (s', c')"
  shows "working_on s' c'"
proof (cases "hd_length (wu_hdr f) \<noteq> 4 \<or> wu_window_size_inc f < 1 \<or> wu_window_size_inc f > 2147483647 \<or> stream_of (wu_hdr f) c = None")
  case True
  have win: "working_on None (c\<lparr>cn_connection_send_window := cn_connection_send_window c + uint (wu_window_size_inc f)\<rparr>)"
    using assms(1) conn_inv_window [OF assms(1)] by (simp add: working_on_def conn_inv_def)
  show ?thesis
    using True assms(2) stream_of_working [OF assms(1), of "wu_hdr f"] win
    by (auto simp: received_window_update_def Let_def split: if_splits option.splits
        intro: reject_working working_on_calm [OF call_user_calm])
next
  case False
  then obtain s where s: "stream_of (wu_hdr f) c = Some s" by auto
  let ?t = "st_save_frame_info (wu_hdr f) s"
  have ws: "working_on (Some s) c" using stream_of_working [OF assms(1)] s by metis
  have "working_on (Some ?t) (put_stream ?t c)"
    using working_on_inv [OF ws] by (intro working_on_update [OF ws]) simp_all
  from this working_on_calm [OF call_user_calm this] False assms(2) s show ?thesis
    by (auto simp: received_window_update_def Let_def)
qed

lemma setting_ok_clamped:
  assumes "i < HTTP2_NUMBER_OF_SETTINGS"
  shows "setting_ok i (if v < sp_min_value (global_settings_parameters ! i) \<or> v > sp_max_value (global_settings_parameters ! i)
    then clamp_setting (global_settings_parameters ! i) v else v)"
proof -
  have "sp_min_value (global_settings_parameters ! i) \<le> sp_max_value (global_settings_parameters ! i)"
    using global_settings_defaults assms
    by (auto simp: list_all_length HTTP2_NUMBER_OF_SETTINGS_def dest: spec [of _ i] intro: order.trans)
  then show ?thesis by (auto simp: setting_ok_def clamp_setting_def Let_def)
qed

lemma settings_ok_update:
  assumes "conn_inv X c" "setting_ok i v"
  shows "conn_inv X (c\<lparr>cn_remote_settings := (cn_remote_settings c)[i := v]\<rparr>)"
proof -
  have "setting_ok j ((cn_remote_settings c)[i := v] ! j)"
    if "setting_ok j (cn_remote_settings c ! j)" "j < length (cn_remote_settings c)" for j
    using that assms(2) by (cases "i = j") simp_all
  then have "settings_ok (c\<lparr>cn_remote_settings := (cn_remote_settings c)[i := v]\<rparr>)"
    using assms by (auto simp: conn_inv_def settings_ok_def nth_list_update split: if_splits)
  then show ?thesis using assms(1) by (simp add: conn_inv_def streams_ok_def ids_ok_def find_stream_def)
qed

lemma apply_settings_inv:
  "conn_inv X c \<Longrightarrow> apply_settings es rep c = Some (r, c') \<Longrightarrow> conn_inv X c'"
proof (induction es rep c arbitrary: r rule: apply_settings.induct)
  case (2 e es rep c)
  let ?i = "unat (se_id e)" and ?v = "se_value e"
  let ?p = "global_settings_parameters ! ?i"
  let ?out = "?v < sp_min_value ?p \<or> ?v > sp_max_value ?p"
  let ?w = "if ?out then clamp_setting ?p ?v else ?v"
  show ?case
  proof (cases "?i < HTTP2_NUMBER_OF_SETTINGS")
    case False
    with 2 show ?thesis by simp
  next
    case True
    show ?thesis
    proof (cases "?out \<and> sp_invalid_value_behavior ?p = Disconnect")
      case True
      with \<open>?i < HTTP2_NUMBER_OF_SETTINGS\<close> 2(3,4) show ?thesis by (simp add: Let_def)
    next
      case False
      let ?c = "c\<lparr>cn_remote_settings := (cn_remote_settings c)[?i := ?w]\<rparr>"
      obtain rec where comp: "(if ?i = setting_index Set_HeaderTableSize
          then compressor_set_max_table_size (cn_send_record ?c) ?w else Some (cn_send_record ?c)) = Some rec"
        and rec: "apply_settings es (rep @ [(se_id e, ?w)]) (?c\<lparr>cn_send_record := rec\<rparr>) = Some (r, c')"
        using 2(4) True False unfolding apply_settings.simps Let_def bind_eq_Some_conv if_P [OF True] if_not_P [OF False] by blast
      have "conn_inv X (?c\<lparr>cn_send_record := rec\<rparr>)"
        unfolding conn_inv_fields using 2(3) setting_ok_clamped [OF True] by (rule settings_ok_update)
      from 2(1) [OF refl refl True refl refl False refl refl comp this rec] show ?thesis .
    qed
  qed
qed simp

lemma received_settings_inv: "conn_inv {} c \<Longrightarrow> received_settings S f c = Some c' \<Longrightarrow> conn_inv {} c'"
proof -
  assume a: "conn_inv {} c" "received_settings S f c = Some c'"
  have len: "length (apply_requested rs ls) = length ls" for rs ls
    unfolding apply_requested_def by (induction rs arbitrary: ls) auto
  have ack: "conn_inv {} (c\<lparr>cn_local_settings := apply_requested (cn_request_settings c) (cn_local_settings c),
      cn_settings_pending := False, cn_request_settings := []\<rparr>)"
    using a(1) len by (simp add: inv_defs find_stream_def)
  show ?thesis
  proof (cases "\<exists>err. goaway S err c = Some c' \<or> has_flag (hd_flags (set_hdr f)) Flag_Ack")
    case True
    with a ack show ?thesis
      by (auto simp: received_settings_def Let_def split: if_splits intro: goaway_inv calm_inv [OF notify_calm])
  next
    case False
    then obtain r d where d: "apply_settings (set_settings f) [] c = Some (r, d)"
      "(case r of Inl err \<Rightarrow> goaway S err d | Inr reported \<Rightarrow>
         map_option snd (send_frame_settings S (build_http2_frame_settings (ucast (frame_flag Flag_Ack)) [])
           (notify (OnSettings reported False) d))) = Some c'"
      using a(2) by (auto simp: received_settings_def Let_def bind_eq_Some_conv split: if_splits)
    have di: "conn_inv {} d" using apply_settings_inv [OF a(1) d(1)] .
    show ?thesis
    proof (cases r)
      case (Inl err)
      with d(2) di show ?thesis by (auto intro: goaway_inv)
    next
      case (Inr reported)
      with d(2) show ?thesis
        by (auto intro: calm_inv [OF send_frame_calm(3) calm_inv [OF notify_calm di]])
    qed
  qed
qed

lemma received_ping_inv: "conn_inv {} c \<Longrightarrow> received_ping S f c = Some c' \<Longrightarrow> conn_inv {} c'"
  using send_raw_data_calm
  by (auto simp: received_ping_def send_frame_ping_def Let_def split: if_splits
      intro: goaway_inv calm_inv [OF notify_calm] calm_inv [OF send_raw_data_calm])

lemma map_of_map_val: "map_of (map (\<lambda>(i, s). (i, f i s)) xs) i = map_option (f i) (map_of xs i)"
  by (induction xs) auto

lemma received_goaway_inv: "conn_inv {} c \<Longrightarrow> received_goaway S f c = Some c' \<Longrightarrow> conn_inv {} c'"
proof -
  assume a: "conn_inv {} c" "received_goaway S f c = Some c'"
  let ?mark = "\<lambda>i s. if odd_id i = cn_client_side c \<and> i > ga_last_stream_id f then st_mark_unwritable s else s"
  let ?c = "c\<lparr>cn_received_goaway_stream_id := ga_last_stream_id f, cn_received_goaway := True,
      cn_streams := map (\<lambda>(i, s). (i, ?mark i s)) (cn_streams c)\<rparr>"
  have fnd: "find_stream i ?c = map_option (?mark i) (find_stream i c)" for i
    by (simp add: find_stream_def map_of_map_val)
  have "map fst (cn_streams ?c) = map fst (cn_streams c)" by (simp add: case_prod_beta comp_def)
  moreover have "st_stream_id s = i \<and> stream_inv s \<and> \<not> st_is_closed s" if "find_stream i ?c = Some s" for i s
  proof -
    obtain t where t: "find_stream i c = Some t" "s = ?mark i t" using \<open>find_stream i ?c = Some s\<close> by (auto simp: fnd)
    then have "st_stream_id t = i \<and> stream_inv t \<and> \<not> st_is_closed t"
      using a(1) by (simp add: conn_inv_def streams_ok_def)
    moreover have "stream_inv (st_mark_unwritable t) = stream_inv t" "st_is_closed (st_mark_unwritable t) = st_is_closed t"
      by (simp_all add: stream_inv_def st_is_closed_def st_mark_unwritable_def)
    ultimately show ?thesis using t(2) by simp
  qed
  moreover have "distinct (map fst (cn_streams c))" using a(1) by (simp add: conn_inv_def streams_ok_def)
  ultimately have "streams_ok {} ?c" unfolding streams_ok_def by (simp del: map_map)
  moreover have "ids_ok ?c" using a(1) by (auto simp: conn_inv_def ids_ok_def fnd split: if_splits)
  ultimately have "conn_inv {} ?c" using a(1) by (simp add: conn_inv_def settings_ok_def)
  with a show ?thesis
    by (auto simp: received_goaway_def Let_def split: if_splits intro: goaway_inv calm_inv [OF notify_calm])
qed

section \<open>Frames\<close>

text \<open>A header block is no longer than its frame.\<close>

lemma MakeStaticSlice_length: "MakeStaticSlice p n = Some s \<Longrightarrow> length s = n"
  by (auto simp: MakeStaticSlice_def split: if_splits)

lemma parse_padding_size: "parse_padding h input = Ok (p, payload, n) \<Longrightarrow> unat n \<le> unat (hd_length h)"
proof -
  assume a: "parse_padding h input = Ok (p, payload, n)"
  show ?thesis
  proof (cases "has_flag (hd_flags h) Flag_Padded")
    case False
    with a show ?thesis by (simp add: parse_padding_def)
  next
    case True
    then obtain b where b: "byte_at input 0 = Some b" "\<not> ucast b + 1 > hd_length h" "n = hd_length h - ucast b - 1"
      using a by (auto simp: parse_padding_def outcome_bind_eq_Ok frame_size_error_def split: if_splits)
    have "n = hd_length h - (ucast b + 1)" using b(3) by (simp add: algebra_simps)
    then have "unat n = unat (hd_length h) - unat (ucast b + 1 :: u32)" using b(2) by (simp add: unat_sub_u32)
    then show ?thesis by simp
  qed
qed

lemma unat_minus_le: "k \<le> n \<Longrightarrow> unat n \<le> m \<Longrightarrow> unat (n - k :: u32) \<le> m"
  by (simp add: unat_sub_u32)

lemma block_sizes:
  "parse_http2_frame_headers h p = Ok fh \<Longrightarrow> length (hds_header_block_fragment fh) \<le> unat (hd_length h) \<and> hds_hdr fh = h"
  "parse_http2_frame_push_promise h p = Ok fp \<Longrightarrow> length (pp_header_block_fragment fp) \<le> unat (hd_length h) \<and> pp_hdr fp = h"
  "parse_http2_frame_continuation h p = Ok fc \<Longrightarrow> length (con_header_block_fragment fc) \<le> unat (hd_length h) \<and> con_hdr fc = h"
  by (auto simp: parse_http2_frame_headers_def parse_http2_frame_push_promise_def parse_http2_frame_continuation_def
      outcome_bind_eq_Ok frame_size_error_def not_less split: if_splits prod.splits
      dest!: MakeStaticSlice_length parse_padding_size intro: unat_minus_le)

lemma parsed_hdr:
  "parse_http2_frame_data h p = Ok fd \<Longrightarrow> dat_hdr fd = h"
  "parse_http2_frame_priority h p = Ok fo \<Longrightarrow> pri_hdr fo = h"
  "parse_http2_frame_rst_stream h p = Ok fr \<Longrightarrow> rst_hdr fr = h"
  "parse_http2_frame_window_update h p = Ok fw \<Longrightarrow> wu_hdr fw = h"
  by (auto simp: parse_http2_frame_data_def parse_http2_frame_priority_def parse_http2_frame_rst_stream_def
      parse_http2_frame_window_update_def outcome_bind_eq_Ok frame_size_error_def split: if_splits prod.splits)

text \<open>A forwarder is safe when its handler is, on every frame the parser can give.\<close>

lemma parsed_working:
  assumes "conn_inv {} c" "parsed S r k c = Some (s', c')"
    and "\<And>f. r = Ok f \<Longrightarrow> k f c = Some (s', c') \<Longrightarrow> working_on s' c'"
  shows "working_on s' c'"
  using assms(2,3) reject_working [of None c S _ s' c'] assms(1)
  by (auto simp: parsed_def working_on_def split: outcome.splits)

lemma no_stream_working: "no_stream r = Some (s', c') \<Longrightarrow> (\<And>d. r = Some d \<Longrightarrow> conn_inv {} d) \<Longrightarrow> working_on s' c'"
  by (auto simp: no_stream_def working_on_def)

lemma less_10_cases: "(n :: nat) \<le> 9 \<Longrightarrow> n = 0 \<or> n = 1 \<or> n = 2 \<or> n = 3 \<or> n = 4 \<or> n = 5 \<or> n = 6 \<or> n = 7 \<or> n = 8 \<or> n = 9"
  by arith

lemma frame_process_working:
  assumes "conn_inv {} c" "unat (hd_length h) < 2 ^ 24" "n \<le> 9"
    and "(frame_process_func_array ! n) S h p c = Some (s', c')"
  shows "working_on s' c'"
proof -
  have small: "k \<le> unat (hd_length h) \<and> q \<Longrightarrow> k \<le> 2 ^ 28 \<and> q" for k :: nat and q using assms(2) by simp
  note b = block_sizes [THEN small]
  note pw = parsed_working [OF assms(1)]
  consider "internal_data_process S h p c = Some (s', c')" | "internal_headers_process S h p c = Some (s', c')"
    | "internal_priority_process S h p c = Some (s', c')" | "internal_rst_stream_process S h p c = Some (s', c')"
    | "internal_settings_process S h p c = Some (s', c')" | "internal_push_promise_process S h p c = Some (s', c')"
    | "internal_ping_process S h p c = Some (s', c')" | "internal_goaway_process S h p c = Some (s', c')"
    | "internal_window_update_process S h p c = Some (s', c')" | "internal_continuation_process S h p c = Some (s', c')"
    using assms(4) less_10_cases [OF assms(3)] by (auto simp: frame_process_func_array_def)
  then show ?thesis
  proof cases
    case 1
    then show ?thesis unfolding internal_data_process_def
      by (rule pw) (use received_data_working [OF assms(1)] parsed_hdr(1) in metis)
  next
    case 2
    then show ?thesis unfolding internal_headers_process_def
      by (rule pw) (use received_headers_working [OF assms(1)] b(1) in metis)
  next
    case 3
    then show ?thesis unfolding internal_priority_process_def
      by (rule pw) (use received_priority_working [OF assms(1)] parsed_hdr(2) in metis)
  next
    case 4
    then show ?thesis unfolding internal_rst_stream_process_def
      by (rule pw) (use received_rst_stream_working [OF assms(1)] parsed_hdr(3) in metis)
  next
    case 5
    then show ?thesis unfolding internal_settings_process_def
      by (rule pw) (auto elim!: no_stream_working intro: received_settings_inv [OF assms(1)])
  next
    case 6
    then show ?thesis unfolding internal_push_promise_process_def
      by (rule pw) (use received_push_promise_working [OF assms(1)] b(2) in metis)
  next
    case 7
    then show ?thesis unfolding internal_ping_process_def
      by (rule pw) (auto elim!: no_stream_working intro: received_ping_inv [OF assms(1)])
  next
    case 8
    then show ?thesis unfolding internal_goaway_process_def
      by (rule pw) (auto elim!: no_stream_working intro: received_goaway_inv [OF assms(1)])
  next
    case 9
    then show ?thesis unfolding internal_window_update_process_def
      by (rule pw) (use received_window_update_working [OF assms(1)] parsed_hdr(4) in metis)
  next
    case 10
    then show ?thesis unfolding internal_continuation_process_def
      by (rule pw) (use received_continuation_working [OF assms(1)] b(3) in metis)
  qed
qed

text \<open>What a package does to the connection: nothing, a GOAWAY, or its handler and the settling.\<close>

lemma package_process_cases:
  assumes "package_process S p n c = Some (r, c')"
  obtains (same) "c' = c" | (seen) i where "c' = track_last_stream i c"
  | (refused) "goaway S (error_code ProtocolError) c = Some c'"
  | (handled) h stream d where "http2_frame_header_unpack p = Some h" "unat (hd_type h) \<le> 9"
      "(frame_process_func_array ! unat (hd_type h)) S h (drop (unat HTTP2_FRAME_HEADER_SIZE) p)
         (track_last_stream (hd_stream_id h) c) = Some (stream, d)"
      "c' = (case stream of Some s \<Rightarrow> destroy_if_closed s d | None \<Rightarrow> d)"
  using assms unfolding package_process_def Let_def
  by (auto simp: bind_eq_Some_conv not_less word_le_nat_alt split: if_splits)

lemma package_process_inv:
  assumes "conn_inv {} c" "package_process S p n c = Some (r, c')"
  shows "conn_inv {} c'"
  using assms(2)
proof (cases rule: package_process_cases)
  case (handled h stream d)
  have "conn_inv {} (track_last_stream (hd_stream_id h) c)" using assms(1) by (simp add: track_last_stream_def)
  from frame_process_working [OF this unpack_length [OF handled(1)] handled(2,3)] handled(4) show ?thesis
    using working_on_settled by (cases stream) (auto simp: working_on_def)
qed (use assms(1) in \<open>auto simp: track_last_stream_def intro: goaway_inv\<close>)

lemma frame_loop_inv: "conn_inv {} c \<Longrightarrow> frame_loop S buf pos c = Some (r, c') \<Longrightarrow> conn_inv {} c'"
proof (induction S buf pos c rule: frame_loop.induct)
  case (1 S buf pos c)
  show ?case
    using 1(2,3)
    by (subst (asm) frame_loop.simps)
       (auto simp: Let_def split: if_splits option.splits prod.splits
          intro: goaway_inv package_process_inv 1(1) [OF _ _ _ refl])
qed

lemma initial_settings_inv: "send_initial_settings S c = Some d \<Longrightarrow> conn_inv {} c \<Longrightarrow> conn_inv {} d"
proof -
  assume a: "send_initial_settings S c = Some d" "conn_inv {} c"
  then have "conn_inv {} (c\<lparr>cn_initial_settings_sent := True\<rparr>)" by simp
  from calm_inv [OF send_frame_calm(3) this] a show ?thesis
    by (auto simp: send_initial_settings_def Let_def bind_eq_Some_conv split: if_splits)
qed

lemma ReceivedData_inv:
  assumes "conn_inv {} c" "ReceivedData S buf c = Some (r, c')"
  shows "conn_inv {} c'"
  using assms
  by (auto simp: ReceivedData_def bind_eq_Some_conv split: if_splits
      intro: frame_loop_inv goaway_inv dest!: initial_settings_inv)

section \<open>Reachable states\<close>

lemma new_inv:
  assumes "http2_connection_new cid client_side = Some c"
  shows "conn_inv {} c"
proof -
  have "default_settings ! i = sp_default_value (global_settings_parameters ! i)" if "i < 7" for i
    using that by (simp add: default_settings_def)
  moreover have "setting_ok i (sp_default_value (global_settings_parameters ! i))" if "i < 7" for i
    using global_settings_defaults that by (simp add: list_all_length setting_ok_def)
  moreover have "default_settings ! setting_index Set_HeaderTableSize = 4096"
    by (simp add: default_settings_def setting_index_def global_settings_parameters_def setting_parameters_def)
  moreover have "dt_inv (dynamic_metadata_table_new 4096)" by (rule dt_inv_new)
  ultimately show ?thesis
    using assms
    by (cases client_side) (auto simp: http2_connection_new_def inv_defs find_stream_def table_ok_def dynamic_metadata_table_new_def
        sb_inv_new odd_id_odd HTTP2_NUMBER_OF_SETTINGS_def default_settings_def split: if_splits)
qed

lemma read_open [simp]:
  "st_is_closed (snd (st_GetHeaders s)) = st_is_closed s"
  by (simp_all add: st_is_closed_def st_GetHeaders_def st_ensure_headers_decoded_def Let_def)

lemma found_open: "conn_inv {} c \<Longrightarrow> find_stream i c = Some s \<Longrightarrow> \<not> st_is_closed s"
  by (simp add: conn_inv_def streams_ok_def)

lemma user_step_inv: "user_step S c c' \<Longrightarrow> conn_inv {} c \<Longrightarrow> conn_inv {} c'"
proof (induction rule: user_step.induct)
  case (us_ReadData i c s n out copied t)
  then show ?case
    using found_inv [OF us_ReadData(3,1)] found_open [OF us_ReadData(3,1)] ReadData_kept [OF us_ReadData(2)]
    by (intro conn_inv_put) simp_all
next
  case (us_GetHeaders i c s)
  then show ?case using found_inv [OF us_GetHeaders(2,1)] found_open [OF us_GetHeaders(2,1)]
    by (intro conn_inv_put) simp_all
qed (auto simp: set_event_handler_def set_flow_control_handler_def set_buffered_mode_def Shutdown_def
      SendWindowUpdate_def stream_send_rst_stream_def
    intro: send_settings_inv send_ping_inv send_goaway_inv goaway_inv send_push_promise_inv ReceivedData_inv
      drain_inv send_window_update_inv flush_inv stream_send_headers_inv stream_send_data_inv
      stream_send_trailing_headers_inv send_rst_stream_inv dest: create_stream_inv)

lemma user_reach_inv: "user_reach S c \<Longrightarrow> conn_inv {} c"
  by (induction rule: user_reach.induct) (auto intro: new_inv user_step_inv)

end
