(* ===== verification/Frame_Codec.thy ===== *)
theory Frame_Codec
  imports Pack
begin

text \<open>
  Serialising and parsing are inverse. The locale \<open>frame_codec\<close> states what a frame type owes,
  proves what follows for single frames and for streams of frames, and is interpreted for nine of
  the ten frame types; DATA, which the sender may split, has its own section.
\<close>

section \<open>Framing of a byte stream\<close>

text \<open>The next frame of a stream: header, payload, rest; \<open>None\<close> while it is incomplete.\<close>

definition next_frame :: "bytes \<Rightarrow> (http2_frame_hdr \<times> bytes \<times> bytes) option" where
  "next_frame bs = Option.bind (http2_frame_header_unpack bs) (\<lambda>h.
     let n = unat (hd_length h) in
     if length bs < 9 + n then None else Some (h, take n (drop 9 bs), drop (9 + n) bs))"

text \<open>\<open>read_frames n\<close> reads exactly \<open>n\<close> frames.\<close>

fun read_frames :: "nat \<Rightarrow> bytes \<Rightarrow> ((http2_frame_hdr \<times> bytes) list \<times> bytes) option" where
  "read_frames 0 bs = Some ([], bs)"
| "read_frames (Suc n) bs = (case next_frame bs of None \<Rightarrow> None
     | Some (h, p, rest) \<Rightarrow> map_option (\<lambda>(fs, r). ((h, p) # fs, r)) (read_frames n rest))"

lemma next_frame_pack:
  assumes "hdr_ok h" "length p = unat (hd_length h)"
  shows "next_frame (http2_frame_header_pack h @ p @ rest) = Some (h, p, rest)"
  using assms unpack_pack [OF assms(1), of "p @ rest"] by (simp add: next_frame_def Let_def)

section \<open>The codec contract\<close>

locale frame_codec =
  fixes hdr_of :: "'f \<Rightarrow> http2_frame_hdr"
    and wf :: "'f \<Rightarrow> bool"
    and payload :: "'f \<Rightarrow> bytes"
    and pack :: "'f \<Rightarrow> slice option"
    and parse :: "http2_frame_hdr \<Rightarrow> bytes \<Rightarrow> 'f outcome"
  assumes wf_hdr: "wf f \<Longrightarrow> hdr_ok (hdr_of f)"
    and wf_length: "wf f \<Longrightarrow> length (payload f) = unat (hd_length (hdr_of f))"
    and pack_eq: "wf f \<Longrightarrow> pack f = Some (http2_frame_header_pack (hdr_of f) @ payload f)"
    and parse_eq: "wf f \<Longrightarrow> parse (hdr_of f) (payload f @ rest) = Ok f"
begin

text \<open>One frame, followed by anything: framing finds it and parsing returns it.\<close>

lemma wire_roundtrip:
  assumes "wf f"
  shows "\<exists>w p. pack f = Some w \<and> length w = 9 + unat (hd_length (hdr_of f)) \<and>
    next_frame (w @ rest) = Some (hdr_of f, p, rest) \<and> parse (hdr_of f) p = Ok f"
  using next_frame_pack [OF wf_hdr wf_length, OF assms assms, of rest] parse_eq [OF assms, of "[]"]
    pack_eq [OF assms] wf_length [OF assms] by auto

text \<open>A stream of frames comes apart into the same frames.\<close>

lemma stream_roundtrip:
  "\<forall>f \<in> set fs. wf f \<Longrightarrow>
     \<exists>ws. map pack fs = map Some ws \<and>
       read_frames (length fs) (concat ws @ rest) = Some (map (\<lambda>f. (hdr_of f, payload f)) fs, rest) \<and>
       (\<forall>f \<in> set fs. parse (hdr_of f) (payload f) = Ok f)"
proof (induction fs)
  case (Cons f fs)
  then obtain ws where ws: "map pack fs = map Some ws"
    "read_frames (length fs) (concat ws @ rest) = Some (map (\<lambda>f. (hdr_of f, payload f)) fs, rest)"
    "\<forall>f \<in> set fs. parse (hdr_of f) (payload f) = Ok f" by auto
  have f: "wf f" using Cons.prems by simp
  let ?w = "http2_frame_header_pack (hdr_of f) @ payload f"
  have "next_frame (concat (?w # ws) @ rest) = Some (hdr_of f, payload f, concat ws @ rest)"
    using next_frame_pack [OF wf_hdr wf_length, OF f f, of "concat ws @ rest"] by simp
  then have "read_frames (length (f # fs)) (concat (?w # ws) @ rest) =
      Some (map (\<lambda>f. (hdr_of f, payload f)) (f # fs), rest)" using ws(2) by simp
  then show ?case using ws pack_eq [OF f] parse_eq [OF f, of "[]"] by (intro exI [of _ "?w # ws"]) simp
qed simp

end

section \<open>Pieces of payloads\<close>

lemma mask31: "HTTP2_STREAM_ID_MASK = mask 31"
  by (simp add: HTTP2_STREAM_ID_MASK_def mask_eq_exp_minus_1)

lemma small_id_bit: "i \<le> HTTP2_STREAM_ID_MASK \<Longrightarrow> \<not> bit i 31"
  using stream_id_mask [of i] by (metis bit_and_iff bit_mask_iff less_irrefl mask31)

text \<open>The top bit of a 32-bit field is the top bit of its first octet.\<close>

lemma first_octet_bit: "ucast (drop_bit 24 (v :: u32)) AND 0x80 \<noteq> (0 :: u8) \<longleftrightarrow> bit v 31"
proof -
  have b: "bit (ucast (drop_bit 24 v) AND 0x80 :: u8) k \<longleftrightarrow> k = 7 \<and> bit v 31" for k
    by (auto simp: bit_seven bit_simps)
  show ?thesis
  proof
    assume "ucast (drop_bit 24 v) AND 0x80 \<noteq> (0 :: u8)"
    then obtain k where "bit (ucast (drop_bit 24 v) AND 0x80 :: u8) k" by (metis bit_0_eq bit_word_eqI bot_apply bot_bool_def)
    with b show "bit v 31" by blast
  next
    assume "bit v 31"
    then have "bit (ucast (drop_bit 24 v) AND 0x80 :: u8) 7" using b by blast
    then show "ucast (drop_bit 24 v) AND 0x80 \<noteq> (0 :: u8)" by auto
  qed
qed

lemma put_uint32_first: "byte_at (put_uint32_in_be_stream v @ rest) 0 = Some (ucast (drop_bit 24 v))"
  by (simp add: put_uint32_bytes byte_at_def)

lemma id_field:
  assumes "i \<le> HTTP2_STREAM_ID_MASK"
  shows "get_uint32_from_be_stream (put_uint32_in_be_stream i @ rest) = Some i"
    and "\<exists>b. byte_at (put_uint32_in_be_stream i @ rest) 0 = Some b \<and> b AND 0x80 = 0"
  using first_octet_bit [of i] small_id_bit [OF assms]
  by (simp_all add: put_uint32_first)

text \<open>A priority specification the wire can carry.\<close>

definition pspec_ok :: "http2_priority_spec \<Rightarrow> bool" where
  "pspec_ok ps \<longleftrightarrow> ps_depend_stream_id ps \<le> HTTP2_STREAM_ID_MASK \<and> 1 \<le> ps_weight ps \<and> ps_weight ps \<le> 256 \<and>
     ps_exclusive ps \<le> 1"

lemma length_pack_dependency [simp]: "length (pack_dependency ps) = 4"
  by (simp add: pack_dependency_def)

lemma weight_roundtrip:
  assumes "1 \<le> w" "w \<le> 256" shows "ucast (ucast (w - 1) :: u8) + 1 = (w :: u16)"
proof -
  have u: "1 \<le> unat w" "unat w \<le> 256" using assms by (simp_all add: word_le_nat_alt)
  have "ucast (ucast (w - 1) :: u8) = take_bit 8 (w - 1)"
    by (rule bit_word_eqI) (auto simp: bit_simps)
  moreover have "take_bit 8 (w - 1) = w - 1"
    using u by (intro word_unat_eq_iff [THEN iffD2]) (simp add: unat_take_bit_mod unat_sub [OF assms(1)])
  ultimately show ?thesis by simp
qed

lemma bit_exclusive: "bit (push_bit 31 1 :: u32) n \<longleftrightarrow> n = 31"
  by (simp only: bit_push_bit_iff bit_1_iff) auto

lemma dependency_roundtrip:
  assumes "pspec_ok ps"
  shows "\<exists>v b. get_uint32_from_be_stream (pack_dependency ps @ rest) = Some v \<and>
    v AND HTTP2_STREAM_ID_MASK = ps_depend_stream_id ps \<and>
    byte_at (pack_dependency ps @ rest) 0 = Some b \<and> (if b AND 0x80 \<noteq> 0 then 1 else 0) = ps_exclusive ps"
proof -
  have d: "ps_depend_stream_id ps \<le> HTTP2_STREAM_ID_MASK" using assms by (simp add: pspec_ok_def)
  have "ps_exclusive ps \<le> 1" using assms by (simp add: pspec_ok_def)
  then have "unat (ps_exclusive ps) \<le> 1" by (simp add: word_le_nat_alt)
  then have "unat (ps_exclusive ps) = 0 \<or> unat (ps_exclusive ps) = 1" by linarith
  then have x: "ps_exclusive ps = 0 \<or> ps_exclusive ps = 1"
    by (metis unat_0 unat_1 word_unat_eq_iff)
  show ?thesis
  proof (cases "ps_exclusive ps = 0")
    case True
    then show ?thesis using id_field [OF d, of rest] stream_id_mask [OF d] by (auto simp: pack_dependency_def)
  next
    case False
    let ?v = "ps_depend_stream_id ps OR push_bit 31 1"
    have "?v AND HTTP2_STREAM_ID_MASK = ps_depend_stream_id ps AND HTTP2_STREAM_ID_MASK"
      unfolding mask31 by (rule bit_word_eqI) (auto simp only: bit_and_iff bit_or_iff bit_exclusive bit_mask_iff)
    moreover have "bit ?v 31" by (simp only: bit_or_iff bit_exclusive simp_thms)
    ultimately show ?thesis
      using False x stream_id_mask [OF d] first_octet_bit [of ?v]
      by (auto simp: pack_dependency_def put_uint32_first)
  qed
qed

lemma MakeStaticSlice_exact: "MakeStaticSlice (s @ rest) (length s) = Some s"
  by (simp add: MakeStaticSlice_def)

section \<open>Fixed-size frames\<close>

definition rst_wf :: "http2_frame_rst_stream \<Rightarrow> bool" where
  "rst_wf f \<longleftrightarrow> hdr_ok (rst_hdr f) \<and> hd_length (rst_hdr f) = 4"

interpretation rst: frame_codec rst_hdr rst_wf "\<lambda>f. put_uint32_in_be_stream (rst_error_code f)"
  "\<lambda>f. Some (pack_http2_frame_rst_stream f)" parse_http2_frame_rst_stream
  by unfold_locales (simp_all add: rst_wf_def pack_http2_frame_rst_stream_def parse_http2_frame_rst_stream_def)

definition priority_wf :: "http2_frame_priority \<Rightarrow> bool" where
  "priority_wf f \<longleftrightarrow> hdr_ok (pri_hdr f) \<and> hd_length (pri_hdr f) = 5 \<and> pspec_ok (pri_pspec f)"

lemma parse_pspec:
  assumes "pspec_ok ps"
  shows "outcome_bind (of_read (get_uint32_from_be_stream (pack_dependency ps @ ucast (ps_weight ps - 1) # rest))) (\<lambda>dep.
      outcome_bind (of_read (byte_at (pack_dependency ps @ ucast (ps_weight ps - 1) # rest) 0)) (\<lambda>b0.
      outcome_bind (of_read (byte_at (pack_dependency ps @ ucast (ps_weight ps - 1) # rest) 4)) (\<lambda>b4.
        F \<lparr>ps_depend_stream_id = dep AND HTTP2_STREAM_ID_MASK, ps_weight = ucast b4 + 1,
           ps_exclusive = (if b0 AND 0x80 \<noteq> 0 then 1 else 0)\<rparr>))) = F ps"
proof -
  let ?w = "pack_dependency ps @ ucast (ps_weight ps - 1) # rest"
  obtain v b where v: "get_uint32_from_be_stream ?w = Some v" "v AND HTTP2_STREAM_ID_MASK = ps_depend_stream_id ps"
    "byte_at ?w 0 = Some b" "(if b AND 0x80 \<noteq> 0 then 1 else 0) = ps_exclusive ps"
    using dependency_roundtrip [OF assms] by blast
  have "byte_at ?w 4 = Some (ucast (ps_weight ps - 1))" by (simp add: byte_at_def nth_append)
  moreover have "ucast (ucast (ps_weight ps - 1) :: u8) + 1 = ps_weight ps"
    using assms by (intro weight_roundtrip) (simp_all add: pspec_ok_def)
  ultimately show ?thesis using v by (cases ps) simp
qed

interpretation priority: frame_codec pri_hdr priority_wf
  "\<lambda>f. pack_dependency (pri_pspec f) @ [ucast (ps_weight (pri_pspec f) - 1)]"
  "\<lambda>f. Some (pack_http2_frame_priority f)" parse_http2_frame_priority
proof unfold_locales
  fix f rest assume wf: "priority_wf f"
  then show "hdr_ok (pri_hdr f)"
    "length (pack_dependency (pri_pspec f) @ [ucast (ps_weight (pri_pspec f) - 1)]) = unat (hd_length (pri_hdr f))"
    by (simp_all add: priority_wf_def)
  have "ps_weight (pri_pspec f) \<noteq> 0" using wf by (auto simp: priority_wf_def pspec_ok_def)
  then show "Some (pack_http2_frame_priority f) =
      Some (http2_frame_header_pack (pri_hdr f) @ pack_dependency (pri_pspec f) @ [ucast (ps_weight (pri_pspec f) - 1)])"
    by (simp add: pack_http2_frame_priority_def)
  have "pspec_ok (pri_pspec f)" "hd_length (pri_hdr f) = 5" using wf by (simp_all add: priority_wf_def)
  with parse_pspec [of "pri_pspec f" rest "\<lambda>ps. Ok \<lparr>pri_hdr = pri_hdr f, pri_pspec = ps\<rparr>"]
  show "parse_http2_frame_priority (pri_hdr f)
      ((pack_dependency (pri_pspec f) @ [ucast (ps_weight (pri_pspec f) - 1)]) @ rest) = Ok f"
    by (simp add: parse_http2_frame_priority_def)
qed

definition ping_wf :: "http2_frame_ping \<Rightarrow> bool" where
  "ping_wf f \<longleftrightarrow> hdr_ok (png_hdr f) \<and> hd_length (png_hdr f) = 8 \<and> length (png_opaque_data f) = 8"

interpretation ping: frame_codec png_hdr ping_wf png_opaque_data
  "\<lambda>f. Some (pack_http2_frame_ping f)" parse_http2_frame_ping
  by unfold_locales (simp_all add: ping_wf_def pack_http2_frame_ping_def parse_http2_frame_ping_def)

definition window_update_wf :: "http2_frame_window_update \<Rightarrow> bool" where
  "window_update_wf f \<longleftrightarrow> hdr_ok (wu_hdr f) \<and> hd_length (wu_hdr f) = 4 \<and>
     wu_window_size_inc f \<le> HTTP2_STREAM_ID_MASK \<and> wu_reserved f = 0"

interpretation window_update: frame_codec wu_hdr window_update_wf
  "\<lambda>f. put_uint32_in_be_stream (wu_window_size_inc f)"
  "\<lambda>f. Some (pack_http2_frame_window_update f)" parse_http2_frame_window_update
proof unfold_locales
  fix f rest assume wf: "window_update_wf f"
  then show "hdr_ok (wu_hdr f)" "length (put_uint32_in_be_stream (wu_window_size_inc f)) = unat (hd_length (wu_hdr f))"
    "Some (pack_http2_frame_window_update f) =
      Some (http2_frame_header_pack (wu_hdr f) @ put_uint32_in_be_stream (wu_window_size_inc f))"
    by (simp_all add: window_update_wf_def pack_http2_frame_window_update_def)
  have "wu_window_size_inc f \<le> HTTP2_STREAM_ID_MASK" using wf by (simp add: window_update_wf_def)
  from id_field [OF this, of rest] stream_id_mask [OF this] wf
  show "parse_http2_frame_window_update (wu_hdr f) (put_uint32_in_be_stream (wu_window_size_inc f) @ rest) = Ok f"
    by (auto simp: parse_http2_frame_window_update_def window_update_wf_def)
qed

section \<open>Variable-size frames\<close>

definition goaway_wf :: "http2_frame_goaway \<Rightarrow> bool" where
  "goaway_wf f \<longleftrightarrow> hdr_ok (ga_hdr f) \<and> unat (hd_length (ga_hdr f)) = 8 + length (ga_debug_data f) \<and>
     ga_last_stream_id f \<le> HTTP2_STREAM_ID_MASK \<and> ga_reserved f = 0"

interpretation goaway: frame_codec ga_hdr goaway_wf
  "\<lambda>f. put_uint32_in_be_stream (ga_last_stream_id f) @ put_uint32_in_be_stream (ga_error_code f) @ ga_debug_data f"
  pack_http2_frame_goaway parse_http2_frame_goaway
proof unfold_locales
  fix f rest assume wf: "goaway_wf f"
  let ?p = "put_uint32_in_be_stream (ga_last_stream_id f) @ put_uint32_in_be_stream (ga_error_code f) @ ga_debug_data f"
  show "hdr_ok (ga_hdr f)" and len: "length ?p = unat (hd_length (ga_hdr f))"
    using wf by (simp_all add: goaway_wf_def)
  then show "pack_http2_frame_goaway f = Some (http2_frame_header_pack (ga_hdr f) @ ?p)"
    using fill_header [of "hd_length (ga_hdr f)" ?p "ga_hdr f"]
    by (auto simp: pack_http2_frame_goaway_def hdr_ok_def)
  have i: "ga_last_stream_id f \<le> HTTP2_STREAM_ID_MASK" using wf by (simp add: goaway_wf_def)
  have n: "\<not> hd_length (ga_hdr f) < 8" "unat (hd_length (ga_hdr f) - 8) = length (ga_debug_data f)"
    using wf by (simp_all add: goaway_wf_def word_less_nat_alt word_le_nat_alt unat_sub_u32)
  show "parse_http2_frame_goaway (ga_hdr f) (?p @ rest) = Ok f"
    using id_field [OF i, of "put_uint32_in_be_stream (ga_error_code f) @ ga_debug_data f @ rest"] stream_id_mask [OF i] n wf
      MakeStaticSlice_exact [of "ga_debug_data f" rest]
    by (auto simp: parse_http2_frame_goaway_def goaway_wf_def)
qed

definition continuation_wf :: "http2_frame_continuation \<Rightarrow> bool" where
  "continuation_wf f \<longleftrightarrow> hdr_ok (con_hdr f) \<and> unat (hd_length (con_hdr f)) = length (con_header_block_fragment f)"

interpretation continuation: frame_codec con_hdr continuation_wf con_header_block_fragment
  pack_http2_frame_continuation parse_http2_frame_continuation
proof unfold_locales
  fix f rest assume wf: "continuation_wf f"
  then show "hdr_ok (con_hdr f)" and "length (con_header_block_fragment f) = unat (hd_length (con_hdr f))"
    by (simp_all add: continuation_wf_def)
  then show "pack_http2_frame_continuation f =
      Some (http2_frame_header_pack (con_hdr f) @ con_header_block_fragment f)"
    using fill_header [of "hd_length (con_hdr f)" "con_header_block_fragment f" "con_hdr f"]
    by (auto simp: pack_http2_frame_continuation_def hdr_ok_def)
  show "parse_http2_frame_continuation (con_hdr f) (con_header_block_fragment f @ rest) = Ok f"
    using wf MakeStaticSlice_exact [of "con_header_block_fragment f" rest]
    by (simp add: parse_http2_frame_continuation_def continuation_wf_def)
qed

section \<open>SETTINGS\<close>

definition settings_wf :: "http2_frame_settings \<Rightarrow> bool" where
  "settings_wf f \<longleftrightarrow> hdr_ok (set_hdr f) \<and> unat (hd_length (set_hdr f)) = 6 * length (set_settings f)"

lemma length_settings_payload: "length (concat (map pack_settings_entry es)) = 6 * length es"
  by (induction es) (simp_all add: pack_settings_entry_def)

lemma parse_settings_roundtrip:
  "parse_settings_loop (length es) (concat (map pack_settings_entry es) @ rest) = Ok es"
proof (induction es)
  case (Cons e es)
  let ?r = "concat (map pack_settings_entry es) @ rest"
  have "get_uint16_from_be_stream (pack_settings_entry e @ ?r) = Some (se_id e)"
    by (simp add: pack_settings_entry_def)
  moreover have "drop 2 (pack_settings_entry e @ ?r) = put_uint32_in_be_stream (se_value e) @ ?r"
    by (simp add: pack_settings_entry_def)
  moreover have "drop 6 (pack_settings_entry e @ ?r) = ?r" by (simp add: pack_settings_entry_def)
  ultimately show ?case using Cons.IH by (cases e) simp
qed simp

interpretation settings: frame_codec set_hdr settings_wf "\<lambda>f. concat (map pack_settings_entry (set_settings f))"
  pack_http2_frame_settings parse_http2_frame_settings
proof unfold_locales
  fix f rest assume wf: "settings_wf f"
  let ?p = "concat (map pack_settings_entry (set_settings f))"
  show "hdr_ok (set_hdr f)" "length ?p = unat (hd_length (set_hdr f))"
    using wf by (simp_all add: settings_wf_def length_settings_payload)
  then show "pack_http2_frame_settings f = Some (http2_frame_header_pack (set_hdr f) @ ?p)"
    using fill_header [of "hd_length (set_hdr f)" ?p "set_hdr f"]
    by (simp add: pack_http2_frame_settings_def hdr_ok_def)
  have "unat (hd_length (set_hdr f) mod 6) = 0" "unat (hd_length (set_hdr f) div 6) = length (set_settings f)"
    using wf by (simp_all add: unat_mod unat_div settings_wf_def)
  then have "hd_length (set_hdr f) mod 6 = 0" "unat (hd_length (set_hdr f) div 6) = length (set_settings f)"
    by (simp_all only: unat_eq_zero)
  then show "parse_http2_frame_settings (set_hdr f) (?p @ rest) = Ok f"
    using parse_settings_roundtrip [of "set_settings f" rest] by (simp add: parse_http2_frame_settings_def)
qed

section \<open>Padded frames\<close>

definition pad_prefix :: "http2_frame_hdr \<Rightarrow> u8 \<Rightarrow> bytes" where
  "pad_prefix h pad = (if has_flag (hd_flags h) Flag_Padded then [pad] else [])"

lemma word_eq_of_unat: "unat w = n \<Longrightarrow> w = word_of_nat n"
  by auto

lemma parse_padding_built:
  assumes len: "unat (hd_length h) = length (pad_prefix h pad) + length body + unat pad"
    and pad: "\<not> has_flag (hd_flags h) Flag_Padded \<Longrightarrow> pad = 0"
  shows "parse_padding h (pad_prefix h pad @ body @ replicate (unat pad) 0 @ rest) =
    Ok (pad, body @ replicate (unat pad) 0 @ rest, word_of_nat (length body))"
proof (cases "has_flag (hd_flags h) Flag_Padded")
  case False
  then have "hd_length h = word_of_nat (length body)"
    using len pad by (intro word_eq_of_unat) (simp add: pad_prefix_def)
  with False pad show ?thesis by (simp add: parse_padding_def pad_prefix_def)
next
  case True
  then have l: "unat (hd_length h) = unat pad + 1 + length body" using len by (simp add: pad_prefix_def)
  have le: "ucast pad + 1 \<le> hd_length h" using l unat_pad_length [of pad] by (simp add: word_le_nat_alt)
  have e: "hd_length h - ucast pad - 1 = hd_length h - (ucast pad + 1)" by (simp add: algebra_simps)
  have "unat (hd_length h - ucast pad - 1) = length body"
    unfolding e using l le by (subst unat_sub_u32) (simp_all only: unat_pad_length diff_add_inverse)
  then have "hd_length h - ucast pad - 1 = word_of_nat (length body)" by (rule word_eq_of_unat)
  moreover have "\<not> ucast pad + 1 > hd_length h" using le by simp
  ultimately show ?thesis using True by (simp add: parse_padding_def pad_prefix_def byte_at_def)
qed

definition push_promise_wf :: "http2_frame_push_promise \<Rightarrow> bool" where
  "push_promise_wf f \<longleftrightarrow> hdr_ok (pp_hdr f) \<and>
     unat (hd_length (pp_hdr f)) =
       length (pad_prefix (pp_hdr f) (pp_pad_len f)) + (4 + length (pp_header_block_fragment f)) + unat (pp_pad_len f) \<and>
     (\<not> has_flag (hd_flags (pp_hdr f)) Flag_Padded \<longrightarrow> pp_pad_len f = 0) \<and>
     pp_promised_stream_id f \<le> HTTP2_STREAM_ID_MASK \<and> pp_reserved f = 0"

interpretation push_promise: frame_codec pp_hdr push_promise_wf
  "\<lambda>f. pad_prefix (pp_hdr f) (pp_pad_len f) @
     (put_uint32_in_be_stream (pp_promised_stream_id f) @ pp_header_block_fragment f) @
     replicate (unat (pp_pad_len f)) 0"
  pack_http2_frame_push_promise parse_http2_frame_push_promise
proof unfold_locales
  fix f rest assume wf: "push_promise_wf f"
  let ?b = "put_uint32_in_be_stream (pp_promised_stream_id f) @ pp_header_block_fragment f"
  let ?p = "pad_prefix (pp_hdr f) (pp_pad_len f) @ ?b @ replicate (unat (pp_pad_len f)) 0"
  show "hdr_ok (pp_hdr f)" and len: "length ?p = unat (hd_length (pp_hdr f))"
    using wf by (simp_all add: push_promise_wf_def)
  then show "pack_http2_frame_push_promise f = Some (http2_frame_header_pack (pp_hdr f) @ ?p)"
    using fill_header [of "hd_length (pp_hdr f)" ?p "pp_hdr f"]
    by (simp add: pack_http2_frame_push_promise_def hdr_ok_def pad_prefix_def)
  have i: "pp_promised_stream_id f \<le> HTTP2_STREAM_ID_MASK" using wf by (simp add: push_promise_wf_def)
  have pad: "parse_padding (pp_hdr f) (?p @ rest) =
      Ok (pp_pad_len f, ?b @ replicate (unat (pp_pad_len f)) 0 @ rest, word_of_nat (length ?b))"
    using parse_padding_built [of "pp_hdr f" "pp_pad_len f" ?b rest] wf by (simp add: push_promise_wf_def)
  have small: "length ?b < 2 ^ 32" using wf by (simp add: push_promise_wf_def hdr_ok_def)
  then have u: "unat (word_of_nat (length ?b) :: u32) = length ?b" by (rule unat_of_nat_u32)
  then have n: "\<not> word_of_nat (length ?b) < (4 :: u32)" by (simp add: word_less_nat_alt)
  have "unat (word_of_nat (length ?b) - 4 :: u32) = length (pp_header_block_fragment f)"
    using u n by (subst unat_sub_u32) (simp_all add: not_less)
  with pad n wf id_field [OF i, of "pp_header_block_fragment f @ replicate (unat (pp_pad_len f)) 0 @ rest"]
    stream_id_mask [OF i] MakeStaticSlice_exact [of "pp_header_block_fragment f" "replicate (unat (pp_pad_len f)) 0 @ rest"]
  show "parse_http2_frame_push_promise (pp_hdr f) (?p @ rest) = Ok f"
    by (auto simp: parse_http2_frame_push_promise_def push_promise_wf_def)
qed

definition pspec_bytes :: "http2_frame_hdr \<Rightarrow> http2_priority_spec \<Rightarrow> bytes" where
  "pspec_bytes h ps =
     (if has_flag (hd_flags h) Flag_Priority then pack_dependency ps @ [ucast (ps_weight ps - 1)] else [])"

text \<open>
  The parser refuses a header block that leaves fewer than five octets after the padding, also
  when there are no priority fields; \<open>headers_wf\<close> has to exclude those frames.
\<close>

definition headers_wf :: "http2_frame_headers \<Rightarrow> bool" where
  "headers_wf f \<longleftrightarrow> hdr_ok (hds_hdr f) \<and>
     unat (hd_length (hds_hdr f)) =
       length (pad_prefix (hds_hdr f) (hds_pad_len f)) +
       (length (pspec_bytes (hds_hdr f) (hds_pspec f)) + length (hds_header_block_fragment f)) + unat (hds_pad_len f) \<and>
     (\<not> has_flag (hd_flags (hds_hdr f)) Flag_Padded \<longrightarrow> hds_pad_len f = 0) \<and>
     (if has_flag (hd_flags (hds_hdr f)) Flag_Priority then pspec_ok (hds_pspec f)
      else hds_pspec f = \<lparr>ps_depend_stream_id = 0, ps_weight = 0, ps_exclusive = 0\<rparr> \<and>
           5 \<le> length (hds_header_block_fragment f))"

interpretation headers: frame_codec hds_hdr headers_wf
  "\<lambda>f. pad_prefix (hds_hdr f) (hds_pad_len f) @
     (pspec_bytes (hds_hdr f) (hds_pspec f) @ hds_header_block_fragment f) @ replicate (unat (hds_pad_len f)) 0"
  pack_http2_frame_headers parse_http2_frame_headers
proof unfold_locales
  fix f and rest :: bytes assume wf: "headers_wf f"
  let ?b = "pspec_bytes (hds_hdr f) (hds_pspec f) @ hds_header_block_fragment f"
  let ?p = "pad_prefix (hds_hdr f) (hds_pad_len f) @ ?b @ replicate (unat (hds_pad_len f)) 0"
  let ?z = "replicate (unat (hds_pad_len f)) 0 @ rest"
  show "hdr_ok (hds_hdr f)" and len: "length ?p = unat (hd_length (hds_hdr f))"
    using wf by (simp_all add: headers_wf_def)
  then show "pack_http2_frame_headers f = Some (http2_frame_header_pack (hds_hdr f) @ ?p)"
    using fill_header [of "hd_length (hds_hdr f)" ?p "hds_hdr f"]
    by (simp add: pack_http2_frame_headers_def hdr_ok_def pad_prefix_def pspec_bytes_def)
  have pad: "parse_padding (hds_hdr f) (?p @ rest) =
      Ok (hds_pad_len f, ?b @ ?z, word_of_nat (length ?b))"
    using parse_padding_built [of "hds_hdr f" "hds_pad_len f" ?b rest] wf by (simp add: headers_wf_def)
  have "length ?b < 2 ^ 32" using wf by (simp add: headers_wf_def hdr_ok_def)
  then have u: "unat (word_of_nat (length ?b) :: u32) = length ?b" by (rule unat_of_nat_u32)
  have "5 \<le> length ?b" using wf by (auto simp: headers_wf_def pspec_bytes_def split: if_splits)
  then have n: "\<not> word_of_nat (length ?b) < (5 :: u32)" using u by (simp add: word_less_nat_alt)
  show "parse_http2_frame_headers (hds_hdr f) (?p @ rest) = Ok f"
  proof (cases "has_flag (hd_flags (hds_hdr f)) Flag_Priority")
    case False
    with pad n u wf MakeStaticSlice_exact [of "hds_header_block_fragment f" ?z] show ?thesis
      by (cases f) (simp add: parse_http2_frame_headers_def headers_wf_def pspec_bytes_def)
  next
    case True
    let ?w = "pack_dependency (hds_pspec f) @ ucast (ps_weight (hds_pspec f) - 1) # hds_header_block_fragment f @ ?z"
    have ps: "pspec_ok (hds_pspec f)" using wf True by (simp add: headers_wf_def)
    have b: "?b @ ?z = ?w" using True by (simp add: pspec_bytes_def)
    have "unat (word_of_nat (length ?b) - 5 :: u32) = length (hds_header_block_fragment f)"
      using u n True by (subst unat_sub_u32) (simp_all add: not_less pspec_bytes_def)
    moreover have "\<exists>L. L = (word_of_nat (length ?b) :: u32)" by simp
    ultimately obtain L :: u32 where L: "word_of_nat (length ?b) = L" "unat (L - 5) = length (hds_header_block_fragment f)"
      by metis
    have d: "drop 5 ?w = hds_header_block_fragment f @ ?z" by simp
    have "parse_http2_frame_headers (hds_hdr f) (?p @ rest) =
        outcome_bind (of_read (MakeStaticSlice (drop 5 ?w) (unat (L - 5)))) (\<lambda>s.
          Ok \<lparr>hds_hdr = hds_hdr f, hds_pad_len = hds_pad_len f, hds_pspec = hds_pspec f, hds_header_block_fragment = s\<rparr>)"
      unfolding parse_http2_frame_headers_def pad b L(1) outcome_bind.simps prod.case
        parse_pspec [OF ps, of "hds_header_block_fragment f @ ?z" "\<lambda>p. Ok (p, drop 5 ?w, L - 5)"]
      using n True unfolding L(1) by (simp only: if_True if_False outcome_bind.simps prod.case)
    then show ?thesis
      unfolding d using L(2) MakeStaticSlice_exact [of "hds_header_block_fragment f" ?z] by simp
  qed
qed

end
