(* ===== verification/Frame_Data.thy ===== *)
theory Frame_Data
  imports Frame_Codec
begin

text \<open>
  DATA frames: \<^verbatim>\<open>pack_http2_frame_data\<close> splits a body into frames of at most the peer's maximum
  frame size. \<open>data_frames\<close> is the list of frames that should come out; the loop writes exactly it.
\<close>

section \<open>The specification\<close>

definition end_bit :: u8 where "end_bit = frame_flag Flag_EndStream"

function data_frames :: "nat \<Rightarrow> http2_frame_hdr \<Rightarrow> bytes \<Rightarrow> (http2_frame_hdr \<times> bytes) list" where
  "data_frames m h bs =
     (if m = 0 \<or> bs = [] then []
      else (h\<lparr>hd_length := word_of_nat (length (take m bs)),
              hd_flags := (if drop m bs = [] then hd_flags h else hd_flags h AND NOT end_bit)\<rparr>, take m bs)
           # data_frames m h (drop m bs))"
  by pat_completeness auto
termination
  by (relation "measure (\<lambda>(m, h, bs). length bs)") auto

declare data_frames.simps [simp del]

lemma data_frames_Nil [simp]: "data_frames m h [] = []"
  by (subst data_frames.simps) simp

lemma data_frames_step:
  "m \<noteq> 0 \<Longrightarrow> bs \<noteq> [] \<Longrightarrow> data_frames m h bs =
     (h\<lparr>hd_length := word_of_nat (length (take m bs)),
        hd_flags := (if drop m bs = [] then hd_flags h else hd_flags h AND NOT end_bit)\<rparr>, take m bs)
     # data_frames m h (drop m bs)"
  by (subst data_frames.simps) simp

definition wire :: "http2_frame_hdr \<times> bytes \<Rightarrow> bytes" where
  "wire f = http2_frame_header_pack (fst f) @ snd f"

section \<open>The loop writes it\<close>

lemma flags_restore: "(f AND NOT end_bit) OR (f AND end_bit) = (f :: u8)"
  by (metis (no_types, lifting) bit.conj_disj_distrib bit.disj_cancel_right and.right_neutral or.commute bit.double_compl)

lemma flags_keep: "f OR (f AND end_bit) = (f :: u8)"
  by (rule bit_word_eqI) (auto simp: bit_simps)

lemma flags_clear_twice: "(f AND NOT end_bit) AND NOT end_bit = (f AND NOT end_bit :: u8)"
  by (simp add: and.assoc)

text \<open>One pass of the loop, with the chunk length and the new flags named.\<close>

lemma pack_data_loop_step:
  assumes r: "unat r < length data"
    and n: "n = (if word_of_nat (length data) - r < m then word_of_nat (length data) - r else m)"
    and fl: "fl = (if unat (r + n) \<ge> length data then flc OR esf else flc AND NOT (frame_flag Flag_EndStream))"
  shows "pack_data_loop data m esf (h\<lparr>hd_length := l, hd_flags := flc\<rparr>) r buf =
    pack_data_loop data m esf (h\<lparr>hd_length := n, hd_flags := fl\<rparr>) (r + n)
      (sb_add_slice buf (http2_frame_header_pack (h\<lparr>hd_length := n, hd_flags := fl\<rparr>) @ take (unat n) (drop (unat r) data)))"
  unfolding pack_data_loop.simps [of data m esf "h\<lparr>hd_length := l, hd_flags := flc\<rparr>" r buf] Let_def n [symmetric]
  using r by (simp add: fl)

lemma pack_data_loop_spec:
  assumes m: "m \<noteq> 0" and len: "length data < 2 ^ 32"
    and fl: "flc = hd_flags h \<or> flc = hd_flags h AND NOT end_bit"
    and r: "unat r \<le> length data" and inv: "sb_inv buf"
  shows "\<exists>buf'. pack_data_loop data m (hd_flags h AND end_bit) (h\<lparr>hd_length := l, hd_flags := flc\<rparr>) r buf = Some buf' \<and>
    sb_inv buf' \<and>
    sb_contents buf' = sb_contents buf @ concat (map wire (data_frames (unat m) h (drop (unat r) data)))"
  using fl r inv
proof (induction "length data - unat r" arbitrary: r buf l flc rule: less_induct)
  case less
  show ?case
  proof (cases "unat r < length data")
    case False
    then show ?thesis using less.prems by (subst pack_data_loop.simps) simp
  next
    case True
    let ?rem = "word_of_nat (length data) - r :: u32"
    let ?len = "if ?rem < m then ?rem else m"
    let ?bs = "drop (unat r) data"
    have ud: "unat (word_of_nat (length data) :: u32) = length data" using len by (rule unat_of_nat_u32)
    have rem: "unat ?rem = length data - unat r"
      using ud True by (subst unat_sub_u32) (simp_all add: word_le_nat_alt)
    have ulen: "unat ?len = min (unat m) (length data - unat r)"
      using rem by (simp add: word_less_nat_alt min_def)
    have m0: "unat m \<noteq> 0" using m by (simp add: unat_eq_zero)
    have add: "unat (r + ?len) = unat r + unat ?len"
      using ulen True len by (intro unat_add_u32) linarith
    have chunk: "take (unat ?len) ?bs = take (unat m) ?bs" unfolding ulen by (simp add: min_def)
    have lchunk: "?len = word_of_nat (length (take (unat m) ?bs))"
      by (rule word_eq_of_unat) (simp add: ulen min.commute)
    have last: "unat (r + ?len) \<ge> length data \<longleftrightarrow> drop (unat m) ?bs = []"
      unfolding add ulen using True by (auto simp: min_def)
    let ?fl = "if unat (r + ?len) \<ge> length data then flc OR (hd_flags h AND end_bit) else flc AND NOT end_bit"
    have fl': "?fl = (if drop (unat m) ?bs = [] then hd_flags h else hd_flags h AND NOT end_bit)"
      unfolding last using less.prems(1) flags_restore flags_keep flags_clear_twice by auto
    let ?f = "(h\<lparr>hd_length := ?len, hd_flags := ?fl\<rparr>, take (unat m) ?bs)"
    have frames: "data_frames (unat m) h ?bs = ?f # data_frames (unat m) h (drop (unat m) ?bs)"
      unfolding fl' using data_frames_step [OF m0, of ?bs h] True by (simp only: lchunk) simp
    have rest: "data_frames (unat m) h (drop (unat m) ?bs) = data_frames (unat m) h (drop (unat (r + ?len)) data)"
      unfolding add ulen by (simp add: min_def add.commute)
    have shorter: "length data - unat (r + ?len) < length data - unat r" "unat (r + ?len) \<le> length data"
      unfolding add ulen using m0 True by auto
    have "?fl = hd_flags h \<or> ?fl = hd_flags h AND NOT end_bit" unfolding fl' by simp
    from less.hyps [OF shorter(1) this shorter(2) sb_inv_add [OF less.prems(3), of "wire ?f"], of ?len]
    obtain buf' where ih: "pack_data_loop data m (hd_flags h AND end_bit) (h\<lparr>hd_length := ?len, hd_flags := ?fl\<rparr>) (r + ?len)
        (sb_add_slice buf (wire ?f)) = Some buf'" "sb_inv buf'"
      "sb_contents buf' = sb_contents (sb_add_slice buf (wire ?f)) @
        concat (map wire (data_frames (unat m) h (drop (unat (r + ?len)) data)))"
      by blast
    have "pack_data_loop data m (hd_flags h AND end_bit) (h\<lparr>hd_length := l, hd_flags := flc\<rparr>) r buf = Some buf'"
      using ih(1) pack_data_loop_step [OF True refl refl, where m = m and flc = flc and
          esf = "hd_flags h AND end_bit" and h = h and l = l and buf = buf]
      unfolding wire_def fst_conv snd_conv chunk [symmetric] end_bit_def by (simp only:)
    moreover have "sb_contents buf' = sb_contents buf @ concat (map wire (data_frames (unat m) h ?bs))"
      unfolding ih(3) frames rest sb_contents_add [OF less.prems(3)] by simp
    ultimately show ?thesis using ih(2) by blast
  qed
qed

section \<open>What the receiver sees\<close>

lemma read_frames_wire:
  "\<forall>f \<in> set fs. hdr_ok (fst f) \<and> length (snd f) = unat (hd_length (fst f)) \<Longrightarrow>
     read_frames (length fs) (concat (map wire fs) @ rest) = Some (fs, rest)"
proof (induction fs)
  case (Cons f fs)
  have "next_frame (wire f @ concat (map wire fs) @ rest) = Some (fst f, snd f, concat (map wire fs) @ rest)"
    using next_frame_pack [of "fst f" "snd f"] Cons.prems by (simp add: wire_def)
  with Cons show ?case by simp
qed simp

text \<open>The header fields that splitting leaves alone, and the bounds on what it sets.\<close>

definition data_frame_ok :: "nat \<Rightarrow> http2_frame_hdr \<Rightarrow> http2_frame_hdr \<times> bytes \<Rightarrow> bool" where
  "data_frame_ok m h f \<longleftrightarrow>
     length (snd f) = unat (hd_length (fst f)) \<and> length (snd f) \<le> m \<and>
     hd_type (fst f) = hd_type h \<and> hd_stream_id (fst f) = hd_stream_id h \<and> hd_reserved (fst f) = hd_reserved h \<and>
     (hd_flags (fst f) = hd_flags h \<or> hd_flags (fst f) = hd_flags h AND NOT end_bit)"

lemma data_frames_ok:
  "m < 2 ^ 32 \<Longrightarrow> f \<in> set (data_frames m h bs) \<Longrightarrow> data_frame_ok m h f"
proof (induction m h bs rule: data_frames.induct)
  case (1 m h bs)
  then have ne: "m \<noteq> 0" "bs \<noteq> []" by (auto simp: data_frames.simps [of m h bs] split: if_splits)
  have u: "unat (word_of_nat (length (take m bs)) :: u32) = length (take m bs)"
    using 1(2) by (intro unat_of_nat_u32) simp
  from 1(3) consider "f = (h\<lparr>hd_length := word_of_nat (length (take m bs)),
        hd_flags := (if drop m bs = [] then hd_flags h else hd_flags h AND NOT end_bit)\<rparr>, take m bs)"
    | "f \<in> set (data_frames m h (drop m bs))"
    unfolding data_frames_step [OF ne] by auto
  then show ?case
  proof cases
    case 1
    with u show ?thesis by (simp add: data_frame_ok_def)
  next
    case 2
    with ne 1(2) show ?thesis by (intro "1.IH") auto
  qed
qed

lemma data_frames_concat: "m \<noteq> 0 \<Longrightarrow> concat (map snd (data_frames m h bs)) = bs"
proof (induction m h bs rule: data_frames.induct)
  case (1 m h bs)
  then show ?case by (cases "bs = []") (simp_all add: data_frames_step)
qed

lemma data_frames_flags:
  "m \<noteq> 0 \<Longrightarrow> bs \<noteq> [] \<Longrightarrow> data_frames m h bs \<noteq> [] \<and>
     hd_flags (fst (last (data_frames m h bs))) = hd_flags h \<and>
     (\<forall>f \<in> set (butlast (data_frames m h bs)). hd_flags (fst f) = hd_flags h AND NOT end_bit)"
proof (induction m h bs rule: data_frames.induct)
  case (1 m h bs)
  show ?case
  proof (cases "drop m bs = []")
    case True
    then show ?thesis using 1(2,3) by (simp add: data_frames_step)
  next
    case False
    from 1(1) [OF _ 1(2) False] 1(2,3) False show ?thesis by (simp add: data_frames_step [of m bs])
  qed
qed

lemma parse_unpadded_data:
  assumes "\<not> has_flag (hd_flags h) Flag_Padded" "length p = unat (hd_length h)"
  shows "parse_http2_frame_data h (p @ rest) = Ok \<lparr>dat_hdr = h, dat_pad_len = 0, dat_data = p\<rparr>"
  using assms MakeStaticSlice_exact [of p rest]
  by (simp add: parse_http2_frame_data_def parse_padding_def)

lemma pack_data_spec:
  assumes "m \<noteq> 0" "length (dat_data f) < 2 ^ 32"
  shows "\<exists>buf. pack_http2_frame_data f m = Some buf \<and> sb_inv buf \<and>
    sb_contents buf = (let h = (dat_hdr f)\<lparr>hd_flags := hd_flags (dat_hdr f) AND NOT (frame_flag Flag_Padded)\<rparr> in
      concat (map wire (if dat_data f = [] then [(h\<lparr>hd_length := 0\<rparr>, [])] else data_frames (unat m) h (dat_data f))))"
proof (cases "dat_data f = []")
  case True
  then show ?thesis
    using flags_keep by (simp add: pack_http2_frame_data_def Let_def sb_inv_add sb_inv_new sb_contents_add
      sb_contents_new wire_def end_bit_def)
next
  case False
  let ?h = "(dat_hdr f)\<lparr>hd_flags := hd_flags (dat_hdr f) AND NOT (frame_flag Flag_Padded)\<rparr>"
  have h: "?h\<lparr>hd_length := hd_length ?h, hd_flags := hd_flags ?h\<rparr> = ?h" by simp
  from pack_data_loop_spec [OF assms, of "hd_flags ?h" ?h 0 slice_buffer_new "hd_length ?h"] False
  show ?thesis
    unfolding h by (simp add: pack_http2_frame_data_def Let_def sb_inv_new sb_contents_new end_bit_def)
qed

end
