(* ===== verification/Frame_Properties.thy ===== *)
theory Frame_Properties
  imports Frame_Data
begin

text \<open>
  What the frame layer promises: parsing inverts serialising for every frame type, the builders
  produce frames the serialisers accept, DATA is split as the protocol demands, and the parsers
  stay inside a payload that is there.
\<close>

section \<open>Round trips\<close>

text \<open>C12. Control frames: serialising a well-formed RST_STREAM, PRIORITY, PING, WINDOW_UPDATE, SETTINGS or
  GOAWAY frame succeeds; framing the bytes, whatever follows them, gives the frame's header and a
  payload from which the parser rebuilds the same frame.\<close>

theorem control_frames_roundtrip:
  "(rst_wf f1 \<longrightarrow> (\<exists>p. next_frame (pack_http2_frame_rst_stream f1 @ rest) = Some (rst_hdr f1, p, rest) \<and>
      parse_http2_frame_rst_stream (rst_hdr f1) p = Ok f1)) \<and>
   (priority_wf f2 \<longrightarrow> (\<exists>p. next_frame (pack_http2_frame_priority f2 @ rest) = Some (pri_hdr f2, p, rest) \<and>
      parse_http2_frame_priority (pri_hdr f2) p = Ok f2)) \<and>
   (ping_wf f3 \<longrightarrow> (\<exists>p. next_frame (pack_http2_frame_ping f3 @ rest) = Some (png_hdr f3, p, rest) \<and>
      parse_http2_frame_ping (png_hdr f3) p = Ok f3)) \<and>
   (window_update_wf f4 \<longrightarrow> (\<exists>p. next_frame (pack_http2_frame_window_update f4 @ rest) = Some (wu_hdr f4, p, rest) \<and>
      parse_http2_frame_window_update (wu_hdr f4) p = Ok f4)) \<and>
   (settings_wf f5 \<longrightarrow> (\<exists>w p. pack_http2_frame_settings f5 = Some w \<and> next_frame (w @ rest) = Some (set_hdr f5, p, rest) \<and>
      parse_http2_frame_settings (set_hdr f5) p = Ok f5)) \<and>
   (goaway_wf f6 \<longrightarrow> (\<exists>w p. pack_http2_frame_goaway f6 = Some w \<and> next_frame (w @ rest) = Some (ga_hdr f6, p, rest) \<and>
      parse_http2_frame_goaway (ga_hdr f6) p = Ok f6))"
  using rst.wire_roundtrip [of f1 rest] priority.wire_roundtrip [of f2 rest] ping.wire_roundtrip [of f3 rest]
    window_update.wire_roundtrip [of f4 rest] settings.wire_roundtrip [of f5 rest] goaway.wire_roundtrip [of f6 rest]
  by (intro conjI impI) auto

lemma settings_example_wf: "settings_wf (build_http2_frame_settings 0 [\<lparr>se_id = 4, se_value = 65535\<rparr>])"
  by (simp add: settings_wf_def build_http2_frame_settings_def http2_frame_header_init_def hdr_ok_def Let_def)

theorem control_frames_roundtrip_witness:
  "\<exists>w p. pack_http2_frame_settings (build_http2_frame_settings 0 [\<lparr>se_id = 4, se_value = 65535\<rparr>]) = Some w \<and>
     next_frame (w @ [0xFF]) = Some (set_hdr (build_http2_frame_settings 0 [\<lparr>se_id = 4, se_value = 65535\<rparr>]), p, [0xFF]) \<and>
     parse_http2_frame_settings (set_hdr (build_http2_frame_settings 0 [\<lparr>se_id = 4, se_value = 65535\<rparr>])) p =
       Ok (build_http2_frame_settings 0 [\<lparr>se_id = 4, se_value = 65535\<rparr>])"
  using control_frames_roundtrip [of _ "[0xFF]" _ _ _ "build_http2_frame_settings 0 [\<lparr>se_id = 4, se_value = 65535\<rparr>]"]
    settings_example_wf by blast

text \<open>C11. Header-carrying frames, with or without padding and priority fields: the same for HEADERS,
  PUSH_PROMISE and CONTINUATION.\<close>

theorem header_frames_roundtrip:
  "(headers_wf f1 \<longrightarrow> (\<exists>w p. pack_http2_frame_headers f1 = Some w \<and> next_frame (w @ rest) = Some (hds_hdr f1, p, rest) \<and>
      parse_http2_frame_headers (hds_hdr f1) p = Ok f1)) \<and>
   (push_promise_wf f2 \<longrightarrow> (\<exists>w p. pack_http2_frame_push_promise f2 = Some w \<and> next_frame (w @ rest) = Some (pp_hdr f2, p, rest) \<and>
      parse_http2_frame_push_promise (pp_hdr f2) p = Ok f2)) \<and>
   (continuation_wf f3 \<longrightarrow> (\<exists>w p. pack_http2_frame_continuation f3 = Some w \<and> next_frame (w @ rest) = Some (con_hdr f3, p, rest) \<and>
      parse_http2_frame_continuation (con_hdr f3) p = Ok f3))"
  using headers.wire_roundtrip [of f1 rest] push_promise.wire_roundtrip [of f2 rest] continuation.wire_roundtrip [of f3 rest]
  by (intro conjI impI) auto

definition padded_headers_example :: http2_frame_headers where
  "padded_headers_example =
     \<lparr>hds_hdr = \<lparr>hd_length = 9, hd_type = 1, hd_flags = 0x2C, hd_reserved = 0, hd_stream_id = 1\<rparr>,
      hds_pad_len = 2, hds_pspec = \<lparr>ps_depend_stream_id = 3, ps_weight = 16, ps_exclusive = 1\<rparr>,
      hds_header_block_fragment = [0x82]\<rparr>"

theorem header_frames_roundtrip_witness:
  "\<exists>w p. pack_http2_frame_headers padded_headers_example = Some w \<and>
     next_frame (w @ []) = Some (hds_hdr padded_headers_example, p, []) \<and>
     parse_http2_frame_headers (hds_hdr padded_headers_example) p = Ok padded_headers_example"
proof -
  have "headers_wf padded_headers_example"
    by (simp add: headers_wf_def padded_headers_example_def hdr_ok_def HTTP2_STREAM_ID_MASK_def pad_prefix_def
        pspec_bytes_def has_flag_def pspec_ok_def)
  then show ?thesis using header_frames_roundtrip [of padded_headers_example "[]"] by blast
qed

section \<open>Builders\<close>

lemma hdr_ok_init: "n < 2 ^ 24 \<Longrightarrow> i \<le> HTTP2_STREAM_ID_MASK \<Longrightarrow> hdr_ok (http2_frame_header_init n t fl i)"
  by (simp add: hdr_ok_def http2_frame_header_init_def unat_of_nat take_bit_nat_eq_self)

lemma init_simps [simp]:
  "hd_type (http2_frame_header_init n t fl i) = t"
  "hd_flags (http2_frame_header_init n t fl i) = fl"
  "hd_stream_id (http2_frame_header_init n t fl i) = i"
  "n < 2 ^ 32 \<Longrightarrow> unat (hd_length (http2_frame_header_init n t fl i)) = n"
  "hd_length (http2_frame_header_init (numeral k) t fl i) = numeral k"
  by (simp_all add: http2_frame_header_init_def unat_of_nat take_bit_nat_eq_self)

text \<open>C35. What the builders produce is what the serialisers accept: for stream identifiers of 31 bits and
  payloads below 2^24 bytes, every built control frame is well-formed, so it is written without
  overrunning or underfilling its allocation.\<close>

theorem built_frames_well_formed:
  assumes "i \<le> HTTP2_STREAM_ID_MASK" "j \<le> HTTP2_STREAM_ID_MASK"
    and "6 * length ss < 2 ^ 24" "8 + length debug < 2 ^ 24" "length opaque = 8"
  shows "rst_wf (build_http2_frame_rst_stream i fl e) \<and>
    (pspec_ok ps \<longrightarrow> priority_wf (build_http2_frame_priority i fl ps)) \<and>
    ping_wf (build_http2_frame_ping opaque ack) \<and>
    window_update_wf (build_http2_frame_window_update i j) \<and>
    goaway_wf (build_http2_frame_goaway j e debug) \<and>
    settings_wf (build_http2_frame_settings sfl ss)"
proof -
  have z: "(0 :: u32) \<le> HTTP2_STREAM_ID_MASK" by simp
  show ?thesis
    using assms z
    by (auto simp: rst_wf_def priority_wf_def ping_wf_def window_update_wf_def goaway_wf_def settings_wf_def
        build_http2_frame_rst_stream_def build_http2_frame_priority_def build_http2_frame_ping_def
        build_http2_frame_window_update_def build_http2_frame_goaway_def build_http2_frame_settings_def
        Let_def hdr_ok_init intro!: hdr_ok_init)
qed

theorem built_frames_well_formed_witness:
  "goaway_wf (build_http2_frame_goaway 5 2 [0x6F, 0x6B]) \<and> ping_wf (build_http2_frame_ping [1, 2, 3, 4, 5, 6, 7, 8] True)"
  using built_frames_well_formed [of 1 5 "[]" "[0x6F, 0x6B]" "[1, 2, 3, 4, 5, 6, 7, 8]" 0 2 undefined True 0]
  by (simp add: HTTP2_STREAM_ID_MASK_def)

section \<open>DATA\<close>

lemma padded_cleared: "\<not> has_flag (f AND NOT (frame_flag Flag_Padded)) Flag_Padded"
  by (simp add: has_flag_def and.assoc)

lemma padded_cleared_end: "\<not> has_flag ((f AND NOT (frame_flag Flag_Padded)) AND NOT end_bit) Flag_Padded"
proof -
  have "(f AND NOT (frame_flag Flag_Padded)) AND NOT end_bit AND frame_flag Flag_Padded =
      (f AND NOT (frame_flag Flag_Padded) AND frame_flag Flag_Padded) AND NOT end_bit"
    by (simp only: and.assoc and.commute and.left_commute)
  then show ?thesis by (simp add: has_flag_def and.assoc)
qed

lemma end_flag_unpadded: "has_flag (f AND NOT (frame_flag Flag_Padded)) Flag_EndStream \<longleftrightarrow> has_flag f Flag_EndStream"
proof -
  have "NOT (8 :: u8) AND 1 = 1" by simp
  then show ?thesis by (simp add: has_flag_def and.assoc)
qed

lemma end_flag_cleared: "\<not> has_flag (f AND NOT end_bit) Flag_EndStream"
  by (simp add: has_flag_def end_bit_def and.assoc)

text \<open>C8. Sending a body: the bytes \<^verbatim>\<open>pack_http2_frame_data\<close> emits are a sequence of DATA frames that the
  receiver frames and parses back, each no longer than the peer's maximum frame size, whose payloads
  concatenate to the body; END_STREAM is on the last frame exactly when it was asked for and on no
  other, and an empty body still gives one frame.\<close>

theorem data_split_correct:
  assumes "m \<noteq> 0" "unat m < 2 ^ 24" "length (dat_data f) < 2 ^ 32"
    and "hd_stream_id (dat_hdr f) \<le> HTTP2_STREAM_ID_MASK" "hd_reserved (dat_hdr f) = 0"
  shows "\<exists>buf fs. pack_http2_frame_data f m = Some buf \<and> fs \<noteq> [] \<and>
    read_frames (length fs) (sb_contents buf) = Some (fs, []) \<and>
    concat (map snd fs) = dat_data f \<and>
    (\<forall>(h, p) \<in> set fs. parse_http2_frame_data h p = Ok \<lparr>dat_hdr = h, dat_pad_len = 0, dat_data = p\<rparr> \<and>
       length p \<le> unat m \<and> hd_type h = hd_type (dat_hdr f) \<and> hd_stream_id h = hd_stream_id (dat_hdr f)) \<and>
    (has_flag (hd_flags (fst (last fs))) Flag_EndStream \<longleftrightarrow> has_flag (hd_flags (dat_hdr f)) Flag_EndStream) \<and>
    (\<forall>(h, p) \<in> set (butlast fs). \<not> has_flag (hd_flags h) Flag_EndStream)"
proof -
  let ?h = "(dat_hdr f)\<lparr>hd_flags := hd_flags (dat_hdr f) AND NOT (frame_flag Flag_Padded)\<rparr>"
  let ?fs = "if dat_data f = [] then [(?h\<lparr>hd_length := 0\<rparr>, [])] else data_frames (unat m) ?h (dat_data f)"
  have m0: "unat m \<noteq> 0" using assms(1) by (simp add: unat_eq_zero)
  obtain buf where buf: "pack_http2_frame_data f m = Some buf" "sb_contents buf = concat (map wire ?fs)"
    using pack_data_spec [OF assms(1,3)] by (auto simp: Let_def)
  have ok: "data_frame_ok (unat m) ?h g" if "g \<in> set ?fs" for g
  proof (cases "dat_data f = []")
    case True
    with that show ?thesis by (simp add: data_frame_ok_def)
  next
    case False
    have "unat m < 2 ^ 32" using assms(2) by simp
    with False that show ?thesis by (intro data_frames_ok) auto
  qed
  have unp: "\<not> has_flag (hd_flags (fst g)) Flag_Padded" if "g \<in> set ?fs" for g
    using ok [OF that] padded_cleared padded_cleared_end by (auto simp: data_frame_ok_def)
  have hdr: "hdr_ok (fst g) \<and> length (snd g) = unat (hd_length (fst g))" if "g \<in> set ?fs" for g
    using ok [OF that] assms(2,4,5) by (auto simp: data_frame_ok_def hdr_ok_def)
  have "read_frames (length ?fs) (sb_contents buf) = Some (?fs, [])"
    using read_frames_wire [of ?fs "[]"] hdr unfolding buf(2) by (simp only: append_Nil2) blast
  moreover have "concat (map snd ?fs) = dat_data f" using data_frames_concat [OF m0] by simp
  moreover have "\<forall>(h, p) \<in> set ?fs. parse_http2_frame_data h p = Ok \<lparr>dat_hdr = h, dat_pad_len = 0, dat_data = p\<rparr> \<and>
       length p \<le> unat m \<and> hd_type h = hd_type (dat_hdr f) \<and> hd_stream_id h = hd_stream_id (dat_hdr f)"
  proof
    fix g assume g: "g \<in> set ?fs"
    from parse_unpadded_data [OF unp [OF g], of "snd g" "[]"] hdr [OF g] ok [OF g]
    show "case g of (h, p) \<Rightarrow> parse_http2_frame_data h p = Ok \<lparr>dat_hdr = h, dat_pad_len = 0, dat_data = p\<rparr> \<and>
       length p \<le> unat m \<and> hd_type h = hd_type (dat_hdr f) \<and> hd_stream_id h = hd_stream_id (dat_hdr f)"
      by (cases g) (simp add: data_frame_ok_def)
  qed
  moreover have "?fs \<noteq> [] \<and> (has_flag (hd_flags (fst (last ?fs))) Flag_EndStream \<longleftrightarrow> has_flag (hd_flags (dat_hdr f)) Flag_EndStream) \<and>
      (\<forall>(h, p) \<in> set (butlast ?fs). \<not> has_flag (hd_flags h) Flag_EndStream)"
  proof (cases "dat_data f = []")
    case True
    then show ?thesis using end_flag_unpadded by simp
  next
    case False
    note fl = data_frames_flags [OF m0 False, of ?h]
    then have "\<not> has_flag (hd_flags h) Flag_EndStream" if "(h, p) \<in> set (butlast (data_frames (unat m) ?h (dat_data f)))" for h p
      using that end_flag_cleared by (metis fst_conv)
    with fl False show ?thesis using end_flag_unpadded by auto
  qed
  ultimately show ?thesis using buf(1) by blast
qed

theorem data_split_correct_witness:
  "\<exists>buf fs. pack_http2_frame_data (build_http2_frame_data 1 1 [10, 20, 30, 40, 50]) 2 = Some buf \<and>
     read_frames (length fs) (sb_contents buf) = Some (fs, []) \<and> concat (map snd fs) = [10, 20, 30, 40, 50] \<and>
     (\<forall>(h, p) \<in> set fs. length p \<le> 2)"
proof -
  let ?f = "build_http2_frame_data 1 1 [10, 20, 30, 40, 50]"
  have "dat_data ?f = [10, 20, 30, 40, 50]" "hd_stream_id (dat_hdr ?f) \<le> HTTP2_STREAM_ID_MASK" "hd_reserved (dat_hdr ?f) = 0"
    by (simp_all add: build_http2_frame_data_def http2_frame_header_init_def HTTP2_STREAM_ID_MASK_def)
  with data_split_correct [of 2 ?f] show ?thesis by fastforce
qed

section \<open>Reading inside the payload\<close>

lemma byte_at_0_present: "bs \<noteq> [] \<Longrightarrow> \<exists>x. byte_at bs 0 = Some x"
  by (simp add: byte_at_def)

lemma parse_data_no_fault: "payload_present h input \<Longrightarrow> parse_http2_frame_data h input \<noteq> Fault"
  using parse_padding_spec [of h input]
  by (auto simp: parse_http2_frame_data_def frame_size_error_def MakeStaticSlice_def outcome_bind_eq_Fault)

lemma parse_headers_no_fault:
  assumes "payload_present h input" shows "parse_http2_frame_headers h input \<noteq> Fault"
proof (cases "parse_padding h input = frame_size_error")
  case True
  then show ?thesis by (simp add: parse_http2_frame_headers_def frame_size_error_def)
next
  case False
  then obtain p payload n where p: "parse_padding h input = Ok (p, payload, n)" "unat n \<le> length payload"
    using parse_padding_spec [OF assms] by blast
  show ?thesis
  proof (cases "n < 5")
    case True
    then show ?thesis using p by (simp add: parse_http2_frame_headers_def frame_size_error_def)
  next
    case False
    then have n: "5 \<le> unat n" by (simp add: not_less word_le_nat_alt)
    then have "unat (n - 5) = unat n - 5" by (simp add: unat_sub_u32 word_le_nat_alt)
    moreover have ne: "payload \<noteq> []" using n p(2) by auto
    obtain x b0 b4 where "get_uint32_from_be_stream payload = Some x" "byte_at payload 0 = Some b0" "byte_at payload 4 = Some b4"
      using n p(2) ne get_uint32_present [of payload] byte_at_0_present [of payload] byte_at_present [of 4 payload] by auto
    ultimately show ?thesis
      using False p n by (auto simp: parse_http2_frame_headers_def MakeStaticSlice_def)
  qed
qed

lemma parse_push_promise_no_fault:
  assumes "payload_present h input" shows "parse_http2_frame_push_promise h input \<noteq> Fault"
proof (cases "parse_padding h input = frame_size_error")
  case True
  then show ?thesis by (simp add: parse_http2_frame_push_promise_def frame_size_error_def)
next
  case False
  then obtain p payload n where p: "parse_padding h input = Ok (p, payload, n)" "unat n \<le> length payload"
    using parse_padding_spec [OF assms] by blast
  show ?thesis
  proof (cases "n < 4")
    case True
    then show ?thesis using p by (simp add: parse_http2_frame_push_promise_def frame_size_error_def)
  next
    case False
    then have n: "4 \<le> unat n" by (simp add: not_less word_le_nat_alt)
    then have "unat (n - 4) = unat n - 4" by (simp add: unat_sub_u32 word_le_nat_alt)
    moreover have ne: "payload \<noteq> []" using n p(2) by auto
    obtain x b0 where "get_uint32_from_be_stream payload = Some x" "byte_at payload 0 = Some b0"
      using n p(2) ne get_uint32_present [of payload] byte_at_0_present [of payload] by auto
    ultimately show ?thesis
      using False p n by (auto simp: parse_http2_frame_push_promise_def MakeStaticSlice_def)
  qed
qed

lemma parse_fixed_no_fault:
  assumes "unat (hd_length h) \<le> length input"
  shows "parse_http2_frame_priority h input \<noteq> Fault" "parse_http2_frame_rst_stream h input \<noteq> Fault"
    "parse_http2_frame_ping h input \<noteq> Fault" "parse_http2_frame_window_update h input \<noteq> Fault"
  using assms get_uint32_present [of input] byte_at_0_present [of input] byte_at_present [of 4 input]
  by (auto simp: parse_http2_frame_priority_def parse_http2_frame_rst_stream_def parse_http2_frame_ping_def
      parse_http2_frame_window_update_def frame_size_error_def outcome_bind_eq_Fault byte_at_def get_uint32_None_iff
      split: if_splits)

lemma parse_settings_no_fault:
  assumes "unat (hd_length h) \<le> length input" shows "parse_http2_frame_settings h input \<noteq> Fault"
proof -
  have "6 * unat (hd_length h div 6) \<le> length input"
    using assms by (simp add: unat_div)
  then obtain es where "parse_settings_loop (unat (hd_length h div 6)) input = Ok es"
    using parse_settings_loop_present by blast
  then show ?thesis by (auto simp: parse_http2_frame_settings_def frame_size_error_def)
qed

lemma parse_goaway_no_fault:
  assumes "unat (hd_length h) \<le> length input" shows "parse_http2_frame_goaway h input \<noteq> Fault"
proof (cases "hd_length h < 8")
  case True
  then show ?thesis by (simp add: parse_http2_frame_goaway_def frame_size_error_def)
next
  case False
  then have n: "8 \<le> unat (hd_length h)" by (simp add: not_less word_le_nat_alt)
  then have "unat (hd_length h - 8) = unat (hd_length h) - 8" by (simp add: unat_sub_u32 word_le_nat_alt)
  moreover have "input \<noteq> []" "4 \<le> length (drop 4 input)" using n assms by auto
  moreover obtain x y b0 where "get_uint32_from_be_stream input = Some x" "byte_at input 0 = Some b0"
    "get_uint32_from_be_stream (drop 4 input) = Some y"
    using n assms \<open>input \<noteq> []\<close> get_uint32_present [of input] get_uint32_present [OF \<open>4 \<le> length (drop 4 input)\<close>] byte_at_0_present [of input] by auto
  ultimately show ?thesis
    using False n assms by (auto simp: parse_http2_frame_goaway_def MakeStaticSlice_def)
qed

text \<open>No parser reads outside its buffer when the payload the header announces is there and, for a
  padded frame, is not empty: every outcome is a frame or FRAME_SIZE_ERROR.\<close>

theorem parsers_read_in_bounds:
  assumes "payload_present h input"
  shows "parse_http2_frame_data h input \<noteq> Fault \<and> parse_http2_frame_headers h input \<noteq> Fault \<and>
    parse_http2_frame_priority h input \<noteq> Fault \<and> parse_http2_frame_rst_stream h input \<noteq> Fault \<and>
    parse_http2_frame_settings h input \<noteq> Fault \<and> parse_http2_frame_push_promise h input \<noteq> Fault \<and>
    parse_http2_frame_ping h input \<noteq> Fault \<and> parse_http2_frame_goaway h input \<noteq> Fault \<and>
    parse_http2_frame_window_update h input \<noteq> Fault \<and> parse_http2_frame_continuation h input \<noteq> Fault"
proof -
  have l: "unat (hd_length h) \<le> length input" using assms by (simp add: payload_present_def)
  show ?thesis
    using parse_data_no_fault [OF assms] parse_headers_no_fault [OF assms] parse_push_promise_no_fault [OF assms]
      parse_fixed_no_fault [OF l] parse_settings_no_fault [OF l] parse_goaway_no_fault [OF l] l
    by (simp add: parse_http2_frame_continuation_def MakeStaticSlice_def)
qed

theorem parsers_read_in_bounds_witness:
  "parse_http2_frame_headers \<lparr>hd_length = 3, hd_type = 1, hd_flags = 0x8, hd_reserved = 0, hd_stream_id = 1\<rparr> [7, 0, 0] \<noteq> Fault"
proof -
  have "payload_present \<lparr>hd_length = 3, hd_type = 1, hd_flags = 0x8, hd_reserved = 0, hd_stream_id = 1\<rparr> [7, 0, 0]"
    by (simp add: payload_present_def)
  then show ?thesis using parsers_read_in_bounds by blast
qed

text \<open>C38. The exception: a padded DATA, HEADERS or PUSH_PROMISE frame of length 0 at the end of the buffer
  makes its parser read the pad length octet that is not there.\<close>

theorem padded_empty_frame_reads_past_end:
  assumes "has_flag (hd_flags h) Flag_Padded"
  shows "parse_http2_frame_data h [] = Fault \<and> parse_http2_frame_headers h [] = Fault \<and>
    parse_http2_frame_push_promise h [] = Fault"
  using assms
  by (simp add: parse_http2_frame_data_def parse_http2_frame_headers_def parse_http2_frame_push_promise_def
      parse_padding_def byte_at_def)

theorem padded_empty_frame_reads_past_end_witness:
  "parse_http2_frame_data \<lparr>hd_length = 0, hd_type = 0, hd_flags = 0x9, hd_reserved = 0, hd_stream_id = 1\<rparr> [] = Fault"
  using padded_empty_frame_reads_past_end
    [of "\<lparr>hd_length = 0, hd_type = 0, hd_flags = 0x9, hd_reserved = 0, hd_stream_id = 1\<rparr>"]
  by (simp add: has_flag_def)

lemma bit_8_32: "bit (8 :: int) n \<longleftrightarrow> n = 3" "bit (32 :: int) n \<longleftrightarrow> n = 5"
proof -
  have e: "(8 :: int) = 2 ^ 3" "(32 :: int) = 2 ^ 5" by simp_all
  show "bit (8 :: int) n \<longleftrightarrow> n = 3" "bit (32 :: int) n \<longleftrightarrow> n = 5"
    unfolding e bit_exp_iff by auto
qed

lemma padded_bit_u32: "(fl :: u32) AND 0x8 = 0 \<Longrightarrow> \<not> bit fl 3"
proof
  assume "fl AND 0x8 = 0" "bit fl 3"
  then have "bit (fl AND 0x8) 3 \<longleftrightarrow> bit (0 :: u32) 3" by simp
  with \<open>bit fl 3\<close> show False by (simp add: bit_simps bit_8_32)
qed

text \<open>The library refuses its own short header blocks: a HEADERS frame without priority fields whose block
  has fewer than five bytes (a lone \<^verbatim>\<open>:status: 200\<close> is one) is built and serialised, but its parser
  answers FRAME_SIZE_ERROR.\<close>

theorem short_header_block_refused:
  assumes "length block < 5" "i \<le> HTTP2_STREAM_ID_MASK" "fl AND 0x8 = 0"
  shows "pack_http2_frame_headers (build_http2_frame_headers i fl block None) =
      Some (http2_frame_header_pack (hds_hdr (build_http2_frame_headers i fl block None)) @ block) \<and>
    parse_http2_frame_headers (hds_hdr (build_http2_frame_headers i fl block None)) block =
      Error (error_code FrameSizeError)"
proof -
  let ?fl = "fl AND NOT (ucast (frame_flag Flag_Priority)) :: u32"
  let ?z = "\<lparr>ps_depend_stream_id = 0, ps_weight = 0, ps_exclusive = 0\<rparr>"
  have cleared: "?fl AND ucast (frame_flag Flag_Priority) = 0"
    by (simp only: and.assoc) (simp add: and.commute)
  have f: "build_http2_frame_headers i fl block None =
      \<lparr>hds_hdr = http2_frame_header_init (length block) (frame_type Type_Headers) (ucast ?fl) i,
       hds_pad_len = 0, hds_pspec = ?z, hds_header_block_fragment = block\<rparr>"
    using cleared by (simp add: build_http2_frame_headers_def Let_def)
  have "\<not> bit fl 3" using assms(3) by (rule padded_bit_u32)
  then have pad: "\<not> has_flag (ucast ?fl) Flag_Padded"
    unfolding has_flag_def by (simp del: word_and_max) (auto intro!: bit_word_eqI simp: bit_simps bit_8_32)
  have pri: "\<not> has_flag (ucast ?fl) Flag_Priority"
    unfolding has_flag_def by simp (auto intro!: bit_word_eqI simp: bit_simps bit_8_32)
  have len: "unat (hd_length (http2_frame_header_init (length block) (frame_type Type_Headers) (ucast ?fl) i)) = length block"
    using assms(1) by simp
  have "hd_length (http2_frame_header_init (length block) (frame_type Type_Headers) (ucast ?fl) i) < 5"
    using len assms(1) by (simp only: word_less_nat_alt) simp
  moreover have "fill (HTTP2_FRAME_HEADER_SIZE + hd_length (http2_frame_header_init (length block) (frame_type Type_Headers) (ucast ?fl) i))
      (http2_frame_header_pack (http2_frame_header_init (length block) (frame_type Type_Headers) (ucast ?fl) i) @ block) =
      Some (http2_frame_header_pack (http2_frame_header_init (length block) (frame_type Type_Headers) (ucast ?fl) i) @ block)"
    using assms(1) by (intro fill_header) simp_all
  ultimately show ?thesis
    unfolding f using pad pri
    by (simp add: pack_http2_frame_headers_def parse_http2_frame_headers_def parse_padding_def frame_size_error_def)
qed

theorem short_header_block_refused_witness:
  "parse_http2_frame_headers (hds_hdr (build_http2_frame_headers 1 0x5 [0x88] None)) [0x88] = Error (error_code FrameSizeError)"
  using short_header_block_refused [of "[0x88]" 1 "0x5"] by (simp add: HTTP2_STREAM_ID_MASK_def)

end
