(* ===== verification/Connection_Output.thy ===== *)
theory Connection_Output
  imports Connection_Safety Frame_Properties
begin

text \<open>
  What the connection writes: every operation that sends is total, and in the plain mode of
  operation (not buffered, preface out of the way) what it does is an equation. The theory also
  holds the concrete connections and services the witnesses use.
\<close>

section \<open>A concrete connection\<close>

lemma new_exists: "\<exists>c. http2_connection_new cid client_side = Some c \<and> cn_client_side c = client_side \<and>
    cn_streams c = [] \<and> cn_next_local_stream_id c = (if client_side then 1 else 2) \<and>
    \<not> cn_received_goaway c \<and> \<not> cn_sent_goaway c \<and> \<not> cn_preface_sent c \<and> \<not> cn_flow_control c \<and>
    cn_connection_send_window c = 65535 \<and> \<not> cn_buffered_mode c \<and> \<not> cn_next_frame_limit c \<and>
    cn_send_record c = compressor_init \<and> cn_dynamic_table c = dynamic_metadata_table_new 4096 \<and>
    cn_remote_settings c = default_settings \<and> cn_log c = [] \<and> cn_event_handler c = False \<and>
    cn_connection_id c = cid \<and> cn_finish_handshake c = client_side \<and> cn_draining c = False \<and>
    cn_sent_goaway_stream_id c = 0 \<and> cn_last_stream_id c = 0 \<and> cn_initial_settings_sent c = False \<and>
    cn_local_settings c ! setting_index Set_MaxFrameSize = 16384"
proof -
  have tab: "default_settings ! setting_index Set_HeaderTableSize = 4096"
    by (simp add: default_settings_def setting_index_def global_settings_parameters_def setting_parameters_def)
  have "c_max_usable_size compressor_init = 4096" "c_max_table_size compressor_init = 4096"
    by (simp_all add: compressor_init_def HPACK_INITIAL_TABLE_SIZE_def)
  then have "compressor_set_max_table_size compressor_init 4096 = Some compressor_init"
    by (simp add: compressor_set_max_table_size_def Let_def)
  with tab show ?thesis
    by (simp add: http2_connection_new_def INITIAL_WINDOW_SIZE_def setting_index_def MAX_FRAME_SIZE_def
        length_global_settings default_settings_def)
qed

definition fresh_connection :: "bool \<Rightarrow> http2_connection" where
  "fresh_connection client_side = the (http2_connection_new 0 client_side)"

lemma fresh_connection_new: "http2_connection_new 0 client_side = Some (fresh_connection client_side)"
  using new_exists [of 0 client_side] by (auto simp: fresh_connection_def)

lemma fresh_fields [simp]:
  "cn_client_side (fresh_connection b) = b" "cn_streams (fresh_connection b) = []"
  "cn_next_local_stream_id (fresh_connection b) = (if b then 1 else 2)"
  "cn_received_goaway (fresh_connection b) = False" "cn_sent_goaway (fresh_connection b) = False"
  "cn_preface_sent (fresh_connection b) = False" "cn_flow_control (fresh_connection b) = False"
  "cn_connection_send_window (fresh_connection b) = 65535" "cn_buffered_mode (fresh_connection b) = False"
  "cn_next_frame_limit (fresh_connection b) = False" "cn_send_record (fresh_connection b) = compressor_init"
  "cn_dynamic_table (fresh_connection b) = dynamic_metadata_table_new 4096"
  "cn_remote_settings (fresh_connection b) = default_settings" "cn_log (fresh_connection b) = []"
  "cn_event_handler (fresh_connection b) = False" "cn_connection_id (fresh_connection b) = 0"
  "cn_finish_handshake (fresh_connection b) = b" "cn_draining (fresh_connection b) = False"
  "cn_sent_goaway_stream_id (fresh_connection b) = 0" "cn_last_stream_id (fresh_connection b) = 0"
  "cn_initial_settings_sent (fresh_connection b) = False"
  "cn_local_settings (fresh_connection b) ! setting_index Set_MaxFrameSize = 16384"
  using new_exists [of 0 b] fresh_connection_new [of b] by auto

lemma fresh_reach: "user_reach S (fresh_connection b)"
  using fresh_connection_new by (rule reach_new)

lemma fresh_create: "create_stream (fresh_connection True) = (Some (http2_stream_new 0 1),
    (put_stream (http2_stream_new 0 1) (fresh_connection True))\<lparr>cn_next_local_stream_id := 3\<rparr>)"
proof -
  have "\<not> HTTP2_MAX_STREAM_ID \<le> 1" by (simp add: HTTP2_MAX_STREAM_ID_def word_le_nat_alt)
  then show ?thesis
    by (simp add: create_stream_def default_settings_def setting_index_def
        global_settings_parameters_def setting_parameters_def Let_def)
qed

definition example_services :: services where
  "example_services = \<lparr>sv_send = (\<lambda>log b. int (length b)),
     sv_data_received = (\<lambda>log i n. \<lparr>connection_window_size_increment = n, stream_window_size_increment = n\<rparr>),
     sv_pre_send_data = (\<lambda>log i n. \<lparr>connection_window_size_increment = 0, stream_window_size_increment = 0\<rparr>),
     sv_hash_seed = 7\<rparr>"

section \<open>Operations that send always return\<close>

lemma settings_wf_built: "6 * length es < 2 ^ 24 \<Longrightarrow> settings_wf (build_http2_frame_settings fl es)"
proof -
  assume "6 * length es < 2 ^ 24"
  moreover have "(0 :: u32) \<le> HTTP2_STREAM_ID_MASK" by simp
  ultimately show ?thesis
    by (auto simp: settings_wf_def build_http2_frame_settings_def Let_def hdr_ok_init intro!: hdr_ok_init)
qed

lemma send_settings_frame_total:
  "6 * length es < 2 ^ 24 \<Longrightarrow> \<exists>r. send_frame_settings S (build_http2_frame_settings fl es) c = Some r"
  using settings.pack_eq [OF settings_wf_built [of es fl]] by (auto simp: send_frame_settings_def)

lemma initial_entries_length: "length (initial_settings_entries c) \<le> 6"
proof -
  have "length (initial_settings_entries c) \<le> length [1..<HTTP2_NUMBER_OF_SETTINGS]"
    unfolding initial_settings_entries_def length_map by (rule length_filter_le)
  then show ?thesis by (simp add: HTTP2_NUMBER_OF_SETTINGS_def)
qed

lemma ensure_preface_total: "\<exists>c'. ensure_preface_sent S c = Some c'"
proof -
  obtain r d where cs: "call_send S PREFACE c = (r, d)" by fastforce
  have "6 * length (initial_settings_entries d) < 2 ^ 24" using initial_entries_length [of d] by simp
  from send_settings_frame_total [OF this, of S 0 d] obtain p where
    "send_frame_settings S (build_http2_frame_settings 0 (initial_settings_entries d)) d = Some p" ..
  with cs show ?thesis by (cases p) (simp add: ensure_preface_sent_def)
qed

lemma send_window_update_total: "\<exists>r. send_window_update S i wu c = Some r"
proof -
  obtain d where d: "ensure_preface_sent S c = Some d" using ensure_preface_total by blast
  have "\<exists>r. (case send_raw_data S f d of (ret, c) \<Rightarrow> Some (ret \<ge> 0 \<and> f \<noteq> [], c)) = Some r" for f
    by (cases "send_raw_data S f d") simp
  then show ?thesis unfolding send_window_update_def Let_def d bind.simps .
qed

lemma max_frame_size_bound: "conn_inv X c \<Longrightarrow> 16384 \<le> cn_remote_settings c ! setting_index Set_MaxFrameSize"
proof -
  assume "conn_inv X c"
  then have "setting_ok (setting_index Set_MaxFrameSize) (cn_remote_settings c ! setting_index Set_MaxFrameSize)"
    by (simp add: conn_inv_def settings_ok_def HTTP2_NUMBER_OF_SETTINGS_def setting_index_def)
  then show ?thesis
    by (simp add: setting_ok_def setting_index_def global_settings_parameters_def setting_parameters_def)
qed

lemma send_frame_data_total:
  assumes "conn_inv X c" "length (dat_data f) < 2 ^ 32"
  shows "\<exists>r. send_frame_data S f c = Some r"
proof -
  have "cn_remote_settings c ! setting_index Set_MaxFrameSize \<noteq> 0"
    using max_frame_size_bound [OF assms(1)] by auto
  from pack_data_spec [OF this assms(2)] show ?thesis by (auto simp: send_frame_data_def)
qed

lemma binary_data_total:
  assumes "conn_inv {} c" "length data < 2 ^ 32"
  shows "\<exists>r. send_binary_in_data_frame S i data sz es c = Some r"
proof -
  have len: "length (slice_copy data (unat sz)) < 2 ^ 32" using assms(2) by (simp add: slice_copy_def)
  have fin: "\<exists>r. send_frame_data S (build_http2_frame_data i fl (slice_copy data (unat sz))) d = Some r"
    if "conn_inv {} d" for d fl
    using send_frame_data_total [OF that] len by (simp add: build_http2_frame_data_def)
  let ?d = "c\<lparr>cn_connection_send_window := cn_connection_send_window c - uint sz\<rparr>"
  show ?thesis
  proof (cases "sz = 0 \<and> \<not> es \<or> \<not> cn_flow_control c \<and> sz > 0 \<and> uint sz > cn_connection_send_window c")
    case True
    then show ?thesis by (auto simp: send_binary_in_data_frame_def)
  next
    case False
    show ?thesis
    proof (cases "cn_flow_control c")
      case True
      let ?e = "call_user (OnPreSendData i sz) c"
      obtain b e where e: "send_window_update S i (sv_pre_send_data S (cn_log c) i sz) ?e = Some (b, e)"
        using send_window_update_total by (metis surj_pair)
      have "conn_inv {} e" using send_window_update_inv [OF calm_inv [OF call_user_calm assms(1)] e] .
      with e True False fin [OF this] fin [OF assms(1)] show ?thesis
        by (auto simp: send_binary_in_data_frame_def Let_def)
    next
      case off: False
      have "0 \<le> cn_connection_send_window c" using assms(1) by (simp add: conn_inv_def)
      with False off have "conn_inv {} ?d" by (intro conn_inv_window [OF assms(1)]) (auto simp: word_gt_0)
      with off False fin [OF this] show ?thesis by (auto simp: send_binary_in_data_frame_def Let_def)
    qed
  qed
qed

lemma fill_header_nat:
  assumes "m < 2 ^ 24" "length w = m"
  shows "fill (HTTP2_FRAME_HEADER_SIZE + word_of_nat m) (http2_frame_header_pack h @ w) = Some (http2_frame_header_pack h @ w)"
proof (rule fill_header)
  have "m < 2 ^ 32" using assms(1) by simp
  then show "unat (word_of_nat m :: u32) < 2 ^ 24" "length w = unat (word_of_nat m :: u32)"
    using assms by (simp_all only: unat_of_nat_u32)
qed

lemma goaway_pack:
  assumes "length debug < 2 ^ 23"
  shows "pack_http2_frame_goaway (build_http2_frame_goaway i err debug) =
    Some (http2_frame_header_pack (http2_frame_header_init (8 + length debug) (frame_type Type_GoAway) 0 0) @
      put_uint32_in_be_stream i @ put_uint32_in_be_stream err @ debug)"
proof -
  have "8 + length debug < 2 ^ 24" using assms by simp
  moreover have "(if debug \<noteq> [] then debug else []) = debug" by simp
  ultimately show ?thesis
    unfolding pack_http2_frame_goaway_def build_http2_frame_goaway_def http2_frame_header_init_def
      http2_frame_goaway.simps http2_frame_hdr.simps
    by (simp only:) (rule fill_header_nat, simp_all only: length_append length_put_uint32)
qed

lemma send_goaway_total:
  assumes "length debug < 2 ^ 23"
  shows "\<exists>c'. send_goaway S err i debug c = Some c'"
proof -
  obtain d where d: "ensure_preface_sent S c = Some d" using ensure_preface_total by blast
  then show ?thesis
    by (simp add: send_goaway_def send_frame_goaway_def goaway_pack [OF assms] Let_def split_def)
qed

lemma goaway_total: "\<exists>c'. goaway S err c = Some c'"
  unfolding goaway_def by (rule send_goaway_total) simp

section \<open>Plain output\<close>

text \<open>Nothing is held back: the preface is out of the way and the send buffer is off.\<close>

definition plain :: "http2_connection \<Rightarrow> bool" where
  "plain c \<longleftrightarrow> (cn_client_side c \<longrightarrow> cn_preface_sent c) \<and> \<not> cn_buffered_mode c"

definition sent :: "services \<Rightarrow> bytes \<Rightarrow> http2_connection \<Rightarrow> http2_connection" where
  "sent S b c = call_user (SendRawData b (sv_send S (cn_log c) b)) c"

lemma plain_preface: "plain c \<Longrightarrow> ensure_preface_sent S c = Some c"
  by (auto simp: plain_def ensure_preface_sent_def)

lemma plain_send: "plain c \<Longrightarrow> send_raw_data S b c = (sv_send S (cn_log c) b, sent S b c)"
  by (simp add: plain_def send_raw_data_def call_send_def sent_def Let_def)

definition goaway_frame :: "u32 \<Rightarrow> u32 \<Rightarrow> bytes" where
  "goaway_frame last_id err = http2_frame_header_pack (http2_frame_header_init 8 (frame_type Type_GoAway) 0 0) @
     put_uint32_in_be_stream last_id @ put_uint32_in_be_stream err"

lemma plain_send_goaway:
  assumes "plain c"
  shows "send_goaway S err i [] c = (let last = (if i = 0 then cn_last_stream_id c else i) in
    Some ((sent S (goaway_frame last err) c)\<lparr>cn_sent_goaway_stream_id := last, cn_sent_goaway := True\<rparr>))"
  using plain_preface [OF assms] plain_send [OF assms] goaway_pack [of "[]"]
  by (simp add: send_goaway_def send_frame_goaway_def goaway_frame_def Let_def)

lemma plain_goaway:
  assumes "plain c"
  shows "goaway S err c = Some ((sent S (goaway_frame (cn_last_stream_id c) err) c)
    \<lparr>cn_sent_goaway_stream_id := cn_last_stream_id c, cn_sent_goaway := True\<rparr>)"
  using plain_send_goaway [OF assms] by (simp add: goaway_def Let_def)

lemma sent_fields [simp]:
  "cn_log (sent S b c) = cn_log c @ [SendRawData b (sv_send S (cn_log c) b)]"
  "cn_streams (sent S b c) = cn_streams c" "cn_dynamic_table (sent S b c) = cn_dynamic_table c"
  "cn_sent_goaway (sent S b c) = cn_sent_goaway c" "cn_draining (sent S b c) = cn_draining c"
  "cn_remote_settings (sent S b c) = cn_remote_settings c" "cn_event_handler (sent S b c) = cn_event_handler c"
  "cn_send_record (sent S b c) = cn_send_record c" "find_stream i (sent S b c) = find_stream i c"
  "plain (sent S b c) = plain c" "cn_client_side (sent S b c) = cn_client_side c"
  "cn_preface_sent (sent S b c) = cn_preface_sent c" "cn_buffered_mode (sent S b c) = cn_buffered_mode c"
  "cn_flow_control (sent S b c) = cn_flow_control c" "cn_finish_handshake (sent S b c) = cn_finish_handshake c"
  "cn_local_settings (sent S b c) = cn_local_settings c" "cn_last_stream_id (sent S b c) = cn_last_stream_id c"
  "cn_next_frame_limit (sent S b c) = cn_next_frame_limit c" "cn_connection_id (sent S b c) = cn_connection_id c"
  by (simp_all add: sent_def call_user_def find_stream_def plain_def)

text \<open>A header block goes out as one HEADERS frame.\<close>

definition headers_frame :: "u32 \<Rightarrow> bool \<Rightarrow> bytes \<Rightarrow> bytes" where
  "headers_frame i end_stream block =
     http2_frame_header_pack (http2_frame_header_init (length block) (frame_type Type_Headers)
       (if end_stream then 5 else 4) i) @ block"

lemma headers_pack:
  assumes "length block < 2 ^ 24"
  shows "pack_http2_frame_headers (build_http2_frame_headers i
      (ucast (frame_flag Flag_EndHeaders) OR (if es then ucast (frame_flag Flag_EndStream) else 0)) block None) =
    Some (headers_frame i es block)"
  using fill_header_nat [OF assms refl]
  by (cases es)
     (simp_all add: pack_http2_frame_headers_def build_http2_frame_headers_def headers_frame_def has_flag_def
        http2_frame_header_init_def)

lemma plain_encode: "encode_header_block S hs c = Some (block, d) \<Longrightarrow> plain c \<Longrightarrow> plain d"
  by (auto simp: encode_header_block_def bind_eq_Some_conv plain_def)

lemma plain_send_headers:
  assumes "plain c" "find_stream i c = Some s" "encode_header_block S hs c = Some (block, d)" "length block < 2 ^ 24"
    and "0 \<le> sv_send S (cn_log d) (headers_frame i es block)"
  shows "stream_send_headers S i hs es c =
    (let t = (if es then st_send_end_stream (st_send_headers s) else st_send_headers s) in
     Some (True, destroy_if_closed t (put_stream t (sent S (headers_frame i es block) d))))"
  using plain_preface [OF assms(1), of S] plain_send [OF plain_encode [OF assms(3,1)], of S] headers_pack [OF assms(4), of i es]
    assms(2,3,5)
  by (simp add: stream_send_headers_def send_binary_in_headers_frame_def send_frame_headers_def Let_def)

end
