(* ===== verification/Connection_Properties.thy ===== *)
theory Connection_Properties
  imports Connection_Output
begin

text \<open>
  What a connection promises its user in every reachable state: the invariant, fresh stream
  identifiers, and sends that return.
\<close>

section \<open>The invariant\<close>

text \<open>C4. In every state a user can bring a connection to, whatever bytes the peer sends: each stream is
  stored once, under its own identifier, and is not closed; every setting of the peer is in its
  allowed range; the HPACK table's size is the sum of its entries, within the maximum, within the
  4096 octets allowed; the send buffer counts its bytes right; the send window is not negative.\<close>

theorem connection_invariant:
  assumes "user_reach S c"
  shows "distinct (map fst (cn_streams c)) \<and>
    (\<forall>i s. find_stream i c = Some s \<longrightarrow> st_stream_id s = i \<and> \<not> st_is_closed s \<and> stream_inv s) \<and>
    (\<forall>i < HTTP2_NUMBER_OF_SETTINGS. setting_ok i (cn_remote_settings c ! i)) \<and>
    unat (dt_current_table_size (cn_dynamic_table c)) = entries_size (dt_dynamic_table (cn_dynamic_table c)) \<and>
    dt_current_table_size (cn_dynamic_table c) \<le> dt_max_table_size (cn_dynamic_table c) \<and>
    dt_max_table_size (cn_dynamic_table c) \<le> 4096 \<and>
    sb_inv (cn_send_buffer c) \<and> 0 \<le> cn_connection_send_window c"
  using user_reach_inv [OF assms]
  by (auto simp: inv_defs table_ok_def dt_inv_def dt_size_ok_def)

theorem connection_invariant_witness:
  "distinct (map fst (cn_streams (snd (create_stream (fresh_connection True))))) \<and>
   find_stream 1 (snd (create_stream (fresh_connection True))) \<noteq> None"
proof -
  have "user_reach S (snd (create_stream (fresh_connection True)))" for S
    by (rule reach_user_step [OF fresh_reach us_CreateStream]) (rule prod.collapse [symmetric])
  from connection_invariant [OF this] show ?thesis by (simp add: fresh_create)
qed

text \<open>C14. A new stream gets an identifier that was never used on the connection: it has the parity of the
  side that opens it, is above every local stream still there, is at most 2^31 - 1, and the next
  one will be higher; nothing is created after a GOAWAY in either direction.\<close>

theorem create_stream_fresh:
  assumes "user_reach S c" "create_stream c = (Some s, c')"
  shows "find_stream (st_stream_id s) c = None \<and> find_stream (st_stream_id s) c' = Some s \<and>
    odd_id (st_stream_id s) = cn_client_side c \<and> st_stream_id s < HTTP2_MAX_STREAM_ID \<and>
    (\<forall>i t. find_stream i c = Some t \<and> odd_id i = cn_client_side c \<longrightarrow> i < st_stream_id s) \<and>
    st_stream_id s < cn_next_local_stream_id c' \<and> \<not> cn_sent_goaway c \<and> \<not> cn_received_goaway c"
proof -
  have inv: "conn_inv {} c" using assms(1) by (rule user_reach_inv)
  from create_stream_inv [OF inv assms(2)] have s: "s = http2_stream_new (cn_connection_id c) (cn_next_local_stream_id c)"
    "find_stream (st_stream_id s) c' = Some s" by auto
  have b: "cn_next_local_stream_id c < HTTP2_MAX_STREAM_ID" "\<not> cn_sent_goaway c" "\<not> cn_received_goaway c"
    "cn_next_local_stream_id c' = cn_next_local_stream_id c + 2"
    using assms(2) by (auto simp: create_stream_def Let_def not_le split: if_splits)
  have ids: "ids_ok c" using inv by (simp add: conn_inv_def)
  then have "0 < cn_next_local_stream_id c" by (simp add: ids_ok_def)
  note lt = next_id_bounds(1) [OF b(1) this]
  have "find_stream (cn_next_local_stream_id c) c = None"
    using ids by (cases "find_stream (cn_next_local_stream_id c) c") (auto simp: ids_ok_def)
  with s b lt ids show ?thesis by (auto simp: ids_ok_def)
qed

theorem create_stream_fresh_witness:
  "find_stream 1 (fresh_connection True) = None \<and> odd_id 1"
proof -
  from create_stream_fresh [OF fresh_reach fresh_create] show ?thesis by simp
qed

section \<open>Sends return\<close>

text \<open>Sending data always returns: in every reachable state \<^verbatim>\<open>SendData\<close> terminates without touching
  memory outside its buffers, for every body below 2^32 bytes. The loop that splits the body ends
  because the peer's MAX_FRAME_SIZE, checked when its SETTINGS arrived, is never below 16384.\<close>

theorem send_data_returns:
  assumes "user_reach S c" "length data < 2 ^ 32"
  shows "16384 \<le> cn_remote_settings c ! setting_index Set_MaxFrameSize \<and>
    (\<exists>ok c'. stream_send_data S i data (word_of_nat (length data)) end_stream c = Some (ok, c'))"
proof -
  have inv: "conn_inv {} c" using assms(1) by (rule user_reach_inv)
  obtain d where d: "ensure_preface_sent S c = Some d" using ensure_preface_total by blast
  have di: "conn_inv {} d" using calm_inv [OF ensure_preface_calm [OF d] inv] .
  from binary_data_total [OF di assms(2), of S i "word_of_nat (length data)" end_stream] obtain n e where
    "send_binary_in_data_frame S i data (word_of_nat (length data)) end_stream d = Some (n, e)" by (metis surj_pair)
  with d max_frame_size_bound [OF inv] show ?thesis
    by (auto simp: stream_send_data_def Let_def split: option.splits)
qed

theorem send_data_returns_witness:
  "\<exists>ok c'. stream_send_data example_services 1 [1, 2, 3] 3 True (snd (create_stream (fresh_connection True))) = Some (ok, c')"
proof -
  have "user_reach example_services (snd (create_stream (fresh_connection True)))"
    by (rule reach_user_step [OF fresh_reach us_CreateStream]) (rule prod.collapse [symmetric])
  from send_data_returns [OF this, of "[1, 2, 3]" 1 True] show ?thesis by simp
qed

end
