(* ===== verification/Connection_Shutdown.thy ===== *)
theory Connection_Shutdown
  imports Connection_Output
begin

text \<open>
  Shutting down. The locale \<open>operation_effect\<close> extends \<open>send_effect\<close> by what the frame handlers and
  the user's operations do besides sending, \<open>connection_effect\<close> adds the operations that encode headers, and
  they prove once that every operation stays inside such a relation. Its interpretations give the facts on GOAWAY and on draining: what was sent or
  received is never taken back, and the notification that ends a drain comes exactly once.
\<close>

section \<open>The interface\<close>

text \<open>What a relation may look at, besides the streams themselves.\<close>

definition essence ::
  "http2_connection \<Rightarrow> user_call list \<times> bool \<times> bool \<times> bool \<times> bool \<times> u64 \<times> bool \<times> bool \<times> bool \<times> compressor" where
  "essence c = (cn_log c, cn_sent_goaway c, cn_received_goaway c, cn_finish_handshake c, cn_client_side c,
     cn_connection_id c, cn_draining c, cn_event_handler c, cn_streams c = [], cn_send_record c)"

locale operation_effect = send_effect +
  assumes R_same: "essence d = essence c \<Longrightarrow> R c d"
    and R_resize: "compressor_set_max_table_size (cn_send_record c) n = Some m \<Longrightarrow> R c (c\<lparr>cn_send_record := m\<rparr>)"
    and R_put: "R c (put_stream s c)"
    and R_handshake: "R c (c\<lparr>cn_finish_handshake := True\<rparr>)"
    and R_received: "R c (c\<lparr>cn_received_goaway := True\<rparr>)"
    and R_settle: "R c (destroy_if_closed s c)"
begin

text \<open>Appending a step to a chain of steps.\<close>

lemma then_call: "R a b \<Longrightarrow> e \<noteq> OnShutdownComplete \<Longrightarrow> R a (call_user e b)"
  by (blast intro: R_trans R_call)

lemma then_notify: "R a b \<Longrightarrow> e \<noteq> OnShutdownComplete \<Longrightarrow> R a (notify e b)"
  by (blast intro: R_trans notify)

lemma then_put: "R a b \<Longrightarrow> R a (put_stream s b)"
  using R_put by (rule R_trans [rotated])

lemma then_settle: "R a b \<Longrightarrow> R a (destroy_if_closed s b)"
  using R_settle by (rule R_trans [rotated])

lemma then_received: "R a b \<Longrightarrow> R a (b\<lparr>cn_received_goaway := True\<rparr>)"
  using R_received by (rule R_trans [rotated])

lemma then_same: "R a b \<Longrightarrow> essence d = essence b \<Longrightarrow> R a d"
  using R_same by (blast intro: R_trans)

lemma then_update:
  assumes "R a b"
  shows "R a (b\<lparr>cn_dynamic_table := t\<rparr>)" "R a (b\<lparr>cn_flow_control := x\<rparr>)" "R a (b\<lparr>cn_ping_pending := x\<rparr>)"
    "R a (b\<lparr>cn_settings_pending := x\<rparr>)" "R a (b\<lparr>cn_initial_settings_sent := x\<rparr>)"
    "R a (b\<lparr>cn_local_settings := l\<rparr>)" "R a (b\<lparr>cn_remote_settings := l\<rparr>)" "R a (b\<lparr>cn_last_stream_id := i\<rparr>)"
    "R a (b\<lparr>cn_next_local_stream_id := i\<rparr>)"
    "R a (b\<lparr>cn_received_goaway_stream_id := i\<rparr>)" "R a (b\<lparr>cn_next_frame_limit := x\<rparr>)"
    "R a (b\<lparr>cn_next_stream_id_limit := i\<rparr>)" "R a (b\<lparr>cn_request_settings := q\<rparr>)"
    "R a (b\<lparr>cn_buffered_mode := x\<rparr>)" "R a (b\<lparr>cn_send_buffer := sb\<rparr>)" "R a (b\<lparr>cn_connection_send_window := w\<rparr>)"
  by (rule then_same [OF assms], simp add: essence_def)+

lemmas chain = R_refl then_call then_notify then_put then_settle then_received then_update

text \<open>The same for a call that sends.\<close>

lemma then_goaway: "goaway S err b = Some d \<Longrightarrow> R a b \<Longrightarrow> R a d"
  by (blast intro: R_trans goaway)

lemma then_reject: "reject S err st b = Some (st', d) \<Longrightarrow> R a b \<Longrightarrow> R a d"
  using reject by (blast intro: R_trans)

lemma then_preface: "ensure_preface_sent S b = Some d \<Longrightarrow> R a b \<Longrightarrow> R a d"
  by (blast intro: R_trans ensure_preface)

lemma then_window_update: "send_window_update S i wu b = Some (r, d) \<Longrightarrow> R a b \<Longrightarrow> R a d"
  by (blast intro: R_trans send_window_update)

lemma then_send_frame:
  "send_frame_data S fd b = Some (r, d) \<Longrightarrow> R a b \<Longrightarrow> R a d"
  "send_frame_headers S fh b = Some (r, d) \<Longrightarrow> R a b \<Longrightarrow> R a d"
  "send_frame_settings S fs b = Some (r, d) \<Longrightarrow> R a b \<Longrightarrow> R a d"
  "send_frame_push_promise S fp b = Some (r, d) \<Longrightarrow> R a b \<Longrightarrow> R a d"
  "send_frame_rst_stream S fr b = (r, d) \<Longrightarrow> R a b \<Longrightarrow> R a d"
  "send_frame_ping S fi b = (r, d) \<Longrightarrow> R a b \<Longrightarrow> R a d"
  by (blast intro: R_trans send_frame)+

lemmas sends = then_goaway then_reject then_preface then_window_update then_send_frame

section \<open>The handlers\<close>

lemma decode_block: "decode_block blk c = Some (err, hs, d) \<Longrightarrow> R a c \<Longrightarrow> R a d"
  by (auto simp: decode_block_def bind_eq_Some_conv intro: chain)

lemma finish_block: "R a c \<Longrightarrow> R a (finish_block h s c)"
  by (simp add: finish_block_def chain)

lemma received_data: "received_data S stream f c = Some (stream', c') \<Longrightarrow> R c c'"
  by (auto simp: received_data_def received_credit_def notify_stream_closed_def Let_def bind_eq_Some_conv
      split: if_splits option.splits intro!: chain elim!: sends)

lemma received_headers: "received_headers S stream f c = Some (stream', c') \<Longrightarrow> R c c'"
  by (auto simp: received_headers_def Let_def bind_eq_Some_conv split: if_splits option.splits
      intro!: finish_block chain elim!: sends decode_block)

lemma received_continuation: "received_continuation S stream f c = Some (stream', c') \<Longrightarrow> R c c'"
  by (auto simp: received_continuation_def Let_def bind_eq_Some_conv split: if_splits option.splits
      intro!: chain elim!: sends decode_block)

lemma received_push_promise: "received_push_promise S stream f c = Some (stream', c') \<Longrightarrow> R c c'"
  by (auto simp: received_push_promise_def Let_def bind_eq_Some_conv split: if_splits option.splits
      intro!: finish_block chain elim!: sends decode_block)

lemma received_priority: "received_priority S stream f c = Some (stream', c') \<Longrightarrow> R c c'"
  by (auto simp: received_priority_def Let_def split: if_splits option.splits intro!: chain elim!: sends)

lemma received_rst_stream: "received_rst_stream S stream f c = Some (stream', c') \<Longrightarrow> R c c'"
  by (auto simp: received_rst_stream_def notify_stream_closed_def Let_def split: if_splits option.splits
      intro!: chain elim!: sends)

lemma received_window_update: "received_window_update S stream f c = Some (stream', c') \<Longrightarrow> R c c'"
  by (auto simp: received_window_update_def Let_def split: if_splits option.splits intro!: chain elim!: sends)

lemma apply_settings: "apply_settings es rep c = Some (r, d) \<Longrightarrow> R a c \<Longrightarrow> R a d"
proof (induction es arbitrary: rep c)
  case (Cons e es)
  have resized: "R a (c\<lparr>cn_remote_settings := l, cn_send_record := m\<rparr>)"
    if "compressor_set_max_table_size (cn_send_record c) v = Some m" for l m v
    using that R_resize [of "c\<lparr>cn_remote_settings := l\<rparr>" v m] then_update(7) [OF Cons.prems(2), of l] by (auto intro: R_trans)
  have same: "R a (c\<lparr>cn_remote_settings := l, cn_send_record := cn_send_record c\<rparr>)" for l
    by (rule then_same [OF Cons.prems(2)]) (simp add: essence_def)
  from Cons.prems resized same show ?case
    by (auto simp: Let_def bind_eq_Some_conv split: if_splits dest!: Cons.IH)
qed simp

lemma received_settings: "received_settings S f c = Some c' \<Longrightarrow> R c c'"
  by (auto simp: received_settings_def Let_def bind_eq_Some_conv split: if_splits
      intro!: chain elim!: sends)
     (auto split: sum.splits intro!: chain elim!: sends apply_settings)

lemma received_ping: "received_ping S f c = Some c' \<Longrightarrow> R c c'"
  by (auto simp: received_ping_def Let_def split: if_splits intro!: chain elim!: sends)
     (metis R_trans notify send_frame(8) surjective_pairing user_call.distinct)

lemma received_goaway: "received_goaway S f c = Some c' \<Longrightarrow> R c c'"
proof -
  assume g: "received_goaway S f c = Some c'"
  have "R c (c\<lparr>cn_received_goaway_stream_id := i, cn_received_goaway := True,
      cn_streams := map (\<lambda>(i, s). (i, p i s)) (cn_streams c)\<rparr>)" for i p
    by (rule then_same [OF R_received [of c]]) (simp add: essence_def)
  with g show ?thesis
    by (auto simp: received_goaway_def Let_def split: if_splits intro!: then_notify elim!: sends intro: R_refl)
qed

lemma frame_process:
  assumes "n \<le> 9" "(frame_process_func_array ! n) S h payload c = Some (stream, c')"
  shows "R c c'"
proof -
  have p: "R c c'" if "parsed S r k c = Some (stream, c')" "\<And>f. k f c = Some (stream, c') \<Longrightarrow> R c c'" for r k
    using that reject by (auto simp: parsed_def split: outcome.splits)
  note handlers = received_data received_headers received_continuation received_push_promise received_priority
    received_rst_stream received_window_update received_settings received_ping received_goaway
  from less_10_cases [OF assms(1)] show ?thesis
    using assms(2)
    by (elim disjE)
       (auto simp: frame_process_func_array_def internal_data_process_def internal_headers_process_def
          internal_priority_process_def internal_rst_stream_process_def internal_settings_process_def
          internal_push_promise_process_def internal_ping_process_def internal_goaway_process_def
          internal_window_update_process_def internal_continuation_process_def no_stream_def
          elim!: p intro: handlers)
qed

lemma package_process:
  assumes "package_process S p n c = Some (r, c')"
  shows "R c c'"
proof -
  have t: "R c (track_last_stream i c)" for i
    by (simp add: track_last_stream_def chain)
  from assms show ?thesis
  proof (cases rule: package_process_cases)
    case (handled h stream d)
    from R_trans [OF t frame_process [OF handled(2,3)]] handled(4) show ?thesis
      by (auto split: option.splits intro: then_settle)
  qed (auto intro: R_refl t goaway)
qed

lemma frame_loop: "frame_loop S buf pos c = Some (r, c') \<Longrightarrow> R c c'"
proof (induction S buf pos c rule: frame_loop.induct)
  case (1 S buf pos c)
  show ?case
    using 1(2)
    by (subst (asm) frame_loop.simps)
       (auto simp: Let_def split: if_splits option.splits prod.splits
          intro: R_refl goaway package_process R_trans [OF package_process 1(1) [OF _ _ _ refl]])
qed

lemma send_initial_settings: "send_initial_settings S c = Some d \<Longrightarrow> R c d"
  by (auto simp: send_initial_settings_def Let_def bind_eq_Some_conv split: if_splits intro!: chain elim!: sends)

lemma ReceivedData: "ReceivedData S buf c = Some (r, c') \<Longrightarrow> R c c'"
  by (auto simp: ReceivedData_def bind_eq_Some_conv split: if_splits
      intro: R_refl frame_loop goaway R_trans [OF R_handshake R_trans [OF send_initial_settings frame_loop]])

section \<open>The user's operations\<close>

lemma create_stream: "create_stream c = (s, c') \<Longrightarrow> R c c'"
  by (auto simp: create_stream_def Let_def split: if_splits intro!: chain)

lemma send_ping: "send_ping S info c = Some (r, c') \<Longrightarrow> R c c'"
  by (auto simp: send_ping_def bind_eq_Some_conv split: if_splits prod.splits intro!: chain elim!: sends)

lemma send_settings: "send_settings S settings c = Some (r, c') \<Longrightarrow> R c c'"
  by (auto simp: send_settings_def bind_eq_Some_conv split: if_splits intro!: chain elim!: sends)

lemma send_rst_stream: "send_rst_stream S i err c = Some (r, c') \<Longrightarrow> R c c'"
proof -
  assume a: "send_rst_stream S i err c = Some (r, c')"
  then obtain d where d: "ensure_preface_sent S c = Some d"
    by (auto simp: send_rst_stream_def bind_eq_Some_conv)
  obtain n e where "send_frame_rst_stream S (build_http2_frame_rst_stream i 0 err) d = (n, e)" by fastforce
  with a d show "R c c'"
    by (auto simp: send_rst_stream_def Let_def split: option.splits intro!: chain elim!: sends)
qed

lemma data_frame: "send_binary_in_data_frame S i data sz es c = Some (r, d) \<Longrightarrow> R a c \<Longrightarrow> R a d"
  by (auto simp: send_binary_in_data_frame_def bind_eq_Some_conv Let_def split: if_splits
      intro!: chain elim!: sends)

lemma stream_send_data: "stream_send_data S i data sz es c = Some (r, c') \<Longrightarrow> R c c'"
  by (auto simp: stream_send_data_def bind_eq_Some_conv Let_def split: if_splits option.splits
      intro!: chain elim!: sends data_frame)

lemma flush_buffer: "flush_buffer S c = (r, c') \<Longrightarrow> R c c'"
proof -
  have "R c d" if "send_raw_buffer S sb (c\<lparr>cn_buffered_mode := x\<rparr>) = (n, d)" for sb x n d
    using R_trans [OF then_update(14) [OF R_refl] send_raw_buffer] that by (metis snd_conv)
  then show "flush_buffer S c = (r, c') \<Longrightarrow> R c c'"
    by (auto simp: flush_buffer_def Let_def split: if_splits prod.splits intro!: chain)
qed

end

text \<open>The operations that encode headers leave the compressor in a new state.\<close>

locale connection_effect = operation_effect +
  assumes R_encode: "R c (c\<lparr>cn_send_record := m\<rparr>)"
begin

lemma encode_header_block: "encode_header_block S hs c = Some (blk, d) \<Longrightarrow> R a c \<Longrightarrow> R a d"
  using R_encode by (auto simp: encode_header_block_def bind_eq_Some_conv intro: R_trans)

lemma send_push_promise: "send_push_promise S i hs c = Some (p, c') \<Longrightarrow> R c c'"
  by (auto simp: send_push_promise_def bind_eq_Some_conv Let_def split: if_splits option.splits prod.splits
      intro!: chain elim!: sends encode_header_block create_stream)

lemma headers_frame: "send_binary_in_headers_frame S i hs fl c = Some (r, d) \<Longrightarrow> R a c \<Longrightarrow> R a d"
  by (auto simp: send_binary_in_headers_frame_def bind_eq_Some_conv elim!: sends encode_header_block)

lemma stream_send_headers: "stream_send_headers S i hs es c = Some (r, c') \<Longrightarrow> R c c'"
  by (auto simp: stream_send_headers_def bind_eq_Some_conv Let_def split: if_splits option.splits
      intro!: chain elim!: sends headers_frame)

lemma stream_send_trailing_headers: "stream_send_trailing_headers S i hs c = Some (r, c') \<Longrightarrow> R c c'"
  by (auto simp: stream_send_trailing_headers_def bind_eq_Some_conv Let_def split: option.splits
      intro!: chain elim!: sends headers_frame)

text \<open>All but the two operations that need their own argument.\<close>

lemma user_step:
  assumes "user_step S c c'"
  shows "(\<exists>h. c' = set_event_handler h c) \<or> drain S c = Some c' \<or> R c c'"
  using assms
proof (cases rule: user_step.cases)
  case (us_SetFlowControlHandler h)
  then show ?thesis by (simp add: set_flow_control_handler_def chain)
next
  case (us_SetBufferedMode b)
  then show ?thesis by (simp add: set_buffered_mode_def chain)
qed (auto simp: Shutdown_def SendWindowUpdate_def stream_send_rst_stream_def intro: chain create_stream
    send_settings send_ping send_goaway goaway send_push_promise ReceivedData send_window_update flush_buffer
    stream_send_headers stream_send_data stream_send_trailing_headers send_rst_stream)

end

section \<open>What is never taken back\<close>

definition kept :: "http2_connection \<Rightarrow> http2_connection \<Rightarrow> bool" where
  "kept c c' \<longleftrightarrow> cn_client_side c' = cn_client_side c \<and> cn_connection_id c' = cn_connection_id c \<and>
     (cn_finish_handshake c \<longrightarrow> cn_finish_handshake c') \<and> (cn_sent_goaway c \<longrightarrow> cn_sent_goaway c') \<and>
     (cn_received_goaway c \<longrightarrow> cn_received_goaway c') \<and> prefix (cn_log c) (cn_log c')"

lemma check_drain_kept: "kept c (check_drain_complete c)"
  by (simp add: check_drain_complete_def notify_def call_user_def kept_def)

interpretation kept_effect: connection_effect kept
proof unfold_locales
  show "kept c (destroy_if_closed s c)" for s c
    using check_drain_kept [of "destroy_stream (st_stream_id s) c"]
    by (simp add: destroy_if_closed_def kept_def destroy_stream_def)
qed (auto simp: kept_def call_user_def buffer_raw_data_def essence_def put_stream_def
    intro: prefix_order.trans)

section \<open>Draining\<close>

definition shutdowns :: "http2_connection \<Rightarrow> nat" where
  "shutdowns c = count_list (cn_log c) OnShutdownComplete"

text \<open>While draining, a GOAWAY has been sent and a stream is left; the notification comes once, after it.\<close>

definition drain_ok :: "http2_connection \<Rightarrow> bool" where
  "drain_ok c \<longleftrightarrow> (cn_draining c \<longrightarrow> cn_sent_goaway c \<and> cn_streams c \<noteq> [] \<and> shutdowns c = 0) \<and>
     (0 < shutdowns c \<longrightarrow> cn_sent_goaway c) \<and> shutdowns c \<le> 1"

lemma check_drain_ok:
  assumes "cn_sent_goaway c" "cn_draining c \<longrightarrow> shutdowns c = 0" "shutdowns c \<le> 1"
  shows "drain_ok (check_drain_complete c)"
  using assms by (auto simp: check_drain_complete_def notify_def call_user_def drain_ok_def shutdowns_def)

lemma destroy_drain_ok: "drain_ok c \<Longrightarrow> drain_ok (check_drain_complete (destroy_stream i c))"
proof (cases "cn_sent_goaway c")
  case True
  then show "drain_ok c \<Longrightarrow> ?thesis"
    by (intro check_drain_ok) (auto simp: destroy_stream_def drain_ok_def shutdowns_def)
next
  case False
  then show "drain_ok c \<Longrightarrow> ?thesis"
    by (auto simp: check_drain_complete_def destroy_stream_def drain_ok_def shutdowns_def)
qed

lemma put_nonempty: "cn_streams (put_stream s c) \<noteq> []"
  by (cases "cn_streams c") (auto simp: put_stream_def)

interpretation drain_effect: connection_effect "\<lambda>c c'. drain_ok c \<longrightarrow> drain_ok c'"
proof unfold_locales
  show "drain_ok c \<longrightarrow> drain_ok (put_stream s c)" for c s
    using put_nonempty [of s c] by (auto simp: drain_ok_def shutdowns_def put_stream_def)
  show "drain_ok c \<longrightarrow> drain_ok (destroy_if_closed s c)" for c s
    using destroy_drain_ok by (simp add: destroy_if_closed_def)
qed (auto simp: drain_ok_def shutdowns_def call_user_def buffer_raw_data_def essence_def)

text \<open>Sending alone never notifies.\<close>

interpretation count_effect: send_effect "\<lambda>c c'. shutdowns c' = shutdowns c"
  by unfold_locales (auto simp: shutdowns_def call_user_def buffer_raw_data_def)

text \<open>Between states with a handler, a drain that ends has been announced.\<close>

definition announced :: "http2_connection \<Rightarrow> http2_connection \<Rightarrow> bool" where
  "announced c c' \<longleftrightarrow> cn_event_handler c' = cn_event_handler c \<and> shutdowns c \<le> shutdowns c' \<and>
     (cn_event_handler c \<and> cn_draining c \<and> \<not> cn_draining c' \<longrightarrow> shutdowns c < shutdowns c')"

lemma check_drain_announced: "announced c (check_drain_complete c)"
  by (auto simp: check_drain_complete_def notify_def call_user_def announced_def shutdowns_def)

interpretation announced_effect: connection_effect announced
proof unfold_locales
  show "announced c (destroy_if_closed s c)" for s c
    using check_drain_announced [of "destroy_stream (st_stream_id s) c"]
    by (simp add: destroy_if_closed_def announced_def destroy_stream_def shutdowns_def)
qed (auto simp: announced_def shutdowns_def call_user_def buffer_raw_data_def essence_def put_stream_def)

text \<open>Once a GOAWAY is out and no drain is under way, none ever starts, and nothing more is announced.\<close>

definition past_drain :: "http2_connection \<Rightarrow> http2_connection \<Rightarrow> bool" where
  "past_drain c c' \<longleftrightarrow> (cn_sent_goaway c \<and> \<not> cn_draining c \<longrightarrow>
     cn_sent_goaway c' \<and> \<not> cn_draining c' \<and> shutdowns c' = shutdowns c)"

interpretation past_effect: connection_effect past_drain
  by unfold_locales
    (auto simp: past_drain_def shutdowns_def call_user_def buffer_raw_data_def essence_def put_stream_def
      destroy_if_closed_def destroy_stream_def check_drain_complete_def)

lemma user_step_past_drain: "user_step S c c' \<Longrightarrow> past_drain c c'"
  using past_effect.user_step [of S c c']
  by (auto simp: set_event_handler_def past_drain_def shutdowns_def drain_def)

lemma user_steps_past_drain: "(user_step S)\<^sup>*\<^sup>* c c' \<Longrightarrow> past_drain c c'"
  by (induction rule: rtranclp_induct) (auto intro: past_effect.R_refl past_effect.R_trans user_step_past_drain)

lemma drain_drain_ok:
  assumes "drain S c = Some c'" "drain_ok c"
  shows "drain_ok c'"
proof (cases "cn_sent_goaway c")
  case True
  with assms show ?thesis by (simp add: drain_def)
next
  case False
  then obtain d where d: "send_goaway S (error_code NoError) (cn_last_stream_id c) [] c = Some d"
    "c' = check_drain_complete (d\<lparr>cn_draining := True\<rparr>)"
    using assms(1) by (auto simp: drain_def bind_eq_Some_conv)
  have "cn_sent_goaway d" using d(1) by (auto simp: send_goaway_def bind_eq_Some_conv Let_def)
  moreover have "shutdowns d = 0"
    using count_effect.send_goaway [OF d(1)] assms(2) False by (auto simp: drain_ok_def)
  ultimately show ?thesis unfolding d(2) by (intro check_drain_ok) (simp_all add: shutdowns_def)
qed

lemma user_step_drain_ok: "user_step S c c' \<Longrightarrow> drain_ok c \<Longrightarrow> drain_ok c'"
  using drain_effect.user_step [of S c c'] drain_drain_ok
  by (auto simp: set_event_handler_def drain_ok_def shutdowns_def)

lemma new_drain_ok: "http2_connection_new cid client_side = Some c \<Longrightarrow> drain_ok c"
  by (auto simp: http2_connection_new_def drain_ok_def shutdowns_def)

lemma user_reach_drain_ok: "user_reach S c \<Longrightarrow> drain_ok c"
  by (induction rule: user_reach.induct) (auto intro: new_drain_ok user_step_drain_ok)

section \<open>Properties\<close>

lemma drain_returns:
  assumes "\<not> cn_sent_goaway c" "cn_event_handler c" "drain_ok c"
  shows "\<exists>c'. drain S c = Some c' \<and> cn_sent_goaway c' \<and> cn_streams c' = cn_streams c \<and>
    (if cn_streams c = [] then shutdowns c' = 1 else cn_draining c')"
proof -
  obtain d where d: "send_goaway S (error_code NoError) (cn_last_stream_id c) [] c = Some d"
    using send_goaway_total [of "[]" S "error_code NoError" "cn_last_stream_id c" c] by auto
  have g: "cn_sent_goaway d" using d by (auto simp: send_goaway_def bind_eq_Some_conv Let_def)
  have k: "cn_streams d = cn_streams c" "cn_event_handler d = cn_event_handler c"
    using calm_fields [OF send_goaway_calm [OF d]] by simp_all
  have n: "shutdowns d = 0" using count_effect.send_goaway [OF d] assms(1,3) by (auto simp: drain_ok_def)
  show ?thesis
    using d g k n assms(1,2)
    by (auto simp: drain_def check_drain_complete_def notify_def call_user_def shutdowns_def)
qed

text \<open>C25. The user is told at most once that a connection has shut down, only after a GOAWAY was sent, and
  not while it still drains: a draining connection always has a stream left whose end will
  complete the drain, so it is never forgotten.\<close>

theorem shutdown_complete_once:
  assumes "user_reach S c"
  shows "count_list (cn_log c) OnShutdownComplete \<le> 1 \<and>
    (OnShutdownComplete \<in> set (cn_log c) \<longrightarrow> cn_sent_goaway c \<and> \<not> cn_draining c) \<and>
    (cn_draining c \<longrightarrow> cn_sent_goaway c \<and> cn_streams c \<noteq> [])"
  using user_reach_drain_ok [OF assms] count_list_0_iff [of "cn_log c" OnShutdownComplete]
  by (auto simp: drain_ok_def shutdowns_def)


text \<open>A server that opens a stream, drains and then resets the stream.\<close>

definition server_idle :: http2_connection where
  "server_idle = snd (create_stream (set_event_handler True (fresh_connection False)))"

definition server_open :: http2_connection where
  "server_open = put_stream (st_send_headers (http2_stream_new 0 2))
     (sent example_services (headers_frame 2 False []) server_idle)"

lemma server_idle_eq:
  "server_idle = (put_stream (http2_stream_new 0 2) (set_event_handler True (fresh_connection False)))\<lparr>cn_next_local_stream_id := 4\<rparr>"
proof -
  have "\<not> HTTP2_MAX_STREAM_ID \<le> 2" by (simp add: HTTP2_MAX_STREAM_ID_def word_le_nat_alt)
  then show ?thesis
    by (simp add: server_idle_def create_stream_def default_settings_def setting_index_def set_event_handler_def
        global_settings_parameters_def setting_parameters_def Let_def)
qed

lemma server_fields:
  "plain server_idle" "cn_streams server_idle = [(2, http2_stream_new 0 2)]" "\<not> cn_sent_goaway server_idle"
  "cn_event_handler server_idle" "\<not> cn_draining server_idle"
  by (simp_all add: server_idle_eq plain_def put_stream_def set_event_handler_def http2_stream_new_def)

lemma server_open_streams:
  "cn_streams server_open = [(2, st_send_headers (http2_stream_new 0 2))]" "plain server_open"
  "\<not> cn_sent_goaway server_open" "cn_event_handler server_open" "\<not> cn_draining server_open"
  using server_fields
  by (simp_all add: server_open_def put_stream_def plain_def st_send_headers_def http2_stream_new_def sent_def call_user_def)

lemma server_open_reach: "user_reach example_services server_open"
proof -
  have "user_reach example_services (set_event_handler True (fresh_connection False))"
    by (rule reach_user_step [OF fresh_reach us_SetEventHandler])
  then have r: "user_reach example_services server_idle"
    unfolding server_idle_def by (rule reach_user_step [OF _ us_CreateStream]) (rule prod.collapse [symmetric])
  have "encode_header_block example_services [] server_idle = Some ([], server_idle)"
    by (simp add: encode_header_block_def mdels_of_def sb_merge_def slice_buffer_new_def sb_slice_count_def)
  moreover have "find_stream 2 server_idle = Some (http2_stream_new 0 2)"
    by (simp add: find_stream_def server_fields)
  ultimately have "stream_send_headers example_services 2 [] False server_idle = Some (True, server_open)"
    using plain_send_headers [OF server_fields(1), of 2 _ example_services "[]" "[]" _ False]
    by (simp add: example_services_def server_open_def destroy_if_closed_def Let_def st_is_closed_def
        st_send_headers_def http2_stream_new_def transition_def)
  with r show ?thesis by (blast intro: reach_user_step us_SendHeaders)
qed

theorem shutdown_complete_once_witness:
  "count_list (cn_log server_open) OnShutdownComplete \<le> 1"
  using shutdown_complete_once [OF server_open_reach] by simp


end
