(* ===== verification/Connection_Segments.thy ===== *)
theory Connection_Segments
  imports Connection_Shutdown
begin

text \<open>
  How the bytes of the peer are cut into calls of \<^verbatim>\<open>ReceivedData\<close> does not matter. The routines
  below read from the memory they are given; what they return does not depend on the bytes that
  follow the ones they read, so a buffer may be handed over in pieces.
\<close>

section \<open>Reads from a longer buffer\<close>

text \<open>The second result is the first, unless the first ran out of its buffer.\<close>

definition extends_outcome :: "'a outcome \<Rightarrow> 'a outcome \<Rightarrow> bool" where
  "extends_outcome r r' \<longleftrightarrow> r = Fault \<or> r' = r"

lemma extends_refl [simp]: "extends_outcome r r"
  by (simp add: extends_outcome_def)

lemma extends_bind:
  assumes "extends_outcome r r'" "\<And>x. r = Ok x \<Longrightarrow> extends_outcome (f x) (f' x)"
  shows "extends_outcome (outcome_bind r f) (outcome_bind r' f')"
  using assms by (cases r) (auto simp: extends_outcome_def)

lemma prefix_drop: "prefix bs bs' \<Longrightarrow> prefix (drop k bs) (drop k bs')"
  by (auto simp: prefix_def)

lemma extends_read:
  assumes "prefix bs bs'"
  shows "extends_outcome (of_read (byte_at bs i)) (of_read (byte_at bs' i))"
    "extends_outcome (of_read (get_uint32_from_be_stream bs)) (of_read (get_uint32_from_be_stream bs'))"
    "extends_outcome (of_read (get_uint16_from_be_stream bs)) (of_read (get_uint16_from_be_stream bs'))"
    "extends_outcome (of_read (MakeStaticSlice bs n)) (of_read (MakeStaticSlice bs' n))"
proof -
  obtain extra where e: "bs' = bs @ extra" using assms by (auto simp: prefix_def)
  show "extends_outcome (of_read (byte_at bs i)) (of_read (byte_at bs' i))"
    by (auto simp: e extends_outcome_def byte_at_def nth_append)
  show "extends_outcome (of_read (get_uint32_from_be_stream bs)) (of_read (get_uint32_from_be_stream bs'))"
    unfolding e extends_outcome_def by (cases bs rule: get_uint32_from_be_stream.cases) simp_all
  show "extends_outcome (of_read (get_uint16_from_be_stream bs)) (of_read (get_uint16_from_be_stream bs'))"
    unfolding e extends_outcome_def by (cases bs rule: get_uint16_from_be_stream.cases) simp_all
  show "extends_outcome (of_read (MakeStaticSlice bs n)) (of_read (MakeStaticSlice bs' n))"
    by (auto simp: e extends_outcome_def MakeStaticSlice_def)
qed

lemmas extends_intros = extends_refl extends_bind extends_read prefix_drop

text \<open>What follows the padding prologue.\<close>

lemma extends_padding:
  assumes "prefix bs bs'" "\<And>p q q' n. prefix q q' \<Longrightarrow> extends_outcome (f (p, q, n)) (f (p, q', n))"
  shows "extends_outcome (outcome_bind (parse_padding h bs) f) (outcome_bind (parse_padding h bs') f)"
proof (cases "has_flag (hd_flags h) Flag_Padded")
  case True
  show ?thesis
  proof (cases bs)
    case Nil
    with True show ?thesis by (simp add: parse_padding_def byte_at_def extends_outcome_def)
  next
    case (Cons b q)
    then obtain q' where "bs' = b # q'" "prefix q q'" using assms(1) by (auto simp: prefix_def)
    with True Cons assms(2) show ?thesis by (simp add: parse_padding_def byte_at_def frame_size_error_def)
  qed
next
  case False
  with assms show ?thesis by (simp add: parse_padding_def)
qed

lemma extends_settings_loop:
  "prefix bs bs' \<Longrightarrow> extends_outcome (parse_settings_loop n bs) (parse_settings_loop n bs')"
  by (induction n arbitrary: bs bs') (auto intro!: extends_intros)

lemma extends_parsers:
  assumes "prefix bs bs'"
  shows "extends_outcome (parse_http2_frame_data h bs) (parse_http2_frame_data h bs')"
    "extends_outcome (parse_http2_frame_headers h bs) (parse_http2_frame_headers h bs')"
    "extends_outcome (parse_http2_frame_priority h bs) (parse_http2_frame_priority h bs')"
    "extends_outcome (parse_http2_frame_rst_stream h bs) (parse_http2_frame_rst_stream h bs')"
    "extends_outcome (parse_http2_frame_settings h bs) (parse_http2_frame_settings h bs')"
    "extends_outcome (parse_http2_frame_push_promise h bs) (parse_http2_frame_push_promise h bs')"
    "extends_outcome (parse_http2_frame_ping h bs) (parse_http2_frame_ping h bs')"
    "extends_outcome (parse_http2_frame_goaway h bs) (parse_http2_frame_goaway h bs')"
    "extends_outcome (parse_http2_frame_window_update h bs) (parse_http2_frame_window_update h bs')"
    "extends_outcome (parse_http2_frame_continuation h bs) (parse_http2_frame_continuation h bs')"
proof -
  show "extends_outcome (parse_http2_frame_headers h bs) (parse_http2_frame_headers h bs')"
    unfolding parse_http2_frame_headers_def
    by (rule extends_padding [OF assms], cases "has_flag (hd_flags h) Flag_Priority")
      (auto simp: outcome_bind_assoc intro!: extends_intros)
  show "extends_outcome (parse_http2_frame_ping h bs) (parse_http2_frame_ping h bs')"
    using assms by (auto simp: parse_http2_frame_ping_def extends_outcome_def prefix_def)
qed (use assms in \<open>auto simp: parse_http2_frame_data_def parse_http2_frame_priority_def
    parse_http2_frame_rst_stream_def parse_http2_frame_settings_def parse_http2_frame_push_promise_def
    parse_http2_frame_goaway_def parse_http2_frame_window_update_def
    parse_http2_frame_continuation_def intro!: extends_intros extends_padding extends_settings_loop\<close>)

section \<open>Handlers on a longer buffer\<close>

text \<open>Likewise for a routine that has no value when it ran out of its buffer.\<close>

definition extends_option :: "'a option \<Rightarrow> 'a option \<Rightarrow> bool" where
  "extends_option r r' \<longleftrightarrow> r = None \<or> r' = r"

lemma extends_parsed: "extends_outcome r r' \<Longrightarrow> extends_option (parsed S r k c) (parsed S r' k c)"
  by (auto simp: extends_outcome_def extends_option_def parsed_def)

lemma extends_process:
  assumes "n \<le> 9" "prefix bs bs'"
  shows "extends_option ((frame_process_func_array ! n) S h bs c) ((frame_process_func_array ! n) S h bs' c)"
  using less_10_cases [OF assms(1)]
  by (elim disjE)
     (simp_all add: frame_process_func_array_def internal_data_process_def internal_headers_process_def
        internal_priority_process_def internal_rst_stream_process_def internal_settings_process_def
        internal_push_promise_process_def internal_ping_process_def internal_goaway_process_def
        internal_window_update_process_def internal_continuation_process_def
        extends_parsed [OF extends_parsers(1) [OF assms(2)]] extends_parsed [OF extends_parsers(2) [OF assms(2)]]
        extends_parsed [OF extends_parsers(3) [OF assms(2)]] extends_parsed [OF extends_parsers(4) [OF assms(2)]]
        extends_parsed [OF extends_parsers(5) [OF assms(2)]] extends_parsed [OF extends_parsers(6) [OF assms(2)]]
        extends_parsed [OF extends_parsers(7) [OF assms(2)]] extends_parsed [OF extends_parsers(8) [OF assms(2)]]
        extends_parsed [OF extends_parsers(9) [OF assms(2)]] extends_parsed [OF extends_parsers(10) [OF assms(2)]])

lemma unpack_append: "9 \<le> length bs \<Longrightarrow> http2_frame_header_unpack (bs @ extra) = http2_frame_header_unpack bs"
  by (simp add: http2_frame_header_unpack_def byte_at_def nth_append)

lemma package_process_append:
  assumes "package_process S bs n c = Some r" "9 \<le> length bs"
  shows "package_process S (bs @ extra) n c = Some r"
proof (cases "n < HTTP2_FRAME_HEADER_SIZE")
  case True
  with assms show ?thesis by (simp add: package_process_def)
next
  case False
  then obtain h where h: "http2_frame_header_unpack bs = Some h"
    using assms(1) by (auto simp: package_process_def bind_eq_Some_conv)
  let ?run = "\<lambda>p. (frame_process_func_array ! unat (hd_type h)) S h (drop (unat HTTP2_FRAME_HEADER_SIZE) p)
      (track_last_stream (hd_stream_id h) c)"
  have "extends_option (?run bs) (?run (bs @ extra))" if "hd_type h \<le> frame_type Type_Continuation"
    using that by (intro extends_process) (auto simp: word_le_nat_alt intro: prefix_drop)
  then show ?thesis
    using assms(1) False h unpack_append [OF assms(2), of extra]
    unfolding package_process_def Let_def
    by (auto simp: extends_option_def bind_eq_Some_conv not_less split: if_splits)
qed

section \<open>The frame loop\<close>

lemma unpack_present: "9 \<le> length buf \<Longrightarrow> \<exists>h. http2_frame_header_unpack buf = Some h"
proof -
  assume "9 \<le> length buf"
  then have "4 \<le> length buf" "4 \<le> length (drop 5 buf)" by simp_all
  from this [THEN get_uint32_present] \<open>9 \<le> length buf\<close> show ?thesis
    by (auto simp: http2_frame_header_unpack_def byte_at_def)
qed

text \<open>The rounds of the loop as equations.\<close>

lemma frame_loop_long:
  assumes "9 \<le> length buf" "http2_frame_header_unpack buf = Some h"
  shows "frame_loop S buf pos c = (if hd_length h > cn_local_settings c ! setting_index Set_MaxFrameSize
      then map_option (\<lambda>c. (-1, c)) (goaway S (error_code FrameSizeError) c)
      else if unat (hd_length h) + 9 > length buf then Some (int_of_size pos, c)
      else case package_process S buf (hd_length h + HTTP2_FRAME_HEADER_SIZE) c of None \<Rightarrow> None
        | Some (consumed, c') \<Rightarrow> if consumed < 0 then Some (-1, c')
            else frame_loop S (drop (nat consumed) buf) (pos + nat consumed) c')"
  using assms frame_total_nat [OF unpack_length [OF assms(2)]]
  by (subst frame_loop.simps) (simp add: HTTP2_FRAME_HEADER_SIZE_def Let_def)

lemma frame_loop_large:
  assumes "9 \<le> length buf" "http2_frame_header_unpack buf = Some h"
    and "hd_length h > cn_local_settings c ! setting_index Set_MaxFrameSize"
  shows "frame_loop S buf pos c = map_option (\<lambda>c. (-1, c)) (goaway S (error_code FrameSizeError) c)"
  using assms(3) by (simp add: frame_loop_long [OF assms(1,2)])

lemma frame_loop_frame:
  assumes "9 \<le> length buf" "http2_frame_header_unpack buf = Some h"
    and "hd_length h \<le> cn_local_settings c ! setting_index Set_MaxFrameSize" "unat (hd_length h) + 9 \<le> length buf"
    and "package_process S buf (hd_length h + HTTP2_FRAME_HEADER_SIZE) c = Some (consumed, d)"
  shows "frame_loop S buf pos c = (if consumed < 0 then Some (-1, d)
    else frame_loop S (drop (nat consumed) buf) (pos + nat consumed) d)"
  using assms(3-5) by (simp add: frame_loop_long [OF assms(1,2)] not_less [symmetric])

text \<open>One round of the loop: the buffer is too short, or its first frame is too large, incomplete, or processed.\<close>

lemma frame_loop_cases:
  assumes "frame_loop S buf pos c = Some (r, c')" "pos + length buf < 2 ^ 31"
  obtains (short) "length buf < 9" "r = int pos" "c' = c"
  | (large) h where "9 \<le> length buf" "http2_frame_header_unpack buf = Some h"
      "hd_length h > cn_local_settings c ! setting_index Set_MaxFrameSize"
      "goaway S (error_code FrameSizeError) c = Some c'" "r = -1"
  | (incomplete) h where "9 \<le> length buf" "http2_frame_header_unpack buf = Some h"
      "hd_length h \<le> cn_local_settings c ! setting_index Set_MaxFrameSize"
      "length buf < unat (hd_length h) + 9" "r = int pos" "c' = c"
  | (failed) h where "9 \<le> length buf" "http2_frame_header_unpack buf = Some h"
      "hd_length h \<le> cn_local_settings c ! setting_index Set_MaxFrameSize" "unat (hd_length h) + 9 \<le> length buf"
      "package_process S buf (hd_length h + HTTP2_FRAME_HEADER_SIZE) c = Some (-1, c')" "r = -1"
  | (frame) h n d where "9 \<le> length buf" "http2_frame_header_unpack buf = Some h"
      "hd_length h \<le> cn_local_settings c ! setting_index Set_MaxFrameSize" "n = unat (hd_length h) + 9" "n \<le> length buf"
      "package_process S buf (hd_length h + HTTP2_FRAME_HEADER_SIZE) c = Some (int n, d)"
      "frame_loop S (drop n buf) (pos + n) d = Some (r, c')"
proof (cases "length buf < 9")
  case True
  have "int_of_size pos = int pos" using assms(2) by (intro int_of_size_small) simp
  with True assms(1) short show ?thesis
    by (subst (asm) frame_loop.simps) (simp add: HTTP2_FRAME_HEADER_SIZE_def)
next
  case False
  then obtain h where h: "http2_frame_header_unpack buf = Some h" using unpack_present by (metis not_less)
  have pos: "int_of_size pos = int pos" using assms(2) by (intro int_of_size_small) simp
  have "9 \<le> length buf" using False by simp
  note e = frame_loop_long [OF this h, of S pos c, unfolded pos]
  consider "hd_length h > cn_local_settings c ! setting_index Set_MaxFrameSize"
    | "hd_length h \<le> cn_local_settings c ! setting_index Set_MaxFrameSize" "unat (hd_length h) + 9 > length buf"
    | consumed d where "hd_length h \<le> cn_local_settings c ! setting_index Set_MaxFrameSize"
        "unat (hd_length h) + 9 \<le> length buf"
        "package_process S buf (hd_length h + HTTP2_FRAME_HEADER_SIZE) c = Some (consumed, d)"
    using assms(1) e by (fastforce simp: not_less split: if_splits option.splits)
  then show ?thesis
  proof cases
    case 1
    with e assms(1) have "r = -1" "goaway S (error_code FrameSizeError) c = Some c'"
      by (cases "goaway S (error_code FrameSizeError) c"; simp)+
    with 1 False h show ?thesis by (intro large) simp_all
  next
    case 2
    with e assms(1) have "r = int pos" "c' = c" by (simp_all add: not_less [symmetric])
    with 2 False h show ?thesis by (intro incomplete) simp_all
  next
    case 3
    define n where "n = unat (hd_length h) + 9"
    from package_process_consumed [OF 3(3)] h consider "consumed = -1" | "consumed = int n"
      by (auto simp: n_def)
    then show ?thesis
    proof cases
      case 1
      with 3 e assms(1) have "r = -1" "d = c'" by (simp_all add: not_less [symmetric])
      with 1 3 False h show ?thesis by (intro failed) simp_all
    next
      case 2
      with 3 e assms(1) have "frame_loop S (drop n buf) (pos + n) d = Some (r, c')" by (simp add: not_less [symmetric])
      with 2 3 False h show ?thesis by (intro frame) (simp_all add: n_def)
    qed
  qed
qed

lemma drop_rest: "int (pos + n) \<le> r \<Longrightarrow> drop (nat r - (pos + n)) (drop n xs) = drop (nat r - pos) xs"
  by (cases r) simp_all

text \<open>The loop may run out of bytes: what it then returns, and where a longer buffer goes on.\<close>

lemma frame_loop_stops:
  assumes "frame_loop S buf pos c = Some (r, c')" "pos + length buf < 2 ^ 31"
  shows "r = -1 \<or> (int pos \<le> r \<and> r \<le> int (pos + length buf) \<and>
    (let rest = drop (nat r - pos) buf in length rest < 9 \<or>
       (\<exists>h. http2_frame_header_unpack rest = Some h \<and> length rest < unat (hd_length h) + 9 \<and>
          hd_length h \<le> cn_local_settings c' ! setting_index Set_MaxFrameSize)))"
  using assms
proof (induction "length buf" arbitrary: buf pos c rule: less_induct)
  case less
  from less(2,3) show ?case
  proof (cases rule: frame_loop_cases)
    case (frame h n d)
    with less(3) have "r = -1 \<or> int (pos + n) \<le> r \<and> r \<le> int (pos + length buf) \<and>
      (let rest = drop (nat r - (pos + n)) (drop n buf) in length rest < 9 \<or>
        (\<exists>h. http2_frame_header_unpack rest = Some h \<and> length rest < unat (hd_length h) + 9 \<and>
           hd_length h \<le> cn_local_settings c' ! setting_index Set_MaxFrameSize))"
      using less(1) [OF _ frame(7)] by auto
    then show ?thesis using drop_rest [of pos n r buf] by (auto simp: Let_def)
  qed (auto simp: Let_def)
qed

lemma frame_loop_append:
  assumes "frame_loop S buf pos c = Some (r, c')" "pos + length buf + length extra < 2 ^ 31"
  shows "frame_loop S (buf @ extra) pos c =
    (if r < 0 then Some (r, c') else frame_loop S (drop (nat r - pos) buf @ extra) (nat r) c')"
  using assms
proof (induction "length buf" arbitrary: buf pos c rule: less_induct)
  case less
  have p: "pos + length buf < 2 ^ 31" using less(3) by simp
  from less(2) p show ?case
  proof (cases rule: frame_loop_cases)
    case (large h)
    then show ?thesis using frame_loop_large [of "buf @ extra" h c S pos] by (simp add: unpack_append)
  next
    case (failed h)
    then show ?thesis
      using frame_loop_frame [of "buf @ extra" h c S "-1" c' pos] by (simp add: unpack_append package_process_append)
  next
    case (frame h n d)
    have n: "0 < n" "9 \<le> length (buf @ extra)" "unat (hd_length h) + 9 \<le> length (buf @ extra)" using frame(1,4,5) by simp_all
    have "frame_loop S (buf @ extra) pos c = frame_loop S (drop n buf @ extra) (pos + n) d"
      using frame_loop_frame [OF n(2) _ frame(3) n(3) package_process_append [OF frame(6,1)], of pos]
        frame(1,2,5) by (simp add: unpack_append)
    also have "\<dots> = (if r < 0 then Some (r, c')
        else frame_loop S (drop (nat r - (pos + n)) (drop n buf) @ extra) (nat r) c')"
      using less(3) frame(5) n(1) by (intro less(1) [OF _ frame(7)]) simp_all
    finally show ?thesis
      using frame_loop_stops [OF frame(7)] frame(5) p drop_rest [of pos n r buf] by (auto simp: add.assoc)
  qed (simp_all add: nat_int)
qed

text \<open>The position only offsets the result.\<close>

lemma frame_loop_shift:
  assumes "k + pos + length buf < 2 ^ 31"
  shows "frame_loop S buf (k + pos) c =
    map_option (\<lambda>(r, c). (if r < 0 then r else r + int k, c)) (frame_loop S buf pos c)"
  using assms
proof (induction "length buf" arbitrary: buf pos c rule: less_induct)
  case less
  have i: "int_of_size (k + pos) = int (k + pos)" "int_of_size pos = int pos"
    using less(2) by (simp_all add: int_of_size_small)
  show ?case
  proof (cases "length buf < 9")
    case True
    then show ?thesis using i by (simp add: frame_loop.simps HTTP2_FRAME_HEADER_SIZE_def)
  next
    case False
    then have l: "9 \<le> length buf" by simp
    then obtain h where h: "http2_frame_header_unpack buf = Some h" using unpack_present by blast
    have step: "frame_loop S (drop (nat r) buf) (k + pos + nat r) d =
        map_option (\<lambda>(r, c). (if r < 0 then r else r + int k, c)) (frame_loop S (drop (nat r) buf) (pos + nat r) d)"
      if "unat (hd_length h) + 9 \<le> length buf" "\<not> r < 0"
        "package_process S buf (hd_length h + HTTP2_FRAME_HEADER_SIZE) c = Some (r, d)" for r d
    proof -
      from package_process_consumed [OF that(3)] h that(2) have "r = int (unat (hd_length h) + 9)" by auto
      then have "nat r = unat (hd_length h) + 9" by (simp only: nat_int)
      with that(1) l less(2) show ?thesis
        using less(1) [of "drop (nat r) buf" "pos + nat r" d] by (simp add: add.assoc)
    qed
    show ?thesis
      unfolding frame_loop_long [OF l h] i
      using step by (auto simp: not_less map_option_case split: option.splits)
  qed
qed

text \<open>A negative result is a GOAWAY that was sent.\<close>

lemma goaway_sent: "goaway S err c = Some c' \<Longrightarrow> cn_sent_goaway c'"
  by (auto simp: goaway_def send_goaway_def bind_eq_Some_conv Let_def)

lemma package_process_failure:
  assumes "package_process S buf (hd_length h + HTTP2_FRAME_HEADER_SIZE) c = Some (-1, c')"
    and "http2_frame_header_unpack buf = Some h"
  shows "cn_sent_goaway c'"
proof -
  note n = frame_total_nat [OF unpack_length [OF assms(2)]]
  have "\<not> hd_length h + HTTP2_FRAME_HEADER_SIZE < HTTP2_FRAME_HEADER_SIZE"
    using n by (simp add: word_less_nat_alt HTTP2_FRAME_HEADER_SIZE_def)
  moreover have "int_of_size (unat (hd_length h + HTTP2_FRAME_HEADER_SIZE)) = int (unat (hd_length h) + 9)"
    using unpack_length [OF assms(2)] unfolding n by (intro int_of_size_small) simp
  then have "int_of_size (unat (hd_length h + HTTP2_FRAME_HEADER_SIZE)) \<noteq> -1" by linarith
  ultimately show ?thesis
    using assms unfolding package_process_def Let_def
    by (auto simp: bind_eq_Some_conv split: if_splits intro: goaway_sent)
qed

lemma frame_loop_failure:
  assumes "frame_loop S buf pos c = Some (-1, c')" "pos + length buf < 2 ^ 31"
  shows "cn_sent_goaway c'"
  using assms
proof (induction "length buf" arbitrary: buf pos c rule: less_induct)
  case less
  from less(2,3) show ?case
  proof (cases rule: frame_loop_cases)
    case (frame h n d)
    with less(3) show ?thesis by (intro less(1) [OF _ frame(7)]) simp_all
  qed (auto intro: goaway_sent package_process_failure)
qed

lemma send_initial_settings_total: "\<exists>c'. send_initial_settings S c = Some c'"
proof -
  let ?d = "c\<lparr>cn_initial_settings_sent := True\<rparr>"
  have "6 * length (initial_settings_entries ?d) < 2 ^ 24" using initial_entries_length [of ?d] by simp
  from send_settings_frame_total [OF this, of S 0 ?d] show ?thesis
    by (auto simp: send_initial_settings_def Let_def)
qed

text \<open>A server that receives the preface of a client.\<close>

lemma preface_received: "\<exists>c'. ReceivedData S PREFACE (fresh_connection False) = Some (24, c')"
proof -
  obtain d where "send_initial_settings S (fresh_connection False\<lparr>cn_finish_handshake := True\<rparr>) = Some d"
    using send_initial_settings_total by blast
  moreover have "frame_loop S [] (length PREFACE) d = Some (24, d)"
    by (simp add: frame_loop.simps HTTP2_FRAME_HEADER_SIZE_def PREFACE_def int_of_size_def)
  ultimately show ?thesis by (simp add: ReceivedData_def)
qed

section \<open>Properties\<close>

text \<open>C19. What \<^verbatim>\<open>ReceivedData\<close> returns: -1, and then a GOAWAY has been sent; or how many of the bytes it has
  used, and then what is left is not yet a preface or not yet a whole frame, so that calling it
  again without further bytes is pointless.\<close>

theorem received_data_consumes:
  assumes "ReceivedData S buf c = Some (r, c')" "length buf < 2 ^ 31"
  shows "r = -1 \<and> cn_sent_goaway c' \<or> 0 \<le> r \<and> r \<le> int (length buf) \<and>
    (let rest = drop (nat r) buf in
      \<not> cn_finish_handshake c' \<and> length rest < length PREFACE \<or> length rest < 9 \<or>
      (\<exists>h. http2_frame_header_unpack rest = Some h \<and> length rest < unat (hd_length h) + 9 \<and>
         hd_length h \<le> cn_local_settings c' ! setting_index Set_MaxFrameSize))"
proof (cases "cn_finish_handshake c")
  case True
  then have f: "frame_loop S buf 0 c = Some (r, c')" using assms(1) by (simp add: ReceivedData_def)
  from frame_loop_stops [OF f] frame_loop_failure [of S buf 0 c c'] f assms(2) show ?thesis by (auto simp: Let_def)
next
  case False
  show ?thesis
  proof (cases "length buf < length PREFACE \<or> take (length PREFACE) buf \<noteq> PREFACE")
    case True
    with False assms show ?thesis by (auto simp: ReceivedData_def goaway_sent split: if_splits)
  next
    case ok: False
    then obtain d where f: "frame_loop S (drop (length PREFACE) buf) (length PREFACE) d = Some (r, c')"
      using False assms(1) by (auto simp: ReceivedData_def bind_eq_Some_conv)
    have l: "length PREFACE + length (drop (length PREFACE) buf) = length buf" using ok by simp
    then have b: "length PREFACE + length (drop (length PREFACE) buf) < 2 ^ 31" using assms(2) by simp
    show ?thesis
    proof (cases "r = -1")
      case True
      with frame_loop_failure [OF _ b] f show ?thesis by simp
    next
      case False
      with frame_loop_stops [OF f b, unfolded l] obtain k where "r = int k" "length PREFACE \<le> k"
        by (cases r) auto
      with frame_loop_stops [OF f b, unfolded l] show ?thesis by (simp add: Let_def)
    qed
  qed
qed

theorem received_data_consumes_witness:
  "\<exists>c'. ReceivedData example_services PREFACE (fresh_connection False) = Some (24, c') \<and> (24 :: int) \<le> int (length PREFACE)"
proof -
  obtain c' where c: "ReceivedData example_services PREFACE (fresh_connection False) = Some (24, c')"
    using preface_received by blast
  from received_data_consumes [OF this] have "(24 :: int) \<le> int (length PREFACE)" by (simp add: PREFACE_def)
  with c show ?thesis by blast
qed

text \<open>C7. How the peer's bytes are cut into calls does not matter: if a call has used \<open>r\<close> bytes of \<open>a\<close>, then
  the rest of \<open>a\<close> followed by \<open>b\<close> brings the connection to the state that \<open>a\<close> and \<open>b\<close> in one call
  would, with the same calls of the user, and the results add up.\<close>

theorem received_data_segments:
  assumes "ReceivedData S a c = Some (r, c')" "0 \<le> r" "length a + length b < 2 ^ 31"
  shows "ReceivedData S (a @ b) c =
    map_option (\<lambda>(q, d). (if q < 0 then q else q + r, d)) (ReceivedData S (drop (nat r) a @ b) c')"
proof -
  have go_on: "frame_loop S (drop (nat r) a @ b) (nat r) c' =
      map_option (\<lambda>(q, d). (if q < 0 then q else q + r, d)) (ReceivedData S (drop (nat r) a @ b) c')"
    if "cn_finish_handshake c'" "nat r \<le> length a"
  proof -
    obtain k where k: "r = int k" using assms(2) by (rule nonneg_int_cases)
    show ?thesis
      using that frame_loop_shift [of k 0 "drop k a @ b" S c'] assms(3)
      unfolding k by (simp add: ReceivedData_def)
  qed
  show ?thesis
  proof (cases "cn_finish_handshake c")
    case True
    then have f: "frame_loop S a 0 c = Some (r, c')" using assms(1) by (simp add: ReceivedData_def)
    have "cn_finish_handshake c'" using kept_effect.frame_loop [OF f] True by (simp add: kept_def)
    moreover have "nat r \<le> length a" using frame_loop_stops [OF f] assms(2,3) by auto
    ultimately show ?thesis
      using go_on frame_loop_append [OF f, of b] True assms(2,3) by (simp add: ReceivedData_def)
  next
    case False
    show ?thesis
    proof (cases "length a < length PREFACE")
      case True
      with False assms(1) have "r = 0" "c' = c" by (auto simp: ReceivedData_def)
      then show ?thesis by (cases "ReceivedData S (a @ b) c") auto
    next
      case long: False
      with False assms(1,2) have p: "take (length PREFACE) a = PREFACE" by (auto simp: ReceivedData_def split: if_splits)
      with False long assms(1) obtain d where d: "send_initial_settings S (c\<lparr>cn_finish_handshake := True\<rparr>) = Some d"
        and f: "frame_loop S (drop (length PREFACE) a) (length PREFACE) d = Some (r, c')"
        by (auto simp: ReceivedData_def bind_eq_Some_conv)
      have "kept (c\<lparr>cn_finish_handshake := True\<rparr>) d"
        using kept_effect.send_initial_settings [OF d] .
      then have "cn_finish_handshake c'" using kept_effect.frame_loop [OF f] by (simp add: kept_def)
      moreover have r: "int (length PREFACE) \<le> r" "nat r \<le> length a"
        using frame_loop_stops [OF f] assms(2,3) long by auto
      moreover have "ReceivedData S (a @ b) c = frame_loop S (drop (length PREFACE) a @ b) (length PREFACE) d"
        using False long p d by (simp add: ReceivedData_def)
      ultimately show ?thesis
        using go_on frame_loop_append [OF f, of b] drop_rest [of 0 "length PREFACE" r a] assms(2,3) long by simp
    qed
  qed
qed

theorem received_data_segments_witness:
  "\<exists>c'. ReceivedData example_services PREFACE (fresh_connection False) = Some (24, c') \<and>
     ReceivedData example_services (PREFACE @ [0, 0, 8]) (fresh_connection False) =
       map_option (\<lambda>(q, d). (if q < 0 then q else q + 24, d)) (ReceivedData example_services [0, 0, 8] c')"
proof -
  obtain c' where c: "ReceivedData example_services PREFACE (fresh_connection False) = Some (24, c')"
    using preface_received by blast
  from received_data_segments [OF this, of "[0, 0, 8]"] c show ?thesis by (auto simp: PREFACE_def)
qed

end
