(* ===== verification/Compressor_Sync.thy ===== *)
theory Compressor_Sync
  imports Compressor
begin

text \<open>
  The relation between the compressor and the list of entries the peer's dynamic table holds,
  newest first, and that every compressor operation keeps it. While it holds no \<^verbatim>\<open>assert\<close> of
  the code fails.
\<close>

section \<open>The relation\<close>

definition c_sizes_ok :: "compressor \<Rightarrow> bool" where
  "c_sizes_ok c \<longleftrightarrow>
     length (c_entries c) = 64 \<and> c_cap_table_elems c \<noteq> 0 \<and>
     length (c_table_elem_size c) = unat (c_cap_table_elems c) \<and>
     c_max_table_elems c \<le> c_cap_table_elems c \<and>
     unat (c_max_table_size c) + 31 < 2 ^ 32 \<and>
     c_max_table_elems c = elems_for_bytes (c_max_table_size c)"

text \<open>The element with index \<open>tail + length E - i\<close> is the \<open>i\<close>-th newest.\<close>

definition ring_ok :: "compressor \<Rightarrow> mdelem_data list \<Rightarrow> bool" where
  "ring_ok c E \<longleftrightarrow>
     (\<forall>i < length E. unat (c_table_elem_size c !
        ((unat (c_tail_remote_index c) + length E - i) mod unat (c_cap_table_elems c))) = entry_size (E ! i))"

definition slot_ok :: "nat \<Rightarrow> mdelem_data list \<Rightarrow> send_record \<Rightarrow> bool" where
  "slot_ok tail E s \<longleftrightarrow>
     unat (sr_index s) \<le> tail + length E \<and>
     (tail < unat (sr_index s) \<longrightarrow> E ! (tail + length E - unat (sr_index s)) = sr_mdel s)"

definition sync :: "compressor \<Rightarrow> mdelem_data list \<Rightarrow> bool" where
  "sync c E \<longleftrightarrow>
     c_sizes_ok c \<and> unat (c_table_elems c) = length E \<and> unat (c_table_size c) = entries_size E \<and>
     entries_size E \<le> unat (c_max_table_size c) \<and>
     unat (c_tail_remote_index c) + length E < 2 ^ 32 \<and> ring_ok c E \<and>
     (\<forall>s \<in> set (c_entries c). slot_ok (unat (c_tail_remote_index c)) E s)"

lemma entries_size_ge: "32 * length E \<le> entries_size E"
  by (induction E) (auto simp: entry_size_def)

lemma unat_elems_for_bytes: "unat n + 31 < 2 ^ 32 \<Longrightarrow> unat (elems_for_bytes n) = (unat n + 31) div 32"
  by (simp add: elems_for_bytes_def unat_div unat_add_u32)

lemma sync_elems_max:
  assumes "sync c E" shows "length E \<le> unat (c_max_table_elems c)"
    and "entry_size e + entries_size E \<le> unat (c_max_table_size c) \<Longrightarrow> length E < unat (c_max_table_elems c)"
proof -
  have m: "unat (c_max_table_elems c) = (unat (c_max_table_size c) + 31) div 32"
    using assms by (simp add: sync_def c_sizes_ok_def unat_elems_for_bytes)
  show "length E \<le> unat (c_max_table_elems c)"
    using assms entries_size_ge [of E] unfolding m sync_def by linarith
  have "32 \<le> entry_size e" by (simp add: entry_size_def)
  then show "length E < unat (c_max_table_elems c)"
    if "entry_size e + entries_size E \<le> unat (c_max_table_size c)"
    using that entries_size_ge [of E] unfolding m by linarith
qed

lemma sync_cap: "sync c E \<Longrightarrow> length E \<le> unat (c_cap_table_elems c)"
  using sync_elems_max(1) [of c E] by (auto simp: sync_def c_sizes_ok_def word_le_nat_alt)

lemma sync_tail: "sync c E \<Longrightarrow>
    unat (c_tail_remote_index c + c_table_elems c) = unat (c_tail_remote_index c) + length E"
  by (subst unat_add_u32) (simp_all add: sync_def)

section \<open>Eviction\<close>

lemma elem_size_at_sync:
  assumes "sync c E" and "unat j = unat (c_tail_remote_index c) + length E - i" "i < length E"
  shows "\<exists>sz. elem_size_at c j = Some sz \<and> unat sz = entry_size (E ! i)"
proof -
  have "unat (c_cap_table_elems c) \<noteq> 0" using assms(1) by (simp add: sync_def c_sizes_ok_def unat_eq_zero)
  with assms show ?thesis
    by (simp add: elem_size_at_def Let_def sync_def c_sizes_ok_def ring_ok_def unat_mod)
qed

lemma slot_ok_evict:
  assumes "slot_ok t (E @ [e]) s" shows "slot_ok (Suc t) E s"
proof -
  have "E ! (Suc t + length E - unat (sr_index s)) = sr_mdel s" if "Suc t < unat (sr_index s)"
    using assms that by (auto simp: slot_ok_def nth_append split: if_splits)
  then show ?thesis using assms by (simp add: slot_ok_def)
qed

lemma evict_entry_sync:
  assumes "sync c (E @ [e])"
  shows "\<exists>c'. evict_entry c = Some c' \<and> sync c' E \<and>
    c_max_table_size c' = c_max_table_size c \<and> c_entries c' = c_entries c \<and>
    c_tail_remote_index c' + c_table_elems c' = c_tail_remote_index c + c_table_elems c"
proof -
  let ?t = "c_tail_remote_index c + 1"
  have b: "unat (c_tail_remote_index c) + length E + 1 < 2 ^ 32" using assms by (simp add: sync_def)
  then have t: "unat ?t = Suc (unat (c_tail_remote_index c))" by (subst unat_add_u32) simp_all
  have "unat ?t = unat (c_tail_remote_index c) + length (E @ [e]) - length E" using t by simp
  from elem_size_at_sync [OF assms this] obtain sz where sz: "elem_size_at c ?t = Some sz" "unat sz = entry_size e"
    by auto
  have usz: "unat (ucast sz :: u32) = entry_size e"
  proof -
    have "unat sz < 2 ^ 16" using unsigned_less [of sz, where 'a = nat] by simp
    then have "unat (ucast sz :: u32) = unat sz" by (simp add: unsigned_ucast_eq take_bit_nat_eq_self)
    then show ?thesis by (simp add: sz(2))
  qed
  let ?c = "c\<lparr>c_tail_remote_index := ?t, c_table_size := c_table_size c - ucast sz,
      c_table_elems := c_table_elems c - 1\<rparr>"
  have ts: "unat (c_table_size c) = entries_size E + entry_size e"
    and te: "unat (c_table_elems c) = Suc (length E)"
    using assms by (simp_all add: sync_def)
  have le: "ucast sz \<le> c_table_size c" "1 \<le> c_table_elems c"
    using ts te usz by (simp_all add: word_le_nat_alt)
  have pos: "0 < ?t" "0 < c_table_elems c" using t te by (simp_all add: word_less_nat_alt)
  have at: "elem_size_at (c\<lparr>c_tail_remote_index := ?t\<rparr>) ?t = Some sz"
    using sz(1) by (simp add: elem_size_at_def Let_def split: if_splits)
  have ev: "evict_entry c = Some ?c"
    using at le pos by (simp add: evict_entry_def Let_def)
  have ring: "ring_ok ?c E"
    unfolding ring_ok_def
  proof (intro allI impI)
    fix i assume i: "i < length E"
    have "unat (c_table_elem_size c ! ((unat (c_tail_remote_index c) + length (E @ [e]) - i) mod unat (c_cap_table_elems c)))
        = entry_size ((E @ [e]) ! i)"
      using assms i unfolding sync_def ring_ok_def by simp
    then show "unat (c_table_elem_size ?c ! ((unat (c_tail_remote_index ?c) + length E - i) mod unat (c_cap_table_elems ?c)))
        = entry_size (E ! i)"
      using i t by (simp add: nth_append)
  qed
  have "sync ?c E"
    using assms ring t ts te le usz slot_ok_evict
    by (auto simp: sync_def c_sizes_ok_def unat_sub_u32)
  with ev show ?thesis by (auto simp: algebra_simps)
qed

text \<open>An eviction loop stops at the longest prefix on which its condition fails.\<close>

lemma evict_while_sync:
  assumes "sync c E"
    and stop: "\<And>c' E'. sync c' E' \<Longrightarrow> c_max_table_size c' = c_max_table_size c \<Longrightarrow> P c' \<longleftrightarrow> n < entries_size E'"
  shows "\<exists>c'. evict_while P c = Some c' \<and> sync c' (fit n E) \<and>
    c_max_table_size c' = c_max_table_size c \<and> c_entries c' = c_entries c \<and>
    c_tail_remote_index c' + c_table_elems c' = c_tail_remote_index c + c_table_elems c"
  using assms
proof (induction E arbitrary: c rule: rev_induct)
  case Nil
  then have "\<not> P c" by simp
  then show ?case using Nil.prems(1) by (subst evict_while.simps) simp
next
  case (snoc e E)
  show ?case
  proof (cases "P c")
    case True
    obtain c1 where c1: "evict_entry c = Some c1" "sync c1 E" "c_max_table_size c1 = c_max_table_size c"
      "c_entries c1 = c_entries c"
      "c_tail_remote_index c1 + c_table_elems c1 = c_tail_remote_index c + c_table_elems c"
      using evict_entry_sync [OF snoc.prems(1)] by blast
    have "n < entries_size (E @ [e])" using snoc.prems True by blast
    then have "fit n (E @ [e]) = fit n E" by (rule fit_snoc)
    moreover have "evict_while P c = evict_while P c1"
      using True c1(1) by (subst evict_while.simps) simp
    ultimately show ?thesis
      using snoc.IH [OF c1(2)] snoc.prems(2) c1(3,4,5) by simp
  next
    case False
    then have "entries_size (E @ [e]) \<le> n" using snoc.prems by (metis not_less)
    then have "fit n (E @ [e]) = E @ [e]" by (rule fit_all)
    then show ?thesis using snoc.prems(1) False by (subst evict_while.simps) simp
  qed
qed

section \<open>Insertion\<close>

lemma fit_0 [simp]: "fit 0 E = []"
  by (cases E) (simp_all add: entry_size_def)

lemma fit_push: "fit n (e # E) = (if entry_size e \<le> n then e # fit (n - entry_size e) E else [])"
  by simp

lemma slot_ok_push: "slot_ok t E s \<Longrightarrow> slot_ok t (e # E) s"
  by (auto simp: slot_ok_def Suc_diff_le)

text \<open>The write of the new size does not touch the live part of the ring.\<close>

lemma ring_ok_push:
  assumes ring: "ring_ok c E" and len: "length E < unat (c_cap_table_elems c)"
    and arr: "length (c_table_elem_size c) = unat (c_cap_table_elems c)"
    and j: "j = (unat (c_tail_remote_index c) + length E + 1) mod unat (c_cap_table_elems c)"
    and x: "unat x = entry_size e"
  shows "ring_ok (c\<lparr>c_table_elem_size := (c_table_elem_size c)[j := x],
    c_table_size := ts, c_table_elems := te\<rparr>) (e # E)"
  unfolding ring_ok_def
proof (intro allI impI)
  let ?cap = "unat (c_cap_table_elems c)" and ?t = "unat (c_tail_remote_index c)"
  fix i assume i: "i < length (e # E)"
  have jl: "j < length (c_table_elem_size c)" using len arr by (simp add: j)
  show "unat (c_table_elem_size (c\<lparr>c_table_elem_size := (c_table_elem_size c)[j := x], c_table_size := ts, c_table_elems := te\<rparr>) !
      ((unat (c_tail_remote_index (c\<lparr>c_table_elem_size := (c_table_elem_size c)[j := x], c_table_size := ts, c_table_elems := te\<rparr>)) + length (e # E) - i)
         mod unat (c_cap_table_elems (c\<lparr>c_table_elem_size := (c_table_elem_size c)[j := x], c_table_size := ts, c_table_elems := te\<rparr>)))) =
      entry_size ((e # E) ! i)"
  proof (cases i)
    case 0
    then show ?thesis using j jl x by simp
  next
    case (Suc k)
    have k: "k < length E" using i Suc by simp
    have "(?t + length E - k) mod ?cap \<noteq> (?t + length E + 1) mod ?cap"
    proof
      assume "(?t + length E - k) mod ?cap = (?t + length E + 1) mod ?cap"
      then have "?cap dvd (?t + length E + 1) - (?t + length E - k)"
        using k by (subst mod_eq_dvd_iff_nat [symmetric]) simp_all
      moreover have "(?t + length E + 1) - (?t + length E - k) = k + 1" using k by simp
      ultimately have "?cap \<le> k + 1" by (metis dvd_imp_le zero_less_Suc Suc_eq_plus1)
      with k len show False by simp
    qed
    then show ?thesis using ring k Suc j by (simp add: ring_ok_def)
  qed
qed

lemma prepare_space_sync:
  assumes sync: "sync c E" and sz: "entry_size e < 65536"
    and room: "unat (c_tail_remote_index c) + length E + 1 < 2 ^ 32"
  shows "\<exists>new c'. prepare_space_for_new_elem c (entry_size e) = Some (new, c') \<and>
    sync c' (fit (unat (c_max_table_size c)) (e # E)) \<and> c_max_table_size c' = c_max_table_size c \<and>
    c_entries c' = c_entries c \<and>
    unat (c_tail_remote_index c') + length (fit (unat (c_max_table_size c)) (e # E)) \<le> unat (c_tail_remote_index c) + length E + 1 \<and>
    (new \<noteq> 0 \<longrightarrow> (\<exists>E'. fit (unat (c_max_table_size c)) (e # E) = e # E' \<and>
       unat new = unat (c_tail_remote_index c') + length (e # E')))"
proof (cases "entry_size e \<le> unat (c_max_table_size c)")
  case False
  obtain c' where c': "evict_while (\<lambda>c. c_table_size c > 0) c = Some c'" "sync c' (fit 0 E)"
    "c_max_table_size c' = c_max_table_size c" "c_entries c' = c_entries c"
    "c_tail_remote_index c' + c_table_elems c' = c_tail_remote_index c + c_table_elems c"
    using evict_while_sync [OF sync, of "\<lambda>c. c_table_size c > 0" 0]
    by (auto simp: sync_def word_less_nat_alt)
  have "unat (c_tail_remote_index c') = unat (c_tail_remote_index c) + length E"
    using sync_tail [OF c'(2)] sync_tail [OF sync] c'(5) by simp
  with c' False sz show ?thesis by (simp add: prepare_space_for_new_elem_def Let_def)
next
  case True
  let ?m = "unat (c_max_table_size c)"
  let ?E = "fit (?m - entry_size e) E"
  obtain c' where c': "evict_while (\<lambda>c. unat (c_table_size c) + entry_size e > unat (c_max_table_size c)) c = Some c'"
    "sync c' ?E" "c_max_table_size c' = c_max_table_size c" "c_entries c' = c_entries c"
    "c_tail_remote_index c' + c_table_elems c' = c_tail_remote_index c + c_table_elems c"
  proof -
    have "unat (c_table_size d) + entry_size e > unat (c_max_table_size d) \<longleftrightarrow> ?m - entry_size e < entries_size D"
      if "sync d D" "c_max_table_size d = c_max_table_size c" for d D
      using that True by (auto simp: sync_def)
    then have "\<exists>c'. evict_while (\<lambda>c. unat (c_table_size c) + entry_size e > unat (c_max_table_size c)) c = Some c' \<and>
        sync c' ?E \<and> c_max_table_size c' = c_max_table_size c \<and> c_entries c' = c_entries c \<and>
        c_tail_remote_index c' + c_table_elems c' = c_tail_remote_index c + c_table_elems c"
      by (intro evict_while_sync [OF sync]) simp
    then show ?thesis using that by blast
  qed
  have ex: "entry_size e + entries_size ?E \<le> unat (c_max_table_size c')"
    using fit_size [of "?m - entry_size e" E] True c'(3) by simp
  have few: "length ?E < unat (c_max_table_elems c')" by (rule sync_elems_max(2) [OF c'(2) ex])
  have cap: "length ?E < unat (c_cap_table_elems c')" "c_cap_table_elems c' \<noteq> 0"
    "length (c_table_elem_size c') = unat (c_cap_table_elems c')"
    using few c'(2) by (auto simp: sync_def c_sizes_ok_def word_le_nat_alt)
  let ?new = "c_tail_remote_index c + c_table_elems c + 1"
  have tail': "unat (c_tail_remote_index c') + length ?E = unat (c_tail_remote_index c) + length E"
    using sync_tail [OF c'(2)] sync_tail [OF sync] c'(5) by simp
  have new: "unat ?new = unat (c_tail_remote_index c') + length ?E + 1"
    using room sync_tail [OF sync] tail' by (subst unat_add_u32) simp_all
  let ?j = "unat (?new mod c_cap_table_elems c')"
  have j: "?j = (unat (c_tail_remote_index c') + length ?E + 1) mod unat (c_cap_table_elems c')"
    by (simp only: unat_mod new)
  have jl: "?j < length (c_table_elem_size c')" using cap by (simp add: j)
  let ?c = "c'\<lparr>c_table_elem_size := (c_table_elem_size c')[?j := word_of_nat (entry_size e)],
      c_table_size := c_table_size c' + word_of_nat (entry_size e), c_table_elems := c_table_elems c' + 1\<rparr>"
  have prep: "prepare_space_for_new_elem c (entry_size e) = Some (?new, ?c)"
    using c'(1) True sz cap jl few c'(2)
    by (simp add: prepare_space_for_new_elem_def Let_def sync_def word_less_nat_alt)
  have x: "unat (word_of_nat (entry_size e) :: u16) = entry_size e"
    using sz by (simp add: unat_of_nat take_bit_nat_eq_self)
  have ring: "ring_ok ?c (e # ?E)"
    using c'(2) cap j x by (intro ring_ok_push) (simp_all add: sync_def)
  have ts: "unat (c_table_size c' + word_of_nat (entry_size e)) = entry_size e + entries_size ?E"
  proof -
    have "unat (word_of_nat (entry_size e) :: u32) = entry_size e"
      using sz by (intro unat_of_nat_u32) simp
    with ex unat_u32_bound [of "c_max_table_size c'"] c'(2) show ?thesis
      by (subst unat_add_u32) (simp_all add: sync_def)
  qed
  have te: "unat (c_table_elems c' + 1) = length ?E + 1"
    using few c'(2) unat_u32_bound [of "c_max_table_elems c'"]
    by (subst unat_add_u32) (simp_all add: sync_def)
  have "sync ?c (e # ?E)"
    using c'(2) ring ts te ex room tail' by (auto simp: sync_def c_sizes_ok_def intro: slot_ok_push)
  moreover have "fit ?m (e # E) = e # ?E" using True by simp
  ultimately show ?thesis
    using prep c'(3,4) new tail' by (intro exI [of _ ?new] exI [of _ ?c]) auto
qed

lemma set_UpdateIndex_match:
  "i < length h \<Longrightarrow> sr_mdel (h ! i) = v \<Longrightarrow>
     set (UpdateIndex h i n) \<subseteq> insert \<lparr>sr_mdel = v, sr_index = n\<rparr> (set h)"
  using set_update_subset_insert [of h i "(h ! i)\<lparr>sr_index := n\<rparr>"]
  by (cases "h ! i") (auto simp: UpdateIndex_def)

lemma set_SetIndex:
  assumes "i < length h"
  shows "set (SetIndex h i v n) \<subseteq> insert \<lparr>sr_mdel = v, sr_index = n\<rparr> (set h)"
proof -
  have "SetIndex h i v n = h[i := \<lparr>sr_mdel = v, sr_index = n\<rparr>]"
    using assms by (cases "h ! i") (simp add: SetIndex_def UpdateIndex_def)
  then show ?thesis by (simp add: set_update_subset_insert)
qed

lemma HASH_FRAGMENT_bound [bounds]: "HASH_FRAGMENT_2 x < 64" "HASH_FRAGMENT_3 x < 64"
proof -
  have "unat (y AND 63 :: u32) < 64" for y
  proof -
    have "y AND 63 \<le> (63 :: u32)" by (rule word_and_le1)
    then have "unat (y AND 63) \<le> unat (63 :: u32)" by (rule word_le_nat_alt [THEN iffD1])
    then show ?thesis by simp
  qed
  then show "HASH_FRAGMENT_2 x < 64" "HASH_FRAGMENT_3 x < 64"
    by (simp_all add: HASH_FRAGMENT_2_def HASH_FRAGMENT_3_def)
qed

lemma set_UpdateAddOrEvict:
  assumes "length h = 64"
  shows "set (UpdateAddOrEvict h v hash n) \<subseteq> insert \<lparr>sr_mdel = v, sr_index = n\<rparr> (set h)"
proof -
  have l: "HASH_FRAGMENT_2 hash < length h" "HASH_FRAGMENT_3 hash < length h"
    using assms by (simp_all add: bounds)
  have match: "FullMatches h v i \<Longrightarrow> i < length h \<Longrightarrow>
      set (UpdateIndex h i n) \<subseteq> insert \<lparr>sr_mdel = v, sr_index = n\<rparr> (set h)" for i
    by (rule set_UpdateIndex_match) (simp_all add: FullMatches_def)
  show ?thesis
    unfolding UpdateAddOrEvict_def ReplaceOlderIndex_def Let_def
    using match [OF _ l(1)] match [OF _ l(2)] set_SetIndex [OF l(1), of v n] set_SetIndex [OF l(2), of v n]
    by (simp del: insert_iff)
qed

lemma length_UpdateAddOrEvict [simp]: "length (UpdateAddOrEvict h v hash n) = length h"
  by (simp add: UpdateAddOrEvict_def ReplaceOlderIndex_def SetIndex_def UpdateIndex_def Let_def)

lemma add_elem_sync:
  assumes sync: "sync c E" and sz: "entry_size e < 65536"
    and room: "unat (c_tail_remote_index c) + length E + 1 < 2 ^ 32"
  shows "\<exists>c'. add_elem c e (entry_size e) hash = Some c' \<and>
    sync c' (fit (unat (c_max_table_size c)) (e # E)) \<and> c_max_table_size c' = c_max_table_size c \<and>
    unat (c_tail_remote_index c') + length (fit (unat (c_max_table_size c)) (e # E))
      \<le> unat (c_tail_remote_index c) + length E + 1"
proof -
  let ?E = "fit (unat (c_max_table_size c)) (e # E)"
  obtain new c' where p: "prepare_space_for_new_elem c (entry_size e) = Some (new, c')" "sync c' ?E"
    "c_max_table_size c' = c_max_table_size c" "c_entries c' = c_entries c"
    "unat (c_tail_remote_index c') + length ?E \<le> unat (c_tail_remote_index c) + length E + 1"
    "new \<noteq> 0 \<longrightarrow> (\<exists>E'. ?E = e # E' \<and> unat new = unat (c_tail_remote_index c') + length (e # E'))"
    using prepare_space_sync [OF assms] by blast
  show ?thesis
  proof (cases "new = 0")
    case True
    with p show ?thesis by (simp add: add_elem_def)
  next
    case False
    let ?c = "c'\<lparr>c_entries := UpdateAddOrEvict (c_entries c') e hash new\<rparr>"
    have slot: "slot_ok (unat (c_tail_remote_index c')) ?E \<lparr>sr_mdel = e, sr_index = new\<rparr>"
      using p(6) False by (auto simp: slot_ok_def)
    have "length (c_entries c') = 64" using p(2) by (simp add: sync_def c_sizes_ok_def)
    from set_UpdateAddOrEvict [OF this, of e hash new]
    have "\<forall>s \<in> set (c_entries ?c). slot_ok (unat (c_tail_remote_index c')) ?E s"
      using p(2) slot unfolding sync_def by auto
    moreover have "c_sizes_ok ?c \<longleftrightarrow> c_sizes_ok c'" "ring_ok ?c ?E \<longleftrightarrow> ring_ok c' ?E"
      by (simp_all add: c_sizes_ok_def ring_ok_def del: fit.simps)
    ultimately have "sync ?c ?E" using p(2) by (simp add: sync_def del: fit.simps)
    with p False show ?thesis by (simp add: add_elem_def del: fit.simps)
  qed
qed

section \<open>Lookup\<close>

lemma GetMatchingIndex_live:
  assumes "length (c_entries c) = 64" "GetMatchingIndex c m hash = (r, idx)"
    "r \<noteq> MDELEM_NOT_MATCH" "c_tail_remote_index c < idx"
  shows "\<exists>s \<in> set (c_entries c). sr_index s = idx \<and> md_key (sr_mdel s) = md_key m \<and>
    (r = MDELEM_FULL_MATCH \<longrightarrow> sr_mdel s = m)"
proof -
  have "c_entries c ! HASH_FRAGMENT_2 hash \<in> set (c_entries c)" "c_entries c ! HASH_FRAGMENT_3 hash \<in> set (c_entries c)"
    using assms(1) by (simp_all add: bounds)
  then show ?thesis
    using assms(2-4)
    by (auto simp: GetMatchingIndex_def Let_def FullMatches_def max_def min_def split: if_splits)
qed

text \<open>A live index names an entry of the peer's table, which \<^verbatim>\<open>dynidx\<close> addresses.\<close>

lemma dynidx_live:
  assumes sync: "sync c E" and s: "s \<in> set (c_entries c)" "c_tail_remote_index c < sr_index s"
    and room: "unat (c_tail_remote_index c) + length E + 62 < 2 ^ 32"
  shows "62 \<le> unat (dynidx c (sr_index s)) \<and>
    unat (dynidx c (sr_index s) - 62) < length E \<and> E ! unat (dynidx c (sr_index s) - 62) = sr_mdel s"
proof -
  let ?t = "unat (c_tail_remote_index c)" and ?i = "unat (sr_index s)"
  have i: "?i \<le> ?t + length E" "?t < ?i" "E ! (?t + length E - ?i) = sr_mdel s"
    using sync s by (auto simp: sync_def slot_ok_def word_less_nat_alt)
  have base: "1 + word_of_nat HPACK_STATIC_MDELEM_STANDARD_COUNT = (62 :: u32)"
    by (simp add: HPACK_STATIC_MDELEM_STANDARD_COUNT_def)
  have "unat (62 + (c_tail_remote_index c + c_table_elems c)) = 62 + (?t + length E)"
    using room sync_tail [OF sync] by (subst unat_add_u32) simp_all
  then have d: "unat (dynidx c (sr_index s)) = 62 + (?t + length E) - ?i"
    using i unfolding dynidx_def base add.assoc by (subst unat_sub_u32) (simp_all add: word_le_nat_alt)
  then have "unat (dynidx c (sr_index s) - 62) = ?t + length E - ?i"
    using i by (subst unat_sub_u32) (simp_all add: word_le_nat_alt)
  moreover have "62 \<le> 62 + (?t + length E) - ?i" "?t + length E - ?i < length E" using i by linarith+
  ultimately show ?thesis using d i by simp
qed

section \<open>The initial state\<close>

lemma sync_init: "sync compressor_init []"
  by (simp add: sync_def c_sizes_ok_def compressor_init_def elems_for_bytes_def HPACK_INITIAL_TABLE_SIZE_def
      HPACK_NUM_VALUES_def ring_ok_def slot_ok_def)

section \<open>Resizing\<close>

lemma mod_offsets_distinct:
  assumes "k < m" "m - k < n" shows "(t + k) mod n \<noteq> (t + m) mod (n :: nat)"
proof
  assume "(t + k) mod n = (t + m) mod n"
  then have "n dvd (t + m) - (t + k)" using assms(1) by (subst mod_eq_dvd_iff_nat [symmetric]) simp_all
  then have "n dvd m - k" by simp
  with assms show False by (metis dvd_imp_le not_le zero_less_diff)
qed

lemma rebuild_loop_spec:
  assumes "c_cap_table_elems c \<noteq> 0" "length (c_table_elem_size c) = unat (c_cap_table_elems c)" "nc \<noteq> 0"
  shows "length arr = unat nc \<Longrightarrow> n \<le> unat nc \<Longrightarrow> unat (c_tail_remote_index c) + i + n < 2 ^ 32 \<Longrightarrow>
    \<exists>arr'. rebuild_loop c nc i n arr = Some arr' \<and> length arr' = unat nc \<and>
      (\<forall>m. i \<le> m \<and> m < i + n \<longrightarrow> arr' ! ((unat (c_tail_remote_index c) + m + 1) mod unat nc) =
          c_table_elem_size c ! ((unat (c_tail_remote_index c) + m + 1) mod unat (c_cap_table_elems c))) \<and>
      (\<forall>p. (\<forall>m. i \<le> m \<and> m < i + n \<longrightarrow> (unat (c_tail_remote_index c) + m + 1) mod unat nc \<noteq> p) \<longrightarrow> arr' ! p = arr ! p)"
proof (induction n arbitrary: i arr)
  case (Suc n)
  let ?t = "unat (c_tail_remote_index c)"
  let ?ofs = "c_tail_remote_index c + word_of_nat i + 1"
  have pos: "unat (c_cap_table_elems c) \<noteq> 0" "unat nc \<noteq> 0" using assms by (simp_all add: unat_eq_zero)
  have "unat (word_of_nat i :: u32) = i" using Suc.prems(3) by (intro unat_of_nat_u32) simp
  then have "unat (c_tail_remote_index c + word_of_nat i) = ?t + i"
    using Suc.prems(3) by (subst unat_add_u32) simp_all
  then have ofs: "unat ?ofs = ?t + i + 1" using Suc.prems(3) by (subst unat_add_u32) simp_all
  let ?j = "(?t + i + 1) mod unat nc" and ?x = "c_table_elem_size c ! ((?t + i + 1) mod unat (c_cap_table_elems c))"
  have at: "elem_size_at c ?ofs = Some ?x"
    using assms pos ofs by (simp add: elem_size_at_def Let_def unat_mod)
  have j: "unat (?ofs mod nc) = ?j" "?j < length arr" using ofs pos Suc.prems(1) by (simp_all add: unat_mod)
  have step: "rebuild_loop c nc i (Suc n) arr = rebuild_loop c nc (i + 1) n (arr[?j := ?x])"
    using at j assms(3) by (simp add: Let_def)
  have "length (arr[?j := ?x]) = unat nc" "n \<le> unat nc" "?t + (i + 1) + n < 2 ^ 32"
    using Suc.prems by simp_all
  from Suc.IH [OF this] obtain arr' where ih:
    "rebuild_loop c nc (i + 1) n (arr[?j := ?x]) = Some arr'" "length arr' = unat nc"
    "\<And>m. i + 1 \<le> m \<Longrightarrow> m < i + 1 + n \<Longrightarrow> arr' ! ((?t + m + 1) mod unat nc) =
        c_table_elem_size c ! ((?t + m + 1) mod unat (c_cap_table_elems c))"
    "\<And>p. (\<forall>m. i + 1 \<le> m \<and> m < i + 1 + n \<longrightarrow> (?t + m + 1) mod unat nc \<noteq> p) \<Longrightarrow> arr' ! p = arr[?j := ?x] ! p"
    by blast
  have "\<forall>m. i + 1 \<le> m \<and> m < i + 1 + n \<longrightarrow> (?t + m + 1) mod unat nc \<noteq> ?j"
  proof (intro allI impI)
    fix m assume "i + 1 \<le> m \<and> m < i + 1 + n"
    then have "(?t + 1 + i) mod unat nc \<noteq> (?t + 1 + m) mod unat nc"
      using Suc.prems(2) by (intro mod_offsets_distinct) auto
    moreover have "?t + 1 + k = ?t + k + 1" for k by simp
    ultimately show "(?t + m + 1) mod unat nc \<noteq> ?j" by simp
  qed
  from ih(4) [OF this] have "arr' ! ?j = ?x" using j(2) by simp
  then have "arr' ! ((?t + m + 1) mod unat nc) = c_table_elem_size c ! ((?t + m + 1) mod unat (c_cap_table_elems c))"
    if "i \<le> m" "m < i + Suc n" for m
    using that ih(3) [of m] by (cases "m = i") simp_all
  moreover have "arr' ! p = arr ! p" if "\<forall>m. i \<le> m \<and> m < i + Suc n \<longrightarrow> (?t + m + 1) mod unat nc \<noteq> p" for p
  proof -
    have "?j \<noteq> p" using that by auto
    moreover have "\<forall>m. i + 1 \<le> m \<and> m < i + 1 + n \<longrightarrow> (?t + m + 1) mod unat nc \<noteq> p" using that by auto
    ultimately show ?thesis using ih(4) by simp
  qed
  ultimately show ?case unfolding step using ih(1,2) by blast
qed auto

lemma rebuild_elems_ring:
  assumes "ring_ok c E" "c_cap_table_elems c \<noteq> 0" "length (c_table_elem_size c) = unat (c_cap_table_elems c)"
    and "unat (c_table_elems c) = length E" "unat (c_tail_remote_index c) + length E < 2 ^ 32"
    and "nc \<noteq> 0" "length E \<le> unat nc"
  shows "\<exists>arr. rebuild_elems c nc = Some (c\<lparr>c_cap_table_elems := nc, c_table_elem_size := arr\<rparr>) \<and>
    length arr = unat nc \<and> ring_ok (c\<lparr>c_cap_table_elems := nc, c_table_elem_size := arr\<rparr>) E"
proof -
  let ?t = "unat (c_tail_remote_index c)"
  obtain arr where arr: "rebuild_loop c nc 0 (length E) (replicate (unat nc) 0) = Some arr" "length arr = unat nc"
    "\<And>m. m < length E \<Longrightarrow> arr ! ((?t + m + 1) mod unat nc) =
        c_table_elem_size c ! ((?t + m + 1) mod unat (c_cap_table_elems c))"
    using rebuild_loop_spec [OF assms(2,3,6), of "replicate (unat nc) 0" "length E" 0] assms(5,7) by auto
  have "ring_ok (c\<lparr>c_cap_table_elems := nc, c_table_elem_size := arr\<rparr>) E"
    unfolding ring_ok_def
  proof (intro allI impI)
    fix i assume i: "i < length E"
    obtain k where k: "k < length E" "?t + length E - i = ?t + k + 1"
      using i by (intro that [of "length E - i - 1"]) auto
    have "unat (c_table_elem_size c ! ((?t + k + 1) mod unat (c_cap_table_elems c))) = entry_size (E ! i)"
      using assms(1) i unfolding ring_ok_def k(2) [symmetric] by blast
    with arr(3) [OF k(1)] have "unat (arr ! ((?t + length E - i) mod unat nc)) = entry_size (E ! i)"
      unfolding k(2) by simp
    then show "unat (c_table_elem_size (c\<lparr>c_cap_table_elems := nc, c_table_elem_size := arr\<rparr>) !
        ((unat (c_tail_remote_index (c\<lparr>c_cap_table_elems := nc, c_table_elem_size := arr\<rparr>)) + length E - i) mod
         unat (c_cap_table_elems (c\<lparr>c_cap_table_elems := nc, c_table_elem_size := arr\<rparr>)))) = entry_size (E ! i)"
      by simp
  qed
  with arr(1,2) assms(4,7) show ?thesis by (auto simp: rebuild_elems_def word_less_nat_alt)
qed

lemma set_max_table_size_sync:
  assumes sync: "sync c E" and m: "m = min n (c_max_usable_size c)" "unat m + 31 < 2 ^ 32"
  shows "\<exists>c'. compressor_set_max_table_size c n = Some c' \<and> sync c' (fit (unat m) E) \<and>
    c_max_table_size c' = m"
proof (cases "m = c_max_table_size c")
  case True
  then have "fit (unat m) E = E" using sync by (intro fit_all) (simp add: sync_def)
  with True sync m(1) show ?thesis by (simp add: compressor_set_max_table_size_def)
next
  case False
  let ?E = "fit (unat m) E"
  have "\<exists>c1. evict_while (\<lambda>c. c_table_size c > 0 \<and> c_table_size c > m) c = Some c1 \<and> sync c1 ?E \<and>
      c_max_table_size c1 = c_max_table_size c \<and> c_entries c1 = c_entries c \<and>
      c_tail_remote_index c1 + c_table_elems c1 = c_tail_remote_index c + c_table_elems c"
    by (rule evict_while_sync [OF sync]) (auto simp: sync_def word_less_nat_alt)
  then obtain c1 where c1: "evict_while (\<lambda>c. c_table_size c > 0 \<and> c_table_size c > m) c = Some c1" "sync c1 ?E"
    by blast
  let ?c = "c1\<lparr>c_max_table_size := m, c_max_table_elems := elems_for_bytes m\<rparr>"
  have few: "length ?E \<le> unat (elems_for_bytes m)"
    using entries_size_ge [of ?E] fit_size [of "unat m" E] by (simp add: unat_elems_for_bytes [OF m(2)])
  have ring: "ring_ok ?c ?E" "c_cap_table_elems ?c \<noteq> 0" "length (c_table_elem_size ?c) = unat (c_cap_table_elems ?c)"
    "unat (c_table_elems ?c) = length ?E" "unat (c_tail_remote_index ?c) + length ?E < 2 ^ 32"
    using c1(2) by (simp_all add: sync_def c_sizes_ok_def ring_ok_def)
  have rebuilt: "\<exists>c'. rebuild_elems ?c nc = Some c' \<and> sync c' ?E \<and> c_max_table_size c' = m"
    if "nc \<noteq> 0" "elems_for_bytes m \<le> nc" for nc
  proof -
    have "length ?E \<le> unat nc" using few that(2) by (simp add: word_le_nat_alt)
    from rebuild_elems_ring [OF ring that(1) this] obtain arr where
      arr: "rebuild_elems ?c nc = Some (?c\<lparr>c_cap_table_elems := nc, c_table_elem_size := arr\<rparr>)"
      "length arr = unat nc" "ring_ok (?c\<lparr>c_cap_table_elems := nc, c_table_elem_size := arr\<rparr>) ?E"
      by blast
    then have "sync (?c\<lparr>c_cap_table_elems := nc, c_table_elem_size := arr\<rparr>) ?E"
      using c1(2) that m(2) fit_size [of "unat m" E] by (simp add: sync_def c_sizes_ok_def)
    with arr(1) show ?thesis by auto
  qed
  have kept: "sync ?c ?E" if "elems_for_bytes m \<le> c_cap_table_elems c1"
    using c1(2) that m(2) fit_size [of "unat m" E] by (simp add: sync_def c_sizes_ok_def ring_ok_def)
  have code: "compressor_set_max_table_size c n =
      (if elems_for_bytes m > c_cap_table_elems c1
       then rebuild_elems ?c (max (elems_for_bytes m) (2 * c_cap_table_elems c1))
       else if elems_for_bytes m < c_cap_table_elems c1 div 3
       then (if max (elems_for_bytes m) 16 \<noteq> c_cap_table_elems c1
             then rebuild_elems ?c (max (elems_for_bytes m) 16) else Some ?c)
       else Some ?c)"
    using False m(1) c1(1) by (simp add: compressor_set_max_table_size_def Let_def)
  have nz: "max (elems_for_bytes m) (2 * c_cap_table_elems c1) \<noteq> 0" if "elems_for_bytes m > c_cap_table_elems c1"
  proof
    assume "max (elems_for_bytes m) (2 * c_cap_table_elems c1) = 0"
    then have "elems_for_bytes m \<le> 0" by (metis max.cobounded1)
    with that show False by simp
  qed
  have nz16: "max (elems_for_bytes m) 16 \<noteq> 0" by (auto simp: max_def)
  show ?thesis
    unfolding code using rebuilt [OF nz] rebuilt [OF nz16] kept by (auto simp: not_less)
qed

end
