(* ===== verification/Hpack_Roundtrip.thy ===== *)
theory Hpack_Roundtrip
  imports Hpack_Decode Compressor_Sync "HOL-Library.Sublist"
begin

text \<open>
  Decoding what the compressor encodes. The compressor's picture of the peer's table is a prefix
  of that table; under this relation every header comes back unchanged and the relation holds
  again. The client lemmas are proved for any table service that keeps the contract.
\<close>

section \<open>Headers the encoder accepts\<close>

text \<open>
  Smaller than the \<^verbatim>\<open>assert\<close> in \<^verbatim>\<open>prepare_space_for_new_elem\<close> demands, and with a lower-case name,
  which the decoder demands.
\<close>

definition header_ok :: "mdelem_data \<Rightarrow> bool" where
  "header_ok m \<longleftrightarrow> entry_size m < 65536 \<and> \<not> list_ex isupper (md_key m)"

lemma header_ok_fits: "header_ok m \<Longrightarrow> mdelem_fits m"
  by (simp add: header_ok_def mdelem_fits_def entry_size_def MDELEM_SIZE_def)

text \<open>No static name ends in \<^verbatim>\<open>-bin\<close>, so the two sides account the same size.\<close>

lemma hpack_size_static:
  assumes "check_key_exists (md_key m)"
  shows "get_size_in_hpack_table m b = entry_size m"
proof -
  obtain j md where "static_mdelem j = Some md" "md_key md = md_key m"
    using assms by (auto simp: check_key_exists_iff)
  with static_mdelem_facts(4) [of j md]
  have "drop (length (md_key m) - 4) (md_key m) \<noteq> ascii ''-bin''" by simp
  then have "\<not> grpc_key_is_binary_header (md_key m) (length (md_key m))"
    by (auto simp: grpc_key_is_binary_header_def memcmp_eq_def)
  then show ?thesis by (simp add: get_size_in_hpack_table_def entry_size_def MDELEM_SIZE_def Let_def)
qed

section \<open>One representation at a time\<close>

lemma ucast_eq_0 [simp]: "ucast (x :: u8) = (0 :: u32) \<longleftrightarrow> x = 0"
proof -
  have "unat (ucast x :: u32) = unat x"
    using unat_u8_bound [of x] by (simp add: unsigned_ucast_eq take_bit_nat_eq_self)
  then show ?thesis by (metis unat_eq_zero)
qed

lemma decode_one_index:
  assumes "i \<noteq> 0"
  shows "decode_one svc t (encode_index i @ rest) = outcome_bind (lookup_index svc t i) (\<lambda>m. Ok (t, Some m, rest))"
proof -
  obtain b bs where b: "encode_index i = b # bs" "b AND 0x80 \<noteq> 0" by (rule encode_index_first)
  have "null_is CompressionError (decode_uint32 (b # bs @ rest) (INT_MASK 7)) = Ok (i, rest)"
    using decode_encode_index [of i rest] b by simp
  with b assms show ?thesis by (simp add: decode_one_def decode_indexed_def)
qed

lemma decode_literal_new:
  assumes "mdelem_fits m" "\<not> list_ex isupper (md_key m)"
    and "length (encode_mdelem_data_impl m ty @ rest) < 2 ^ 32"
    and "ty AND INT_MASK n = 0" "INT_MASK n \<noteq> 0"
  shows "decode_literal svc t (encode_mdelem_data_impl m ty @ rest) n add =
    Ok (if add then svc_push_mdelem_data svc t m else t, Some m, rest)"
proof -
  have w: "encode_mdelem_data_impl m ty @ rest = ty # plain_string (md_key m) @ plain_string (md_value m) @ rest"
    by (simp add: encode_mdelem_wire [OF assms(1)])
  have "decode_uint32 (ty # bs) (INT_MASK n) = Ok (0, bs)" for bs
    using assms(4,5) by (simp add: decode_uint32_def)
  moreover have "parse_string_key [] (plain_string (md_key m) @ plain_string (md_value m) @ rest) =
      Ok (md_key m, plain_string (md_value m) @ rest)"
    using assms(2,3) unfolding w by (subst parse_plain_string_key) (simp_all add: plain_string_def)
  moreover have "parse_string (plain_string (md_value m) @ rest) = Ok (md_value m, rest)"
    using assms(3) unfolding w by (intro parse_plain_string) (simp add: plain_string_def)
  ultimately show ?thesis
    unfolding w decode_literal_def by (cases m) (simp add: decode_name_def Let_def)
qed

lemma decode_one_new:
  assumes "mdelem_fits m" "\<not> list_ex isupper (md_key m)"
    and "length (encode_mdelem_data_impl m ty @ rest) < 2 ^ 32"
  shows "ty = 0x40 \<Longrightarrow> decode_one svc t (encode_mdelem_data_impl m ty @ rest) = Ok (svc_push_mdelem_data svc t m, Some m, rest)"
    and "ty = 0x00 \<or> ty = 0x10 \<Longrightarrow> decode_one svc t (encode_mdelem_data_impl m ty @ rest) = Ok (t, Some m, rest)"
proof -
  obtain bs where w: "encode_mdelem_data_impl m ty @ rest = ty # bs"
    using encode_mdelem_wire [OF assms(1), of ty] by simp
  note lit = decode_literal_new [OF assms, unfolded w]
  have d: "decode_one svc t (ty # bs) =
      (if ty AND 0x80 \<noteq> 0 then decode_indexed svc t (ty # bs)
       else if ty AND 0x40 \<noteq> 0 then decode_literal svc t (ty # bs) 6 True
       else if ty AND 0x20 \<noteq> 0 then decode_size_update svc t (ty # bs)
       else decode_literal svc t (ty # bs) 4 False)"
    by (simp add: decode_one_def)
  show "ty = 0x40 \<Longrightarrow> decode_one svc t (encode_mdelem_data_impl m ty @ rest) = Ok (svc_push_mdelem_data svc t m, Some m, rest)"
    unfolding w d using lit [of 6 svc t True] by (simp add: INT_MASK_def)
  show "ty = 0x00 \<or> ty = 0x10 \<Longrightarrow> decode_one svc t (encode_mdelem_data_impl m ty @ rest) = Ok (t, Some m, rest)"
    unfolding w d using lit [of 4 svc t False] by (auto simp: INT_MASK_def)
qed

lemma decode_one_key:
  assumes "mdelem_fits m" "i \<noteq> 0" "lookup_index svc t i = Ok m'" "md_key m' = md_key m"
    and "length (encode_without_indexing_key m i @ rest) < 2 ^ 32"
  shows "decode_one svc t (encode_without_indexing_key m i @ rest) = Ok (t, Some m, rest)"
proof -
  have w: "encode_without_indexing_key m i @ rest = encode_uint16 i (INT_MASK 4) @ plain_string (md_value m) @ rest"
    by (simp add: encode_without_indexing_key_wire [OF assms(1)])
  obtain b bs where b: "encode_uint16 i (INT_MASK 4) = b # bs"
    using encode_uint16_not_Nil [of i "INT_MASK 4"] by (cases "encode_uint16 i (INT_MASK 4)") auto
  then have "unat b < 16" using encode_uint16_small_mask [of 4 i b bs] by simp
  note flags = small_byte_flags [OF this]
  have "decode_uint32 (encode_uint16 i (INT_MASK 4) @ plain_string (md_value m) @ rest) (INT_MASK 4) =
      Ok (i, plain_string (md_value m) @ rest)"
    using decode_encode_uint32 [of 4 0 i "plain_string (md_value m) @ rest"] by simp
  moreover have "parse_string (plain_string (md_value m) @ rest) = Ok (md_value m, rest)"
    using assms(5) unfolding w by (intro parse_plain_string) (simp add: plain_string_def)
  ultimately have "decode_literal svc t (encode_without_indexing_key m i @ rest) 4 False = Ok (t, Some m, rest)"
    unfolding w decode_literal_def using assms(2-4) by (simp add: decode_name_def)
  then show ?thesis unfolding w using b flags by (simp add: decode_one_def)
qed

lemma decode_one_size_update:
  "decode_one svc t (encode_update_max_size n @ rest) =
     (if n > svc_max_table_size_limit svc t then Error (error_code CompressionError)
      else Ok (svc_update_max_table_size svc t n, None, rest))"
proof -
  obtain c cs where c: "encode_uint16 n (INT_MASK 5) = c # cs"
    using encode_uint16_not_Nil [of n "INT_MASK 5"] by (cases "encode_uint16 n (INT_MASK 5)") auto
  then have "unat c < 32" using encode_uint16_small_mask [of 5 n c cs] by simp
  then have nb: "\<not> bit c 7" "\<not> bit c 6" using small_byte_bit [of c 5] by simp_all
  have z: "c AND 0x80 = 0" "c AND 0x40 = 0"
    using bit_mask_zero [OF nb(1)] bit_mask_zero [OF nb(2)] by (simp_all add: push_bit_eq_mult)
  have w: "encode_update_max_size n = (c OR 0x20) # cs" using c by (simp add: encode_update_max_size_def)
  have fl: "(c OR 0x20) AND 0x80 = 0" "(c OR 0x20) AND 0x40 = 0" "(c OR 0x20) AND 0x20 \<noteq> 0"
    using z by (simp_all add: bit.conj_disj_distrib2)
  have "null_is CompressionError (decode_uint32 ((c OR 0x20) # cs @ rest) (INT_MASK 5)) = Ok (n, rest)"
    using decode_encode_update_max_size [of n rest] w by simp
  with w fl show ?thesis by (simp add: decode_one_def decode_size_update_def)
qed

text \<open>No representation is longer than the size its entry is accounted with.\<close>

lemma length_encode_uint16 [bounds]: "length (encode_uint16 i m) \<le> 6"
  by (simp add: encode_uint16_eq bounds)

lemma representation_length [bounds]:
  "length (encode_index i) \<le> entry_size m"
  "mdelem_fits m \<Longrightarrow> length (encode_mdelem_data_impl m ty) \<le> entry_size m"
  "mdelem_fits m \<Longrightarrow> length (encode_without_indexing_key m i) \<le> entry_size m"
proof -
  have p: "length (plain_string s) \<le> 6 + length s" for s
    using length_encode_uint16 [of "word_of_nat (length s)" "INT_MASK 7"] by (simp add: plain_string_def)
  show "length (encode_index i) \<le> entry_size m"
    using length_encode_uint16 [of i "INT_MASK 7"] by (simp add: encode_index_def entry_size_def)
  show "mdelem_fits m \<Longrightarrow> length (encode_mdelem_data_impl m ty) \<le> entry_size m"
    using p [of "md_key m"] p [of "md_value m"] by (simp add: encode_mdelem_wire entry_size_def MDELEM_SIZE_def)
  show "mdelem_fits m \<Longrightarrow> length (encode_without_indexing_key m i) \<le> entry_size m"
    using p [of "md_value m"] length_encode_uint16 [of i "INT_MASK 4"]
    by (simp add: encode_without_indexing_key_wire entry_size_def MDELEM_SIZE_def)
qed

section \<open>The tracking relation\<close>

lemma prefix_fit: "prefix E D \<Longrightarrow> entries_size E \<le> n \<Longrightarrow> prefix E (fit n D)"
proof (induction E arbitrary: D n)
  case (Cons e E)
  then obtain D' where "D = e # D'" "prefix E D'" by (cases D) auto
  with Cons.IH [of D' "n - entry_size e"] Cons.prems(2) show ?case by auto
qed simp

lemma prefix_fit_mono:
  assumes "prefix E D" "m \<le> n" shows "prefix (fit m E) (fit n D)"
proof (rule prefix_fit)
  show "prefix (fit m E) D"
    using fit_prefix [of E m] assms(1) by (metis prefixI prefix_order.trans)
  show "entries_size (fit m E) \<le> n" using fit_size [of m E] assms(2) by (rule order_trans)
qed

text \<open>\<open>D\<close> is the peer's table and \<open>M\<close> its maximum size.\<close>

definition tracks :: "compressor \<Rightarrow> mdelem_data list \<Rightarrow> u32 \<Rightarrow> bool" where
  "tracks c D M \<longleftrightarrow> (\<exists>E. sync c E \<and> prefix E D) \<and> c_max_table_size c \<le> M"

text \<open>\<open>k\<close> more insertions do not exhaust the 32-bit element index.\<close>

definition index_room :: "compressor \<Rightarrow> nat \<Rightarrow> bool" where
  "index_room c k \<longleftrightarrow> unat (c_tail_remote_index c) + unat (c_table_elems c) + k < 2 ^ 32"

lemma index_room_mono: "index_room c k \<Longrightarrow> j \<le> k \<Longrightarrow> index_room c j"
  by (simp add: index_room_def)

section \<open>The client of the table service\<close>

context dynamic_table_contract
begin

lemma lookup_static: "static_mdelem (unat i) = Some m \<Longrightarrow> unat i \<le> 61 \<Longrightarrow> lookup_index svc t i = Ok m"
  by (simp add: lookup_index_def hpack_static_headers_def HPACK_STATIC_MDELEM_STANDARD_COUNT_def)

lemma lookup_dynamic:
  "tinv t \<Longrightarrow> 62 \<le> unat i \<Longrightarrow> unat (i - 62) < length (entries t) \<Longrightarrow>
     lookup_index svc t i = Ok (entries t ! unat (i - 62))"
  by (simp add: lookup_index_def get_entry HPACK_STATIC_MDELEM_STANDARD_COUNT_def)

lemma insert_tracks:
  assumes t: "tinv t" "unat (msize t) + 65536 < 2 ^ 32"
    and c: "tracks c (entries t) (msize t)" and m: "header_ok m" and room: "index_room c 1"
  shows "\<exists>c'. add_elem c m (entry_size m) hash = Some c' \<and>
    tinv (svc_push_mdelem_data svc t m) \<and>
    tracks c' (entries (svc_push_mdelem_data svc t m)) (msize t) \<and>
    (\<forall>k. index_room c (Suc k) \<longrightarrow> index_room c' k)"
proof -
  obtain E where E: "sync c E" "prefix E (entries t)" and M: "c_max_table_size c \<le> msize t"
    using c by (auto simp: tracks_def)
  have sz: "entry_size m < 65536" using m by (simp add: header_ok_def)
  have el: "unat (c_table_elems c) = length E" using E(1) by (simp add: sync_def)
  have "unat (c_tail_remote_index c) + length E + 1 < 2 ^ 32"
    using room el by (simp add: index_room_def)
  from add_elem_sync [OF E(1) sz this, of hash] obtain c' where
    c': "add_elem c m (entry_size m) hash = Some c'" "sync c' (fit (unat (c_max_table_size c)) (m # E))"
    "c_max_table_size c' = c_max_table_size c"
    "unat (c_tail_remote_index c') + length (fit (unat (c_max_table_size c)) (m # E)) \<le> unat (c_tail_remote_index c) + length E + 1"
    by blast
  have b: "unat (msize t) + entry_size m < 2 ^ 32" using t(2) sz by simp
  have "prefix (fit (unat (c_max_table_size c)) (m # E)) (fit (unat (msize t)) (m # entries t))"
    using E(2) M by (intro prefix_fit_mono) (simp_all add: word_le_nat_alt)
  then have "tracks c' (entries (svc_push_mdelem_data svc t m)) (msize t)"
    using c'(2,3) M push_entries [OF t(1) b] unfolding tracks_def by auto
  moreover have "unat (c_table_elems c') = length (fit (unat (c_max_table_size c)) (m # E))"
    using c'(2) unfolding sync_def by blast
  then have "\<forall>k. index_room c (Suc k) \<longrightarrow> index_room c' k"
    using c'(4) el by (simp add: index_room_def del: fit.simps)
  ultimately show ?thesis using c'(1) push_inv [OF t(1) b] by blast
qed

lemma live_entry:
  assumes t: "tinv t" and c: "tracks c (entries t) (msize t)" and room: "index_room c 62"
    and g: "GetMatchingIndex c m hash = (r, idx)" "r \<noteq> MDELEM_NOT_MATCH" "c_tail_remote_index c < idx"
  shows "\<exists>m'. dynidx c idx \<noteq> 0 \<and> lookup_index svc t (dynidx c idx) = Ok m' \<and> md_key m' = md_key m \<and>
    (r = MDELEM_FULL_MATCH \<longrightarrow> m' = m)"
proof -
  obtain E where E: "sync c E" "prefix E (entries t)" using c by (auto simp: tracks_def)
  then have len: "length (c_entries c) = 64" by (simp add: sync_def c_sizes_ok_def)
  obtain s where s: "s \<in> set (c_entries c)" "sr_index s = idx" "md_key (sr_mdel s) = md_key m"
    "r = MDELEM_FULL_MATCH \<longrightarrow> sr_mdel s = m"
    using GetMatchingIndex_live [OF len g] by blast
  have room': "unat (c_tail_remote_index c) + length E + 62 < 2 ^ 32"
    using room E(1) by (simp add: index_room_def sync_def)
  have d: "62 \<le> unat (dynidx c idx)" "unat (dynidx c idx - 62) < length E"
    "E ! unat (dynidx c idx - 62) = sr_mdel s"
    using dynidx_live [OF E(1) s(1) _ room'] g(3) s(2) by auto
  have "unat (dynidx c idx - 62) < length (entries t)" "entries t ! unat (dynidx c idx - 62) = sr_mdel s"
    using d(2,3) E(2) by (auto simp: prefix_def nth_append)
  with lookup_dynamic [OF t d(1)] have "lookup_index svc t (dynidx c idx) = Ok (sr_mdel s)" by simp
  moreover have "dynidx c idx \<noteq> 0" using d(1) by auto
  ultimately show ?thesis using s(3,4) by blast
qed

text \<open>One header: it is encoded, decoding returns it, and the tables stay related.\<close>

lemma encode_one_roundtrip:
  assumes t: "tinv t" "unat (msize t) + 65536 < 2 ^ 32"
    and c: "tracks c (entries t) (msize t)" and m: "header_ok m" and room: "index_room c (Suc k)" "61 \<le> k"
  shows "\<exists>s c' t'. compressor_encode_one seed c m b = Some (s, c') \<and> s \<noteq> [] \<and> length s \<le> entry_size m \<and>
    (\<forall>rest. length (s @ rest) < 2 ^ 32 \<longrightarrow> decode_one svc t (s @ rest) = Ok (t', Some m, rest)) \<and>
    tinv t' \<and> tracks c' (entries t') (msize t') \<and> msize t' = msize t \<and> index_room c' k"
proof (cases "full_match_static_mdelem_index m = 0")
  case False
  let ?i = "full_match_static_mdelem_index m"
  have i: "unat ?i \<le> 61" "static_mdelem (unat ?i) = Some m"
    using full_match_sound [OF refl False] by auto
  have "compressor_encode_one seed c m b = Some (encode_index ?i, c)"
    using False by (simp add: compressor_encode_one_def)
  moreover have "decode_one svc t (encode_index ?i @ rest) = Ok (t, Some m, rest)" for rest
    using decode_one_index [OF False, of svc t rest] lookup_static [OF i(2,1)] by simp
  moreover have "encode_index ?i \<noteq> []" by (simp add: encode_index_def)
  ultimately show ?thesis using t c index_room_mono [OF room(1), of k] representation_length(1) by auto
next
  case True
  note fits = header_ok_fits [OF m]
  have lower: "\<not> list_ex isupper (md_key m)" using m by (simp add: header_ok_def)
  obtain r idx where g: "GetMatchingIndex c m (mdelem_kv_hash seed (md_key m)) = (r, idx)" by fastforce
  have enc: "compressor_encode_one seed c m b = hpack_encode_header seed c m b"
    using True by (simp add: compressor_encode_one_def)
  show ?thesis
  proof (cases "r = MDELEM_NOT_MATCH \<or> idx \<le> c_tail_remote_index c")
    case miss: True
    show ?thesis
    proof (cases "check_key_exists (md_key m)")
      case interned: True
      from insert_tracks [OF t c m index_room_mono [OF room(1)], of "mdelem_kv_hash seed (md_key m)"] obtain c' where
        c': "add_elem c m (entry_size m) (mdelem_kv_hash seed (md_key m)) = Some c'"
        "tinv (svc_push_mdelem_data svc t m)"
        "tracks c' (entries (svc_push_mdelem_data svc t m)) (msize t)" "index_room c' k"
        using room by auto
      have "compressor_encode_one seed c m b = Some (encode_with_incremental_indexing m, c')"
        using enc g miss interned c'(1) hpack_size_static [OF interned, of b]
        by (auto simp: hpack_encode_header_def Let_def)
      moreover have "encode_with_incremental_indexing m \<noteq> []"
        by (simp add: encode_with_incremental_indexing_def encode_mdelem_wire [OF fits])
      ultimately show ?thesis
        using decode_one_new(1) [OF fits lower _ refl, of _ svc t] c'(2-4) representation_length(2) [OF fits]
        by (auto simp: encode_with_incremental_indexing_def push_msize)
    next
      case new: False
      have "compressor_encode_one seed c m b = Some (encode_without_indexing m, c)"
        using enc g miss new by (auto simp: hpack_encode_header_def Let_def)
      moreover have "encode_without_indexing m \<noteq> []"
        by (simp add: encode_without_indexing_def encode_mdelem_wire [OF fits])
      ultimately show ?thesis
        using decode_one_new(2) [OF fits lower, of 0 _ svc t] t c index_room_mono [OF room(1), of k] representation_length(2) [OF fits]
        by (auto simp: encode_without_indexing_def)
    qed
  next
    case hit: False
    have room62: "index_room c 62" using room by (auto intro: index_room_mono)
    obtain m' where m': "dynidx c idx \<noteq> 0" "lookup_index svc t (dynidx c idx) = Ok m'" "md_key m' = md_key m"
      "r = MDELEM_FULL_MATCH \<longrightarrow> m' = m"
      using live_entry [OF t(1) c room62 g] hit by (auto simp: not_le)
    show ?thesis
    proof (cases "r = MDELEM_FULL_MATCH")
      case full: True
      have "compressor_encode_one seed c m b = Some (encode_index (dynidx c idx), c)"
        using enc g hit full by (simp add: hpack_encode_header_def Let_def)
      moreover have "encode_index (dynidx c idx) \<noteq> []" by (simp add: encode_index_def)
      ultimately show ?thesis
        using decode_one_index [OF m'(1), of svc t] m'(2,4) full t c index_room_mono [OF room(1), of k]
          representation_length(1) by auto
    next
      case key: False
      have "compressor_encode_one seed c m b = Some (encode_without_indexing_key m (dynidx c idx), c)"
        using enc g hit key by (simp add: hpack_encode_header_def Let_def)
      moreover have "encode_without_indexing_key m (dynidx c idx) \<noteq> []"
        by (simp add: encode_without_indexing_key_wire [OF fits])
      ultimately show ?thesis
        using decode_one_key [OF fits m'(1-3)] t c index_room_mono [OF room(1), of k]
          representation_length(3) [OF fits] by auto
    qed
  qed
qed

text \<open>A whole header list, into an output buffer that may hold bytes already.\<close>

lemma encode_headers_roundtrip:
  assumes "tinv t" "unat (msize t) + 65536 < 2 ^ 32" "tracks c (entries t) (msize t)"
    "\<forall>m \<in> set hs. header_ok m" "index_room c (length hs + k)" "62 \<le> k" "sb_inv out"
  shows "\<exists>c' out' w. compressor_encode_headers seed c hs out b = Some (c', out') \<and>
    sb_inv out' \<and> sb_contents out' = sb_contents out @ w \<and> index_room c' k \<and>
    length hs \<le> length w \<and> length w \<le> entries_size hs \<and>
    (length w < 2 ^ 32 \<longrightarrow> (\<exists>t'. decode_headers svc t w hs0 = Some (error_code NoError, t', hs0 @ hs) \<and>
       tinv t' \<and> tracks c' (entries t') (msize t') \<and> msize t' = msize t))"
  using assms
proof (induction hs arbitrary: t c out hs0)
  case Nil
  then show ?case by auto
next
  case (Cons m hs)
  have "header_ok m" "index_room c (Suc (length hs + k))" "61 \<le> length hs + k" using Cons.prems(4-6) by simp_all
  from encode_one_roundtrip [OF Cons.prems(1-3) this, of seed b] have one: "\<exists>s c1 t1. compressor_encode_one seed c m b = Some (s, c1) \<and> s \<noteq> [] \<and> length s \<le> entry_size m \<and>
    (\<forall>rest. length (s @ rest) < 2 ^ 32 \<longrightarrow> decode_one svc t (s @ rest) = Ok (t1, Some m, rest)) \<and>
    tinv t1 \<and> tracks c1 (entries t1) (msize t1) \<and> msize t1 = msize t \<and> index_room c1 (length hs + k)"
    by simp
  then obtain s c1 t1 where
    one: "compressor_encode_one seed c m b = Some (s, c1)" "s \<noteq> []" "length s \<le> entry_size m"
    "\<forall>rest. length (s @ rest) < 2 ^ 32 \<longrightarrow> decode_one svc t (s @ rest) = Ok (t1, Some m, rest)"
    "tinv t1" "tracks c1 (entries t1) (msize t1)" "msize t1 = msize t" "index_room c1 (length hs + k)"
    by blast
  have "\<forall>m \<in> set hs. header_ok m" "unat (msize t1) + 65536 < 2 ^ 32" "sb_inv (sb_add_slice out s)"
    using Cons.prems one(7) by (simp_all add: sb_inv_add)
  from Cons.IH [OF one(5) this(2) one(6) this(1) one(8) Cons.prems(6) this(3), of "hs0 @ [m]"] obtain c' out' w where
    ih: "compressor_encode_headers seed c1 hs (sb_add_slice out s) b = Some (c', out')" "sb_inv out'"
    "sb_contents out' = sb_contents (sb_add_slice out s) @ w" "index_room c' k"
    "length hs \<le> length w" "length w \<le> entries_size hs"
    "length w < 2 ^ 32 \<longrightarrow> (\<exists>t'. decode_headers svc t1 w (hs0 @ [m]) = Some (error_code NoError, t', hs0 @ m # hs) \<and>
       tinv t' \<and> tracks c' (entries t') (msize t') \<and> msize t' = msize t1)"
    by auto
  have "\<exists>t'. decode_headers svc t (s @ w) hs0 = Some (error_code NoError, t', hs0 @ m # hs) \<and>
       tinv t' \<and> tracks c' (entries t') (msize t') \<and> msize t' = msize t" if "length (s @ w) < 2 ^ 32"
    using that one ih(7) decode_headers_Ok [of "s @ w" svc t t1 "Some m" w hs0] by simp
  moreover have "length (m # hs) \<le> length (s @ w)" using one(2) ih(5) by (cases s) simp_all
  ultimately show ?case
    using one(1,3) ih(1-6) Cons.prems(7) by (intro exI [of _ c'] exI [of _ out'] exI [of _ "s @ w"])
      (simp add: sb_contents_add)
qed

end

end
