(* ===== verification/Hpack_Safety.thy ===== *)
theory Hpack_Safety
  imports Hpack_Decode "HOL-Library.Sublist"
begin

text \<open>
  Which reads of the HPACK decoder stay inside the buffer: all of them, except that of a Huffman
  string whose declared length is beyond the end, which \<^verbatim>\<open>decode_string\<close> does not check.
\<close>

text \<open>At the head of \<open>buf\<close> stands a Huffman-flagged string longer than the bytes that follow.\<close>

definition huffman_overrun :: "bytes \<Rightarrow> bool" where
  "huffman_overrun buf \<longleftrightarrow> (case buf of [] \<Rightarrow> False
     | b # _ \<Rightarrow> b AND 0x80 \<noteq> 0 \<and>
         (case decode_uint32 buf (INT_MASK 7) of Ok (n, rest) \<Rightarrow> length rest < unat n | _ \<Rightarrow> False))"

lemma decode_string_no_fault: "n \<le> length src \<Longrightarrow> n < 2 ^ 32 \<Longrightarrow> decode_string src n n \<noteq> Fault"
  using decode_string_spec [of "take n src" n "drop n src"] by (auto split: option.splits)

lemma copy_key_no_fault: "n \<le> length buf \<Longrightarrow> copy_key buf n dst \<noteq> Fault"
  by (induction buf n dst rule: copy_key.induct) auto

lemma remaining_le: "(n :: u32) \<le> word_of_nat k \<Longrightarrow> unat n \<le> k"
proof -
  assume "n \<le> word_of_nat k"
  then have "unat n \<le> unat (word_of_nat k :: u32)" by (rule word_le_nat_alt [THEN iffD1])
  also have "\<dots> \<le> k" by (simp add: unat_of_nat take_bit_eq_mod)
  finally show ?thesis .
qed

lemma parse_string_fault: "parse_string buf = Fault \<Longrightarrow> huffman_overrun buf"
proof (cases buf)
  case (Cons b bs)
  assume f: "parse_string buf = Fault"
  show ?thesis
  proof (cases "decode_uint32 buf (INT_MASK 7)")
    case (Ok r)
    then obtain n rest where r: "decode_uint32 buf (INT_MASK 7) = Ok (n, rest)" by (cases r) auto
    with f Cons have "b AND 0x80 \<noteq> 0 \<and> decode_string rest (unat n) (unat n) = Fault"
      by (auto simp: parse_string_def Let_def split: if_splits)
    moreover from this have "\<not> unat n \<le> length rest"
      using decode_string_no_fault [of "unat n" rest] unat_u32_bound [of n] by blast
    ultimately show ?thesis using r Cons by (simp add: huffman_overrun_def)
  next
    case (Error e)
    with f Cons show ?thesis by (simp add: parse_string_def)
  next
    case Fault
    with Cons decode_uint32_no_fault show ?thesis by auto
  qed
qed (simp add: parse_string_def)

lemma parse_string_key_fault: "parse_string_key dst buf = Fault \<Longrightarrow> huffman_overrun buf"
proof (cases buf)
  case (Cons b bs)
  assume f: "parse_string_key dst buf = Fault"
  show ?thesis
  proof (cases "decode_uint32 buf (INT_MASK 7)")
    case (Ok r)
    then obtain n rest where r: "decode_uint32 buf (INT_MASK 7) = Ok (n, rest)" by (cases r) auto
    have "b AND 0x80 \<noteq> 0 \<and> decode_string rest (unat n) (unat n) = Fault"
      using f Cons r copy_key_no_fault remaining_le by (auto simp: parse_string_key_def Let_def split: if_splits)
    moreover from this have "\<not> unat n \<le> length rest"
      using decode_string_no_fault [of "unat n" rest] unat_u32_bound [of n] by blast
    ultimately show ?thesis using r Cons by (simp add: huffman_overrun_def)
  next
    case (Error e)
    with f Cons show ?thesis by (simp add: parse_string_key_def)
  next
    case Fault
    with Cons decode_uint32_no_fault show ?thesis by auto
  qed
qed (simp add: parse_string_key_def)

section \<open>Suffixes\<close>

lemma decode_uint32_suffix: "decode_uint32 src m = Ok (v, rest) \<Longrightarrow> suffix rest src"
  by (drule decode_uint32_progress) (auto simp: suffix_def)

lemma copy_key_suffix: "copy_key buf n dst = Ok (s, rest) \<Longrightarrow> suffix rest buf"
  by (drule copy_key_progress) (auto simp: suffix_def)

lemma decode_string_suffix: "decode_string src n k = Ok (s, rest) \<Longrightarrow> suffix rest src"
  by (auto simp: decode_string_def Let_def suffix_drop split: if_splits outcome.splits)

lemma parse_string_suffix: "parse_string buf = Ok (s, rest) \<Longrightarrow> suffix rest buf"
  by (auto simp: parse_string_def outcome_bind_eq_Ok Let_def split: list.splits if_splits
      dest!: decode_string_suffix dest: decode_uint32_suffix suffix_order.trans intro: suffix_order.trans [OF suffix_drop])

lemma parse_string_key_suffix: "parse_string_key dst buf = Ok (s, rest) \<Longrightarrow> suffix rest buf"
  by (auto simp: parse_string_key_def outcome_bind_eq_Ok Let_def split: list.splits if_splits
      dest!: decode_string_suffix copy_key_suffix dest: decode_uint32_suffix suffix_order.trans)

lemma decode_name_suffix: "decode_name svc t i buf = Ok (k, rest) \<Longrightarrow> suffix rest buf"
  by (auto simp: decode_name_def outcome_bind_eq_Ok dest: parse_string_key_suffix split: if_splits)

lemma decode_literal_suffix: "decode_literal svc t buf n add = Ok (t', m, rest) \<Longrightarrow> suffix rest buf"
  by (auto simp: decode_literal_def outcome_bind_eq_Ok Let_def
      dest!: decode_uint32_suffix decode_name_suffix parse_string_suffix)

lemma decode_one_suffix: "decode_one svc t buf = Ok (t', m, rest) \<Longrightarrow> suffix rest buf"
  by (auto simp: decode_one_def decode_indexed_def decode_size_update_def outcome_bind_eq_Ok
      split: list.splits if_splits dest: decode_uint32_suffix decode_literal_suffix)

section \<open>One header, then the loop\<close>

lemma lookup_index_no_fault [simp]: "lookup_index svc t i \<noteq> Fault"
  by (auto simp: lookup_index_def hpack_static_headers_def HPACK_STATIC_MDELEM_STANDARD_COUNT_def
      static_mdelem_def length_static_mdelem_table split: option.splits)

lemma decode_literal_fault:
  assumes "decode_literal svc t buf n add = Fault" "buf \<noteq> []"
  shows "\<exists>s. suffix s buf \<and> huffman_overrun s"
proof -
  obtain i b1 where 1: "decode_uint32 buf (INT_MASK n) = Ok (i, b1)"
    and f: "outcome_bind (decode_name svc t i b1) (\<lambda>(k, b2). outcome_bind (null_is CompressionError (parse_string b2)) (\<lambda>(v, b3).
      let mdel = \<lparr>md_key = k, md_value = v\<rparr> in
      Ok (if add then svc_push_mdelem_data svc t mdel else t, Some mdel, b3))) = Fault"
    using assms decode_uint32_no_fault [of buf "INT_MASK n"]
    by (auto simp: decode_literal_def outcome_bind_eq_Fault)
  have s1: "suffix b1 buf" using 1 by (rule decode_uint32_suffix)
  show ?thesis
  proof (cases "decode_name svc t i b1 = Fault")
    case True
    then have "parse_string_key [] b1 = Fault"
      by (auto simp: decode_name_def outcome_bind_eq_Fault lookup_index_no_fault split: if_splits)
    with s1 parse_string_key_fault show ?thesis by blast
  next
    case False
    then obtain k b2 where 2: "decode_name svc t i b1 = Ok (k, b2)" "parse_string b2 = Fault"
      using f by (auto simp: outcome_bind_eq_Fault Let_def)
    have "suffix b2 buf" by (rule suffix_order.trans [OF decode_name_suffix [OF 2(1)] s1])
    with 2(2) parse_string_fault show ?thesis by blast
  qed
qed

lemma decode_indexed_no_fault: "buf \<noteq> [] \<Longrightarrow> decode_indexed svc t buf \<noteq> Fault"
  using decode_uint32_no_fault [of buf "INT_MASK 7"]
  by (auto simp: decode_indexed_def outcome_bind_eq_Fault split: if_splits)

lemma decode_size_update_no_fault: "buf \<noteq> [] \<Longrightarrow> decode_size_update svc t buf \<noteq> Fault"
  using decode_uint32_no_fault [of buf "INT_MASK 5"]
  by (auto simp: decode_size_update_def outcome_bind_eq_Fault split: if_splits)

lemma decode_one_fault:
  assumes "decode_one svc t buf = Fault" "buf \<noteq> []"
  shows "\<exists>s. suffix s buf \<and> huffman_overrun s"
proof -
  obtain n add where "decode_literal svc t buf n add = Fault"
    using assms decode_indexed_no_fault [OF assms(2), of svc t] decode_size_update_no_fault [OF assms(2), of svc t]
    by (simp add: decode_one_def split: list.splits if_splits)
  then show ?thesis using assms(2) by (rule decode_literal_fault)
qed

lemma decode_headers_fault:
  "decode_headers svc t buf hs = None \<Longrightarrow> \<exists>s. suffix s buf \<and> huffman_overrun s"
proof (induction "length buf" arbitrary: buf t hs rule: less_induct)
  case less
  have ne: "buf \<noteq> []" using less.prems by auto
  show ?case
  proof (cases "decode_one svc t buf")
    case (Ok r)
    obtain t1 m rest where r: "r = (t1, m, rest)" by (cases r)
    have one: "decode_one svc t buf = Ok (t1, m, rest)" using Ok r by simp
    have "decode_headers svc t1 rest (case m of None \<Rightarrow> hs | Some x \<Rightarrow> hs @ [x]) = None"
      using less.prems decode_headers_Ok [OF ne one] by simp
    from less.hyps [OF decode_one_shorter [OF one] this] decode_one_suffix [OF one] show ?thesis
      by (blast intro: suffix_order.trans)
  next
    case (Error e)
    with less.prems decode_headers_Error [OF ne, of svc t e] show ?thesis by simp
  next
    case Fault
    then show ?thesis using ne by (rule decode_one_fault)
  qed
qed

section \<open>The unchecked read\<close>

lemma parse_string_overrun:
  assumes "tdecode huff_tree (bits_of enc) [] \<noteq> None" "length enc < unat n"
  shows "parse_string (or_first 0x80 (encode_uint16 n (INT_MASK 7)) @ enc) = Fault"
proof -
  obtain b bs where b: "encode_uint16 n (INT_MASK 7) = b # bs" "b AND 0x80 = 0"
    by (rule encode_first_byte)
  have flag: "(b OR 0x80) AND 0x80 \<noteq> 0" by (simp add: bit.conj_disj_distrib2)
  have "0x80 AND INT_MASK 7 = 0" by (simp add: mask7)
  then have d: "decode_uint32 ((b OR 0x80) # bs @ enc) (INT_MASK 7) = Ok (n, enc)"
    using decode_encode_uint32 [of 7 "0x80" n enc] b by simp
  obtain t out where t: "tdecode huff_tree (bits_of enc) [] = Some (t, out)" using assms(1) by auto
  have "5 * length out + 4 \<le> length (bits_of enc) + 4"
    using tdecode_growth [OF t deep_huff_tree] by simp
  then have small: "length out \<le> 3 * unat n" using assms(2) by simp
  have alloc: "unat (word_of_nat (unat n) * 3 :: u64) = 3 * unat n" "(word_of_nat (unat n) * 3 :: u64) div 3 = word_of_nat (unat n)"
    using unat_u32_bound [of n] by (simp_all only: unat_alloc alloc_no_overflow)
  obtain e where "decode_bytes (3 * unat n) enc ((HTTP2_HUFF_ACCEPTED, 0), []) = Ok (e, out)"
    using decode_bytes_agrees [of "3 * unat n" enc] t small by (auto simp: decode_agrees_def)
  then have "decode_string enc (unat n) (unat n) = Fault"
    using assms(2) unfolding decode_string_def Let_def alloc
    by (simp add: http2_head_huffman_decode_def http2_head_huffman_decode_context_init_def)
  with b d flag show ?thesis by (simp add: parse_string_def)
qed

end
