(* ===== verification/Hpack_Properties.thy ===== *)
theory Hpack_Properties
  imports Hpack_Roundtrip Hpack_Safety
begin

text \<open>
  What the HPACK components promise together, on the code's own dynamic table.
\<close>

section \<open>Encoder and decoder in lock step\<close>

text \<open>
  A connection's worth of header blocks: each is encoded by one compressor and decoded by one
  dynamic table, as the two ends of a connection do; the value is what the decoder delivers.
\<close>

fun hpack_session ::
  "u32 \<Rightarrow> compressor \<Rightarrow> dynamic_metadata_table \<Rightarrow> mdelem_data list list \<Rightarrow> mdelem_data list list option" where
  "hpack_session seed c t [] = Some []"
| "hpack_session seed c t (hs # blocks) =
     (case compressor_encode_headers seed c hs slice_buffer_new False of
        None \<Rightarrow> None
      | Some (c', out) \<Rightarrow>
          (case decode_headers dynamic_metadata_service t (sb_merge out) [] of
             None \<Rightarrow> None
           | Some (e, t', hs') \<Rightarrow>
               if e = error_code NoError then map_option (Cons hs') (hpack_session seed c' t' blocks) else None))"

lemma block_roundtrip:
  assumes "dt_inv t" "unat (dt_max_table_size t) + 65536 < 2 ^ 32"
    "tracks c (dt_dynamic_table t) (dt_max_table_size t)"
    "\<forall>m \<in> set hs. header_ok m" "entries_size hs < 2 ^ 32" "index_room c (length hs + k)" "62 \<le> k"
  shows "\<exists>c' out t'. compressor_encode_headers seed c hs slice_buffer_new b = Some (c', out) \<and>
    decode_headers dynamic_metadata_service t (sb_merge out) [] = Some (error_code NoError, t', hs) \<and>
    dt_inv t' \<and> dt_max_table_size t' = dt_max_table_size t \<and>
    tracks c' (dt_dynamic_table t') (dt_max_table_size t') \<and> index_room c' k \<and>
    length hs \<le> length (sb_merge out) \<and> length (sb_merge out) \<le> entries_size hs"
proof -
  from dt.encode_headers_roundtrip [OF assms(1-4,6,7) sb_inv_new, of seed b "[]"]
  obtain c' out w where
    w: "compressor_encode_headers seed c hs slice_buffer_new b = Some (c', out)" "sb_inv out" "sb_contents out = w"
    "index_room c' k" "length hs \<le> length w" "length w \<le> entries_size hs"
    "length w < 2 ^ 32 \<longrightarrow> (\<exists>t'. decode_headers dynamic_metadata_service t w [] = Some (error_code NoError, t', hs) \<and>
       dt_inv t' \<and> tracks c' (dt_dynamic_table t') (dt_max_table_size t') \<and> dt_max_table_size t' = dt_max_table_size t)"
    by (auto simp: sb_contents_new)
  have "sb_merge out = w" using w(2,3) sb_merge_contents by simp
  moreover have "length w < 2 ^ 32" using w(6) assms(5) by (rule order.strict_trans1)
  ultimately show ?thesis using w(1,4-7) by auto
qed

lemma session_roundtrip:
  "dt_inv t \<Longrightarrow> unat (dt_max_table_size t) + 65536 < 2 ^ 32 \<Longrightarrow>
   tracks c (dt_dynamic_table t) (dt_max_table_size t) \<Longrightarrow>
   \<forall>hs \<in> set blocks. entries_size hs < 2 ^ 32 \<and> (\<forall>m \<in> set hs. header_ok m) \<Longrightarrow>
   index_room c (length (concat blocks) + 62) \<Longrightarrow>
   hpack_session seed c t blocks = Some blocks"
proof (induction blocks arbitrary: c t)
  case (Cons hs blocks)
  have "\<forall>m \<in> set hs. header_ok m" "entries_size hs < 2 ^ 32"
    "index_room c (length hs + (length (concat blocks) + 62))" "62 \<le> length (concat blocks) + 62"
    using Cons.prems(4,5) by (simp_all add: add.assoc)
  from block_roundtrip [OF Cons.prems(1-3) this, of seed False] obtain c' out t' where
    step: "compressor_encode_headers seed c hs slice_buffer_new False = Some (c', out)"
    "decode_headers dynamic_metadata_service t (sb_merge out) [] = Some (error_code NoError, t', hs)"
    "dt_inv t'" "dt_max_table_size t' = dt_max_table_size t"
    "tracks c' (dt_dynamic_table t') (dt_max_table_size t')" "index_room c' (length (concat blocks) + 62)"
    by blast
  have "hpack_session seed c' t' blocks = Some blocks"
    using Cons.prems(2,4) step(3-6) by (intro Cons.IH) simp_all
  with step(1,2) show ?case by simp
qed simp

lemma tracks_initial:
  "4096 \<le> n \<Longrightarrow> tracks compressor_init (dt_dynamic_table (dynamic_metadata_table_new n))
     (dt_max_table_size (dynamic_metadata_table_new n))"
  using sync_init by (auto simp: tracks_def dynamic_metadata_table_new_def compressor_init_def HPACK_INITIAL_TABLE_SIZE_def)

lemma index_room_initial: "k < 2 ^ 32 \<Longrightarrow> index_room compressor_init k"
  by (simp add: index_room_def compressor_init_def)

text \<open>C2. Over a whole connection, decoding inverts encoding: starting from a fresh compressor and a
  fresh dynamic table of at least 4096 octets, every sequence of header blocks (lower-case names,
  each header under 64 KB, fewer than 2^32 headers in all) is delivered by \<^verbatim>\<open>decode_headers\<close> exactly as
  it was given to \<^verbatim>\<open>compressor_encode_headers\<close>, whatever mix of static indices, dynamic indices,
  key references and literals the cuckoo table chose, across all evictions.\<close>

theorem hpack_connection_roundtrip:
  assumes "4096 \<le> n" "n \<le> 0x7FFFFFFF"
    and "\<forall>hs \<in> set blocks. entries_size hs < 2 ^ 32 \<and> (\<forall>m \<in> set hs. header_ok m)"
    and "length (concat blocks) + 62 < 2 ^ 32"
  shows "hpack_session seed compressor_init (dynamic_metadata_table_new n) blocks = Some blocks"
proof (rule session_roundtrip [OF dt_inv_new _ tracks_initial [OF assms(1)] assms(3) index_room_initial [OF assms(4)]])
  have "unat n \<le> unat (0x7FFFFFFF :: u32)" using assms(2) by (rule word_le_nat_alt [THEN iffD1])
  then show "unat (dt_max_table_size (dynamic_metadata_table_new n)) + 65536 < 2 ^ 32"
    by (simp add: dynamic_metadata_table_new_def)
qed

definition example_header :: mdelem_data where
  "example_header = \<lparr>md_key = ascii ''user-agent'', md_value = ascii ''x''\<rparr>"

theorem hpack_connection_roundtrip_witness:
  "hpack_session 7 compressor_init (dynamic_metadata_table_new 4096) [[example_header, example_header], [example_header]]
     = Some [[example_header, example_header], [example_header]]"
proof -
  have "header_ok example_header" "entry_size example_header = 43"
    by (simp_all add: example_header_def header_ok_def entry_size_def MDELEM_SIZE_def isupper_def)
  then show ?thesis by (intro hpack_connection_roundtrip) simp_all
qed

section \<open>The decoder on arbitrary input\<close>

text \<open>C20. Whatever header block a peer sends, valid or not, the dynamic table keeps its invariant:
  the running size equals the sum of the entry sizes, stays within the current maximum, and the
  maximum stays within the limit.\<close>

theorem hpack_decode_keeps_table:
  assumes "dt_inv t" "dt_max_table_size t \<le> dt_max_table_size_limit t"
    and "length buf \<le> 2 ^ 28" "unat (dt_max_table_size_limit t) \<le> 2 ^ 29"
    and "decode_headers dynamic_metadata_service t buf hs = Some (e, t', hs')"
  shows "unat (dt_current_table_size t') = entries_size (dt_dynamic_table t') \<and>
    dt_current_table_size t' \<le> dt_max_table_size t' \<and>
    dt_max_table_size t' \<le> dt_max_table_size_limit t' \<and>
    dt_max_table_size_limit t' = dt_max_table_size_limit t"
  using dt.decode_headers_inv [of t buf hs e t' hs'] assms
  by (auto simp: dynamic_metadata_service_def dt_inv_def dt_size_ok_def)

lemma static_2: "static_mdelem 2 = Some \<lparr>md_key = ascii '':method'', md_value = ascii ''GET''\<rparr>"
  by (simp add: static_mdelem_def static_mdelem_table_def static_metadata_new_def)

lemma decode_method_get:
  "decode_headers dynamic_metadata_service t [0x82] [] =
     Some (error_code NoError, t, [\<lparr>md_key = ascii '':method'', md_value = ascii ''GET''\<rparr>])"
proof -
  have "encode_index 2 = [0x82]"
    by (simp add: encode_index_def encode_uint16_eq uint16_encode_impl_def INT_MASK_def)
  then have "decode_one dynamic_metadata_service t [0x82] =
      Ok (t, Some \<lparr>md_key = ascii '':method'', md_value = ascii ''GET''\<rparr>, [])"
    using decode_one_index [of 2 dynamic_metadata_service t "[]"] dt.lookup_static [of 2] static_2 by simp
  then show ?thesis by (subst decode_headers_Ok) auto
qed

theorem hpack_decode_keeps_table_witness:
  "\<exists>t' hs'. decode_headers dynamic_metadata_service (dynamic_metadata_table_new 4096) [0x82] [] =
      Some (error_code NoError, t', hs') \<and>
    unat (dt_current_table_size t') = entries_size (dt_dynamic_table t') \<and>
    dt_max_table_size t' \<le> dt_max_table_size_limit t'"
proof -
  let ?t = "dynamic_metadata_table_new 4096"
  have "unat (dt_current_table_size ?t) = entries_size (dt_dynamic_table ?t) \<and>
      dt_current_table_size ?t \<le> dt_max_table_size ?t \<and> dt_max_table_size ?t \<le> dt_max_table_size_limit ?t \<and>
      dt_max_table_size_limit ?t = dt_max_table_size_limit ?t"
    by (rule hpack_decode_keeps_table [OF dt_inv_new _ _ _ decode_method_get])
       (simp_all add: dynamic_metadata_table_new_def)
  with decode_method_get show ?thesis by blast
qed

text \<open>Memory safety of the decoder, up to one hole: decoding reads outside the header block only if
  some suffix of the block starts with a Huffman-flagged string whose declared length exceeds the
  bytes left. Integers, plain strings and both table lookups never do.\<close>

theorem hpack_decode_reads_in_bounds:
  assumes "\<not> (\<exists>s. suffix s buf \<and> huffman_overrun s)"
  shows "\<exists>e t' hs'. decode_headers svc t buf hs = Some (e, t', hs')"
  using assms decode_headers_fault [of svc t buf hs] by (cases "decode_headers svc t buf hs") auto

theorem hpack_decode_reads_in_bounds_witness:
  "\<exists>e t' hs'. decode_headers dynamic_metadata_service (dynamic_metadata_table_new 4096) [0x40, 0x01, 0x61] [] = Some (e, t', hs')"
proof (rule hpack_decode_reads_in_bounds)
  have "suffix s [0x40, 0x01, 0x61] \<Longrightarrow> \<not> huffman_overrun s" for s :: bytes
    by (auto simp: suffix_Cons huffman_overrun_def)
  then show "\<not> (\<exists>s. suffix s [0x40, 0x01, 0x61] \<and> huffman_overrun s)" by blast
qed

text \<open>C36. The hole is real: a Huffman-flagged string that declares more bytes than the buffer holds
  makes the decoder read past \<^verbatim>\<open>buf_end\<close>, whenever the bytes that are there decode.\<close>

theorem parse_string_reads_past_end:
  assumes "tdecode huff_tree (bits_of enc) [] \<noteq> None" "length enc < unat n"
  shows "parse_string (or_first 0x80 (encode_uint16 n (INT_MASK 7)) @ enc) = Fault"
  using assms by (rule parse_string_overrun)

theorem parse_string_reads_past_end_witness: "parse_string [0x81] = Fault"
proof -
  have "parse_string (or_first 0x80 (encode_uint16 1 (INT_MASK 7)) @ []) = Fault"
    by (rule parse_string_reads_past_end) simp_all
  then show ?thesis by (simp add: encode_uint16_eq uint16_encode_impl_def INT_MASK_def)
qed

section \<open>Integers and strings\<close>

text \<open>Prefix integers round trip: for every 32-bit value, every prefix length up to 8 and any flag
  bits above the prefix, decoding what the encoder wrote returns the value and stops right after
  it; the encoding takes at most six bytes.\<close>

theorem hpack_integer_roundtrip:
  assumes "n \<le> 8" and "p AND INT_MASK n = 0"
  shows "decode_uint32 (or_first p (encode_uint16 I (INT_MASK n)) @ rest) (INT_MASK n) = Ok (I, rest) \<and>
    length (encode_uint16 I (INT_MASK n)) \<le> 6"
  using decode_encode_uint32 [OF assms] length_encode_uint16 by blast

theorem hpack_integer_roundtrip_witness:
  "decode_uint32 ([0x5F, 0x9A, 0x0A] @ [0xFF]) 0x1F = Ok (1337, [0xFF])"
proof -
  have "or_first 0x40 (encode_uint16 1337 (INT_MASK 5)) = [0x5F, 0x9A, 0x0A]"
    by (simp add: encode_uint16_eq uint16_encode_impl_def INT_MASK_def uint16_encode_loop.simps)
  then show ?thesis using hpack_integer_roundtrip [of 5 "0x40" 1337 "[0xFF]"] by (simp add: INT_MASK_def)
qed

text \<open>C33. A decoded integer of at most four continuation bytes is the value of RFC 7541 Section 5.1.\<close>

theorem hpack_integer_exact:
  assumes "decode_uint32 src (INT_MASK n) = Ok (v, rest)" "n \<le> 8" "length src - length rest \<le> 5"
  shows "rfc_int src (INT_MASK n) = Some (unat v, rest)"
  using assms(1,3) by (rule decode_uint32_exact)

theorem hpack_integer_exact_witness: "rfc_int [0x5F, 0x9A, 0x0A] (INT_MASK 5) = Some (unat (1337 :: u32), [])"
  by (rule hpack_integer_exact) (simp_all add: decode_uint32_def INT_MASK_def)

text \<open>C37. The overflow test does not cover the fifth continuation byte: its three high value bits are shifted out of
  the 32 bits before the test. Every accepted integer is that of RFC 7541 Section 5.1 modulo 2^32; the result is
  wrong exactly for those whose fifth continuation byte is 16 or more; and whatever these three bits are, the decoder
  gives the same value, so each accepted encoding of that length stands for eight different integers.\<close>

theorem hpack_integer_overflow_accepted:
  assumes "decode_uint32 src (INT_MASK n) = Ok (v, rest)"
  shows "\<exists>k. rfc_int src (INT_MASK n) = Some (k, rest) \<and> unat v = k mod 2 ^ 32 \<and>
    (unat v \<noteq> k \<longleftrightarrow> length src - length rest = 6 \<and> 16 \<le> unat (src ! 5)) \<and>
    (length src - length rest = 6 \<longrightarrow>
      (\<forall>e. unat e < 128 \<and> unat e mod 16 = unat (src ! 5) mod 16 \<longrightarrow>
        decode_uint32 (src[5 := e]) (INT_MASK n) = Ok (v, rest)))"
proof (cases "length src - length rest \<le> 5")
  case True
  then show ?thesis using decode_uint32_exact [OF assms] unat_u32_bound [of v] by auto
next
  case False
  then have six: "length src - length rest = 6" using decode_uint32_progress [OF assms] by auto
  from assms show ?thesis
  proof (cases rule: decode_uint32_cases)
    case (1 b bs)
    have "0 + 7 * (length bs - length rest) = 35" using six 1(1) decode_loop_progress [OF 1(3)] by auto
    from decode_loop_fifth [OF 1(3) this] obtain pre x g where w: "bs = pre @ x # rest"
      "rfc_int_groups 0 bs = Some (g, rest)" "unat (INT_MASK n) + g = unat v + 2 ^ 32 * (unat x div 16)"
      "\<forall>e. unat e < 128 \<and> unat e mod 16 = unat x mod 16 \<longrightarrow>
        decode_uint32_loop (ucast (INT_MASK n)) 0 (pre @ e # rest) = Ok (v, rest)"
      using unat_u8_bound [of "INT_MASK n"] by (auto simp: unsigned_ucast_eq take_bit_nat_eq_self)
    have "length pre = 4" using six 1(1) w(1) by simp
    then have at: "src ! 5 = x" "src[5 := e] = b # pre @ e # rest" for e
      using 1(1) w(1) by (simp_all add: nth_append list_update_append eval_nat_numeral)
    have "(unat (INT_MASK n) + g) mod 2 ^ 32 = unat v" using w(3) unat_u32_bound [of v] by simp
    with six at w 1 show ?thesis
      by (intro exI [of _ "unat (INT_MASK n) + g"]) (auto simp: rfc_int_def decode_uint32_def)
  next
    case (2 b)
    with six show ?thesis by simp
  qed
qed

theorem hpack_integer_overflow_accepted_witness:
  "decode_uint32 [0x7f, 0x80, 0x80, 0x80, 0x80, 0x10] 0x7f = Ok (127, []) \<and>
   (\<exists>k. rfc_int [0x7f, 0x80, 0x80, 0x80, 0x80, 0x10] 0x7f = Some (k, []) \<and> k \<noteq> 127) \<and>
   decode_uint32 [0x7f, 0x80, 0x80, 0x80, 0x80, 0x70] 0x7f = Ok (127, [])"
proof -
  have m: "INT_MASK 7 = 0x7f" by (simp add: INT_MASK_def)
  have d: "decode_uint32 [0x7f, 0x80, 0x80, 0x80, 0x80, 0x10] (INT_MASK 7) = Ok (127, [])"
    by (simp add: decode_uint32_def m)
  from hpack_integer_overflow_accepted [OF this] obtain k where
    k: "rfc_int [0x7f, 0x80, 0x80, 0x80, 0x80, 0x10] (INT_MASK 7) = Some (k, [])" "k \<noteq> 127"
    "decode_uint32 ([0x7f, 0x80, 0x80, 0x80, 0x80, 0x10][5 := 0x70]) (INT_MASK 7) = Ok (127, [])"
    by force
  with d show ?thesis by (auto simp: m)
qed

text \<open>Huffman string literals: a literal holding the output of the Huffman encoder, as name or
  value, is parsed to the source string, for any string whose encoding is below 2^32 bytes.\<close>

theorem huffman_literal_roundtrip:
  assumes "http2_head_huffman_encode dstlen s = Some enc" "length enc < 2 ^ 32"
  shows "parse_string (huffman_string enc @ rest) = Ok (s, rest) \<and>
    parse_string_key dst (huffman_string enc @ rest) = Ok (s, rest)"
proof -
  from assms(1) huffman_encode_bits [of dstlen s]
  obtain k where "bits_of enc = enc_bits s @ replicate k True" "k < 8" by auto
  then have "huffman_spec enc = Some s" by (rule huffman_spec_encoded)
  with parse_huffman_string [OF assms(2)] show ?thesis by simp
qed

theorem huffman_literal_roundtrip_witness:
  "parse_string ([0x82, 0x1C, 0x7F] @ [0x00]) = Ok ([0x61, 0x62], [0x00])"
proof -
  have "huff_sym_table ! 97 = (5, 0x18000000)" "huff_sym_table ! 98 = (6, 0x8c000000)"
    by (simp_all add: huff_sym_table_def)
  then have "http2_head_huffman_encode 3 [0x61, 0x62] = Some [0x1C, 0x7F]"
    by (simp add: http2_head_huffman_encode_def encode_sym_def Let_def flush_bytes.simps put_byte_def encode_tail_def)
  moreover have "huffman_string [0x1C, 0x7F] = [0x82, 0x1C, 0x7F]"
    by (simp add: huffman_string_def encode_uint16_eq uint16_encode_impl_def INT_MASK_def)
  ultimately show ?thesis using huffman_literal_roundtrip [of 3 "[0x61, 0x62]" "[0x1C, 0x7F]" "[0x00]"] by simp
qed

section \<open>Tables\<close>

text \<open>C29. Insertion into the dynamic table is that of RFC 7541 Section 4.4: the new entry is the newest and
  what remains is the longest run of newest entries that fits the maximum size (nothing, when the
  entry alone does not fit); lookups afterwards index that list.\<close>

theorem dynamic_table_insert:
  assumes "dt_inv t" "unat (dt_max_table_size t) + entry_size m < 2 ^ 32"
  shows "dt_dynamic_table (dt_push_mdelem_data t m) = fit (unat (dt_max_table_size t)) (m # dt_dynamic_table t) \<and>
    dt_inv (dt_push_mdelem_data t m) \<and>
    (entry_size m \<le> unat (dt_max_table_size t) \<longleftrightarrow> dt_get_mdelem_data (dt_push_mdelem_data t m) 0 = Some m) \<and>
    dt_entry_count (dt_push_mdelem_data t m) \<le> Suc (dt_entry_count t)"
proof -
  have e: "dt_dynamic_table (dt_push_mdelem_data t m) = fit (unat (dt_max_table_size t)) (m # dt_dynamic_table t)"
    "dt_inv (dt_push_mdelem_data t m)"
    using dt.push_entries [OF assms] dt.push_inv [OF assms] by (simp_all add: dynamic_metadata_service_def)
  have "length (fit n es) \<le> length es" for n es
    by (induction n es rule: fit.induct) auto
  then show ?thesis using e by (auto simp: dt_get_mdelem_data_def dt_entry_count_def Let_def)
qed

theorem dynamic_table_insert_witness:
  "dt_get_mdelem_data (dt_push_mdelem_data (dynamic_metadata_table_new 4096) example_header) 0 = Some example_header"
proof -
  have "entry_size example_header = 43" by (simp add: example_header_def entry_size_def MDELEM_SIZE_def)
  with dynamic_table_insert [OF dt_inv_new, of 4096 example_header] show ?thesis
    by (simp add: dynamic_metadata_table_new_def)
qed

text \<open>A dynamic table size update is refused above the limit and otherwise evicts to the new
  maximum; the encoder's representation of it is what the decoder reads.\<close>

theorem size_update_applied:
  assumes "dt_inv t"
  shows "decode_one dynamic_metadata_service t (encode_update_max_size n @ rest) =
     (if n > dt_max_table_size_limit t then Error (error_code CompressionError)
      else Ok (dt_update_max_table_size t n, None, rest)) \<and>
    dt_dynamic_table (dt_update_max_table_size t n) = fit (unat n) (dt_dynamic_table t) \<and>
    dt_inv (dt_update_max_table_size t n)"
  using decode_one_size_update [of dynamic_metadata_service t n rest] dt.update_entries [OF assms, of n]
    dt.update_inv [OF assms, of n]
  by (simp add: dynamic_metadata_service_def)

theorem size_update_applied_witness:
  "decode_one dynamic_metadata_service (dynamic_metadata_table_new 4096) (encode_update_max_size 4097 @ []) =
     Error (error_code CompressionError)"
  using size_update_applied [OF dt_inv_new, of 4096 4097 "[]"] by (simp add: dynamic_metadata_table_new_def)

text \<open>C32. The hash lookups agree with the static table: \<^verbatim>\<open>full_match_static_mdelem_index\<close> inverts the
  table on its 61 entries and returns 0 for every other element, and \<^verbatim>\<open>check_key_exists\<close> holds
  exactly of the names in it.\<close>

theorem static_lookup_inverts_table:
  "full_match_static_mdelem_index m = i \<and> i \<noteq> 0 \<longleftrightarrow>
     1 \<le> unat i \<and> unat i \<le> 61 \<and> static_mdelem (unat i) = Some m"
proof
  assume "full_match_static_mdelem_index m = i \<and> i \<noteq> 0"
  then show "1 \<le> unat i \<and> unat i \<le> 61 \<and> static_mdelem (unat i) = Some m"
    using full_match_sound by (metis One_nat_def Suc_leI unat_gt_0)
next
  assume "1 \<le> unat i \<and> unat i \<le> 61 \<and> static_mdelem (unat i) = Some m"
  then show "full_match_static_mdelem_index m = i \<and> i \<noteq> 0"
    using full_match_complete [of "unat i" m] by auto
qed

text \<open>C30. Resizing the compressor keeps it in step: after \<^verbatim>\<open>compressor_set_max_table_size\<close> it still
  tracks the peer's table, evicted to the new maximum, for every size up to 2^32 - 32, through every
  rebuild of the circular size array.\<close>

theorem compressor_resize_keeps_sync:
  assumes "sync c E" "unat (min n (c_max_usable_size c)) + 31 < 2 ^ 32"
  shows "\<exists>c'. compressor_set_max_table_size c n = Some c' \<and>
    sync c' (fit (unat (min n (c_max_usable_size c))) E) \<and>
    c_max_table_size c' = min n (c_max_usable_size c)"
  using set_max_table_size_sync [OF assms(1) refl assms(2)] .

theorem compressor_resize_keeps_sync_witness:
  "\<exists>c'. compressor_set_max_table_size compressor_init 1000 = Some c' \<and> sync c' [] \<and> c_max_table_size c' = 1000"
proof -
  have "min 1000 (c_max_usable_size compressor_init) = 1000"
    by (simp add: compressor_init_def HPACK_INITIAL_TABLE_SIZE_def)
  with compressor_resize_keeps_sync [OF sync_init, of 1000] show ?thesis by simp
qed

end
