(* ===== verification/Connection_Exchange.thy ===== *)
theory Connection_Exchange
  imports Connection_Segments Hpack_Properties
begin

text \<open>
  Both ends of a connection: what a client's \<^verbatim>\<open>SendHeaders\<close> writes is what a server's
  \<^verbatim>\<open>ReceivedData\<close> reports, with the HPACK state of the two ends kept in step; and how the
  receiving side answers PING and SETTINGS and refuses what it must refuse.
\<close>

section \<open>Receiving one frame\<close>

definition settle :: "http2_stream option \<Rightarrow> http2_connection \<Rightarrow> http2_connection" where
  "settle stream c = (case stream of Some s \<Rightarrow> destroy_if_closed s c | None \<Rightarrow> c)"

definition open_for_frames :: "http2_connection \<Rightarrow> bool" where
  "open_for_frames c \<longleftrightarrow> cn_finish_handshake c \<and> \<not> cn_next_frame_limit c \<and> \<not> cn_sent_goaway c"

lemma package_process_frame:
  assumes "\<not> cn_next_frame_limit c" "\<not> cn_sent_goaway c" "hdr_ok h" "hd_type h \<le> frame_type Type_Continuation"
    and "(frame_process_func_array ! unat (hd_type h)) S h payload (track_last_stream (hd_stream_id h) c) = Some (stream, d)"
  shows "package_process S (http2_frame_header_pack h @ payload) (hd_length h + HTTP2_FRAME_HEADER_SIZE) c =
    Some (int (unat (hd_length h) + 9), settle stream d)"
proof -
  have l: "unat (hd_length h) < 2 ^ 24" using assms(3) by (simp add: hdr_ok_def)
  have n: "unat (hd_length h + HTTP2_FRAME_HEADER_SIZE) = unat (hd_length h) + 9" using l by (rule frame_total_nat)
  have i: "int_of_size (unat (hd_length h) + 9) = int (unat (hd_length h) + 9)" using l by (intro int_of_size_small) simp
  have s: "\<not> hd_length h + HTTP2_FRAME_HEADER_SIZE < HTTP2_FRAME_HEADER_SIZE"
    using n by (simp add: word_less_nat_alt HTTP2_FRAME_HEADER_SIZE_def)
  have d: "drop (unat HTTP2_FRAME_HEADER_SIZE) (http2_frame_header_pack h @ payload) = payload"
    by (simp add: HTTP2_FRAME_HEADER_SIZE_def)
  show ?thesis
    using assms(1,2,4,5) s unpack_pack [OF assms(3), of payload]
    by (simp add: package_process_def d n i Let_def settle_def not_less [symmetric] del: of_nat_add drop_append)
qed

lemma receive_one:
  assumes "open_for_frames c" "hdr_ok h" "hd_type h \<le> frame_type Type_Continuation"
    and "hd_length h \<le> cn_local_settings c ! setting_index Set_MaxFrameSize" "length payload = unat (hd_length h)"
    and "(frame_process_func_array ! unat (hd_type h)) S h payload (track_last_stream (hd_stream_id h) c) = Some (stream, d)"
  shows "ReceivedData S (http2_frame_header_pack h @ payload) c = Some (int (9 + length payload), settle stream d)"
proof -
  have l: "unat (hd_length h) < 2 ^ 24" using assms(2) by (simp add: hdr_ok_def)
  let ?n = "unat (hd_length h) + 9"
  have p: "package_process S (http2_frame_header_pack h @ payload) (hd_length h + HTTP2_FRAME_HEADER_SIZE) c =
      Some (int ?n, settle stream d)"
    using assms by (intro package_process_frame) (simp_all add: open_for_frames_def)
  have "frame_loop S (http2_frame_header_pack h @ payload) 0 c =
      frame_loop S (drop ?n (http2_frame_header_pack h @ payload)) (0 + ?n) (settle stream d)"
    using frame_loop_frame [OF _ unpack_pack [OF assms(2), of payload] assms(4) _ p, of 0] assms(5)
    by (simp del: of_nat_add drop_append)
  also have "\<dots> = Some (int_of_size ?n, settle stream d)"
    using assms(5) by (simp add: frame_loop.simps HTTP2_FRAME_HEADER_SIZE_def)
  also have "int_of_size ?n = int (9 + length payload)"
    using l assms(5) by (subst int_of_size_small) simp_all
  finally show ?thesis using assms(1) by (simp add: ReceivedData_def open_for_frames_def)
qed

section \<open>Requests\<close>

text \<open>
  \<open>linked k c d\<close>: \<open>d\<close> reads what \<open>c\<close> writes. The sender writes plainly, the receiver accepts frames and
  has a handler, and the sender's compressor tracks the receiver's dynamic table, with room for
  \<open>k\<close> more insertions before the 32-bit element index would wrap.
\<close>

definition linked :: "nat \<Rightarrow> http2_connection \<Rightarrow> http2_connection \<Rightarrow> bool" where
  "linked k c d \<longleftrightarrow> plain c \<and> open_for_frames d \<and> cn_event_handler d \<and> dt_inv (cn_dynamic_table d) \<and>
     unat (dt_max_table_size (cn_dynamic_table d)) + 65536 < 2 ^ 32 \<and>
     tracks (cn_send_record c) (dt_dynamic_table (cn_dynamic_table d)) (dt_max_table_size (cn_dynamic_table d)) \<and>
     index_room (cn_send_record c) k"

text \<open>A header list that fits a HEADERS frame the receiver accepts.\<close>

definition sendable :: "(bytes \<times> bytes) list \<Rightarrow> http2_connection \<Rightarrow> bool" where
  "sendable headers d \<longleftrightarrow> 5 \<le> length headers \<and> (\<forall>m \<in> set (mdels_of headers). header_ok m) \<and>
     entries_size (mdels_of headers) < 2 ^ 24 \<and>
     entries_size (mdels_of headers) \<le> unat (cn_local_settings d ! setting_index Set_MaxFrameSize)"

definition received_request :: "u64 \<Rightarrow> u32 \<Rightarrow> bool \<Rightarrow> (bytes \<times> bytes) list \<Rightarrow> http2_stream \<Rightarrow> bool" where
  "received_request cid i end_stream headers t \<longleftrightarrow> st_stream_id t = i \<and> st_connection_id t = cid \<and>
     fst (st_GetHeaders t) = headers \<and> st_state t = (if end_stream then HalfClosedRemote else Open) \<and>
     (end_stream \<longleftrightarrow> st_read_closed t)"

lemma headers_pairs: "map (\<lambda>h. (md_key h, md_value h)) (mdels_of headers) = headers"
  by (induction headers) (auto simp: mdels_of_def)

lemma headers_frame_wf:
  assumes "i \<le> HTTP2_STREAM_ID_MASK" "5 \<le> length block" "length block < 2 ^ 24" "fl = 4 \<or> fl = 5"
  shows "headers_wf (build_http2_frame_headers i fl block None) \<and>
    hds_hdr (build_http2_frame_headers i fl block None) = http2_frame_header_init (length block) (frame_type Type_Headers) (ucast fl) i \<and>
    hds_pad_len (build_http2_frame_headers i fl block None) = 0 \<and>
    hds_header_block_fragment (build_http2_frame_headers i fl block None) = block"
proof -
  have "hdr_ok (http2_frame_header_init (length block) (frame_type Type_Headers) (ucast fl) i)"
    using assms(1,3) by (intro hdr_ok_init) simp_all
  with assms(2-4) show ?thesis
    by (auto simp: headers_wf_def build_http2_frame_headers_def has_flag_def pad_prefix_def pspec_bytes_def)
qed

text \<open>A HEADERS frame of the sender reaches \<^verbatim>\<open>received_headers\<close> with its block.\<close>

lemma receive_headers_frame:
  assumes "open_for_frames d" and i: "0 < i" "i \<le> HTTP2_STREAM_ID_MASK"
    and block: "5 \<le> length block" "length block < 2 ^ 24"
      "length block \<le> unat (cn_local_settings d ! setting_index Set_MaxFrameSize)"
  obtains f h where "hds_hdr f = h" "hds_pad_len f = 0" "hds_header_block_fragment f = block"
    "hd_stream_id h = i" "hd_length h \<noteq> 0" "hd_flags h = (if es then 5 else 4)"
    "\<And>S st e. received_headers S (find_stream i d) f (track_last_stream i d) = Some (st, e) \<Longrightarrow>
       ReceivedData S (headers_frame i es block) d = Some (int (length (headers_frame i es block)), settle st e)"
proof -
  define fl :: u32 where "fl = (if es then 5 else 4)"
  define h where "h = http2_frame_header_init (length block) (frame_type Type_Headers) (ucast fl) i"
  define f where "f = build_http2_frame_headers i fl block None"
  have wf: "headers_wf f" "hds_hdr f = h" "hds_pad_len f = 0" "hds_header_block_fragment f = block"
    using headers_frame_wf [OF i(2) block(1,2), of fl] by (simp_all add: f_def h_def fl_def)
  have h: "hdr_ok h" "hd_type h = 1" "hd_flags h = ucast fl" "hd_stream_id h = i" "unat (hd_length h) = length block"
    using headers.wf_hdr [OF wf(1)] block(2) unfolding wf(2) by (simp_all add: h_def)
  have len: "hd_length h \<noteq> 0" using h(5) block(1) by auto
  have frame: "headers_frame i es block = http2_frame_header_pack h @ block"
    by (simp add: headers_frame_def h_def fl_def)
  have "headers_frame i es block = http2_frame_header_pack h @ (pad_prefix h 0 @
      (pspec_bytes h (hds_pspec f) @ block) @ replicate (unat (0 :: u8)) 0)"
    by (simp add: frame pad_prefix_def pspec_bytes_def h(3) has_flag_def fl_def)
  with frame have parse: "parse_http2_frame_headers h block = Ok f"
    using headers.parse_eq [OF wf(1), of "[]"] by (simp add: wf(2-4))
  have find: "find_stream i (track_last_stream i d) = find_stream i d"
    by (simp add: track_last_stream_def find_stream_def)
  have "ReceivedData S (headers_frame i es block) d = Some (int (length (headers_frame i es block)), settle st e)"
    if "received_headers S (find_stream i d) f (track_last_stream i d) = Some (st, e)" for S st e
  proof -
    have "internal_headers_process S h block (track_last_stream i d) = Some (st, e)"
      using that i(1) find by (simp add: internal_headers_process_def parsed_def parse stream_of_def h(4))
    then have p: "(frame_process_func_array ! unat (hd_type h)) S h block (track_last_stream (hd_stream_id h) d) = Some (st, e)"
      by (simp add: h(2,4) frame_process_func_array_def)
    have "hd_length h \<le> cn_local_settings d ! setting_index Set_MaxFrameSize"
      using block(3) h(5) by (simp add: word_le_nat_alt)
    from receive_one [OF assms(1) h(1) _ this _ p] h(2,5) show ?thesis by (simp add: frame)
  qed
  with that [OF wf(2-4) h(4) len] h(3) show ?thesis by (simp add: fl_def)
qed

lemma headers_received:
  assumes "open_for_frames d" "cn_event_handler d" "find_stream i d = None" "odd_id i \<noteq> cn_client_side d"
    and i: "0 < i" "i \<le> HTTP2_STREAM_ID_MASK"
    and block: "5 \<le> length block" "length block < 2 ^ 24"
      "length block \<le> unat (cn_local_settings d ! setting_index Set_MaxFrameSize)"
    and decoded: "decode_headers dynamic_metadata_service (cn_dynamic_table d) block [] = Some (error_code NoError, table, mdels)"
  shows "\<exists>t d'. ReceivedData S (headers_frame i es block) d = Some (int (length (headers_frame i es block)), d') \<and>
    received_request (cn_connection_id d) i es (map (\<lambda>m. (md_key m, md_value m)) mdels) t \<and>
    find_stream i d' = Some t \<and> cn_log d' = cn_log d @ [OnStreamHeaders t] \<and> open_for_frames d' \<and>
    cn_event_handler d' \<and> cn_dynamic_table d' = table \<and> plain d' = plain d \<and>
    cn_local_settings d' = cn_local_settings d \<and> st_data_cache t = slice_buffer_new"
proof -
  obtain f h where f: "hds_hdr f = h" "hds_pad_len f = 0" "hds_header_block_fragment f = block"
    and h: "hd_stream_id h = i" "hd_length h \<noteq> 0" "hd_flags h = (if es then 5 else 4)"
    and run: "\<And>S st e. received_headers S (find_stream i d) f (track_last_stream i d) = Some (st, e) \<Longrightarrow>
       ReceivedData S (headers_frame i es block) d = Some (int (length (headers_frame i es block)), settle st e)"
    using receive_headers_frame [OF assms(1) i block, of es] by metis
  let ?d = "track_last_stream i d"
  have tr: "cn_dynamic_table ?d = cn_dynamic_table d" "find_stream i ?d = None" "cn_client_side ?d = cn_client_side d"
    "cn_sent_goaway ?d = cn_sent_goaway d" "cn_connection_id ?d = cn_connection_id d" "cn_event_handler ?d = cn_event_handler d"
    "cn_finish_handshake ?d = cn_finish_handshake d" "cn_log ?d = cn_log d" "plain ?d = plain d"
    "cn_local_settings ?d = cn_local_settings d"
    using assms(3) by (simp_all add: track_last_stream_def find_stream_def plain_def)
  define t where "t = st_save_frame_info h (st_recv_headers mdels (http2_stream_new (cn_connection_id d) i))"
  define e where "e = finish_block h t (put_stream t (?d\<lparr>cn_dynamic_table := table\<rparr>))"
  have handled: "received_headers S None f ?d = Some (Some t, e)"
    using assms(1,4) i(1) word_gt_0 [of i] h(2) tr
    by (simp add: received_headers_def Let_def f h(1) decode_block_def decoded t_def e_def open_for_frames_def)
  have t: "received_request (cn_connection_id d) i es (map (\<lambda>m. (md_key m, md_value m)) mdels) t" "st_stream_id t = i"
    "st_data_cache t = slice_buffer_new"
    by (simp_all add: t_def received_request_def st_save_frame_info_def h(3) has_flag_def st_recv_headers_def
        http2_stream_new_def transition_def st_GetHeaders_def st_ensure_headers_decoded_def st_recv_end_stream_def
        st_mark_unreadable_def)
  then have "\<not> st_is_closed t" by (simp add: received_request_def st_is_closed_def)
  then have "settle (Some t) e = e" by (simp add: settle_def destroy_if_closed_def)
  moreover have "find_stream i e = Some t" "cn_log e = cn_log d @ [OnStreamHeaders t]" "open_for_frames e"
    "cn_event_handler e" "cn_dynamic_table e = table" "plain e = plain d" "cn_local_settings e = cn_local_settings d"
    using assms(1,2) tr t(2)
    by (simp_all add: e_def finish_block_def h(3) has_flag_def notify_def call_user_def open_for_frames_def
        find_stream_def put_stream_def update_conv' plain_def)
  ultimately show ?thesis using t(1,3) run [of S "Some t" e] handled assms(3) by auto
qed

text \<open>The exchange in full, with what stays as it was.\<close>

lemma request_exchange:
  assumes "linked (length headers + k) c d" "62 \<le> k" "sendable headers d"
    and "find_stream i c = Some s" "st_state s = Idle" "st_stream_id s = i" "\<forall>log b. 0 \<le> sv_send S log b"
    and "find_stream i d = None" "odd_id i \<noteq> cn_client_side d" "0 < i" "i \<le> HTTP2_STREAM_ID_MASK"
  shows "\<exists>c' d' frame n t. stream_send_headers S i headers end_stream c = Some (True, c') \<and>
    cn_log c' = cn_log c @ [SendRawData frame n] \<and>
    ReceivedData S' frame d = Some (int (length frame), d') \<and>
    cn_log d' = cn_log d @ [OnStreamHeaders t] \<and> find_stream i d' = Some t \<and>
    received_request (cn_connection_id d) i end_stream headers t \<and> linked k c' d' \<and>
    c' = put_stream (if end_stream then st_send_end_stream (st_send_headers s) else st_send_headers s)
      (sent S frame (c\<lparr>cn_send_record := cn_send_record c'\<rparr>)) \<and>
    plain d' = plain d \<and> cn_local_settings d' = cn_local_settings d \<and> st_data_cache t = slice_buffer_new"
proof -
  have l: "plain c" "open_for_frames d" "cn_event_handler d" "dt_inv (cn_dynamic_table d)"
    "unat (dt_max_table_size (cn_dynamic_table d)) + 65536 < 2 ^ 32"
    "tracks (cn_send_record c) (dt_dynamic_table (cn_dynamic_table d)) (dt_max_table_size (cn_dynamic_table d))"
    "index_room (cn_send_record c) (length (mdels_of headers) + k)"
    using assms(1) by (simp_all add: linked_def mdels_of_def)
  have ok: "\<forall>m \<in> set (mdels_of headers). header_ok m" "entries_size (mdels_of headers) < 2 ^ 32"
    using assms(3) by (simp_all add: sendable_def)
  from block_roundtrip [OF l(4-6) ok l(7) assms(2), of "sv_hash_seed S" True] obtain rec out table where
    b: "compressor_encode_headers (sv_hash_seed S) (cn_send_record c) (mdels_of headers) slice_buffer_new True = Some (rec, out)"
    "decode_headers dynamic_metadata_service (cn_dynamic_table d) (sb_merge out) [] = Some (error_code NoError, table, mdels_of headers)"
    "dt_inv table" "dt_max_table_size table = dt_max_table_size (cn_dynamic_table d)"
    "tracks rec (dt_dynamic_table table) (dt_max_table_size table)" "index_room rec k"
    "length (mdels_of headers) \<le> length (sb_merge out)" "length (sb_merge out) \<le> entries_size (mdels_of headers)"
    by blast
  define block where "block = sb_merge out"
  have len: "5 \<le> length block" "length block < 2 ^ 24"
    "length block \<le> unat (cn_local_settings d ! setting_index Set_MaxFrameSize)"
    using b(7,8) assms(3) by (simp_all add: sendable_def block_def mdels_of_def)
  define c1 where "c1 = c\<lparr>cn_send_record := rec\<rparr>"
  define t where "t = (if end_stream then st_send_end_stream (st_send_headers s) else st_send_headers s)"
  define c' where "c' = put_stream t (sent S (headers_frame i end_stream block) c1)"
  have open_t: "\<not> st_is_closed t"
    using assms(5) by (simp add: t_def st_is_closed_def st_send_end_stream_def st_send_headers_def transition_def st_mark_unwritable_def)
  have "encode_header_block S headers c = Some (block, c1)" using b(1) by (simp add: encode_header_block_def block_def c1_def)
  from plain_send_headers [OF l(1) assms(4) this len(2), of end_stream] assms(7) open_t
  have send: "stream_send_headers S i headers end_stream c = Some (True, c')"
    by (simp add: t_def c'_def destroy_if_closed_def Let_def)
  from headers_received [OF l(2,3) assms(8-11) len b(2) [folded block_def], of S' end_stream] obtain u d' where
    r: "ReceivedData S' (headers_frame i end_stream block) d = Some (int (length (headers_frame i end_stream block)), d')"
    "received_request (cn_connection_id d) i end_stream headers u" "find_stream i d' = Some u"
    "cn_log d' = cn_log d @ [OnStreamHeaders u]" "open_for_frames d'" "cn_event_handler d'" "cn_dynamic_table d' = table"
    "plain d' = plain d" "cn_local_settings d' = cn_local_settings d" "st_data_cache u = slice_buffer_new"
    by (auto simp: headers_pairs)
  have log: "cn_log c' = cn_log c @ [SendRawData (headers_frame i end_stream block) (sv_send S (cn_log c) (headers_frame i end_stream block))]"
    by (simp add: c'_def c1_def put_stream_def)
  have "linked k c' d'"
    using l b r by (simp add: linked_def c'_def c1_def plain_def put_stream_def)
  moreover have "c' = put_stream t (sent S (headers_frame i end_stream block) (c\<lparr>cn_send_record := cn_send_record c'\<rparr>))"
    by (simp add: c'_def c1_def put_stream_def sent_def call_user_def)
  ultimately show ?thesis using send log r unfolding t_def by blast
qed

text \<open>C3. A request arrives: when a client's compressor tracks a server's HPACK table, the one frame its
  \<^verbatim>\<open>SendHeaders\<close> hands to the \<^verbatim>\<open>SendService\<close> is used up by one call of the server's \<^verbatim>\<open>ReceivedData\<close>,
  which reports a new stream with the same identifier, the same header list in the same order and
  the right state, tells the user nothing else, and leaves the two ends linked for the next request.\<close>

theorem request_delivered:
  assumes "linked (length headers + k) c d" "62 \<le> k" "sendable headers d"
    and "find_stream i c = Some s" "st_state s = Idle" "st_stream_id s = i" "\<forall>log b. 0 \<le> sv_send S log b"
    and "find_stream i d = None" "odd_id i \<noteq> cn_client_side d" "0 < i" "i \<le> HTTP2_STREAM_ID_MASK"
  shows "\<exists>c' d' frame n t. stream_send_headers S i headers end_stream c = Some (True, c') \<and>
    cn_log c' = cn_log c @ [SendRawData frame n] \<and>
    ReceivedData S' frame d = Some (int (length frame), d') \<and>
    cn_log d' = cn_log d @ [OnStreamHeaders t] \<and> find_stream i d' = Some t \<and>
    received_request (cn_connection_id d) i end_stream headers t \<and> linked k c' d'"
  using request_exchange [OF assms, of end_stream S'] by blast

text \<open>Two fresh ends: the client opens a stream and sends its preface, the server reads the preface.\<close>

lemma client_ready:
  "\<exists>c. user_reach example_services c \<and> plain c \<and> cn_send_record c = compressor_init \<and> find_stream 1 c = Some (http2_stream_new 0 1) \<and>
     \<not> cn_flow_control c \<and> cn_connection_send_window c = 65535 \<and> cn_remote_settings c = default_settings"
proof -
  define a where "a = snd (create_stream (fresh_connection True))"
  have a: "user_reach example_services a" "cn_client_side a" "\<not> cn_preface_sent a" "\<not> cn_buffered_mode a"
    "cn_send_record a = compressor_init" "find_stream 1 a = Some (http2_stream_new 0 1)"
    "\<not> cn_flow_control a" "cn_connection_send_window a = 65535" "cn_remote_settings a = default_settings"
    using reach_user_step [OF fresh_reach us_CreateStream [OF fresh_create]]
    by (simp_all add: a_def fresh_create put_stream_def find_stream_def http2_stream_new_def)
  obtain b where b: "ensure_preface_sent example_services a = Some b" using ensure_preface_total by blast
  have "send_settings example_services [] a = Some (False, b)" using b by (simp add: send_settings_def)
  then have "user_reach example_services b" using a(1) us_SendSettings by (blast intro: reach_user_step)
  moreover have "cn_preface_sent b" using a b
    by (auto simp: ensure_preface_sent_def call_send_def Let_def example_services_def bind_eq_Some_conv)
  ultimately show ?thesis
    using a(4-9) calm_fields(3,9,14,21,22) [OF ensure_preface_calm [OF b]] calm_find [OF ensure_preface_calm [OF b], of 1]
    by (intro exI [of _ b]) (simp add: plain_def)
qed

lemma server_ready:
  "\<exists>d. user_reach example_services d \<and> open_for_frames d \<and> cn_event_handler d \<and> cn_streams d = [] \<and> \<not> cn_client_side d \<and>
     plain d \<and> cn_dynamic_table d = dynamic_metadata_table_new 4096 \<and>
     cn_local_settings d ! setting_index Set_MaxFrameSize = 16384 \<and> cn_remote_settings d = default_settings \<and>
     cn_connection_id d = 0 \<and> cn_send_record d = compressor_init"
proof -
  define a where "a = set_event_handler True (fresh_connection False)"
  define b where "b = a\<lparr>cn_finish_handshake := True, cn_initial_settings_sent := True\<rparr>"
  have a: "user_reach example_services a" unfolding a_def by (rule reach_user_step [OF fresh_reach us_SetEventHandler])
  have "6 * length (initial_settings_entries b) < 2 ^ 24" using initial_entries_length [of b] by simp
  then obtain p where p: "pack_http2_frame_settings (build_http2_frame_settings 0 (initial_settings_entries b)) = Some p"
    using settings.pack_eq settings_wf_built by blast
  define d where "d = (sent example_services p b)\<lparr>cn_settings_pending := True\<rparr>"
  have "plain b" by (simp add: b_def a_def set_event_handler_def plain_def)
  then have "send_initial_settings example_services (a\<lparr>cn_finish_handshake := True\<rparr>) = Some d"
    using p by (simp add: send_initial_settings_def a_def set_event_handler_def b_def send_frame_settings_def plain_send d_def Let_def)
  moreover have "frame_loop example_services [] (length PREFACE) d = Some (24, d)"
    by (simp add: frame_loop.simps HTTP2_FRAME_HEADER_SIZE_def PREFACE_def int_of_size_def)
  ultimately have "ReceivedData example_services PREFACE a = Some (24, d)"
    by (simp add: ReceivedData_def a_def set_event_handler_def)
  then have "user_reach example_services d" using a us_ReceivedData by (blast intro: reach_user_step)
  then show ?thesis
    by (intro exI [of _ d])
       (simp add: d_def b_def a_def set_event_handler_def open_for_frames_def plain_def sent_def call_user_def)
qed

definition example_request :: "(bytes \<times> bytes) list" where
  "example_request = [(ascii '':method'', ascii ''GET''), (ascii '':scheme'', ascii ''https''), (ascii '':path'', ascii ''/''),
     (ascii '':authority'', ascii ''a''), (ascii ''x'', ascii ''y'')]"

lemma example_linked:
  assumes "plain c" "cn_send_record c = compressor_init" "open_for_frames d" "cn_event_handler d"
    "cn_dynamic_table d = dynamic_metadata_table_new 4096" "cn_local_settings d ! setting_index Set_MaxFrameSize = 16384"
  shows "sendable example_request d \<and> linked (length example_request + 62) c d"
proof
  have m: "mdels_of example_request = [\<lparr>md_key = ascii '':method'', md_value = ascii ''GET''\<rparr>,
      \<lparr>md_key = ascii '':scheme'', md_value = ascii ''https''\<rparr>, \<lparr>md_key = ascii '':path'', md_value = ascii ''/''\<rparr>,
      \<lparr>md_key = ascii '':authority'', md_value = ascii ''a''\<rparr>, \<lparr>md_key = ascii ''x'', md_value = ascii ''y''\<rparr>]"
    by (simp add: example_request_def mdels_of_def)
  show "sendable example_request d"
    unfolding sendable_def m using assms(6)
    by (simp add: example_request_def header_ok_def entry_size_def MDELEM_SIZE_def isupper_def)
  show "linked (length example_request + 62) c d"
    using assms dt_inv_new [of 4096] tracks_initial [of 4096] index_room_initial
    by (simp add: linked_def dynamic_metadata_table_new_def example_request_def)
qed

theorem request_delivered_witness:
  "\<exists>c d frame n c' d' t. stream_send_headers example_services 1 example_request True c = Some (True, c') \<and>
     cn_log c' = cn_log c @ [SendRawData frame n] \<and> ReceivedData example_services frame d = Some (int (length frame), d') \<and>
     cn_log d' = cn_log d @ [OnStreamHeaders t] \<and> fst (st_GetHeaders t) = example_request"
proof -
  obtain c where c: "plain c" "cn_send_record c = compressor_init" "find_stream 1 c = Some (http2_stream_new 0 1)"
    using client_ready by blast
  obtain d where d: "open_for_frames d" "cn_event_handler d" "cn_streams d = []" "\<not> cn_client_side d"
    "cn_dynamic_table d = dynamic_metadata_table_new 4096" "cn_local_settings d ! setting_index Set_MaxFrameSize = 16384"
    using server_ready by blast
  have "sendable example_request d" "linked (length example_request + 62) c d"
    using example_linked c(1,2) d by blast+
  moreover have "\<forall>log b. 0 \<le> sv_send example_services log b" by (simp add: example_services_def)
  moreover have "(1 :: u32) \<le> HTTP2_STREAM_ID_MASK" by (simp add: HTTP2_STREAM_ID_MASK_def word_le_nat_alt)
  ultimately show ?thesis
    using request_delivered [of example_request 62 c d 1 "http2_stream_new 0 1" example_services True example_services] c(3) d(3,4)
    by (auto simp: find_stream_def odd_id_def http2_stream_new_def received_request_def) blast
qed

end
