(* ===== verification/Connection_Settings.thy ===== *)
theory Connection_Settings
  imports Connection_Exchange
begin

text \<open>
  SETTINGS and PING: a specification of what a SETTINGS frame negotiates, written over the list of
  its entries, and the proof that the handler of \<^verbatim>\<open>connection.cc\<close> implements it and acknowledges
  it; and the answer to a PING.
\<close>

section \<open>The compressor under SETTINGS\<close>

text \<open>The compressor is in step with some table and its limit is far from the 32-bit bound.\<close>

definition compressor_ok :: "compressor \<Rightarrow> bool" where
  "compressor_ok r \<longleftrightarrow> (\<exists>E. sync r E) \<and> unat (c_max_usable_size r) + 31 < 2 ^ 32"

lemma compressor_ok_init: "compressor_ok compressor_init"
  using sync_init by (auto simp: compressor_ok_def compressor_init_def HPACK_INITIAL_TABLE_SIZE_def)

lemma evict_while_usable: "evict_while P r = Some r' \<Longrightarrow> c_max_usable_size r' = c_max_usable_size r"
proof (induction P r rule: evict_while.induct)
  case (1 P r)
  have "evict_entry r = Some q \<Longrightarrow> c_max_usable_size q = c_max_usable_size r" for q
    by (auto simp: evict_entry_def Let_def split: if_splits option.splits)
  with 1 show ?case by (subst (asm) evict_while.simps) (auto split: if_splits option.splits)
qed

lemma resize_usable: "compressor_set_max_table_size r n = Some r' \<Longrightarrow> c_max_usable_size r' = c_max_usable_size r"
proof -
  have b: "rebuild_elems q m = Some r' \<Longrightarrow> c_max_usable_size r' = c_max_usable_size q" for q m
    by (auto simp: rebuild_elems_def split: if_splits)
  show "compressor_set_max_table_size r n = Some r' \<Longrightarrow> ?thesis"
    unfolding compressor_set_max_table_size_def Let_def
    by (auto simp: bind_eq_Some_conv split: if_splits dest!: b evict_while_usable)
qed

lemma resize_ok: "compressor_ok r \<Longrightarrow> \<exists>r'. compressor_set_max_table_size r n = Some r' \<and> compressor_ok r'"
proof -
  assume "compressor_ok r"
  then obtain E where E: "sync r E" "unat (c_max_usable_size r) + 31 < 2 ^ 32" by (auto simp: compressor_ok_def)
  have "min n (c_max_usable_size r) \<le> c_max_usable_size r" by simp
  then have "unat (min n (c_max_usable_size r)) + 31 < 2 ^ 32" using E(2) unfolding word_le_nat_alt by linarith
  from set_max_table_size_sync [OF E(1) refl this] obtain r' where
    "compressor_set_max_table_size r n = Some r'" "sync r' (fit (unat (min n (c_max_usable_size r))) E)" by blast
  with E(2) resize_usable show ?thesis by (auto simp: compressor_ok_def)
qed

section \<open>What a SETTINGS frame negotiates\<close>

text \<open>A value outside the range of a parameter whose range is binding.\<close>

definition fatal :: "http2_settings_entry \<Rightarrow> bool" where
  "fatal e \<longleftrightarrow> unat (se_id e) < HTTP2_NUMBER_OF_SETTINGS \<and> \<not> setting_ok (unat (se_id e)) (se_value e) \<and>
     sp_invalid_value_behavior (global_settings_parameters ! unat (se_id e)) = Disconnect"

text \<open>The value that counts: the nearest value in range; unknown parameters are passed on.\<close>

definition effective :: "http2_settings_entry \<Rightarrow> u32" where
  "effective e = (if unat (se_id e) < HTTP2_NUMBER_OF_SETTINGS
     then max (sp_min_value (global_settings_parameters ! unat (se_id e)))
            (min (sp_max_value (global_settings_parameters ! unat (se_id e))) (se_value e))
     else se_value e)"

text \<open>The last entry for a parameter wins; one without an entry keeps its value.\<close>

definition negotiated :: "http2_settings_entry list \<Rightarrow> nat \<Rightarrow> u32 \<Rightarrow> u32" where
  "negotiated es i old =
     (case map_of (rev (map (\<lambda>e. (unat (se_id e), effective e)) es)) i of Some v \<Rightarrow> v | None \<Rightarrow> old)"

lemma negotiated_simps [simp]:
  "negotiated [] i old = old"
  "negotiated (e # es) i old = negotiated es i (if unat (se_id e) = i then effective e else old)"
  by (auto simp: negotiated_def map_of_append map_add_def split: option.splits)

lemma effective_code:
  assumes "unat (se_id e) < HTTP2_NUMBER_OF_SETTINGS"
  defines "p \<equiv> global_settings_parameters ! unat (se_id e)"
  shows "(if se_value e < sp_min_value p \<or> se_value e > sp_max_value p then clamp_setting p (se_value e) else se_value e) = effective e"
proof -
  have "sp_min_value p \<le> sp_max_value p"
    using global_settings_defaults assms
    by (auto simp: list_all_length HTTP2_NUMBER_OF_SETTINGS_def dest: spec [of _ "unat (se_id e)"] intro: order.trans)
  then show ?thesis using assms by (auto simp: clamp_setting_def effective_def Let_def max_def min_def)
qed

lemma apply_settings_spec:
  assumes "length (cn_remote_settings c) = HTTP2_NUMBER_OF_SETTINGS" "compressor_ok (cn_send_record c)"
  shows "\<exists>ls r. compressor_ok r \<and> apply_settings es rep c =
      Some (case find fatal es of None \<Rightarrow> Inr (rep @ map (\<lambda>e. (se_id e, effective e)) es)
        | Some e \<Rightarrow> Inl (error_code (sp_error_value (global_settings_parameters ! unat (se_id e)))),
        c\<lparr>cn_remote_settings := ls, cn_send_record := r\<rparr>) \<and>
    (find fatal es = None \<longrightarrow> (\<forall>i < HTTP2_NUMBER_OF_SETTINGS. ls ! i = negotiated es i (cn_remote_settings c ! i)))"
  using assms
proof (induction es arbitrary: rep c)
  case Nil
  then show ?case by (intro exI [of _ "cn_remote_settings c"] exI [of _ "cn_send_record c"]) simp
next
  case (Cons e es)
  let ?i = "unat (se_id e)" and ?p = "global_settings_parameters ! unat (se_id e)"
  show ?case
  proof (cases "?i < HTTP2_NUMBER_OF_SETTINGS")
    case False
    then have "\<not> fatal e" "effective e = se_value e" by (simp_all add: fatal_def effective_def)
    moreover have "negotiated (e # es) j old = negotiated es j old" if "j < HTTP2_NUMBER_OF_SETTINGS" for j old
      using False that by auto
    ultimately show ?thesis
      using False Cons.IH [OF Cons.prems, of "rep @ [(se_id e, se_value e)]"]
      by (cases "find fatal es") simp_all
  next
    case True
    have out: "(se_value e < sp_min_value ?p \<or> se_value e > sp_max_value ?p) \<longleftrightarrow> \<not> setting_ok ?i (se_value e)"
      by (auto simp: setting_ok_def)
    show ?thesis
    proof (cases "fatal e")
      case fat: True
      with True out show ?thesis
        using Cons.prems by (intro exI [of _ "cn_remote_settings c"] exI [of _ "cn_send_record c"])
          (simp add: fatal_def Let_def)
    next
      case False
      let ?c = "c\<lparr>cn_remote_settings := (cn_remote_settings c)[?i := effective e]\<rparr>"
      have "\<exists>r. (if ?i = setting_index Set_HeaderTableSize
          then compressor_set_max_table_size (cn_send_record ?c) (effective e) else Some (cn_send_record ?c)) = Some r \<and>
          compressor_ok r"
        using resize_ok [OF Cons.prems(2), of "effective e"] Cons.prems(2)
        by (cases "?i = setting_index Set_HeaderTableSize") simp_all
      then obtain r where r: "(if ?i = setting_index Set_HeaderTableSize
          then compressor_set_max_table_size (cn_send_record ?c) (effective e) else Some (cn_send_record ?c)) = Some r"
        "compressor_ok r" by blast
      have step: "apply_settings (e # es) rep c = apply_settings es (rep @ [(se_id e, effective e)]) (?c\<lparr>cn_send_record := r\<rparr>)"
      proof -
        have nf: "\<not> ((se_value e < sp_min_value ?p \<or> se_value e > sp_max_value ?p) \<and> sp_invalid_value_behavior ?p = Disconnect)"
          using True False out by (simp add: fatal_def)
        from r(1) show ?thesis
          unfolding apply_settings.simps Let_def if_P [OF True] if_not_P [OF nf] effective_code [OF True] by simp
      qed
      have first: "find fatal (e # es) = find fatal es" using False by simp
      have "length (cn_remote_settings (?c\<lparr>cn_send_record := r\<rparr>)) = HTTP2_NUMBER_OF_SETTINGS" using Cons.prems(1) by simp
      from Cons.IH [OF this, of "rep @ [(se_id e, effective e)]"] r(2) obtain ls q where ih: "compressor_ok q"
        "apply_settings es (rep @ [(se_id e, effective e)]) (?c\<lparr>cn_send_record := r\<rparr>) =
          Some (case find fatal es of None \<Rightarrow> Inr ((rep @ [(se_id e, effective e)]) @ map (\<lambda>e. (se_id e, effective e)) es)
            | Some e \<Rightarrow> Inl (error_code (sp_error_value (global_settings_parameters ! unat (se_id e)))),
            ?c\<lparr>cn_send_record := r, cn_remote_settings := ls, cn_send_record := q\<rparr>)"
        "find fatal es = None \<longrightarrow>
          (\<forall>i < HTTP2_NUMBER_OF_SETTINGS. ls ! i = negotiated es i (cn_remote_settings ?c ! i))"
        by auto
      have "cn_remote_settings ?c ! i = (if ?i = i then effective e else cn_remote_settings c ! i)"
        if "i < HTTP2_NUMBER_OF_SETTINGS" for i
        using that Cons.prems(1) by (simp add: nth_list_update)
      then have "find fatal es = None \<longrightarrow> (\<forall>i < HTTP2_NUMBER_OF_SETTINGS. ls ! i = negotiated (e # es) i (cn_remote_settings c ! i))"
        using ih(3) by simp
      then show ?thesis
        unfolding step first ih(2) using ih(1)
        by (intro exI [of _ ls] exI [of _ q]) (simp split: option.split)
    qed
  qed
qed

section \<open>The answers\<close>

definition settings_ack :: bytes where
  "settings_ack = [0, 0, 0, 4, 1, 0, 0, 0, 0]"

lemma ack_pack: "pack_http2_frame_settings (build_http2_frame_settings (ucast (frame_flag Flag_Ack)) []) = Some settings_ack"
  by (simp add: pack_http2_frame_settings_def build_http2_frame_settings_def Let_def http2_frame_header_pack_def
      http2_frame_header_init_def fill_def HTTP2_FRAME_HEADER_SIZE_def settings_ack_def put_uint32_bytes)

lemma plain_notify [simp]: "plain (notify e c) = plain c" "plain (call_user e c) = plain c"
  by (simp_all add: notify_def call_user_def plain_def)

lemma notify_log: "cn_log (notify e c) = cn_log c @ (if cn_event_handler c then [e] else [])"
  by (simp add: notify_def call_user_def)

lemma notify_pending [simp]: "cn_ping_pending (notify e c) = cn_ping_pending c" "cn_event_handler (notify e c) = cn_event_handler c"
  "cn_remote_settings (notify e c) = cn_remote_settings c"
  by (simp_all add: notify_def call_user_def)

lemma track_zero [simp]: "track_last_stream 0 c = c"
  by (simp add: track_last_stream_def)

text \<open>C6. A SETTINGS frame is negotiated as specified: if an entry is outside a binding range, the connection
  answers with a GOAWAY that carries the error code of the first such parameter; otherwise every
  parameter has the last value sent for it, moved to the nearest value in its range, or keeps its value
  when the frame does not name it, and the frame is answered by exactly one SETTINGS ACK after
  the user was told.\<close>

theorem settings_negotiated:
  assumes "user_reach S c" "plain c" "open_for_frames c" "compressor_ok (cn_send_record c)"
    and "6 * length es < 2 ^ 24" "6 * length es \<le> unat (cn_local_settings c ! setting_index Set_MaxFrameSize)"
  shows "\<exists>w c' n. pack_http2_frame_settings (build_http2_frame_settings 0 es) = Some w \<and>
    ReceivedData S w c = Some (int (length w), c') \<and>
    (case find fatal es of
      Some e \<Rightarrow> cn_sent_goaway c' \<and> cn_log c' = cn_log c @ [SendRawData (goaway_frame (cn_last_stream_id c)
        (error_code (sp_error_value (global_settings_parameters ! unat (se_id e))))) n]
    | None \<Rightarrow> (\<forall>i < HTTP2_NUMBER_OF_SETTINGS. cn_remote_settings c' ! i = negotiated es i (cn_remote_settings c ! i)) \<and>
        cn_log c' = cn_log c @ (if cn_event_handler c then [OnSettings (map (\<lambda>e. (se_id e, effective e)) es) False] else []) @
          [SendRawData settings_ack n])"
proof -
  define f where "f = build_http2_frame_settings 0 es"
  have wf: "settings_wf f" unfolding f_def using assms(5) by (rule settings_wf_built)
  have f: "set_hdr f = http2_frame_header_init (6 * length es) (frame_type Type_Settings) 0 0" "set_settings f = es"
    by (simp_all add: f_def build_http2_frame_settings_def Let_def)
  define p where "p = concat (map pack_settings_entry es)"
  have w: "pack_http2_frame_settings f = Some (http2_frame_header_pack (set_hdr f) @ p)"
    using settings.pack_eq [OF wf] by (simp add: f(2) p_def)
  have len: "unat (hd_length (set_hdr f)) = 6 * length es" "length p = 6 * length es"
    using settings.wf_length [OF wf] assms(5) unfolding f p_def by simp_all
  have parse: "parse_http2_frame_settings (set_hdr f) p = Ok f"
    using settings.parse_eq [OF wf, of "[]"] by (simp add: f(2) p_def)
  have six: "hd_length (set_hdr f) mod 6 = 0"
    using len(1) by (intro word_unat_eq_iff [THEN iffD2]) (simp add: unat_mod_distrib)
  have "length (cn_remote_settings c) = HTTP2_NUMBER_OF_SETTINGS"
    using user_reach_inv [OF assms(1)] by (simp add: conn_inv_def settings_ok_def)
  from apply_settings_spec [OF this assms(4), of es "[]", unfolded append_Nil] obtain ls r where ap:
    "apply_settings es [] c = Some (case find fatal es of None \<Rightarrow> Inr (map (\<lambda>e. (se_id e, effective e)) es)
        | Some e \<Rightarrow> Inl (error_code (sp_error_value (global_settings_parameters ! unat (se_id e)))),
      c\<lparr>cn_remote_settings := ls, cn_send_record := r\<rparr>)"
    "find fatal es = None \<longrightarrow> (\<forall>i < HTTP2_NUMBER_OF_SETTINGS. ls ! i = negotiated es i (cn_remote_settings c ! i))"
    by auto
  let ?c = "c\<lparr>cn_remote_settings := ls, cn_send_record := r\<rparr>"
  have plain: "plain ?c" using assms(2) by (simp add: plain_def)
  have run: "ReceivedData S (http2_frame_header_pack (set_hdr f) @ p) c = Some (int (9 + length p), c')"
    if "received_settings S f c = Some c'" for c'
  proof -
    have "(frame_process_func_array ! unat (hd_type (set_hdr f))) S (set_hdr f) p (track_last_stream (hd_stream_id (set_hdr f)) c) =
        Some (None, c')"
      using that parse by (simp add: f(1) frame_process_func_array_def internal_settings_process_def parsed_def no_stream_def)
    from receive_one [OF assms(3) settings.wf_hdr [OF wf] _ _ _ this] len assms(6) show ?thesis
      by (simp add: f(1) settle_def word_le_nat_alt)
  qed
  show ?thesis
  proof (cases "find fatal es")
    case None
    have "received_settings S f c = Some (sent S settings_ack (notify (OnSettings (map (\<lambda>e. (se_id e, effective e)) es) False) ?c))"
      using ap(1) None six plain ack_pack
      by (simp add: received_settings_def f Let_def has_flag_def send_frame_settings_def plain_send)
    from run [OF this] w None ap(2) show ?thesis
      by (auto simp: f_def [symmetric] notify_log)
  next
    case (Some e)
    let ?err = "error_code (sp_error_value (global_settings_parameters ! unat (se_id e)))"
    have "received_settings S f c = goaway S ?err ?c"
      using ap(1) Some six by (simp add: received_settings_def f Let_def has_flag_def)
    with plain_goaway [OF plain, of S ?err] have "received_settings S f c = Some
        ((sent S (goaway_frame (cn_last_stream_id c) ?err) ?c)\<lparr>cn_sent_goaway_stream_id := cn_last_stream_id c, cn_sent_goaway := True\<rparr>)"
      by simp
    from run [OF this] w Some show ?thesis by (auto simp: f_def [symmetric])
  qed
qed

definition example_settings :: "http2_settings_entry list" where
  "example_settings = [\<lparr>se_id = 4, se_value = 100000\<rparr>, \<lparr>se_id = 99, se_value = 1\<rparr>, \<lparr>se_id = 6, se_value = 99999999\<rparr>]"

theorem settings_negotiated_witness:
  "\<exists>c w c' n. ReceivedData example_services w c = Some (27, c') \<and> cn_remote_settings c' ! 4 = 100000 \<and>
     cn_remote_settings c' ! 6 = 16777216 \<and>
     cn_log c' = cn_log c @ [OnSettings [(4, 100000), (99, 1), (6, 16777216)] False, SendRawData settings_ack n]"
proof -
  obtain c where c: "user_reach example_services c" "plain c" "open_for_frames c" "cn_send_record c = compressor_init"
    "cn_local_settings c ! setting_index Set_MaxFrameSize = 16384" "cn_event_handler c" using server_ready by blast
  have k: "compressor_ok (cn_send_record c)" using c(4) compressor_ok_init by simp
  have es: "find fatal example_settings = None"
    "map (\<lambda>e. (se_id e, effective e)) example_settings = [(4, 100000), (99, 1), (6, 16777216)]"
    by (simp_all add: example_settings_def fatal_def effective_def HTTP2_NUMBER_OF_SETTINGS_def setting_ok_def
        global_settings_parameters_def setting_parameters_def max_def min_def)
  have neg: "negotiated example_settings 4 old = 100000" "negotiated example_settings 6 old = 16777216" for old
    by (simp_all add: example_settings_def effective_def HTTP2_NUMBER_OF_SETTINGS_def
        global_settings_parameters_def setting_parameters_def max_def min_def)
  obtain w c' n where w: "pack_http2_frame_settings (build_http2_frame_settings 0 example_settings) = Some w"
    "ReceivedData example_services w c = Some (int (length w), c')"
    "\<forall>i < HTTP2_NUMBER_OF_SETTINGS. cn_remote_settings c' ! i = negotiated example_settings i (cn_remote_settings c ! i)"
    "cn_log c' = cn_log c @ [OnSettings [(4, 100000), (99, 1), (6, 16777216)] False, SendRawData settings_ack n]"
    using settings_negotiated [OF c(1-3) k, of example_settings] c(5,6) es by (auto simp: example_settings_def)
  have "length w = 27"
    using w(1) by (auto simp: example_settings_def pack_http2_frame_settings_def build_http2_frame_settings_def Let_def fill_def
        pack_settings_entry_def split: if_splits)
  with w neg show ?thesis by (intro exI [of _ c] exI [of _ w] exI [of _ c'] exI [of _ n]) (simp add: HTTP2_NUMBER_OF_SETTINGS_def)
qed

definition ping_frame :: "bool \<Rightarrow> bytes \<Rightarrow> bytes" where
  "ping_frame ack opaque = http2_frame_header_pack (http2_frame_header_init 8 (frame_type Type_Ping)
     (if ack then frame_flag Flag_Ack else 0) 0) @ opaque"

lemma ping_pack: "length opaque = 8 \<Longrightarrow> pack_http2_frame_ping (build_http2_frame_ping opaque ack) = ping_frame ack opaque"
  by (simp add: pack_http2_frame_ping_def build_http2_frame_ping_def ping_frame_def Let_def)

text \<open>C31. A PING is answered at once by a PING with ACK that carries the same eight octets, after the user
  was told; a PING with ACK is reported, ends the wait for it and is not answered.\<close>

theorem ping_answered:
  assumes "plain c" "open_for_frames c" "length opaque = 8"
    and "8 \<le> cn_local_settings c ! setting_index Set_MaxFrameSize"
  shows "\<exists>n c' c''. ReceivedData S (ping_frame False opaque) c = Some (17, c') \<and>
    cn_log c' = cn_log c @ (if cn_event_handler c then [OnPing (u64_of_mem opaque) False] else []) @
      [SendRawData (ping_frame True opaque) n] \<and> cn_ping_pending c' = cn_ping_pending c \<and>
    ReceivedData S (ping_frame True opaque) c = Some (17, c'') \<and>
    cn_log c'' = cn_log c @ (if cn_event_handler c then [OnPing (u64_of_mem opaque) True] else []) \<and>
    \<not> cn_ping_pending c''"
proof -
  let ?h = "\<lambda>ack. http2_frame_header_init 8 (frame_type Type_Ping) (if ack then frame_flag Flag_Ack else 0) 0"
  have h: "hdr_ok (?h ack)" for ack by (rule hdr_ok_init) simp_all
  have parse: "parse_http2_frame_ping (?h ack) opaque = Ok \<lparr>png_hdr = ?h ack, png_opaque_data = opaque\<rparr>" for ack
    using assms(3) by (simp add: parse_http2_frame_ping_def)
  have run: "ReceivedData S (ping_frame ack opaque) c = Some (17, c')"
    if "received_ping S \<lparr>png_hdr = ?h ack, png_opaque_data = opaque\<rparr> c = Some c'" for ack c'
  proof -
    have "(frame_process_func_array ! unat (hd_type (?h ack))) S (?h ack) opaque (track_last_stream (hd_stream_id (?h ack)) c) =
        Some (None, c')"
      using that parse [of ack] by (simp add: frame_process_func_array_def internal_ping_process_def parsed_def no_stream_def)
    from receive_one [OF assms(2) h _ _ _ this] assms(3,4) show ?thesis
      by (simp add: settle_def ping_frame_def)
  qed
  let ?c = "sent S (ping_frame True opaque) (notify (OnPing (u64_of_mem opaque) False) c)"
  have "received_ping S \<lparr>png_hdr = ?h False, png_opaque_data = opaque\<rparr> c = Some ?c"
    using assms(1,3) by (simp add: received_ping_def Let_def has_flag_def send_frame_ping_def ping_pack plain_send)
  note no_ack = run [OF this]
  have "received_ping S \<lparr>png_hdr = ?h True, png_opaque_data = opaque\<rparr> c =
      Some (notify (OnPing (u64_of_mem opaque) True) (c\<lparr>cn_ping_pending := False\<rparr>))"
    by (simp add: received_ping_def Let_def has_flag_def)
  note ack = run [OF this]
  have "cn_ping_pending ?c = cn_ping_pending c" by (simp add: sent_def notify_def call_user_def)
  with no_ack ack show ?thesis by (auto simp: notify_log)
qed

theorem ping_answered_witness:
  "\<exists>c n c'. ReceivedData example_services (ping_frame False [1, 2, 3, 4, 5, 6, 7, 8]) c = Some (17, c') \<and>
     last (cn_log c') = SendRawData (ping_frame True [1, 2, 3, 4, 5, 6, 7, 8]) n"
proof -
  obtain c where "plain c" "open_for_frames c" "cn_local_settings c ! setting_index Set_MaxFrameSize = 16384"
    using server_ready by blast
  with ping_answered [of c "[1, 2, 3, 4, 5, 6, 7, 8]" example_services] show ?thesis by fastforce
qed

end
