(* ===== verification/Connection_Refusals.thy ===== *)
theory Connection_Refusals
  imports Connection_Settings
begin

text \<open>
  What the connection refuses or loses: frames that break up a header block, header blocks on
  streams the endpoint has opened itself, and data beyond the send window.
\<close>

section \<open>Header blocks are contiguous\<close>

text \<open>C18. While a header block is unfinished, every frame but a CONTINUATION on the same stream ends the
  connection: \<^verbatim>\<open>ReceivedData\<close> answers with GOAWAY(PROTOCOL_ERROR), returns -1 and does nothing else, so
  no frame can come between the fragments of a block.\<close>

theorem header_block_contiguous:
  assumes "plain c" "cn_finish_handshake c" "cn_next_frame_limit c"
    and "9 \<le> length buf" "http2_frame_header_unpack buf = Some h" "unat (hd_length h) + 9 \<le> length buf"
    and "hd_length h \<le> cn_local_settings c ! setting_index Set_MaxFrameSize"
    and "hd_type h \<noteq> frame_type Type_Continuation \<or> hd_stream_id h \<noteq> cn_next_stream_id_limit c"
  shows "ReceivedData S buf c = Some (-1,
    (sent S (goaway_frame (cn_last_stream_id c) (error_code ProtocolError)) c)
      \<lparr>cn_sent_goaway_stream_id := cn_last_stream_id c, cn_sent_goaway := True\<rparr>)"
proof -
  have "unat (hd_length h + HTTP2_FRAME_HEADER_SIZE) = unat (hd_length h) + 9"
    using unpack_length [OF assms(5)] by (rule frame_total_nat)
  then have "\<not> hd_length h + HTTP2_FRAME_HEADER_SIZE < HTTP2_FRAME_HEADER_SIZE"
    by (simp add: word_less_nat_alt HTTP2_FRAME_HEADER_SIZE_def)
  then have "package_process S buf (hd_length h + HTTP2_FRAME_HEADER_SIZE) c =
      map_option (\<lambda>c. (-1, c)) (goaway S (error_code ProtocolError) c)"
    using assms(3,5,8) by (simp add: package_process_def Let_def)
  with plain_goaway [OF assms(1), of S "error_code ProtocolError"]
  have "package_process S buf (hd_length h + HTTP2_FRAME_HEADER_SIZE) c = Some (-1,
    (sent S (goaway_frame (cn_last_stream_id c) (error_code ProtocolError)) c)
      \<lparr>cn_sent_goaway_stream_id := cn_last_stream_id c, cn_sent_goaway := True\<rparr>)" by simp
  from frame_loop_frame [OF assms(4,5,7,6) this, of 0] show ?thesis
    using assms(2) by (simp add: ReceivedData_def)
qed

text \<open>A PING between the fragments of a block on stream 1.\<close>

theorem header_block_contiguous_witness:
  "\<exists>c c'. cn_next_frame_limit c \<and> ReceivedData example_services (ping_frame False [1, 2, 3, 4, 5, 6, 7, 8]) c = Some (-1, c') \<and>
     cn_sent_goaway c'"
proof -
  obtain d where d: "plain d" "open_for_frames d" "cn_local_settings d ! setting_index Set_MaxFrameSize = 16384"
    using server_ready by blast
  define c where "c = d\<lparr>cn_next_frame_limit := True, cn_next_stream_id_limit := 1\<rparr>"
  have "hdr_ok (http2_frame_header_init 8 (frame_type Type_Ping) 0 0)" by (rule hdr_ok_init) simp_all
  from unpack_pack [OF this] have u: "http2_frame_header_unpack (ping_frame False [1, 2, 3, 4, 5, 6, 7, 8]) =
      Some (http2_frame_header_init 8 6 0 0)" by (simp add: ping_frame_def)
  have c: "plain c" "cn_finish_handshake c" "cn_next_frame_limit c"
    "cn_local_settings c ! setting_index Set_MaxFrameSize = 16384"
    using d by (simp_all add: c_def plain_def open_for_frames_def)
  from header_block_contiguous [OF c(1-3) _ u, of example_services] c(4) obtain c' where
    "ReceivedData example_services (ping_frame False [1, 2, 3, 4, 5, 6, 7, 8]) c = Some (-1, c')" "cn_sent_goaway c'"
    by (simp add: ping_frame_def)
  with c(3) show ?thesis by blast
qed

section \<open>Header blocks on one's own streams\<close>

text \<open>C39. A header block on a stream that the endpoint opened and has sent on is refused: though it decodes
  without error, the connection answers with GOAWAY(PROTOCOL_ERROR), reports nothing and leaves the
  stream as it was. This holds for every response a client gets.\<close>

theorem response_refused:
  assumes "plain c" "open_for_frames c" "find_stream i c = Some s" "st_state s \<noteq> Idle" "\<not> st_is_closed s"
    and i: "0 < i" "i \<le> HTTP2_STREAM_ID_MASK" "odd_id i = cn_client_side c"
    and block: "5 \<le> length block" "length block < 2 ^ 24"
      "length block \<le> unat (cn_local_settings c ! setting_index Set_MaxFrameSize)"
    and decoded: "decode_headers dynamic_metadata_service (cn_dynamic_table c) block [] = Some (error_code NoError, table, hs)"
  shows "\<exists>c' n. ReceivedData S (headers_frame i es block) c = Some (int (length (headers_frame i es block)), c') \<and>
    cn_log c' = cn_log c @ [SendRawData (goaway_frame (cn_last_stream_id c) (error_code ProtocolError)) n] \<and>
    cn_sent_goaway c' \<and> cn_streams c' = cn_streams c"
proof -
  obtain f h where f: "hds_hdr f = h" "hds_pad_len f = 0" "hds_header_block_fragment f = block"
    and h: "hd_stream_id h = i" "hd_length h \<noteq> 0"
    and run: "\<And>S st e. received_headers S (find_stream i c) f (track_last_stream i c) = Some (st, e) \<Longrightarrow>
       ReceivedData S (headers_frame i es block) c = Some (int (length (headers_frame i es block)), settle st e)"
    using receive_headers_frame [OF assms(2) i(1,2) block, of es] by metis
  let ?c = "c\<lparr>cn_dynamic_table := table\<rparr>"
  have tr: "track_last_stream i c = c" using i(3) by (simp add: track_last_stream_def)
  have "plain ?c" using assms(1) by (simp add: plain_def)
  from plain_goaway [OF this, of S "error_code ProtocolError"] obtain d where
    d: "goaway S (error_code ProtocolError) ?c = Some d" "cn_sent_goaway d" "cn_streams d = cn_streams c"
    "cn_log d = cn_log c @ [SendRawData (goaway_frame (cn_last_stream_id c) (error_code ProtocolError))
       (sv_send S (cn_log c) (goaway_frame (cn_last_stream_id c) (error_code ProtocolError)))]"
    by simp
  have "received_headers S (Some s) f c = Some (Some s, d)"
    using i(1) word_gt_0 [of i] h assms(4) d(1)
    by (simp add: received_headers_def Let_def f decode_block_def decoded reject_def)
  moreover have "settle (Some s) d = d" using assms(5) by (simp add: settle_def destroy_if_closed_def)
  ultimately show ?thesis using run [of S "Some s" d] d assms(3) by (auto simp: tr)
qed

theorem response_refused_witness:
  "\<exists>c c' frame. cn_client_side c \<and> ReceivedData example_services frame c = Some (int (length frame), c') \<and> cn_sent_goaway c' \<and>
     (\<forall>t. OnStreamHeaders t \<notin> set (cn_log c'))"
proof -
  define c where "c = put_stream (st_send_headers (http2_stream_new 0 1)) ((fresh_connection True)\<lparr>cn_preface_sent := True\<rparr>)"
  have c: "plain c" "open_for_frames c" "find_stream 1 c = Some (st_send_headers (http2_stream_new 0 1))" "cn_client_side c"
    "cn_dynamic_table c = dynamic_metadata_table_new 4096" "cn_log c = []"
    "cn_local_settings c ! setting_index Set_MaxFrameSize = 16384"
    by (simp_all add: c_def plain_def open_for_frames_def put_stream_def find_stream_def st_send_headers_def http2_stream_new_def)
  have s: "st_state (st_send_headers (http2_stream_new 0 1)) = Open"
    by (simp add: st_send_headers_def http2_stream_new_def transition_def)
  have ok: "\<forall>m \<in> set (mdels_of example_request). header_ok m" "entries_size (mdels_of example_request) < 1000"
    "length (mdels_of example_request) = 5"
    by (simp_all add: example_request_def mdels_of_def header_ok_def entry_size_def MDELEM_SIZE_def isupper_def)
  obtain block table where block: "5 \<le> length block" "length block < 1000"
    "decode_headers dynamic_metadata_service (cn_dynamic_table c) block [] = Some (error_code NoError, table, mdels_of example_request)"
    using block_roundtrip [OF dt_inv_new _ tracks_initial ok(1) _ index_room_initial, of 4096 62 7 True] ok(2,3)
    by (auto simp: c(5) dynamic_metadata_table_new_def)
  have "(1 :: u32) \<le> HTTP2_STREAM_ID_MASK" by (simp add: HTTP2_STREAM_ID_MASK_def word_le_nat_alt)
  then obtain c' n where
    "ReceivedData example_services (headers_frame 1 True block) c = Some (int (length (headers_frame 1 True block)), c')"
    "cn_log c' = cn_log c @ [SendRawData (goaway_frame (cn_last_stream_id c) (error_code ProtocolError)) n]" "cn_sent_goaway c'"
    using response_refused [OF c(1-3), of block table _ example_services True] block s c(4,7)
    by (auto simp: st_is_closed_def odd_id_def)
  with c(4,6) show ?thesis by (intro exI [of _ c] exI [of _ c'] exI [of _ "headers_frame 1 True block"]) auto
qed

section \<open>Data beyond the send window\<close>

text \<open>C40. Without a flow control handler, data larger than the send window is lost: \<^verbatim>\<open>SendData\<close> returns true
  and nothing is written, now or later; with \<^verbatim>\<open>end_stream\<close> the stream is nevertheless half-closed, though
  the peer never gets an END_STREAM.\<close>

theorem exhausted_window_drops_data:
  assumes "plain c" "\<not> cn_flow_control c" "find_stream i c = Some s" "st_stream_id s = i" "st_state s = Open"
    and "cn_connection_send_window c < uint sz" "0 < sz"
  shows "\<exists>c'. stream_send_data S i data sz end_stream c = Some (True, c') \<and> cn_log c' = cn_log c \<and>
    cn_send_buffer c' = cn_send_buffer c \<and>
    find_stream i c' = Some (if end_stream then st_send_end_stream s else s) \<and>
    (end_stream \<longrightarrow> st_state (st_send_end_stream s) = HalfClosedLocal \<and> st_write_closed (st_send_end_stream s))"
proof -
  let ?t = "if end_stream then st_send_end_stream s else s"
  have t: "\<not> st_is_closed ?t" "st_stream_id ?t = i"
    "st_state (st_send_end_stream s) = HalfClosedLocal" "st_write_closed (st_send_end_stream s)"
    using assms(4,5) by (simp_all add: st_is_closed_def st_send_end_stream_def st_mark_unwritable_def transition_def)
  have "send_binary_in_data_frame S i data sz end_stream c = Some (0, c)"
    using assms(2,6,7) by (auto simp: send_binary_in_data_frame_def)
  then have "stream_send_data S i data sz end_stream c = Some (True, put_stream ?t c)"
    using plain_preface [OF assms(1), of S] assms(3) t(1)
    by (simp add: stream_send_data_def destroy_if_closed_def Let_def)
  then show ?thesis using t(2-4) by (simp add: put_stream_def find_stream_def update_conv')
qed

theorem exhausted_window_drops_data_witness:
  "\<exists>c. stream_send_data example_services 2 (replicate 70000 7) 70000 True server_open = Some (True, c) \<and> cn_log c = cn_log server_open"
proof -
  have "\<not> cn_flow_control server_open" "cn_connection_send_window server_open = 65535"
    by (simp_all add: server_open_def put_stream_def sent_def call_user_def server_idle_eq set_event_handler_def)
  moreover have "find_stream 2 server_open = Some (st_send_headers (http2_stream_new 0 2))"
    by (simp add: find_stream_def server_open_streams)
  ultimately show ?thesis
    using exhausted_window_drops_data [OF server_open_streams(2), of 2 _ 70000 example_services "replicate 70000 7" True]
    by (auto simp: st_send_headers_def http2_stream_new_def transition_def)
qed

end
