(* ===== verification/Connection_Body.thy ===== *)
theory Connection_Body
  imports Connection_Exchange
begin

text \<open>
  The body of a message: what \<^verbatim>\<open>SendData\<close> writes in DATA frames of at most the peer's frame size
  is what the peer's \<^verbatim>\<open>ReceivedData\<close> appends to the stream, and the END_STREAM flag closes it for
  reading.
\<close>

section \<open>What was written and what the user saw\<close>

text \<open>The bytes handed to the \<^verbatim>\<open>SendService\<close>, and the calls on the event handler.\<close>

definition written :: "user_call list \<Rightarrow> bytes" where
  "written log = concat (List.map_filter (\<lambda>e. case e of SendRawData b n \<Rightarrow> Some b | _ \<Rightarrow> None) log)"

definition handler_calls :: "user_call list \<Rightarrow> user_call list" where
  "handler_calls log =
     filter (\<lambda>e. case e of SendRawData b n \<Rightarrow> False | OnDataReceived i n \<Rightarrow> False | _ \<Rightarrow> True) log"

lemma written_append [simp]: "written (log @ log') = written log @ written log'"
  by (simp add: written_def List.map_filter_def)

lemma written_simps [simp]: "written [] = []" "written [SendRawData b n] = b"
  by (simp_all add: written_def map_filter_simps)

lemma handler_calls_simps [simp]:
  "handler_calls (log @ log') = handler_calls log @ handler_calls log'"
  "handler_calls [SendRawData b n] = []" "handler_calls [OnDataReceived i k] = []"
  "handler_calls [OnStreamData s] = [OnStreamData s]"
  by (simp_all add: handler_calls_def)

section \<open>One DATA frame\<close>

text \<open>What DATA leaves alone: the local settings and the HPACK table.\<close>

definition same_setup :: "http2_connection \<Rightarrow> http2_connection \<Rightarrow> bool" where
  "same_setup d e \<longleftrightarrow> cn_local_settings e = cn_local_settings d \<and> cn_dynamic_table e = cn_dynamic_table d"


text \<open>A connection that accepts DATA for its stream \<open>t\<close> with identifier \<open>i\<close>.\<close>

definition body_ready :: "u32 \<Rightarrow> http2_stream \<Rightarrow> http2_connection \<Rightarrow> bool" where
  "body_ready i t d \<longleftrightarrow> open_for_frames d \<and> cn_event_handler d \<and> plain d \<and>
     find_stream i d = Some t \<and> st_stream_id t = i \<and> sb_inv (st_data_cache t)"

lemma body_ready_track: "body_ready i t d \<Longrightarrow> body_ready i t (track_last_stream j d)"
  by (simp add: body_ready_def track_last_stream_def open_for_frames_def plain_def find_stream_def)

lemma plain_window_update:
  assumes "plain c"
  shows "\<exists>r b. send_window_update S i wu c = Some (r, sent S b c)"
  unfolding send_window_update_def plain_preface [OF assms] bind.simps Let_def plain_send [OF assms] prod.case
  by blast

lemma put_stream_fields [simp]:
  "cn_log (put_stream t c) = cn_log c" "cn_send_record (put_stream t c) = cn_send_record c" "plain (put_stream t c) = plain c" "cn_event_handler (put_stream t c) = cn_event_handler c"
  "open_for_frames (put_stream t c) = open_for_frames c" "same_setup d (put_stream t c) = same_setup d c"
  "find_stream i (put_stream t c) = (if i = st_stream_id t then Some t else find_stream i c)"
  by (simp_all add: put_stream_def plain_def open_for_frames_def find_stream_def update_conv' same_setup_def)

lemma call_user_fields [simp]:
  "cn_log (call_user e c) = cn_log c @ [e]" "plain (call_user e c) = plain c"
  "cn_event_handler (call_user e c) = cn_event_handler c" "open_for_frames (call_user e c) = open_for_frames c"
  "same_setup d (call_user e c) = same_setup d c" "find_stream i (call_user e c) = find_stream i c"
  by (simp_all add: call_user_def plain_def open_for_frames_def find_stream_def same_setup_def)

lemma sent_open [simp]: "open_for_frames (sent S b c) = open_for_frames c" "same_setup d (sent S b c) = same_setup d c"
  by (simp_all add: open_for_frames_def same_setup_def sent_def call_user_def)

lemma same_setup_refl [simp]: "same_setup d d"
  by (simp add: same_setup_def)

lemma same_setup_trans: "same_setup c d \<Longrightarrow> same_setup d e \<Longrightarrow> same_setup c e"
  by (simp add: same_setup_def)

lemma credit_fields:
  assumes "received_credit S i n c = (wu, d)"
  shows "find_stream j d = find_stream j c" "plain d = plain c" "cn_event_handler d = cn_event_handler c"
    "open_for_frames d = open_for_frames c" "same_setup c d"
    "handler_calls (cn_log d) = handler_calls (cn_log c)"
  using assms by (auto simp: received_credit_def split: if_splits)

text \<open>The stream after a DATA frame.\<close>

definition with_data :: "http2_frame_hdr \<Rightarrow> bytes \<Rightarrow> http2_stream \<Rightarrow> http2_stream" where
  "with_data h p t = st_append_data p (st_save_frame_info h t)"

lemma with_data_fields:
  assumes "sb_inv (st_data_cache t)"
  shows "st_stream_id (with_data h p t) = st_stream_id t" "sb_inv (st_data_cache (with_data h p t))"
    "sb_contents (st_data_cache (with_data h p t)) = sb_contents (st_data_cache t) @ p"
    "st_state t = Open \<Longrightarrow> st_state (with_data h p t) = (if has_flag (hd_flags h) Flag_EndStream then HalfClosedRemote else Open)"
    "fst (st_GetHeaders (with_data h p t)) = fst (st_GetHeaders t)"
  using assms
  by (auto simp: with_data_def st_append_data_def st_save_frame_info_def st_recv_end_stream_def st_mark_unreadable_def
      transition_def sb_inv_add sb_contents_add Let_def
      st_GetHeaders_def st_ensure_headers_decoded_def)

lemma data_handled:
  assumes ready: "body_ready i t d" and open_t: "st_state t = Open" and i: "0 < i"
    and h: "hd_stream_id h = i" "\<not> has_flag (hd_flags h) Flag_Padded" "length p = unat (hd_length h)" "p \<noteq> []"
  shows "\<exists>e. internal_data_process S h p d = Some (Some (with_data h p t), e) \<and>
    body_ready i (with_data h p t) e \<and> same_setup d e \<and>
    handler_calls (cn_log e) = handler_calls (cn_log d) @ [OnStreamData (with_data h p t)]"
proof -
  let ?u = "with_data h p t"
  let ?n = "word_of_nat (length p) :: u32"
  have r: "open_for_frames d" "cn_event_handler d" "plain d" "find_stream i d = Some t" "st_stream_id t = i"
    "sb_inv (st_data_cache t)" using ready by (simp_all add: body_ready_def)
  note u = with_data_fields [OF r(6), of h p]
  have not_closed: "\<not> st_is_closed ?u" using u(4) [OF open_t] by (simp add: st_is_closed_def)
  have len: "hd_length h \<noteq> 0" and i0: "i \<noteq> 0" using h(3,4) i by auto
  define c where "c = notify (OnStreamData ?u) (put_stream ?u (put_stream (st_save_frame_info h t) d))"
  have c: "find_stream i c = Some ?u" "plain c" "cn_event_handler c" "open_for_frames c"
    "same_setup d c" "handler_calls (cn_log c) = handler_calls (cn_log d) @ [OnStreamData ?u]"
    using r u(1) by (simp_all add: c_def notify_def)
  obtain wu e where credit: "received_credit S i ?n c = (wu, e)" by fastforce
  note e = credit_fields [OF credit]
  have "plain e" using e(2) c(2) by simp
  then obtain ok b where update: "send_window_update S i wu e = Some (ok, sent S b e)"
    using plain_window_update by blast
  have parse: "parse_http2_frame_data h p = Ok \<lparr>dat_hdr = h, dat_pad_len = 0, dat_data = p\<rparr>"
    using parse_unpadded_data [OF h(2,3), of "[]"] by simp
  have id: "st_stream_id (st_append_data p (st_save_frame_info h t)) = i"
    using u(1) r(5) by (simp add: with_data_def)
  have "internal_data_process S h p d = Some (Some ?u, sent S b e)"
    using h len i i0 r(4) not_closed credit update
    by (simp add: internal_data_process_def parse parsed_def stream_of_def received_data_def Let_def id
        with_data_def [symmetric] c_def [symmetric] u(1) r(5))
  moreover have "body_ready i ?u (sent S b e)"
    using c e u r(5) by (simp add: body_ready_def)
  ultimately show ?thesis using c e same_setup_trans [of d c e] by (intro exI [of _ "sent S b e"]) simp
qed

section \<open>A sequence of DATA frames\<close>

lemma data_frames_nonempty: "m \<noteq> 0 \<Longrightarrow> f \<in> set (data_frames m h bs) \<Longrightarrow> snd f \<noteq> []"
proof (induction m h bs rule: data_frames.induct)
  case (1 m h bs)
  then show ?case by (cases "bs = []") (auto simp: data_frames_step)
qed

text \<open>The frames of a body for stream \<open>i\<close>, each with a payload, within the receiver's frame size \<open>m\<close>.\<close>

definition body_frame :: "u32 \<Rightarrow> u32 \<Rightarrow> http2_frame_hdr \<times> bytes \<Rightarrow> bool" where
  "body_frame i m f \<longleftrightarrow> hdr_ok (fst f) \<and> hd_type (fst f) = frame_type Type_Data \<and> hd_stream_id (fst f) = i \<and>
     \<not> has_flag (hd_flags (fst f)) Flag_Padded \<and> length (snd f) = unat (hd_length (fst f)) \<and> snd f \<noteq> [] \<and>
     hd_length (fst f) \<le> m"

lemma body_frame_loop:
  assumes ready: "body_ready i t d" and open_t: "st_state t = Open" and i: "0 < i"
    and f: "body_frame i (cn_local_settings d ! setting_index Set_MaxFrameSize) f"
  shows "\<exists>e. (\<forall>rest pos. frame_loop S (wire f @ rest) pos d = frame_loop S rest (pos + length (wire f)) e) \<and>
    body_ready i (with_data (fst f) (snd f) t) e \<and> same_setup d e \<and>
    handler_calls (cn_log e) = handler_calls (cn_log d) @ [OnStreamData (with_data (fst f) (snd f) t)]"
proof -
  obtain h p where hp: "f = (h, p)" by fastforce
  have h: "hdr_ok h" "hd_type h = frame_type Type_Data" "hd_stream_id h = i" "\<not> has_flag (hd_flags h) Flag_Padded"
    "length p = unat (hd_length h)" "p \<noteq> []" "hd_length h \<le> cn_local_settings d ! setting_index Set_MaxFrameSize"
    using f by (simp_all add: body_frame_def hp)
  obtain e where e: "internal_data_process S h p (track_last_stream i d) = Some (Some (with_data h p t), e)"
    "body_ready i (with_data h p t) e" "same_setup (track_last_stream i d) e"
    "handler_calls (cn_log e) = handler_calls (cn_log (track_last_stream i d)) @ [OnStreamData (with_data h p t)]"
    using data_handled [OF body_ready_track [OF ready] open_t i h(3-6)] by blast
  have track: "same_setup (track_last_stream i d) e = same_setup d e" "cn_log (track_last_stream i d) = cn_log d"
    by (simp_all add: track_last_stream_def same_setup_def)
  have "\<not> st_is_closed (with_data h p t)"
    using with_data_fields(4) [OF _ open_t, of h p] ready by (simp add: st_is_closed_def body_ready_def)
  then have settled: "settle (Some (with_data h p t)) e = e" by (simp add: settle_def destroy_if_closed_def)
  have type: "hd_type h = 0" using h(2) by simp
  have d: "\<not> cn_next_frame_limit d" "\<not> cn_sent_goaway d" using ready by (simp_all add: body_ready_def open_for_frames_def)
  have handled: "(frame_process_func_array ! unat (hd_type h)) S h p (track_last_stream (hd_stream_id h) d) =
      Some (Some (with_data h p t), e)"
    using e(1) by (simp add: type frame_process_func_array_def h(3))
  have "hd_type h \<le> frame_type Type_Continuation" by (simp add: type)
  from package_process_frame [OF d h(1) this handled] settled
  have "package_process S (http2_frame_header_pack h @ p) (hd_length h + HTTP2_FRAME_HEADER_SIZE) d =
      Some (int (unat (hd_length h) + 9), e)" by (simp del: of_nat_add)
  from package_process_append [OF this] have package:
    "package_process S ((http2_frame_header_pack h @ p) @ rest) (hd_length h + HTTP2_FRAME_HEADER_SIZE) d =
      Some (int (unat (hd_length h) + 9), e)" for rest by simp
  have "frame_loop S (wire f @ rest) pos d = frame_loop S rest (pos + length (wire f)) e" for rest pos
  proof -
    have u: "http2_frame_header_unpack ((http2_frame_header_pack h @ p) @ rest) = Some h"
      using unpack_pack [OF h(1), of "p @ rest"] by simp
    have "frame_loop S ((http2_frame_header_pack h @ p) @ rest) pos d =
        frame_loop S (drop (unat (hd_length h) + 9) ((http2_frame_header_pack h @ p) @ rest)) (pos + (unat (hd_length h) + 9)) e"
      using frame_loop_frame [OF _ u h(7) _ package, of pos] h(5) by (simp del: of_nat_add drop_append append_assoc)
    moreover have "drop (unat (hd_length h) + 9) ((http2_frame_header_pack h @ p) @ rest) = rest" using h(5) by simp
    moreover have "length (wire f) = unat (hd_length h) + 9" using h(5) by (simp add: wire_def hp)
    ultimately show ?thesis by (simp add: wire_def hp add.commute del: drop_append)
  qed
  then show ?thesis using e track by (auto simp: hp)
qed

lemma body_frames_loop:
  assumes "fs \<noteq> []" "body_ready i t d" "st_state t = Open" "0 < i"
    and "\<forall>f \<in> set fs. body_frame i (cn_local_settings d ! setting_index Set_MaxFrameSize) f"
    and "\<forall>f \<in> set (butlast fs). \<not> has_flag (hd_flags (fst f)) Flag_EndStream"
  shows "\<exists>e u ts. (\<forall>rest pos. frame_loop S (concat (map wire fs) @ rest) pos d =
      frame_loop S rest (pos + length (concat (map wire fs))) e) \<and>
    body_ready i u e \<and> sb_contents (st_data_cache u) = sb_contents (st_data_cache t) @ concat (map snd fs) \<and>
    st_state u = (if has_flag (hd_flags (fst (last fs))) Flag_EndStream then HalfClosedRemote else Open) \<and>
    fst (st_GetHeaders u) = fst (st_GetHeaders t) \<and> same_setup d e \<and>
    handler_calls (cn_log e) = handler_calls (cn_log d) @ map OnStreamData ts \<and> length ts = length fs \<and> last ts = u"
  using assms
proof (induction fs arbitrary: t d)
  case (Cons f fs)
  let ?t = "with_data (fst f) (snd f) t"
  from Cons.prems(5) have "body_frame i (cn_local_settings d ! setting_index Set_MaxFrameSize) f" by simp
  from body_frame_loop [OF Cons.prems(2-4) this, of S] obtain e where
    e: "\<And>rest pos. frame_loop S (wire f @ rest) pos d = frame_loop S rest (pos + length (wire f)) e"
    "body_ready i ?t e" "same_setup d e" "cn_local_settings e = cn_local_settings d"
    "handler_calls (cn_log e) = handler_calls (cn_log d) @ [OnStreamData ?t]"
    unfolding same_setup_def by blast
  have "sb_inv (st_data_cache t)" using Cons.prems(2) by (simp add: body_ready_def)
  note u = with_data_fields [OF this, of "fst f" "snd f"]
  show ?case
  proof (cases "fs = []")
    case True
    then show ?thesis using e u Cons.prems(3)
      by (intro exI [of _ e] exI [of _ ?t] exI [of _ "[?t]"]) simp
  next
    case False
    then have "st_state ?t = Open" using u(4) Cons.prems(3,6) by simp
    from Cons.IH [OF False e(2) this Cons.prems(4)] Cons.prems(5,6) False e(4) obtain g v ts where
      g: "\<And>rest pos. frame_loop S (concat (map wire fs) @ rest) pos e = frame_loop S rest (pos + length (concat (map wire fs))) g"
      "body_ready i v g" "sb_contents (st_data_cache v) = sb_contents (st_data_cache ?t) @ concat (map snd fs)"
      "st_state v = (if has_flag (hd_flags (fst (last fs))) Flag_EndStream then HalfClosedRemote else Open)"
      "fst (st_GetHeaders v) = fst (st_GetHeaders ?t)" "same_setup e g"
      "handler_calls (cn_log g) = handler_calls (cn_log e) @ map OnStreamData ts" "length ts = length fs" "last ts = v"
      by auto
    have "ts \<noteq> []" using g(8) False by auto
    then show ?thesis using e u g False
      using same_setup_trans [of d e g]
      by (intro exI [of _ g] exI [of _ v] exI [of _ "?t # ts"]) (simp add: add.assoc)
  qed
qed simp

section \<open>The sender\<close>

lemma send_slices_written:
  assumes "\<forall>log b. 0 \<le> sv_send S log b" "0 \<le> n"
  shows "\<exists>r log. send_slices S bs n c = (r, c\<lparr>cn_log := log\<rparr>) \<and> 0 \<le> r \<and> written log = written (cn_log c) @ concat bs \<and>
    handler_calls log = handler_calls (cn_log c)"
  using assms(2)
proof (induction bs arbitrary: n c)
  case Nil
  then show ?case by (intro exI [of _ n] exI [of _ "cn_log c"]) simp
next
  case (Cons b bs)
  let ?r = "sv_send S (cn_log c) b" and ?c = "call_user (SendRawData b (sv_send S (cn_log c) b)) c"
  have r: "0 \<le> ?r" using assms(1) by simp
  then have "0 \<le> n + ?r" using Cons.prems by simp
  from Cons.IH [OF this, of ?c] obtain k log where
    "send_slices S bs (n + ?r) ?c = (k, ?c\<lparr>cn_log := log\<rparr>)" "0 \<le> k" "written log = written (cn_log ?c) @ concat bs"
    "handler_calls log = handler_calls (cn_log ?c)" by blast
  then show ?case using r
    by (intro exI [of _ k] exI [of _ log]) (simp add: call_send_def Let_def call_user_def)
qed

lemma plain_send_body:
  assumes "plain c" "\<not> cn_flow_control c" "find_stream i c = Some s" "\<forall>log b. 0 \<le> sv_send S log b"
    and data: "data \<noteq> []" "length data < 2 ^ 32" "int (length data) \<le> cn_connection_send_window c"
    and pack: "pack_http2_frame_data (build_http2_frame_data i (if es then 1 else 0) data)
      (cn_remote_settings c ! setting_index Set_MaxFrameSize) = Some buf"
  shows "\<exists>log. stream_send_data S i data (word_of_nat (length data)) es c =
      (let t = (if es then st_send_end_stream s else s);
           c = c\<lparr>cn_connection_send_window := cn_connection_send_window c - int (length data), cn_log := log\<rparr>
       in Some (True, destroy_if_closed t (put_stream t c))) \<and>
    written log = written (cn_log c) @ sb_contents buf \<and> handler_calls log = handler_calls (cn_log c)"
proof -
  let ?sz = "word_of_nat (length data) :: u32"
  let ?c = "c\<lparr>cn_connection_send_window := cn_connection_send_window c - int (length data)\<rparr>"
  have n: "unat ?sz = length data" using data(2) by (rule unat_of_nat_u32)
  then have "uint ?sz = int (length data)" unfolding uint_nat by simp
  moreover have "0 < ?sz" "?sz \<noteq> 0" using n data(1) by (auto simp: word_less_nat_alt simp flip: unat_eq_zero)
  ultimately have sz: "uint ?sz = int (length data)" "0 < ?sz" "?sz \<noteq> 0" by blast+
  obtain r log where log: "send_slices S (live_slices buf) 0 ?c = (r, ?c\<lparr>cn_log := log\<rparr>)" "0 \<le> r"
    "written log = written (cn_log ?c) @ concat (live_slices buf)" "handler_calls log = handler_calls (cn_log ?c)"
    using send_slices_written [OF assms(4), of 0 "live_slices buf" ?c] by auto
  have "send_binary_in_data_frame S i data ?sz es c = Some (r, ?c\<lparr>cn_log := log\<rparr>)"
    using assms(1,2) data(3) pack log(1) sz n
    by (cases es) (simp_all add: send_binary_in_data_frame_def send_frame_data_def send_raw_buffer_def plain_def Let_def)
  then show ?thesis
    using plain_preface [OF assms(1), of S] assms(3) log
    by (intro exI [of _ log]) (simp add: stream_send_data_def Let_def live_slices_def sb_contents_def)
qed

section \<open>Both ends\<close>

lemma body_frames_packed:
  assumes m: "m \<noteq> 0" "unat m < 2 ^ 24" "m \<le> limit" and data: "data \<noteq> []" "length data < 2 ^ 32"
    and i: "i \<le> HTTP2_STREAM_ID_MASK"
  shows "\<exists>buf fs. pack_http2_frame_data (build_http2_frame_data i (if es then 1 else 0) data) m = Some buf \<and>
    sb_contents buf = concat (map wire fs) \<and> fs \<noteq> [] \<and> (\<forall>f \<in> set fs. body_frame i limit f) \<and>
    (\<forall>f \<in> set (butlast fs). \<not> has_flag (hd_flags (fst f)) Flag_EndStream) \<and>
    (has_flag (hd_flags (fst (last fs))) Flag_EndStream \<longleftrightarrow> es) \<and> concat (map snd fs) = data"
proof -
  let ?f = "build_http2_frame_data i (if es then 1 else 0) data"
  let ?h = "(dat_hdr ?f)\<lparr>hd_flags := hd_flags (dat_hdr ?f) AND NOT (frame_flag Flag_Padded)\<rparr>"
  let ?fs = "data_frames (unat m) ?h data"
  have m0: "unat m \<noteq> 0" "unat m < 2 ^ 32" using m(1,2) by (simp_all add: unat_eq_zero)
  have f: "dat_data ?f = data" "hd_type ?h = frame_type Type_Data" "hd_stream_id ?h = i" "hd_reserved ?h = 0"
    by (simp_all add: build_http2_frame_data_def http2_frame_header_init_def)
  obtain buf where buf: "pack_http2_frame_data ?f m = Some buf" "sb_contents buf = concat (map wire ?fs)"
    using pack_data_spec [OF m(1), of ?f] data by (auto simp: Let_def f(1))
  have ok: "body_frame i limit g" if g: "g \<in> set ?fs" for g
  proof -
    have "data_frame_ok (unat m) ?h g" using data_frames_ok [OF m0(2) g] .
    then have "length (snd g) = unat (hd_length (fst g))" "length (snd g) \<le> unat m" "hd_type (fst g) = 0"
      "hd_stream_id (fst g) = i" "hd_reserved (fst g) = 0" "\<not> has_flag (hd_flags (fst g)) Flag_Padded"
      using f padded_cleared padded_cleared_end by (auto simp: data_frame_ok_def)
    moreover have "snd g \<noteq> []" using data_frames_nonempty [OF m0(1) g] .
    ultimately show ?thesis using m i by (auto simp: body_frame_def hdr_ok_def word_le_nat_alt)
  qed
  note fl = data_frames_flags [OF m0(1) data(1), of ?h]
  have "has_flag (hd_flags ?h) Flag_EndStream \<longleftrightarrow> es"
    by (simp add: build_http2_frame_data_def http2_frame_header_init_def has_flag_def)
  with buf ok fl data_frames_concat [OF m0(1)] end_flag_cleared show ?thesis
    by (intro exI [of _ buf] exI [of _ ?fs]) auto
qed

lemma wire_length: "\<forall>f \<in> set fs. snd f \<noteq> [] \<Longrightarrow> length (concat (map wire fs)) \<le> 10 * length (concat (map snd fs))"
proof (induction fs)
  case (Cons f fs)
  then have "1 \<le> length (snd f)" by (cases "snd f") auto
  with Cons show ?case by (simp add: wire_def)
qed simp

lemma destroy_if_closed_kept:
  "written (cn_log (destroy_if_closed t c)) = written (cn_log c)"
  "cn_connection_send_window (destroy_if_closed t c) = cn_connection_send_window c"
  "plain (destroy_if_closed t c) = plain c" "cn_send_record (destroy_if_closed t c) = cn_send_record c"
  by (auto simp: destroy_if_closed_def check_drain_complete_def destroy_stream_def notify_def call_user_def
      written_def List.map_filter_def plain_def)

lemma plain_log: "plain (c\<lparr>cn_connection_send_window := w, cn_log := log\<rparr>) = plain c"
  by (simp add: plain_def)

text \<open>The delivery of a body, with what stays as it was.\<close>

lemma body_exchange:
  assumes sender: "plain c" "\<not> cn_flow_control c" "find_stream i c = Some s" "\<forall>log b. 0 \<le> sv_send S log b"
    and data: "data \<noteq> []" "length data < 2 ^ 27" "int (length data) \<le> cn_connection_send_window c"
    and m: "cn_remote_settings c ! setting_index Set_MaxFrameSize = m" "m \<noteq> 0" "unat m < 2 ^ 24"
      "m \<le> cn_local_settings d ! setting_index Set_MaxFrameSize"
    and receiver: "body_ready i t d" "st_state t = Open" "0 < i" "i \<le> HTTP2_STREAM_ID_MASK"
  shows "\<exists>c' d' bs ts u. stream_send_data S i data (word_of_nat (length data)) end_stream c = Some (True, c') \<and>
    written (cn_log c') = written (cn_log c) @ bs \<and>
    cn_connection_send_window c' = cn_connection_send_window c - int (length data) \<and>
    ReceivedData S' bs d = Some (int (length bs), d') \<and>
    handler_calls (cn_log d') = handler_calls (cn_log d) @ map OnStreamData ts \<and> ts \<noteq> [] \<and> last ts = u \<and>
    find_stream i d' = Some u \<and> sb_contents (st_data_cache u) = sb_contents (st_data_cache t) @ data \<and>
    st_state u = (if end_stream then HalfClosedRemote else Open) \<and>
    plain c' = plain c \<and> cn_send_record c' = cn_send_record c \<and> body_ready i u d' \<and> same_setup d d' \<and>
    fst (st_GetHeaders u) = fst (st_GetHeaders t)"
proof -
  have short: "length data < 2 ^ 32" using data(2) by simp
  obtain buf fs where fs: "pack_http2_frame_data (build_http2_frame_data i (if end_stream then 1 else 0) data) m = Some buf"
    "sb_contents buf = concat (map wire fs)" "fs \<noteq> []"
    "\<forall>f \<in> set fs. body_frame i (cn_local_settings d ! setting_index Set_MaxFrameSize) f"
    "\<forall>f \<in> set (butlast fs). \<not> has_flag (hd_flags (fst f)) Flag_EndStream"
    "has_flag (hd_flags (fst (last fs))) Flag_EndStream \<longleftrightarrow> end_stream" "concat (map snd fs) = data"
    using body_frames_packed [OF m(2-4) data(1) short receiver(4), of end_stream] by blast
  obtain log where log: "written log = written (cn_log c) @ concat (map wire fs)"
    "stream_send_data S i data (word_of_nat (length data)) end_stream c =
      (let t = (if end_stream then st_send_end_stream s else s);
           c = c\<lparr>cn_connection_send_window := cn_connection_send_window c - int (length data), cn_log := log\<rparr>
       in Some (True, destroy_if_closed t (put_stream t c)))"
    using plain_send_body [OF sender data(1) short data(3), of end_stream buf] fs(1,2) m(1) by auto
  define bs where "bs = concat (map wire fs)"
  have "length bs \<le> 10 * length data"
    using wire_length [of fs] fs(4,7) by (auto simp: bs_def body_frame_def)
  then have bs: "int_of_size (length bs) = int (length bs)" using data(2) by (intro int_of_size_small) simp
  obtain e u ts where e: "frame_loop S' bs 0 d = frame_loop S' [] (length bs) e" "body_ready i u e"
    "sb_contents (st_data_cache u) = sb_contents (st_data_cache t) @ data"
    "st_state u = (if end_stream then HalfClosedRemote else Open)"
    "handler_calls (cn_log e) = handler_calls (cn_log d) @ map OnStreamData ts" "length ts = length fs" "last ts = u"
    "same_setup d e" "fst (st_GetHeaders u) = fst (st_GetHeaders t)"
    using body_frames_loop [OF fs(3) receiver(1-3) fs(4,5), of S'] fs(6,7) unfolding bs_def
    by (metis (no_types, lifting) append_Nil2 add_0)
  have "ReceivedData S' bs d = Some (int (length bs), e)"
    using e(1) bs receiver(1)
    by (simp add: ReceivedData_def body_ready_def open_for_frames_def frame_loop.simps HTTP2_FRAME_HEADER_SIZE_def)
  moreover have "ts \<noteq> []" using e(6) fs(3) by auto
  moreover define t' where "t' = (if end_stream then st_send_end_stream s else s)"
  moreover define c' where "c' = destroy_if_closed t' (put_stream t'
    (c\<lparr>cn_connection_send_window := cn_connection_send_window c - int (length data), cn_log := log\<rparr>))"
  moreover have "written (cn_log c') = written (cn_log c) @ bs" "plain c' = plain c" "cn_send_record c' = cn_send_record c"
    "cn_connection_send_window c' = cn_connection_send_window c - int (length data)"
    using log(1) by (simp_all add: c'_def destroy_if_closed_kept bs_def plain_log)
  moreover have "find_stream i e = Some u" using e(2) by (simp add: body_ready_def)
  ultimately show ?thesis
    using log(2) e by (intro exI [of _ c'] exI [of _ e] exI [of _ bs] exI [of _ ts] exI [of _ u]) (simp add: Let_def)
qed

text \<open>A body arrives: the bytes that \<^verbatim>\<open>SendData\<close> hands to the \<^verbatim>\<open>SendService\<close> for a body within the send window,
  split into DATA frames as the peer's frame size asks, are used up by the peer's \<^verbatim>\<open>ReceivedData\<close>. The peer
  appends exactly the body to what its stream has buffered, shows the user the stream after every frame and calls
  its event handler for nothing else, and closes the stream for reading when END_STREAM was asked for and only then.
  The sender's window shrinks by the length of the body.\<close>

theorem body_delivered:
  assumes sender: "plain c" "\<not> cn_flow_control c" "find_stream i c = Some s" "\<forall>log b. 0 \<le> sv_send S log b"
    and data: "data \<noteq> []" "length data < 2 ^ 27" "int (length data) \<le> cn_connection_send_window c"
    and m: "cn_remote_settings c ! setting_index Set_MaxFrameSize = m" "m \<noteq> 0" "unat m < 2 ^ 24"
      "m \<le> cn_local_settings d ! setting_index Set_MaxFrameSize"
    and receiver: "body_ready i t d" "st_state t = Open" "0 < i" "i \<le> HTTP2_STREAM_ID_MASK"
  shows "\<exists>c' d' bs ts u. stream_send_data S i data (word_of_nat (length data)) end_stream c = Some (True, c') \<and>
    written (cn_log c') = written (cn_log c) @ bs \<and>
    cn_connection_send_window c' = cn_connection_send_window c - int (length data) \<and>
    ReceivedData S' bs d = Some (int (length bs), d') \<and>
    handler_calls (cn_log d') = handler_calls (cn_log d) @ map OnStreamData ts \<and> ts \<noteq> [] \<and> last ts = u \<and>
    find_stream i d' = Some u \<and> sb_contents (st_data_cache u) = sb_contents (st_data_cache t) @ data \<and>
    st_state u = (if end_stream then HalfClosedRemote else Open)"
  using body_exchange [OF assms, of end_stream S'] by blast

text \<open>A client and a server with one open stream, and a body of five octets.\<close>

lemma body_delivered_witness:
  "\<exists>c d c' d' bs u. stream_send_data example_services 1 [1, 2, 3, 4, 5] 5 True c = Some (True, c') \<and>
     written (cn_log c') = written (cn_log c) @ bs \<and> ReceivedData example_services bs d = Some (int (length bs), d') \<and>
     find_stream 1 d' = Some u \<and> sb_contents (st_data_cache u) = [1, 2, 3, 4, 5] \<and> st_state u = HalfClosedRemote"
proof -
  define s where "s = (http2_stream_new 0 1)\<lparr>st_state := Open\<rparr>"
  define c where "c = (put_stream s (fresh_connection True))\<lparr>cn_preface_sent := True\<rparr>"
  define d where "d = (put_stream s (fresh_connection False))\<lparr>cn_finish_handshake := True, cn_event_handler := True\<rparr>"
  have s: "st_stream_id s = 1" "st_state s = Open" "st_data_cache s = slice_buffer_new"
    by (simp_all add: s_def http2_stream_new_def)
  have c: "plain c" "\<not> cn_flow_control c" "find_stream 1 c = Some s" "cn_connection_send_window c = 65535"
    "cn_remote_settings c ! setting_index Set_MaxFrameSize = 16384"
    using s by (simp_all add: c_def plain_def put_stream_def find_stream_def default_settings_def setting_index_def
        global_settings_parameters_def setting_parameters_def)
  have d: "body_ready 1 s d" "cn_local_settings d ! setting_index Set_MaxFrameSize = 16384"
    using s by (simp_all add: d_def body_ready_def open_for_frames_def plain_def put_stream_def find_stream_def sb_inv_new)
  have "\<forall>log b. 0 \<le> sv_send example_services log b" by (simp add: example_services_def)
  moreover have "(1 :: u32) \<le> HTTP2_STREAM_ID_MASK" by (simp add: HTTP2_STREAM_ID_MASK_def word_le_nat_alt)
  ultimately show ?thesis
    using body_delivered [of c 1 s example_services "[1, 2, 3, 4, 5]" 16384 d s True example_services] c d s
    by (auto simp: sb_contents_new) blast
qed

section \<open>A whole message\<close>

text \<open>C1. A message arrives: a client that sends headers and then a body with END_STREAM hands the \<^verbatim>\<open>SendService\<close> bytes
  that the server's \<^verbatim>\<open>ReceivedData\<close> uses up. The server's user is told of one new stream and of its data, in this order
  and of nothing else; the stream has the same headers in the same order, buffers exactly the body and is closed
  for reading; and the two ends are linked for the next message.\<close>

theorem message_delivered:
  assumes ends: "linked (length headers + k) c d" "62 \<le> k" "sendable headers d" "\<not> cn_flow_control c" "plain d"
    and sender: "find_stream i c = Some s" "st_state s = Idle" "st_stream_id s = i" "\<forall>log b. 0 \<le> sv_send S log b"
    and receiver: "find_stream i d = None" "odd_id i \<noteq> cn_client_side d" "0 < i" "i \<le> HTTP2_STREAM_ID_MASK"
    and data: "data \<noteq> []" "length data < 2 ^ 27" "int (length data) \<le> cn_connection_send_window c"
    and m: "cn_remote_settings c ! setting_index Set_MaxFrameSize = m" "m \<noteq> 0" "unat m < 2 ^ 24"
      "m \<le> cn_local_settings d ! setting_index Set_MaxFrameSize"
  shows "\<exists>c1 c2 frame bs d1 d2 t ts u. stream_send_headers S i headers False c = Some (True, c1) \<and>
    stream_send_data S i data (word_of_nat (length data)) True c1 = Some (True, c2) \<and>
    written (cn_log c2) = written (cn_log c) @ frame @ bs \<and>
    ReceivedData S' frame d = Some (int (length frame), d1) \<and> ReceivedData S' bs d1 = Some (int (length bs), d2) \<and>
    handler_calls (cn_log d2) = handler_calls (cn_log d) @ OnStreamHeaders t # map OnStreamData ts \<and>
    find_stream i d2 = Some u \<and> st_stream_id u = i \<and> fst (st_GetHeaders u) = headers \<and>
    sb_contents (st_data_cache u) = data \<and> st_state u = HalfClosedRemote \<and> linked k c2 d2"
proof -
  obtain c1 frame n d1 t where r: "stream_send_headers S i headers False c = Some (True, c1)"
    "cn_log c1 = cn_log c @ [SendRawData frame n]" "ReceivedData S' frame d = Some (int (length frame), d1)"
    "cn_log d1 = cn_log d @ [OnStreamHeaders t]" "find_stream i d1 = Some t"
    "received_request (cn_connection_id d) i False headers t" "linked k c1 d1"
    "c1 = put_stream (st_send_headers s) (sent S frame (c\<lparr>cn_send_record := cn_send_record c1\<rparr>))"
    "plain d1 = plain d" "cn_local_settings d1 = cn_local_settings d" "st_data_cache t = slice_buffer_new"
    using request_exchange [OF ends(1-3) sender receiver, of False S'] by auto
  have t: "st_stream_id t = i" "st_state t = Open" "fst (st_GetHeaders t) = headers"
    using r(6) by (simp_all add: received_request_def)
  have l: "plain c1" "open_for_frames d1" "cn_event_handler d1" using r(7) by (simp_all add: linked_def)
  have c1: "\<not> cn_flow_control c1" "find_stream i c1 = Some (st_send_headers s)"
    "cn_connection_send_window c1 = cn_connection_send_window c" "cn_remote_settings c1 = cn_remote_settings c"
    using ends(4) sender(3) by (subst r(8), simp add: st_send_headers_def put_stream_def sent_def call_user_def find_stream_def update_conv')+
  have ready: "body_ready i t d1" using l r(5,9,11) ends(5) t(1) by (simp add: body_ready_def sb_inv_new)
  obtain c2 d2 bs ts u where b: "stream_send_data S i data (word_of_nat (length data)) True c1 = Some (True, c2)"
    "written (cn_log c2) = written (cn_log c1) @ bs" "ReceivedData S' bs d1 = Some (int (length bs), d2)"
    "handler_calls (cn_log d2) = handler_calls (cn_log d1) @ map OnStreamData ts" "find_stream i d2 = Some u"
    "sb_contents (st_data_cache u) = sb_contents (st_data_cache t) @ data" "st_state u = HalfClosedRemote"
    "plain c2 = plain c1" "cn_send_record c2 = cn_send_record c1" "body_ready i u d2" "same_setup d1 d2"
    "fst (st_GetHeaders u) = fst (st_GetHeaders t)"
    using body_exchange [OF l(1) c1(1,2) sender(4) data(1,2) _ _ m(2,3) _ ready t(2) receiver(3,4), of True S'] c1(3,4) data(3) m(1,4) r(10)
    by auto
  have "linked k c2 d2"
    using r(7) b(8-11) by (simp add: linked_def body_ready_def same_setup_def)
  moreover have "written (cn_log c2) = written (cn_log c) @ frame @ bs" using b(2) r(2) by simp
  moreover have "handler_calls (cn_log d2) = handler_calls (cn_log d) @ OnStreamHeaders t # map OnStreamData ts"
    using b(4) r(4) by (simp add: handler_calls_def)
  moreover have "sb_contents (st_data_cache u) = data" using b(6) r(11) by (simp add: sb_contents_new)
  moreover have "st_stream_id u = i" using b(10) by (simp add: body_ready_def)
  moreover have "fst (st_GetHeaders u) = headers" using b(12) t(3) by simp
  ultimately show ?thesis using r(1,3) b(1,3,5,7) by blast
qed

text \<open>Two fresh ends, a request of five headers and a body of three octets.\<close>

lemma message_delivered_witness:
  "\<exists>c d c1 c2 frame bs d1 d2 u. stream_send_headers example_services 1 example_request False c = Some (True, c1) \<and>
     stream_send_data example_services 1 [7, 8, 9] 3 True c1 = Some (True, c2) \<and>
     written (cn_log c2) = written (cn_log c) @ frame @ bs \<and>
     ReceivedData example_services frame d = Some (int (length frame), d1) \<and>
     ReceivedData example_services bs d1 = Some (int (length bs), d2) \<and> find_stream 1 d2 = Some u \<and>
     fst (st_GetHeaders u) = example_request \<and> sb_contents (st_data_cache u) = [7, 8, 9]"
proof -
  obtain c where c: "plain c" "cn_send_record c = compressor_init" "find_stream 1 c = Some (http2_stream_new 0 1)"
    "\<not> cn_flow_control c" "cn_connection_send_window c = 65535" "cn_remote_settings c = default_settings"
    using client_ready by blast
  obtain d where d: "open_for_frames d" "cn_event_handler d" "cn_streams d = []" "\<not> cn_client_side d"
    "cn_dynamic_table d = dynamic_metadata_table_new 4096" "cn_local_settings d ! setting_index Set_MaxFrameSize = 16384" "plain d"
    using server_ready by blast
  have "sendable example_request d" "linked (length example_request + 62) c d"
    using example_linked c(1,2) d by blast+
  moreover have "\<forall>log b. 0 \<le> sv_send example_services log b" by (simp add: example_services_def)
  moreover have "(1 :: u32) \<le> HTTP2_STREAM_ID_MASK" by (simp add: HTTP2_STREAM_ID_MASK_def word_le_nat_alt)
  moreover have "cn_remote_settings c ! setting_index Set_MaxFrameSize = 16384"
    using c(6) by (simp add: default_settings_def setting_index_def global_settings_parameters_def setting_parameters_def)
  ultimately show ?thesis
    using message_delivered [of example_request 62 c d 1 "http2_stream_new 0 1" example_services "[7, 8, 9]" 16384 example_services]
      c(3-5) d(3,4,6,7)
    by (auto simp: find_stream_def odd_id_def http2_stream_new_def) blast
qed

end
