(* ===== verification/Hpack_Bounds.thy ===== *)
theory Hpack_Bounds
  imports Hpack_Safety
begin

text \<open>
  Which header blocks the decoder reads without leaving them, as a check that can be computed from the
  bytes alone: where a field representation and its strings start does not depend on the tables.
\<close>

section \<open>The layout of a block\<close>

text \<open>What follows a string, an error where the decoder gives up, a fault where a Huffman string leaves the block.\<close>

definition skip_string :: "bytes \<Rightarrow> bytes outcome" where
  "skip_string buf = (case buf of
       [] \<Rightarrow> Error 0
     | b # _ \<Rightarrow> outcome_bind (decode_uint32 buf (INT_MASK 7)) (\<lambda>(n, rest).
         if unat n \<le> length rest then Ok (drop (unat n) rest)
         else if b AND 0x80 \<noteq> 0 then Fault else Error 0))"

definition skip_literal :: "bytes \<Rightarrow> nat \<Rightarrow> bytes outcome" where
  "skip_literal buf prefix_bits =
     outcome_bind (decode_uint32 buf (INT_MASK prefix_bits)) (\<lambda>(i, rest).
     outcome_bind (if i = 0 then skip_string rest else Ok rest) skip_string)"

definition skip_field :: "bytes \<Rightarrow> bytes outcome" where
  "skip_field buf = (case buf of
       [] \<Rightarrow> Error 0
     | b # _ \<Rightarrow>
         if b AND 0x80 \<noteq> 0 then outcome_bind (decode_uint32 buf (INT_MASK 7)) (\<lambda>(i, rest). Ok rest)
         else if b AND 0x40 \<noteq> 0 then skip_literal buf 6
         else if b AND 0x20 \<noteq> 0 then outcome_bind (decode_uint32 buf (INT_MASK 5)) (\<lambda>(i, rest). Ok rest)
         else skip_literal buf 4)"

lemma skip_string_shorter: "skip_string buf = Ok rest \<Longrightarrow> length rest < length buf"
  by (auto simp: skip_string_def outcome_bind_eq_Ok split: list.splits if_splits dest!: decode_uint32_shorter)

lemma skip_literal_shorter: "skip_literal buf n = Ok rest \<Longrightarrow> length rest < length buf"
  by (force simp: skip_literal_def outcome_bind_eq_Ok split: if_splits dest!: decode_uint32_shorter skip_string_shorter)

lemma skip_field_shorter: "skip_field buf = Ok rest \<Longrightarrow> length rest < length buf"
  by (auto simp: skip_field_def outcome_bind_eq_Ok split: list.splits if_splits
      dest!: decode_uint32_shorter skip_literal_shorter)

text \<open>No Huffman string of the block leaves it.\<close>

function strings_in_bounds :: "bytes \<Rightarrow> bool" where
  "strings_in_bounds buf =
     (if buf = [] then True
      else case skip_field buf of Ok rest \<Rightarrow> strings_in_bounds rest | Error e \<Rightarrow> True | Fault \<Rightarrow> False)"
  by pat_completeness auto
termination by (relation "measure length") (auto dest: skip_field_shorter)

declare strings_in_bounds.simps [simp del]

section \<open>The decoder follows the layout\<close>

lemma outcome_bind_cong_Ok: "(\<And>x. r = Ok x \<Longrightarrow> f x = g x) \<Longrightarrow> outcome_bind r f = outcome_bind r g"
  by (cases r) auto

lemma decode_string_rest:
  assumes "decode_string src (unat n) (unat n) = Ok (s, rest)"
  shows "unat (n :: u32) \<le> length src \<and> rest = drop (unat n) src"
proof -
  have "unat n \<le> length src"
  proof (rule ccontr)
    assume "\<not> unat n \<le> length src"
    then show False using assms
      by (auto simp: decode_string_def http2_head_huffman_decode_def Let_def split: outcome.splits if_splits)
  qed
  with assms show ?thesis by (auto simp: decode_string_def Let_def split: outcome.splits if_splits)
qed

lemma copy_key_rest: "copy_key buf n dst = Ok (s, rest) \<Longrightarrow> n \<le> length buf \<and> rest = drop n buf"
  by (induction buf n dst rule: copy_key.induct) (auto split: if_splits)

lemma parse_string_skip: "parse_string buf = Ok (s, rest) \<Longrightarrow> skip_string buf = Ok rest"
  by (auto simp: parse_string_def skip_string_def outcome_bind_eq_Ok Let_def split: list.splits if_splits
      dest: decode_string_rest remaining_le)

lemma parse_string_key_skip: "parse_string_key dst buf = Ok (s, rest) \<Longrightarrow> skip_string buf = Ok rest"
  by (auto simp: parse_string_key_def skip_string_def outcome_bind_eq_Ok Let_def split: list.splits if_splits
      dest: decode_string_rest remaining_le dest!: copy_key_rest)

lemma huffman_overrun_skip: "huffman_overrun buf \<Longrightarrow> skip_string buf = Fault"
  by (auto simp: huffman_overrun_def skip_string_def split: list.splits outcome.splits)

lemmas string_faults = huffman_overrun_skip [OF parse_string_fault] huffman_overrun_skip [OF parse_string_key_fault]

lemma decode_literal_skip:
  "decode_literal svc t buf n add = Ok (t', m, rest) \<Longrightarrow> skip_literal buf n = Ok rest"
  by (auto simp: decode_literal_def skip_literal_def decode_name_def outcome_bind_eq_Ok Let_def
      split: if_splits dest!: parse_string_skip parse_string_key_skip)

lemma decode_literal_skip_fault:
  assumes "buf \<noteq> []" "decode_literal svc t buf n add = Fault"
  shows "skip_literal buf n = Fault"
proof -
  obtain i b1 where i: "decode_uint32 buf (INT_MASK n) = Ok (i, b1)"
    and f: "decode_name svc t i b1 = Fault \<or> (\<exists>k b2. decode_name svc t i b1 = Ok (k, b2) \<and> parse_string b2 = Fault)"
    using assms decode_uint32_no_fault [of buf "INT_MASK n"]
    by (auto simp: decode_literal_def outcome_bind_eq_Fault Let_def)
  from f show ?thesis
    by (auto simp: skip_literal_def i decode_name_def outcome_bind_eq_Ok outcome_bind_eq_Fault
        split: if_splits dest: string_faults parse_string_key_skip)
qed

lemma decode_one_skip: "decode_one svc t buf = Ok (t', m, rest) \<Longrightarrow> skip_field buf = Ok rest"
  by (auto simp: decode_one_def skip_field_def decode_indexed_def decode_size_update_def outcome_bind_eq_Ok
      split: list.splits if_splits dest: decode_literal_skip)

lemma decode_one_skip_fault:
  assumes "buf \<noteq> []" "decode_one svc t buf = Fault"
  shows "skip_field buf = Fault"
  using assms decode_indexed_no_fault [of buf svc t] decode_size_update_no_fault [of buf svc t]
  by (auto simp: decode_one_def skip_field_def split: list.splits if_splits dest: decode_literal_skip_fault [rotated])

lemma strings_in_bounds_decode: "strings_in_bounds buf \<Longrightarrow> decode_headers svc t buf hs \<noteq> None"
proof (induction "length buf" arbitrary: buf t hs rule: less_induct)
  case less
  show ?case
  proof (cases "buf = []")
    case False
    show ?thesis
    proof (cases "decode_one svc t buf")
      case (Ok r)
      obtain t1 m rest where r: "decode_one svc t buf = Ok (t1, m, rest)" using Ok by (cases r) auto
      have "strings_in_bounds rest" using less.prems False decode_one_skip [OF r]
        by (subst (asm) strings_in_bounds.simps) simp
      from less.hyps [OF decode_one_shorter [OF r] this] show ?thesis by (simp add: decode_headers_Ok [OF False r])
    next
      case Fault
      from less.prems False decode_one_skip_fault [OF False this] show ?thesis
        by (subst (asm) strings_in_bounds.simps) simp
    qed (simp add: decode_headers_Error [OF False])
  qed simp
qed

text \<open>Conversely, what decodes without an error passes the check.\<close>

lemma nullptr_codes [simp]: "null_is CompressionError r \<noteq> Error 0" "null_is ProtocolError r \<noteq> Error 0"
  by (cases r; simp)+

lemma outcome_bind_eq_Error: "outcome_bind r f = Error e \<longleftrightarrow> r = Error e \<or> (\<exists>x. r = Ok x \<and> f x = Error e)"
  by (cases r) auto

lemma lookup_index_code [simp]: "lookup_index svc t i \<noteq> Error 0"
  by (auto simp: lookup_index_def hpack_static_headers_def split: option.splits)

lemma decode_one_code: "decode_one svc t buf \<noteq> Error 0"
  by (auto simp: decode_one_def decode_indexed_def decode_size_update_def decode_literal_def decode_name_def
      outcome_bind_eq_Error Let_def split: list.splits if_splits)

lemma decode_strings_in_bounds:
  "decode_headers svc t buf hs = Some (error_code NoError, t', hs') \<Longrightarrow> strings_in_bounds buf"
proof (induction "length buf" arbitrary: buf t hs rule: less_induct)
  case less
  show ?case
  proof (cases "buf = []")
    case True
    then show ?thesis by (subst strings_in_bounds.simps) simp
  next
    case False
    from less.prems False obtain t1 m rest where r: "decode_one svc t buf = Ok (t1, m, rest)"
      using decode_one_code [of svc t buf]
      by (subst (asm) decode_headers.simps) (auto split: outcome.splits)
    have "strings_in_bounds rest"
      using less.hyps [OF decode_one_shorter [OF r]] less.prems by (simp add: decode_headers_Ok [OF False r])
    then show ?thesis using decode_one_skip [OF r] by (subst strings_in_bounds.simps) simp
  qed
qed

section \<open>Memory safety of the decoder\<close>

text \<open>C24. The decoder never reads outside a block whose Huffman strings end inside it: integers, plain strings and
  both table lookups stay inside by themselves, whatever the peer sends and whatever the tables hold. The condition is
  a computable check of the bytes, and every block that decodes without an error meets it.\<close>

theorem block_read_in_bounds:
  "(strings_in_bounds buf \<longrightarrow> decode_headers svc t buf hs \<noteq> None) \<and>
   (decode_headers svc t buf hs = Some (error_code NoError, t', hs') \<longrightarrow> strings_in_bounds buf)"
  by (intro conjI impI) (rule strings_in_bounds_decode, assumption, rule decode_strings_in_bounds)

text \<open>\<^verbatim>\<open>:method: GET\<close> by index and a literal; a Huffman string of one octet that is not there.\<close>

lemma block_read_in_bounds_witness:
  "decode_headers dynamic_metadata_service (dynamic_metadata_table_new 4096) [0x82, 0x40, 0x01, 0x61, 0x01, 0x62] [] \<noteq> None \<and>
   \<not> strings_in_bounds [0x82, 0x40, 0x81]"
proof -
  have "strings_in_bounds [0x82, 0x40, 0x01, 0x61, 0x01, 0x62]" "\<not> strings_in_bounds [0x82, 0x40, 0x81]"
    by (simp_all add: strings_in_bounds.simps skip_field_def skip_literal_def skip_string_def decode_uint32_def INT_MASK_def)
  with block_read_in_bounds [of "[0x82, 0x40, 0x01, 0x61, 0x01, 0x62]" dynamic_metadata_service
      "dynamic_metadata_table_new 4096" "[]"] show ?thesis by simp
qed

end
