(* ===== verification/Connection_Receiving.thy ===== *)
theory Connection_Receiving
  imports Connection_Settings Hpack_Bounds
begin

text \<open>
  \<^verbatim>\<open>ReceivedData\<close> on whatever bytes the peer sends: it returns, without a read outside its buffer and without a
  failed assertion, unless one of the two unchecked reads of the code is provoked, a padded frame of length 0 or a
  Huffman string that leaves its header block. The compressor is assumed to be in step with some table
  (\<open>compressor_ok\<close>) and is afterwards; \<^verbatim>\<open>Connection_Programs\<close> discharges the assumption.
\<close>

section \<open>What the unchecked reads need\<close>

definition block_in_bounds :: "http2_frame_hdr \<Rightarrow> bytes \<Rightarrow> bool" where
  "block_in_bounds h payload =
     (if hd_type h = frame_type Type_Headers
      then (case parse_http2_frame_headers h payload of Ok f \<Rightarrow> strings_in_bounds (hds_header_block_fragment f) | _ \<Rightarrow> True)
      else if hd_type h = frame_type Type_PushPromise
      then (case parse_http2_frame_push_promise h payload of Ok f \<Rightarrow> strings_in_bounds (pp_header_block_fragment f) | _ \<Rightarrow> True)
      else if hd_type h = frame_type Type_Continuation
      then (case parse_http2_frame_continuation h payload of Ok f \<Rightarrow> strings_in_bounds (con_header_block_fragment f) | _ \<Rightarrow> True)
      else True)"

definition padding_in_bounds :: "http2_frame_hdr \<Rightarrow> bytes \<Rightarrow> bool" where
  "padding_in_bounds h payload \<longleftrightarrow> has_flag (hd_flags h) Flag_Padded \<and>
     hd_type h \<in> {frame_type Type_Data, frame_type Type_Headers, frame_type Type_PushPromise} \<longrightarrow> payload \<noteq> []"

text \<open>Every complete frame of a buffer; the payload is given with the bytes that follow it.\<close>

function frames_in_bounds :: "bytes \<Rightarrow> bool" where
  "frames_in_bounds buf =
     (if length buf < 9 then True
      else case http2_frame_header_unpack buf of None \<Rightarrow> True
      | Some h \<Rightarrow> if length buf < unat (hd_length h) + 9 then True
          else padding_in_bounds h (drop 9 buf) \<and> block_in_bounds h (drop 9 buf) \<and>
            frames_in_bounds (drop (unat (hd_length h) + 9) buf))"
  by pat_completeness auto
termination by (relation "measure length") auto

declare frames_in_bounds.simps [simp del]

section \<open>The compressor while receiving\<close>

text \<open>What only sends leaves the compressor alone.\<close>

interpretation record_kept: send_effect "\<lambda>c d. cn_send_record d = cn_send_record c"
  by unfold_locales (simp_all add: call_user_def buffer_raw_data_def)

lemma record_steps [simp]:
  "cn_send_record (put_stream s c) = cn_send_record c" "cn_send_record (notify e c) = cn_send_record c"
  "cn_send_record (call_user e c) = cn_send_record c" "cn_send_record (finish_block h s c) = cn_send_record c"
  "cn_send_record (check_drain_complete c) = cn_send_record c"
  "cn_send_record (destroy_if_closed s c) = cn_send_record c" "cn_send_record (track_last_stream i c) = cn_send_record c"
  by (simp_all add: put_stream_def notify_def call_user_def finish_block_def destroy_if_closed_def
      check_drain_complete_def destroy_stream_def track_last_stream_def)

lemma remote_steps [simp]:
  "cn_remote_settings (track_last_stream i c) = cn_remote_settings c"
  by (simp add: track_last_stream_def)

text \<open>A handler that returns and leaves the compressor able to follow a resize.\<close>

definition returns :: "handled \<Rightarrow> bool" where
  "returns r \<longleftrightarrow> (\<exists>s d. r = Some (s, d) \<and> compressor_ok (cn_send_record d))"

lemma returns_Some [simp]: "returns (Some (s, d)) \<longleftrightarrow> compressor_ok (cn_send_record d)"
  by (simp add: returns_def)

lemma returns_reject [simp]: "compressor_ok (cn_send_record c) \<Longrightarrow> returns (reject S err stream c)"
  using goaway_total [of S err c] record_kept.goaway by (auto simp: reject_def returns_def)

lemma returns_goaway: "compressor_ok (cn_send_record c) \<Longrightarrow> \<exists>d. goaway S err c = Some d \<and> compressor_ok (cn_send_record d)"
  using goaway_total [of S err c] record_kept.goaway by auto

lemma window_update_returns:
  "\<exists>r d. send_window_update S i wu c = Some (r, d) \<and> cn_send_record d = cn_send_record c"
  using send_window_update_total [of S i wu c] record_kept.send_window_update by fastforce

lemma decode_block_returns:
  "strings_in_bounds blk \<Longrightarrow> \<exists>err hs d. decode_block blk c = Some (err, hs, d) \<and> cn_send_record d = cn_send_record c"
  using strings_in_bounds_decode [of blk dynamic_metadata_service "cn_dynamic_table c" "[]"]
  by (auto simp: decode_block_def)

section \<open>The handlers return\<close>

lemma data_returns: "compressor_ok (cn_send_record c) \<Longrightarrow> returns (received_data S stream f c)"
proof -
  assume ok: "compressor_ok (cn_send_record c)"
  have u: "returns (case received_credit S i n d of (wu, d) \<Rightarrow>
      do { (sent, d) \<leftarrow> send_window_update S i wu d; Some (Some s, if st_is_closed s then notify_stream_closed s 0 d else d) })"
    if "compressor_ok (cn_send_record d)" for i n d s
  proof -
    obtain wu e where e: "received_credit S i n d = (wu, e)" by fastforce
    then have "cn_send_record e = cn_send_record d" by (auto simp: received_credit_def split: if_splits)
    with e that window_update_returns [of S i wu e] show ?thesis by (auto simp: notify_stream_closed_def)
  qed
  show ?thesis using ok by (auto simp: received_data_def Let_def u split: option.splits)
qed

lemma headers_return:
  assumes "compressor_ok (cn_send_record c)" "strings_in_bounds (hds_header_block_fragment f)"
  shows "returns (received_headers S stream f c)"
proof -
  obtain err hs d where "decode_block (hds_header_block_fragment f) c = Some (err, hs, d)" "cn_send_record d = cn_send_record c"
    using decode_block_returns [OF assms(2)] by blast
  then show ?thesis using assms(1) by (auto simp: received_headers_def Let_def)
qed

lemma continuation_returns:
  assumes "compressor_ok (cn_send_record c)" "strings_in_bounds (con_header_block_fragment f)"
  shows "returns (received_continuation S stream f c)"
proof -
  obtain err hs d where "decode_block (con_header_block_fragment f) c = Some (err, hs, d)" "cn_send_record d = cn_send_record c"
    using decode_block_returns [OF assms(2)] by blast
  then show ?thesis using assms(1) by (auto simp: received_continuation_def Let_def split: option.splits)
qed

lemma push_promise_returns:
  assumes "compressor_ok (cn_send_record c)" "strings_in_bounds (pp_header_block_fragment f)"
  shows "returns (received_push_promise S stream f c)"
proof -
  obtain err hs d where "decode_block (pp_header_block_fragment f) c = Some (err, hs, d)" "cn_send_record d = cn_send_record c"
    using decode_block_returns [OF assms(2)] by blast
  then show ?thesis using assms(1) by (auto simp: received_push_promise_def Let_def)
qed

lemma stream_control_returns:
  assumes "compressor_ok (cn_send_record c)"
  shows "returns (received_priority S stream fo c)" "returns (received_rst_stream S stream fr c)"
    "returns (received_window_update S stream fw c)"
  using assms
  by (auto simp: received_priority_def received_rst_stream_def received_window_update_def notify_stream_closed_def
      Let_def split: option.splits)

lemma returns_no_stream: "returns (no_stream r) \<longleftrightarrow> (\<exists>d. r = Some d \<and> compressor_ok (cn_send_record d))"
  by (auto simp: no_stream_def returns_def)

lemma settings_return:
  assumes "conn_inv {} c" "compressor_ok (cn_send_record c)"
  shows "returns (no_stream (received_settings S f c))"
proof -
  have ack: "\<exists>n e. send_frame_settings S (build_http2_frame_settings fl []) d = Some (n, e) \<and>
      cn_send_record e = cn_send_record d" for fl d
    using send_settings_frame_total [of "[]" S fl d] record_kept.send_frame(3) by fastforce
  have "length (cn_remote_settings c) = HTTP2_NUMBER_OF_SETTINGS" using assms(1) by (simp add: conn_inv_def settings_ok_def)
  from apply_settings_spec [OF this assms(2), of "set_settings f" "[]"] obtain ls r x where
    app: "apply_settings (set_settings f) [] c = Some (x, c\<lparr>cn_remote_settings := ls, cn_send_record := r\<rparr>)" "compressor_ok r"
    by blast
  let ?d = "c\<lparr>cn_remote_settings := ls, cn_send_record := r\<rparr>"
  have go: "\<exists>e. goaway S err c = Some e \<and> compressor_ok (cn_send_record e)" "\<exists>e. goaway S err ?d = Some e \<and> compressor_ok (cn_send_record e)" for err
    using returns_goaway [OF assms(2)] returns_goaway [of ?d] app(2) by simp_all
  show ?thesis
    unfolding returns_no_stream received_settings_def Let_def
    using go app ack [of "ucast (frame_flag Flag_Ack)" "notify (OnSettings (projr x) False) ?d"] assms(2)
    by (cases x) auto
qed

lemma ping_returns: "compressor_ok (cn_send_record c) \<Longrightarrow> returns (no_stream (received_ping S f c))"
  using returns_goaway [of c] record_kept.send_frame(8) [of S _ _ "fst (send_frame_ping S _ _)"]
  by (auto simp: returns_no_stream received_ping_def Let_def record_kept.send_raw_data send_frame_ping_def)

lemma goaway_returns: "compressor_ok (cn_send_record c) \<Longrightarrow> returns (no_stream (received_goaway S f c))"
  using returns_goaway [of c] by (auto simp: returns_no_stream received_goaway_def Let_def)

section \<open>Dispatch and the frame loop\<close>

lemma parsed_returns:
  assumes "compressor_ok (cn_send_record c)" "r \<noteq> Fault" "\<And>f. r = Ok f \<Longrightarrow> returns (k f c)"
  shows "returns (parsed S r k c)"
  using assms by (cases r) (simp_all add: parsed_def)

lemma frame_process_returns:
  assumes "conn_inv {} c" "compressor_ok (cn_send_record c)" "unat (hd_length h) \<le> length p"
    and "padding_in_bounds h p" "block_in_bounds h p" "hd_type h \<le> frame_type Type_Continuation"
  shows "returns ((frame_process_func_array ! unat (hd_type h)) S h p c)"
proof -
  have padded: "payload_present h p" if "hd_type h \<in> {0, 1, 5}"
    using that assms(3,4) by (auto simp: payload_present_def padding_in_bounds_def)
  note pr = parsed_returns [OF assms(2)]
  have n: "unat (hd_type h) \<le> 9" using assms(6) by (simp add: word_le_nat_alt)
  have len: "unat (hd_length h) \<le> length p" using assms(3) .
  have ty: "hd_type h = word_of_nat (unat (hd_type h))" by simp
  show ?thesis
    using less_10_cases [OF n]
  proof (elim disjE)
    assume k: "unat (hd_type h) = 0"
    then have "hd_type h = 0" using ty by simp
    then show ?thesis using parse_data_no_fault [OF padded] assms(2)
      by (auto simp: frame_process_func_array_def internal_data_process_def intro!: pr data_returns)
  next
    assume k: "unat (hd_type h) = 1"
    then have "hd_type h = 1" using ty by simp
    then show ?thesis using parse_headers_no_fault [OF padded] assms(2,5)
      by (auto simp: frame_process_func_array_def internal_headers_process_def block_in_bounds_def intro!: pr headers_return)
  next
    assume k: "unat (hd_type h) = 5"
    then have "hd_type h = 5" using ty by simp
    then show ?thesis using parse_push_promise_no_fault [OF padded] assms(2,5)
      by (auto simp: frame_process_func_array_def internal_push_promise_process_def block_in_bounds_def intro!: pr push_promise_returns)
  next
    assume k: "unat (hd_type h) = 9"
    then have "hd_type h = 9" using ty by simp
    then show ?thesis using len assms(2,5)
      by (auto simp: frame_process_func_array_def internal_continuation_process_def block_in_bounds_def
          parse_http2_frame_continuation_def MakeStaticSlice_def intro!: pr continuation_returns)
  qed (use assms(1,2) parse_fixed_no_fault [OF len] parse_settings_no_fault [OF len] parse_goaway_no_fault [OF len] in
      \<open>auto simp: frame_process_func_array_def internal_priority_process_def internal_rst_stream_process_def
        internal_settings_process_def internal_ping_process_def internal_goaway_process_def internal_window_update_process_def
        intro!: pr stream_control_returns settings_return ping_returns goaway_returns\<close>)
qed

lemma package_process_returns:
  assumes "conn_inv {} c" "compressor_ok (cn_send_record c)"
    and h: "9 \<le> length buf" "http2_frame_header_unpack buf = Some h" "unat (hd_length h) + 9 \<le> length buf"
    and "padding_in_bounds h (drop 9 buf)" "block_in_bounds h (drop 9 buf)"
  shows "\<exists>r d. package_process S buf (hd_length h + HTTP2_FRAME_HEADER_SIZE) c = Some (r, d) \<and> compressor_ok (cn_send_record d)"
proof -
  let ?c = "track_last_stream (hd_stream_id h) c"
  have long: "\<not> hd_length h + HTTP2_FRAME_HEADER_SIZE < HTTP2_FRAME_HEADER_SIZE"
    using frame_total_nat [OF unpack_length [OF h(2)]] by (simp add: word_less_nat_alt HTTP2_FRAME_HEADER_SIZE_def)
  have nine: "unat HTTP2_FRAME_HEADER_SIZE = 9" by (simp add: HTTP2_FRAME_HEADER_SIZE_def)
  have handled: "returns ((frame_process_func_array ! unat (hd_type h)) S h (drop 9 buf) ?c)"
    if "hd_type h \<le> frame_type Type_Continuation"
    using frame_process_returns [of ?c h "drop 9 buf" S] assms that by (simp add: track_last_stream_def)
  obtain g where "goaway S (error_code ProtocolError) c = Some g" "compressor_ok (cn_send_record g)"
    using returns_goaway [OF assms(2)] by blast
  with handled assms(2) h(2) long show ?thesis
    by (auto simp: package_process_def Let_def nine not_less returns_def split: option.splits)
qed

lemma frame_loop_returns:
  "conn_inv {} c \<Longrightarrow> compressor_ok (cn_send_record c) \<Longrightarrow> frames_in_bounds buf \<Longrightarrow>
    \<exists>r d. frame_loop S buf pos c = Some (r, d) \<and> compressor_ok (cn_send_record d)"
proof (induction "length buf" arbitrary: buf pos c rule: less_induct)
  case less
  show ?case
  proof (cases "length buf < 9")
    case True
    then show ?thesis using less.prems by (subst frame_loop.simps) (simp add: HTTP2_FRAME_HEADER_SIZE_def)
  next
    case False
    then have long: "9 \<le> length buf" by simp
    then obtain h where h: "http2_frame_header_unpack buf = Some h" using unpack_present by blast
    note e = frame_loop_long [OF long h, of S pos c]
    obtain g where g: "goaway S (error_code FrameSizeError) c = Some g" "compressor_ok (cn_send_record g)"
      using returns_goaway [OF less.prems(2)] by blast
    show ?thesis
    proof (cases "hd_length h > cn_local_settings c ! setting_index Set_MaxFrameSize \<or> unat (hd_length h) + 9 > length buf")
      case True
      then show ?thesis using e g less.prems(2) by auto
    next
      case inside: False
      then have fits: "unat (hd_length h) + 9 \<le> length buf" by simp
      have b: "padding_in_bounds h (drop 9 buf)" "block_in_bounds h (drop 9 buf)"
        "frames_in_bounds (drop (unat (hd_length h) + 9) buf)"
        using less.prems(3) False h fits by (subst (asm) frames_in_bounds.simps, simp)+
      obtain n d where p: "package_process S buf (hd_length h + HTTP2_FRAME_HEADER_SIZE) c = Some (n, d)"
        "compressor_ok (cn_send_record d)"
        using package_process_returns [OF less.prems(1,2) long h fits b(1,2)] by blast
      from package_process_consumed [OF p(1)] h consider "n = -1" | "nat n = unat (hd_length h) + 9" "0 \<le> n"
        by (auto simp: nat_add_distrib)
      then show ?thesis
      proof cases
        case 1
        then show ?thesis using e inside p by simp
      next
        case 2
        have "length (drop (nat n) buf) < length buf" using 2 fits by simp
        from less.hyps [OF this package_process_inv [OF less.prems(1) p(1)] p(2)] b(3) 2 e inside p(1) show ?thesis by simp
      qed
    qed
  qed
qed

lemma initial_settings_return:
  "\<exists>d. send_initial_settings S c = Some d \<and> cn_send_record d = cn_send_record c"
proof -
  let ?c = "c\<lparr>cn_initial_settings_sent := True\<rparr>"
  have "6 * length (initial_settings_entries ?c) < 2 ^ 24" using initial_entries_length [of ?c] by simp
  from send_settings_frame_total [OF this, of S 0 ?c] obtain n e where
    "send_frame_settings S (build_http2_frame_settings 0 (initial_settings_entries ?c)) ?c = Some (n, e)" by auto
  then show ?thesis using record_kept.send_frame(3) [of S _ ?c n e] by (auto simp: send_initial_settings_def Let_def)
qed

lemma receiving_returns:
  assumes "user_reach S c" "compressor_ok (cn_send_record c)"
    and "frames_in_bounds (if cn_finish_handshake c then buf else drop (length PREFACE) buf)"
  shows "\<exists>r d. ReceivedData S buf c = Some (r, d) \<and> compressor_ok (cn_send_record d)"
proof -
  note inv = user_reach_inv [OF assms(1)]
  show ?thesis
  proof (cases "cn_finish_handshake c")
    case True
    then show ?thesis using frame_loop_returns [OF inv assms(2)] assms(3) by (simp add: ReceivedData_def)
  next
    case False
    let ?c = "c\<lparr>cn_finish_handshake := True\<rparr>"
    obtain d where d: "send_initial_settings S ?c = Some d" "cn_send_record d = cn_send_record c"
      using initial_settings_return [of S ?c] by auto
    have "conn_inv {} d" using initial_settings_inv [OF d(1)] inv by simp
    with frame_loop_returns [OF this] d assms(2,3) False
    have "\<exists>r e. frame_loop S (drop (length PREFACE) buf) (length PREFACE) d = Some (r, e) \<and> compressor_ok (cn_send_record e)"
      by simp
    with returns_goaway [OF assms(2)] d False assms(2) show ?thesis by (auto simp: ReceivedData_def)
  qed
qed

end
