(* ===== verification/Transport_Interface.thy ===== *)
theory Transport_Interface
  imports Transport
begin

text \<open>
  The public interface as an interpreter: the methods of \<^verbatim>\<open>TransportAdaptor\<close> in \<^verbatim>\<open>src/http2.cc\<close> and of the
  interface \<^verbatim>\<open>http2::Stream\<close> in \<^verbatim>\<open>src/http2/stream.cc\<close>, each of which forwards to the connection. A program of
  the user is a list of calls, and the states it leads to are those of the relation \<open>user_step\<close>.
  A stream is named by its identifier; objects that a user keeps after the connection has erased them
  are not modelled.
\<close>

section \<open>Methods of a transport\<close>

datatype transport_call =
  Call_SetEventHandler bool
  | Call_SetFlowControlHandler bool
  | Call_CreateStream
  | Call_SendSettings "(u16 \<times> u32) list"
  | Call_SendPing u64
  | Call_SendGoAway u32 u32 bytes
  | Call_SendPushPromise "u32 option" "(bytes \<times> bytes) list"
  | Call_ReceivedData bytes
  | Call_Drain
  | Call_Shutdown
  | Call_SendWindowUpdate u32 u32
  | Call_SetBufferedMode bool
  | Call_Flush

datatype call_result = Ret_void | Ret_bool bool | Ret_int int | Ret_stream "u32 option" | Ret_bytes bytes
  | Ret_headers "(slice \<times> slice) list"

text \<open>\<^verbatim>\<open>SendGoAway\<close> returns the constant of \<open>send_goaway\<close>; a null request stream is refused before the connection is asked.\<close>

fun call_transport :: "services \<Rightarrow> transport_call \<Rightarrow> http2_connection \<Rightarrow> (call_result \<times> http2_connection) option" where
  "call_transport S (Call_SetEventHandler h) c = Some (Ret_void, set_event_handler h c)"
| "call_transport S (Call_SetFlowControlHandler h) c = Some (Ret_void, set_flow_control_handler h c)"
| "call_transport S Call_CreateStream c =
     (case create_stream c of (stream, c) \<Rightarrow> Some (Ret_stream (map_option st_stream_id stream), c))"
| "call_transport S (Call_SendSettings settings) c = map_option (\<lambda>(ok, c). (Ret_bool ok, c)) (send_settings S settings c)"
| "call_transport S (Call_SendPing info) c = map_option (\<lambda>(ok, c). (Ret_bool ok, c)) (send_ping S info c)"
| "call_transport S (Call_SendGoAway err i debug) c =
     map_option (\<lambda>c. (Ret_bool True, c)) (send_goaway S err i debug c)"
| "call_transport S (Call_SendPushPromise request headers) c =
     (case request of None \<Rightarrow> Some (Ret_stream None, c)
      | Some i \<Rightarrow> map_option (\<lambda>(stream, c). (Ret_stream (map_option st_stream_id stream), c)) (send_push_promise S i headers c))"
| "call_transport S (Call_ReceivedData buf) c = map_option (\<lambda>(n, c). (Ret_int n, c)) (ReceivedData S buf c)"
| "call_transport S Call_Drain c = map_option (\<lambda>c. (Ret_void, c)) (drain S c)"
| "call_transport S Call_Shutdown c = map_option (\<lambda>c. (Ret_void, c)) (Shutdown S c)"
| "call_transport S (Call_SendWindowUpdate i increment) c =
     map_option (\<lambda>(ok, c). (Ret_bool ok, c)) (SendWindowUpdate S i increment c)"
| "call_transport S (Call_SetBufferedMode enable) c = Some (Ret_void, set_buffered_mode enable c)"
| "call_transport S Call_Flush c = (case flush_buffer S c of (ok, c) \<Rightarrow> Some (Ret_bool ok, c))"

text \<open>The queries that return what the connection knows.\<close>

definition GetConnectionId :: "http2_connection \<Rightarrow> u64" where
  "GetConnectionId c = cn_connection_id c"

definition IsClientSide :: "http2_connection \<Rightarrow> bool" where
  "IsClientSide c = cn_client_side c"

definition GetRemoteSetting :: "u16 \<Rightarrow> http2_connection \<Rightarrow> u32 option" where
  "GetRemoteSetting i c = remote_setting (unat i) c"

definition GetLocalSetting :: "u16 \<Rightarrow> http2_connection \<Rightarrow> u32 option" where
  "GetLocalSetting i c = local_setting (unat i) c"

section \<open>Methods of a stream\<close>

datatype stream_method =
  Send_Headers "(bytes \<times> bytes) list" bool
  | Send_Data bytes bool
  | Send_TrailingHeaders "(bytes \<times> bytes) list"
  | Send_RSTStream u32

text \<open>
  The four that send, for stream \<open>i\<close>: without a connection behind \<^verbatim>\<open>_conn\<close> they fail. \<^verbatim>\<open>SendData\<close> gets
  the length of its data as \<^verbatim>\<open>uint32_t\<close>.
\<close>

definition call_stream ::
  "services \<Rightarrow> u32 \<Rightarrow> stream_method \<Rightarrow> http2_connection option \<Rightarrow> (bool \<times> http2_connection option) option" where
  "call_stream S i m conn =
     (case conn of None \<Rightarrow> Some (False, None)
      | Some c \<Rightarrow> map_option (\<lambda>(ok, c). (ok, Some c))
          (case m of
             Send_Headers headers end_stream \<Rightarrow> stream_send_headers S i headers end_stream c
           | Send_Data data end_stream \<Rightarrow> stream_send_data S i data (word_of_nat (length data)) end_stream c
           | Send_TrailingHeaders headers \<Rightarrow> stream_send_trailing_headers S i headers c
           | Send_RSTStream err \<Rightarrow> stream_send_rst_stream S i err c))"

section \<open>Programs\<close>

datatype user_op =
  Transport_op transport_call
  | Stream_op u32 stream_method
  | Read_op u32 u32
  | Headers_op u32

text \<open>The two methods that read also change the stream object.\<close>

fun run_op :: "services \<Rightarrow> user_op \<Rightarrow> http2_connection \<Rightarrow> (call_result \<times> http2_connection) option" where
  "run_op S (Transport_op m) c = call_transport S m c"
| "run_op S (Stream_op i m) c =
     (case call_stream S i m (Some c) of Some (ok, Some c) \<Rightarrow> Some (Ret_bool ok, c) | _ \<Rightarrow> None)"
| "run_op S (Read_op i n) c =
     (case find_stream i c of None \<Rightarrow> None
      | Some s \<Rightarrow> map_option (\<lambda>(bs, copied, s). (Ret_bytes bs, put_stream s c)) (st_ReadData n s))"
| "run_op S (Headers_op i) c =
     map_option (\<lambda>s. case st_GetHeaders s of (hs, s) \<Rightarrow> (Ret_headers hs, put_stream s c)) (find_stream i c)"

text \<open>The results of a program, and the connection at its end.\<close>

fun run_program :: "services \<Rightarrow> user_op list \<Rightarrow> http2_connection \<Rightarrow> (call_result list \<times> http2_connection) option" where
  "run_program S [] c = Some ([], c)"
| "run_program S (p # ps) c =
     (case run_op S p c of None \<Rightarrow> None
      | Some (r, c) \<Rightarrow> map_option (\<lambda>(rs, c). (r # rs, c)) (run_program S ps c))"

text \<open>The size of a body is a \<^verbatim>\<open>uint32_t\<close>.\<close>

fun op_sized :: "user_op \<Rightarrow> bool" where
  "op_sized (Stream_op i (Send_Data data es)) \<longleftrightarrow> length data < 2 ^ 32"
| "op_sized p \<longleftrightarrow> True"

lemma user_step_same: "user_step S c c"
  using us_SetEventHandler [of S c "cn_event_handler c"] by (simp add: set_event_handler_def)

lemmas call_steps = us_CreateStream us_SendSettings us_SendPing us_SendGoAway us_SendPushPromise us_ReceivedData us_Drain
  us_Shutdown us_SendWindowUpdate us_Flush

lemma call_transport_step: "call_transport S m c = Some (r, d) \<Longrightarrow> user_step S c d"
proof (cases m)
  case (Call_SendPushPromise request headers)
  then show "call_transport S m c = Some (r, d) \<Longrightarrow> user_step S c d"
    by (cases request) (auto simp: user_step_same dest: us_SendPushPromise)
qed (simp_all split: prod.splits,
    auto intro: us_SetEventHandler us_SetFlowControlHandler us_SetBufferedMode dest: call_steps)

lemma call_stream_step:
  assumes "call_stream S i m (Some c) = Some (ok, Some d)" "op_sized (Stream_op i m)"
  shows "user_step S c d"
proof (cases m)
  case (Send_Headers headers es)
  with assms show ?thesis by (auto simp: call_stream_def intro: us_SendHeaders)
next
  case (Send_Data data es)
  with assms(1) have "stream_send_data S i data (word_of_nat (length data)) es c = Some (ok, d)"
    by (simp add: call_stream_def)
  moreover have "length data < 2 ^ 32" using assms(2) unfolding Send_Data op_sized.simps .
  ultimately show ?thesis by (rule us_SendData)
next
  case (Send_TrailingHeaders headers)
  with assms show ?thesis by (auto simp: call_stream_def intro: us_SendTrailingHeaders)
next
  case (Send_RSTStream err)
  with assms show ?thesis by (auto simp: call_stream_def intro: us_SendRSTStream)
qed

lemma run_op_stream:
  assumes "run_op S (Stream_op i m) c = Some (r, d)"
  obtains ok where "call_stream S i m (Some c) = Some (ok, Some d)"
proof -
  have "\<exists>ok. x = Some (ok, Some d)"
    if "(case x of Some (ok, Some c) \<Rightarrow> Some (Ret_bool ok, c) | _ \<Rightarrow> None) = Some (r, d)" for x
    using that by (cases x; cases "the x"; cases "snd (the x)") simp_all
  with assms that show ?thesis unfolding run_op.simps by blast
qed

lemma run_op_step:
  assumes "run_op S p c = Some (r, d)" "op_sized p"
  shows "user_step S c d"
proof (cases p)
  case (Stream_op i m)
  with assms(1) obtain ok where "call_stream S i m (Some c) = Some (ok, Some d)" using run_op_stream by blast
  then show ?thesis using assms(2) unfolding Stream_op by (rule call_stream_step)
next
  case (Read_op i n)
  with assms show ?thesis by (auto split: option.splits intro: us_ReadData)
next
  case (Headers_op i)
  with assms show ?thesis using us_GetHeaders [of i c _ S] by (auto simp: split_def)
qed (use assms in \<open>auto intro: call_transport_step\<close>)

lemma step_run_op:
  assumes "user_step S c d"
  shows "\<exists>p r. op_sized p \<and> run_op S p c = Some (r, d)"
  using assms
proof (cases rule: user_step.cases)
  case (us_SetEventHandler h)
  then show ?thesis by (intro exI [of _ "Transport_op (Call_SetEventHandler h)"]) simp
next
  case (us_SetFlowControlHandler h)
  then show ?thesis by (intro exI [of _ "Transport_op (Call_SetFlowControlHandler h)"]) simp
next
  case us_CreateStream
  then show ?thesis by (intro exI [of _ "Transport_op Call_CreateStream"]) simp
next
  case (us_SendSettings settings r)
  then show ?thesis by (intro exI [of _ "Transport_op (Call_SendSettings settings)"]) simp
next
  case (us_SendPing info r)
  then show ?thesis by (intro exI [of _ "Transport_op (Call_SendPing info)"]) simp
next
  case (us_SendGoAway err i debug)
  then show ?thesis by (intro exI [of _ "Transport_op (Call_SendGoAway err i debug)"]) simp
next
  case (us_SendPushPromise i headers p)
  then show ?thesis by (intro exI [of _ "Transport_op (Call_SendPushPromise (Some i) headers)"]) simp
next
  case (us_ReceivedData buf r)
  then show ?thesis by (intro exI [of _ "Transport_op (Call_ReceivedData buf)"]) simp
next
  case us_Drain
  then show ?thesis by (intro exI [of _ "Transport_op Call_Drain"]) simp
next
  case us_Shutdown
  then show ?thesis by (intro exI [of _ "Transport_op Call_Shutdown"]) simp
next
  case (us_SendWindowUpdate i inc r)
  then show ?thesis by (intro exI [of _ "Transport_op (Call_SendWindowUpdate i inc)"]) simp
next
  case (us_SetBufferedMode b)
  then show ?thesis by (intro exI [of _ "Transport_op (Call_SetBufferedMode b)"]) simp
next
  case us_Flush
  then show ?thesis by (intro exI [of _ "Transport_op Call_Flush"]) simp
next
  case (us_SendHeaders i headers es r)
  then show ?thesis by (intro exI [of _ "Stream_op i (Send_Headers headers es)"]) (simp add: call_stream_def)
next
  case (us_SendData i data es r)
  then show ?thesis by (intro exI [of _ "Stream_op i (Send_Data data es)"]) (simp add: call_stream_def)
next
  case (us_SendTrailingHeaders i headers r)
  then show ?thesis by (intro exI [of _ "Stream_op i (Send_TrailingHeaders headers)"]) (simp add: call_stream_def)
next
  case (us_SendRSTStream i err r)
  then show ?thesis by (intro exI [of _ "Stream_op i (Send_RSTStream err)"]) (simp add: call_stream_def)
next
  case (us_ReadData i s n out copied s')
  then show ?thesis by (intro exI [of _ "Read_op i n"]) simp
next
  case (us_GetHeaders i s)
  then show ?thesis by (intro exI [of _ "Headers_op i"]) (simp add: split_def)
qed

lemma run_program_append:
  "run_program S (ps @ qs) c = (case run_program S ps c of None \<Rightarrow> None
     | Some (rs, d) \<Rightarrow> map_option (\<lambda>(rs', e). (rs @ rs', e)) (run_program S qs d))"
  by (induction ps arbitrary: c) (auto split: option.splits simp: option.map_comp comp_def split_def option.map_ident)

lemma run_program_reach:
  "run_program S ps c = Some (rs, d) \<Longrightarrow> \<forall>p \<in> set ps. op_sized p \<Longrightarrow> user_reach S c \<Longrightarrow> user_reach S d"
proof (induction ps arbitrary: c rs)
  case (Cons p ps)
  then obtain r e qs where "run_op S p c = Some (r, e)" "run_program S ps e = Some (qs, d)"
    by (auto split: option.splits)
  moreover from this Cons.prems have "user_reach S e" by (auto intro: reach_user_step run_op_step)
  ultimately show ?case using Cons.IH Cons.prems(2) by simp
qed simp

text \<open>
  The states of the step relation are the states that programs lead to, so what holds in every reachable state holds
  after every program of calls, in any order.
\<close>

theorem reachable_by_programs:
  "user_reach S d \<longleftrightarrow> (\<exists>cid client_side c ps rs. http2_connection_new cid client_side = Some c \<and>
     (\<forall>p \<in> set ps. op_sized p) \<and> run_program S ps c = Some (rs, d))"
proof
  assume "user_reach S d"
  then show "\<exists>cid client_side c ps rs. http2_connection_new cid client_side = Some c \<and>
     (\<forall>p \<in> set ps. op_sized p) \<and> run_program S ps c = Some (rs, d)"
  proof (induction rule: user_reach.induct)
    case (reach_new cid client_side c)
    have "run_program S [] c = Some ([], c)" by simp
    then show ?case using reach_new by (metis empty_iff empty_set)
  next
    case (reach_user_step c d)
    then obtain cid client_side e ps rs where e: "http2_connection_new cid client_side = Some e"
      "\<forall>p \<in> set ps. op_sized p" "run_program S ps e = Some (rs, c)" by blast
    obtain p r where p: "op_sized p" "run_op S p c = Some (r, d)" using step_run_op [OF reach_user_step.hyps(2)] by blast
    have "run_program S (ps @ [p]) e = Some (rs @ [r], d)" using e(3) p(2) by (simp add: run_program_append)
    then show ?case using e(1,2) p(1) by (intro exI conjI) auto
  qed
qed (auto intro: run_program_reach reach_new)

end
