(* ===== verification/Connection_Programs.thy ===== *)
theory Connection_Programs
  imports Connection_Receiving Transport_Interface
begin

text \<open>
  What programs of calls do to the compressor. Its table index grows by at most one with each header field that is
  sent and with nothing else, so over any run from a fresh connection that sends fewer than 2^32 header fields the
  compressor stays in step with the table it describes, and no \<^verbatim>\<open>assert\<close> of \<^verbatim>\<open>send_record.cc\<close> fails,
  neither when headers are encoded nor when the peer changes the table size.
\<close>

section \<open>The compressor at work\<close>

text \<open>In step with some table, after at most \<open>k\<close> insertions.\<close>

definition compressor_within :: "nat \<Rightarrow> compressor \<Rightarrow> bool" where
  "compressor_within k r \<longleftrightarrow> c_max_usable_size r = HPACK_INITIAL_TABLE_SIZE \<and>
     (\<exists>E. sync r E \<and> unat (c_tail_remote_index r) + length E \<le> k)"

lemma within_init: "compressor_within 0 compressor_init"
  using sync_init by (auto simp: compressor_within_def compressor_init_def)

lemma within_mono: "compressor_within j r \<Longrightarrow> j \<le> k \<Longrightarrow> compressor_within k r"
  by (auto simp: compressor_within_def)

lemma within_ok: "compressor_within k r \<Longrightarrow> compressor_ok r"
  by (auto simp: compressor_within_def compressor_ok_def HPACK_INITIAL_TABLE_SIZE_def)

text \<open>Evictions, and so a resize, leave the index of the newest entry.\<close>

lemma evict_while_newest:
  "evict_while P r = Some r' \<Longrightarrow>
     c_tail_remote_index r' + c_table_elems r' = c_tail_remote_index r + c_table_elems r"
proof (induction P r rule: evict_while.induct)
  case (1 P r)
  have "evict_entry r = Some q \<Longrightarrow> c_tail_remote_index q + c_table_elems q = c_tail_remote_index r + c_table_elems r" for q
    by (auto simp: evict_entry_def Let_def split: if_splits option.splits)
  with 1 show ?case by (subst (asm) evict_while.simps) (auto split: if_splits option.splits)
qed

lemma resize_newest:
  assumes "compressor_set_max_table_size r n = Some r'"
  shows "c_tail_remote_index r' + c_table_elems r' = c_tail_remote_index r + c_table_elems r"
proof -
  have b: "rebuild_elems q m = Some r' \<Longrightarrow>
      c_tail_remote_index r' = c_tail_remote_index q \<and> c_table_elems r' = c_table_elems q" for q m
    by (auto simp: rebuild_elems_def split: if_splits)
  show ?thesis
    using assms unfolding compressor_set_max_table_size_def Let_def
    by (auto simp: bind_eq_Some_conv split: if_splits dest!: b evict_while_newest)
qed

lemma within_resize:
  assumes "compressor_within k r" "compressor_set_max_table_size r n = Some r'"
  shows "compressor_within k r'"
proof -
  obtain E where E: "sync r E" "unat (c_tail_remote_index r) + length E \<le> k" and u: "c_max_usable_size r = 4096"
    using assms(1) by (auto simp: compressor_within_def HPACK_INITIAL_TABLE_SIZE_def)
  have "unat (min n (c_max_usable_size r)) + 31 < 2 ^ 32" by (auto simp: u min_def word_le_nat_alt)
  from set_max_table_size_sync [OF E(1) refl this] assms(2) obtain E' where E': "sync r' E'" by auto
  have "unat (c_tail_remote_index r') + length E' \<le> k"
    using sync_tail [OF E'] sync_tail [OF E(1)] resize_newest [OF assms(2)] E(2) by simp
  with E' u resize_usable [OF assms(2)] show ?thesis by (auto simp: compressor_within_def HPACK_INITIAL_TABLE_SIZE_def)
qed

section \<open>Encoding\<close>

lemma prepare_space_usable:
  assumes "prepare_space_for_new_elem r sz = Some (i, r')"
  shows "sz < 65536" "c_max_usable_size r' = c_max_usable_size r"
proof -
  show small: "sz < 65536" using assms by (simp add: prepare_space_for_new_elem_def Let_def split: if_splits)
  show "c_max_usable_size r' = c_max_usable_size r"
  proof (cases "sz > unat (c_max_table_size r)")
    case True
    with assms small obtain q where "evict_while (\<lambda>c. c_table_size c > 0) r = Some q" "r' = q"
      by (auto simp: prepare_space_for_new_elem_def Let_def)
    then show ?thesis using evict_while_usable by blast
  next
    case False
    with assms small obtain q where q: "evict_while (\<lambda>c. unat (c_table_size c) + sz > unat (c_max_table_size c)) r = Some q"
      "c_max_usable_size r' = c_max_usable_size q"
      by (cases "evict_while (\<lambda>c. unat (c_table_size c) + sz > unat (c_max_table_size c)) r")
        (auto simp: prepare_space_for_new_elem_def Let_def split: if_splits)
    then show ?thesis using evict_while_usable [OF q(1)] by simp
  qed
qed

lemma add_elem_usable:
  assumes a: "add_elem r m sz h = Some r'"
  shows "sz < 65536 \<and> c_max_usable_size r' = c_max_usable_size r"
proof -
  obtain i q where p: "prepare_space_for_new_elem r sz = Some (i, q)"
    using a unfolding add_elem_def by (cases "prepare_space_for_new_elem r sz") auto
  have "c_max_usable_size r' = c_max_usable_size q" using a unfolding add_elem_def p by (cases "i = 0") auto
  with prepare_space_usable [OF p] show ?thesis by simp
qed

lemma within_add:
  assumes "compressor_within k r" "k + 1 < 2 ^ 32" "entry_size m < 65536"
  shows "\<exists>r'. add_elem r m (entry_size m) h = Some r' \<and> compressor_within (Suc k) r'"
proof -
  obtain E where E: "sync r E" "unat (c_tail_remote_index r) + length E \<le> k" and u: "c_max_usable_size r = HPACK_INITIAL_TABLE_SIZE"
    using assms(1) by (auto simp: compressor_within_def)
  have "unat (c_tail_remote_index r) + length E + 1 < 2 ^ 32" using E(2) assms(2) by linarith
  from add_elem_sync [OF E(1) assms(3) this, of h] obtain r' where r': "add_elem r m (entry_size m) h = Some r'"
    "sync r' (fit (unat (c_max_table_size r)) (m # E))"
    "unat (c_tail_remote_index r') + length (fit (unat (c_max_table_size r)) (m # E)) \<le> unat (c_tail_remote_index r) + length E + 1"
    by blast
  have "unat (c_tail_remote_index r') + length (fit (unat (c_max_table_size r)) (m # E)) \<le> Suc k" using r'(3) E(2) by linarith
  moreover have "c_max_usable_size r' = HPACK_INITIAL_TABLE_SIZE" using add_elem_usable [OF r'(1)] u by simp
  ultimately have "compressor_within (Suc k) r'" unfolding compressor_within_def using r'(2) by (intro conjI exI)
  with r'(1) show ?thesis by blast
qed

text \<open>Only an insertion changes the compressor, and it happens for static names, whose accounted size is the RFC's.\<close>

lemma encode_one_cases:
  assumes "compressor_encode_one seed r m b = x"
  obtains s where "x = Some (s, r)" "mdelem_fits m \<longrightarrow> length s \<le> entry_size m"
  | s where "x = map_option (\<lambda>r. (s, r)) (add_elem r m (entry_size m) (mdelem_kv_hash seed (md_key m)))"
      "mdelem_fits m \<longrightarrow> length s \<le> entry_size m"
proof (cases "full_match_static_mdelem_index m = 0")
  case False
  with assms that(1) show ?thesis using representation_length(1) by (auto simp: compressor_encode_one_def)
next
  case True
  obtain res idx where g: "GetMatchingIndex r m (mdelem_kv_hash seed (md_key m)) = (res, idx)" by fastforce
  have x: "x = hpack_encode_header seed r m b" using assms True by (simp add: compressor_encode_one_def)
  show ?thesis
  proof (cases "(res = MDELEM_NOT_MATCH \<or> idx \<le> c_tail_remote_index r) \<and> check_key_exists (md_key m)")
    case ins: True
    then show ?thesis using x g that(2) [of "encode_with_incremental_indexing m"] hpack_size_static [of m b] representation_length(2)
      by (auto simp: hpack_encode_header_def Let_def encode_with_incremental_indexing_def)
  next
    case keep: False
    then show ?thesis using x g that(1) representation_length
      by (auto simp: hpack_encode_header_def Let_def encode_without_indexing_def split: if_splits)
  qed
qed

lemma encode_one_within:
  assumes "compressor_within k r" "k + 1 < 2 ^ 32"
  shows "compressor_encode_one seed r m b = Some (s, r') \<Longrightarrow> compressor_within (Suc k) r'"
    and "entry_size m < 65536 \<Longrightarrow> \<exists>s r'. compressor_encode_one seed r m b = Some (s, r') \<and> length s \<le> entry_size m"
proof -
  note kept = within_mono [OF assms(1), of "Suc k"]
  note added = within_add [OF assms]
  show "compressor_within (Suc k) r'" if e: "compressor_encode_one seed r m b = Some (s, r')"
    using e
  proof (cases rule: encode_one_cases)
    case (1 s)
    then show ?thesis using kept by simp
  next
    case (2 s)
    then have a: "add_elem r m (entry_size m) (mdelem_kv_hash seed (md_key m)) = Some r'"
      by (cases "add_elem r m (entry_size m) (mdelem_kv_hash seed (md_key m))") simp_all
    then show ?thesis using added [of m "mdelem_kv_hash seed (md_key m)"] add_elem_usable [OF a] by auto
  qed
  show "\<exists>s r'. compressor_encode_one seed r m b = Some (s, r') \<and> length s \<le> entry_size m" if z: "entry_size m < 65536"
  proof -
    have "mdelem_fits m" using z by (simp add: mdelem_fits_def entry_size_def MDELEM_SIZE_def)
    then show ?thesis
      using added [OF z, of "mdelem_kv_hash seed (md_key m)"] by (auto intro: encode_one_cases [OF refl, of seed r m b])
  qed
qed

lemma encode_headers_within:
  "compressor_within k r \<Longrightarrow> k + length hs < 2 ^ 32 \<Longrightarrow>
     compressor_encode_headers seed r hs out b = Some (r', out') \<Longrightarrow> compressor_within (k + length hs) r'"
proof (induction hs arbitrary: k r out)
  case (Cons m hs)
  then obtain s q where q: "compressor_encode_one seed r m b = Some (s, q)"
    "compressor_encode_headers seed q hs (sb_add_slice out s) b = Some (r', out')"
    by (auto split: option.splits)
  have "compressor_within (Suc k) q" using encode_one_within(1) [OF Cons.prems(1) _ q(1)] Cons.prems(2) by simp
  from Cons.IH [OF this _ q(2)] Cons.prems(2) show ?case by simp
qed simp

lemma encode_headers_return:
  "compressor_within k r \<Longrightarrow> k + length hs < 2 ^ 32 \<Longrightarrow> \<forall>m \<in> set hs. entry_size m < 65536 \<Longrightarrow> sb_inv out \<Longrightarrow>
     \<exists>r' out'. compressor_encode_headers seed r hs out b = Some (r', out') \<and> sb_inv out' \<and>
       length (sb_contents out') \<le> length (sb_contents out) + entries_size hs"
proof (induction hs arbitrary: k r out)
  case (Cons m hs)
  have room: "k + 1 < 2 ^ 32" and "entry_size m < 65536" using Cons.prems(2,3) by simp_all
  from encode_one_within(2) [OF Cons.prems(1) this] obtain s q where
    q: "compressor_encode_one seed r m b = Some (s, q)" "length s \<le> entry_size m" by blast
  have "compressor_within (Suc k) q" by (rule encode_one_within(1) [OF Cons.prems(1) room q(1)])
  from Cons.IH [OF this, of "sb_add_slice out s"] Cons.prems(2-4) q show ?case
    by (auto simp: sb_inv_add sb_contents_add)
qed simp

text \<open>
  The bound on the size of a field is needed: a field of 64 KiB or more whose name is static, and for which the table has
  nothing, runs into the \<^verbatim>\<open>assert\<close> of \<^verbatim>\<open>prepare_space_for_new_elem\<close>.
\<close>

lemma large_field_aborts:
  assumes "check_key_exists (md_key m)" "full_match_static_mdelem_index m = 0" "65536 \<le> entry_size m"
    and "fst (GetMatchingIndex r m (mdelem_kv_hash seed (md_key m))) = MDELEM_NOT_MATCH"
  shows "compressor_encode_one seed r m b = None"
  using assms hpack_size_static [OF assms(1), of b]
  by (cases "GetMatchingIndex r m (mdelem_kv_hash seed (md_key m))")
    (simp add: compressor_encode_one_def hpack_encode_header_def add_elem_def prepare_space_for_new_elem_def Let_def)

section \<open>Operations\<close>

text \<open>The header fields a call gives to the encoder.\<close>

fun fields_of :: "user_op \<Rightarrow> nat" where
  "fields_of (Transport_op (Call_SendPushPromise request headers)) = length headers"
| "fields_of (Stream_op i (Send_Headers headers es)) = length headers"
| "fields_of (Stream_op i (Send_TrailingHeaders headers)) = length headers"
| "fields_of p = 0"

definition fields_sent :: "user_op list \<Rightarrow> nat" where
  "fields_sent ps = sum_list (map fields_of ps)"

text \<open>Whatever does not encode keeps the bound.\<close>

interpretation within_effect: operation_effect "\<lambda>c d. \<forall>k. compressor_within k (cn_send_record c) \<longrightarrow> compressor_within k (cn_send_record d)"
  by unfold_locales (auto simp: call_user_def buffer_raw_data_def essence_def intro: within_resize)

lemma block_within:
  assumes "encode_header_block S headers c = Some (block, d)" "compressor_within k (cn_send_record c)" "k + length headers < 2 ^ 32"
  shows "compressor_within (k + length headers) (cn_send_record d)"
  using encode_headers_within [OF assms(2), of "mdels_of headers"] assms(1,3)
  by (auto simp: encode_header_block_def bind_eq_Some_conv mdels_of_def)

lemma create_kept: "create_stream c = (s, d) \<Longrightarrow> cn_send_record d = cn_send_record c"
  by (auto simp: create_stream_def Let_def split: if_splits)

text \<open>The operations with headers encode them at most once, in the state of the compressor at the call.\<close>

definition encodes :: "services \<Rightarrow> (bytes \<times> bytes) list \<Rightarrow> compressor \<Rightarrow> compressor \<Rightarrow> bool" where
  "encodes S headers r q \<longleftrightarrow> q = r \<or>
     (\<exists>c block d. cn_send_record c = r \<and> encode_header_block S headers c = Some (block, d) \<and> cn_send_record d = q)"

lemma encodes_same [simp]: "encodes S headers r r"
  by (simp add: encodes_def)

lemma block_encodes: "encode_header_block S headers c = Some (block, d) \<Longrightarrow> encodes S headers (cn_send_record c) (cn_send_record d)"
  by (auto simp: encodes_def)

lemma headers_frame_encodes:
  assumes "send_binary_in_headers_frame S i headers fl c = Some (r, d)"
  shows "encodes S headers (cn_send_record c) (cn_send_record d)"
proof -
  obtain block e where e: "encode_header_block S headers c = Some (block, e)"
    "send_frame_headers S (build_http2_frame_headers i fl block None) e = Some (r, d)"
    using assms by (auto simp: send_binary_in_headers_frame_def bind_eq_Some_conv)
  from block_encodes [OF e(1)] record_kept.send_frame(2) [OF e(2)] show ?thesis by simp
qed

lemma stream_headers_encode:
  "stream_send_headers S i headers es c = Some (r, d) \<Longrightarrow> encodes S headers (cn_send_record c) (cn_send_record d)"
  "stream_send_trailing_headers S i headers c = Some (r, d) \<Longrightarrow> encodes S headers (cn_send_record c) (cn_send_record d)"
  by (auto simp: stream_send_headers_def stream_send_trailing_headers_def bind_eq_Some_conv Let_def
      split: option.splits if_splits dest!: record_kept.ensure_preface headers_frame_encodes)

lemma push_promise_encodes:
  "send_push_promise S i headers c = Some (p, d) \<Longrightarrow> encodes S headers (cn_send_record c) (cn_send_record d)"
  by (auto simp: send_push_promise_def bind_eq_Some_conv Let_def split: option.splits if_splits prod.splits
      dest!: create_kept block_encodes record_kept.send_frame(4))

lemma encodes_within:
  assumes "encodes S headers r q" "compressor_within k r" "k + length headers < 2 ^ 32"
  shows "compressor_within (k + length headers) q"
  using assms(1) unfolding encodes_def
proof (elim disjE exE conjE)
  assume "q = r"
  then show ?thesis using within_mono [OF assms(2)] by simp
next
  fix c block d
  assume "cn_send_record c = r" "encode_header_block S headers c = Some (block, d)" "cn_send_record d = q"
  then show ?thesis using block_within [of S headers c block d k] assms(2,3) by simp
qed

section \<open>Programs\<close>

lemma call_within:
  assumes "call_transport S m c = Some (r, d)" "compressor_within k (cn_send_record c)"
    "k + fields_of (Transport_op m) < 2 ^ 32"
  shows "compressor_within (k + fields_of (Transport_op m)) (cn_send_record d)"
proof (cases "\<exists>request headers. m = Call_SendPushPromise request headers")
  case True
  then obtain request headers where m: "m = Call_SendPushPromise request headers" by blast
  have "encodes S headers (cn_send_record c) (cn_send_record d)"
    using assms(1) m push_promise_encodes by (cases request) auto
  from encodes_within [OF this assms(2)] assms(3) m show ?thesis by simp
next
  case False
  have "compressor_within k (cn_send_record d)"
    using assms(1,2) False
    by (cases m) (auto simp: set_event_handler_def set_flow_control_handler_def set_buffered_mode_def Shutdown_def
        SendWindowUpdate_def drain_def bind_eq_Some_conv split: prod.splits if_splits
        dest: create_kept within_effect.send_settings within_effect.send_ping within_effect.send_goaway within_effect.goaway
          within_effect.ReceivedData within_effect.send_window_update within_effect.flush_buffer)
  moreover have "fields_of (Transport_op m) = 0" using False by (cases m) auto
  ultimately show ?thesis by simp
qed

lemma stream_call_within:
  assumes "call_stream S i m (Some c) = Some (ok, Some d)" "compressor_within k (cn_send_record c)"
    "k + fields_of (Stream_op i m) < 2 ^ 32"
  shows "compressor_within (k + fields_of (Stream_op i m)) (cn_send_record d)"
proof (cases m)
  case (Send_Headers headers es)
  with assms(1) stream_headers_encode(1) have "encodes S headers (cn_send_record c) (cn_send_record d)"
    by (auto simp: call_stream_def)
  from encodes_within [OF this assms(2)] assms(3) Send_Headers show ?thesis by simp
next
  case (Send_TrailingHeaders headers)
  with assms(1) stream_headers_encode(2) have "encodes S headers (cn_send_record c) (cn_send_record d)"
    by (auto simp: call_stream_def)
  from encodes_within [OF this assms(2)] assms(3) Send_TrailingHeaders show ?thesis by simp
next
  case (Send_Data data es)
  with assms show ?thesis by (auto simp: call_stream_def dest: within_effect.stream_send_data)
next
  case (Send_RSTStream err)
  with assms show ?thesis by (auto simp: call_stream_def stream_send_rst_stream_def dest: within_effect.send_rst_stream)
qed

lemma run_op_within:
  assumes "run_op S p c = Some (r, d)" "compressor_within k (cn_send_record c)" "k + fields_of p < 2 ^ 32"
  shows "compressor_within (k + fields_of p) (cn_send_record d)"
proof (cases p)
  case (Transport_op m)
  with call_within assms show ?thesis by simp
next
  case (Stream_op i m)
  then obtain ok where "call_stream S i m (Some c) = Some (ok, Some d)" using assms(1) run_op_stream by blast
  from stream_call_within [OF this assms(2)] assms(3) Stream_op show ?thesis by simp
next
  case (Read_op i n)
  with assms show ?thesis by (auto split: option.splits)
next
  case (Headers_op i)
  with assms show ?thesis by (auto simp: split_def)
qed

lemma run_program_within:
  "run_program S ps c = Some (rs, d) \<Longrightarrow> compressor_within k (cn_send_record c) \<Longrightarrow> k + fields_sent ps < 2 ^ 32 \<Longrightarrow>
     compressor_within (k + fields_sent ps) (cn_send_record d)"
proof (induction ps arbitrary: k c rs)
  case (Cons p ps)
  then obtain r e qs where e: "run_op S p c = Some (r, e)" "run_program S ps e = Some (qs, d)"
    by (auto split: option.splits)
  have "compressor_within (k + fields_of p) (cn_send_record e)"
    using run_op_within [OF e(1) Cons.prems(2)] Cons.prems(3) by (simp add: fields_sent_def)
  from Cons.IH [OF e(2) this] Cons.prems(3) show ?case by (simp add: fields_sent_def add.assoc)
qed (simp add: fields_sent_def)

text \<open>A connection that a program of the user has led to, from its creation on.\<close>

definition reached_by :: "services \<Rightarrow> user_op list \<Rightarrow> http2_connection \<Rightarrow> bool" where
  "reached_by S ps c \<longleftrightarrow> (\<forall>p \<in> set ps. op_sized p) \<and>
     (\<exists>cid client_side c0 rs. http2_connection_new cid client_side = Some c0 \<and> run_program S ps c0 = Some (rs, c))"

lemma reached_byI:
  "http2_connection_new cid client_side = Some c0 \<Longrightarrow> run_program S ps c0 = Some (rs, c) \<Longrightarrow> \<forall>p \<in> set ps. op_sized p \<Longrightarrow>
     reached_by S ps c"
  by (auto simp: reached_by_def)

lemma reached_by_reach: "reached_by S ps c \<Longrightarrow> user_reach S c"
  by (auto simp: reached_by_def intro: run_program_reach reach_new)

lemma new_within: "http2_connection_new cid client_side = Some c \<Longrightarrow> compressor_within 0 (cn_send_record c)"
  by (auto simp: http2_connection_new_def bind_eq_Some_conv split: if_splits intro: within_resize [OF within_init])

lemma reached_by_within:
  "reached_by S ps c \<Longrightarrow> fields_sent ps < 2 ^ 32 \<Longrightarrow> compressor_within (fields_sent ps) (cn_send_record c)"
  using run_program_within [where k = 0] new_within by (fastforce simp: reached_by_def)

text \<open>C5. Receiving is safe: after any program of calls that sends fewer than 2^32 header fields, \<^verbatim>\<open>ReceivedData\<close> returns on
  whatever bytes the peer sends next, without a read outside its buffer, a failed assertion or an endless loop. The
  condition on the bytes names the only two reads the code does not check: the pad length of a padded
  frame with nothing behind its header, and a Huffman string that leaves its header block.\<close>

theorem received_data_returns:
  assumes "reached_by S ps c" "fields_sent ps < 2 ^ 32"
    and "frames_in_bounds (if cn_finish_handshake c then buf else drop (length PREFACE) buf)"
  shows "\<exists>n d. ReceivedData S buf c = Some (n, d)"
  using receiving_returns [OF reached_by_reach [OF assms(1)] within_ok [OF reached_by_within [OF assms(1,2)]] assms(3)] by blast

text \<open>A server with a handler gets the preface, a PING and the HEADERS of a request in one piece.\<close>

theorem received_data_returns_witness:
  "\<exists>n d. ReceivedData example_services (PREFACE @ [0, 0, 8, 6, 0, 0, 0, 0, 0, 1, 2, 3, 4, 5, 6, 7, 8,
      0, 0, 6, 1, 5, 0, 0, 0, 1, 0x82, 0x84, 0x87, 0x41, 0x01, 0x61]) (set_event_handler True (fresh_connection False)) = Some (n, d)"
proof -
  let ?frames = "[0, 0, 8, 6, 0, 0, 0, 0, 0, 1, 2, 3, 4, 5, 6, 7, 8,
      0, 0, 6, 1, 5, 0, 0, 0, 1, 0x82, 0x84, 0x87, 0x41, 0x01, 0x61] :: bytes"
  let ?ps = "[Transport_op (Call_SetEventHandler True)]"
  have "strings_in_bounds [0x82, 0x84, 0x87, 0x41, 0x01, 0x61]"
    by (simp add: strings_in_bounds.simps skip_field_def skip_literal_def skip_string_def decode_uint32_def INT_MASK_def)
  then have f: "frames_in_bounds ?frames"
    by (simp add: frames_in_bounds.simps http2_frame_header_unpack_def byte_at_def padding_in_bounds_def block_in_bounds_def
        parse_http2_frame_headers_def parse_padding_def has_flag_def MakeStaticSlice_def)
  have "reached_by example_services ?ps (set_event_handler True (fresh_connection False))"
    by (rule reached_byI [OF fresh_connection_new [of False]]) simp_all
  from received_data_returns [OF this, of "PREFACE @ ?frames"] f show ?thesis
    by (simp add: fields_sent_def set_event_handler_def)
qed

end
