(* ===== verification/Connection_Calls.thy ===== *)
theory Connection_Calls
  imports Connection_Programs
begin

text \<open>
  Every call of the public interface returns: no operation reads outside its buffers, fails an assertion or loops,
  after any program of calls, on arguments that fit the frames they go into.
\<close>

section \<open>What a call needs\<close>

text \<open>
  A header list whose fields are below the 64 KiB that \<^verbatim>\<open>send_record.cc\<close> asserts, and below the 2^24 octets of a
  frame in all, with the promised identifier before them.
\<close>

definition headers_fit :: "(bytes \<times> bytes) list \<Rightarrow> bool" where
  "headers_fit headers \<longleftrightarrow> (\<forall>m \<in> set (mdels_of headers). entry_size m < 65536) \<and> entries_size (mdels_of headers) + 4 < 2 ^ 24"

text \<open>
  What each call asks of its arguments: sizes that fit a frame, a stream that is there, a read of no more than is
  buffered, and received bytes that do not provoke one of the two unchecked reads.
\<close>

fun op_fits :: "user_op \<Rightarrow> http2_connection \<Rightarrow> bool" where
  "op_fits (Transport_op (Call_SendSettings settings)) c \<longleftrightarrow> 6 * length settings < 2 ^ 24"
| "op_fits (Transport_op (Call_SendGoAway err i debug)) c \<longleftrightarrow> length debug < 2 ^ 23"
| "op_fits (Transport_op (Call_SendPushPromise request headers)) c \<longleftrightarrow> headers_fit headers"
| "op_fits (Transport_op (Call_ReceivedData buf)) c \<longleftrightarrow>
     frames_in_bounds (if cn_finish_handshake c then buf else drop (length PREFACE) buf)"
| "op_fits (Stream_op i (Send_Headers headers es)) c \<longleftrightarrow> headers_fit headers"
| "op_fits (Stream_op i (Send_TrailingHeaders headers)) c \<longleftrightarrow> headers_fit headers"
| "op_fits (Stream_op i (Send_Data data es)) c \<longleftrightarrow> length data < 2 ^ 32"
| "op_fits (Read_op i n) c \<longleftrightarrow>
     (case find_stream i c of None \<Rightarrow> False | Some s \<Rightarrow> unat n \<le> sb_get_buffer_length (st_data_cache s))"
| "op_fits (Headers_op i) c \<longleftrightarrow> find_stream i c \<noteq> None"
| "op_fits p c \<longleftrightarrow> True"

section \<open>Sending header blocks\<close>

text \<open>The compressor has room for the fields of the call.\<close>

definition has_room :: "nat \<Rightarrow> http2_connection \<Rightarrow> bool" where
  "has_room n c \<longleftrightarrow> (\<exists>k. compressor_within k (cn_send_record c) \<and> k + n < 2 ^ 32)"

lemma room_cong: "cn_send_record d = cn_send_record c \<Longrightarrow> has_room n d = has_room n c"
  by (simp add: has_room_def)

lemma block_returns:
  assumes "headers_fit headers" "has_room (length headers) c"
  shows "\<exists>block d. encode_header_block S headers c = Some (block, d) \<and> length block + 4 < 2 ^ 24"
proof -
  obtain k where k: "compressor_within k (cn_send_record c)" "k + length (mdels_of headers) < 2 ^ 32"
    using assms(2) by (auto simp: has_room_def mdels_of_def)
  have "\<forall>m \<in> set (mdels_of headers). entry_size m < 65536" using assms(1) by (simp add: headers_fit_def)
  from encode_headers_return [OF k this sb_inv_new, of "sv_hash_seed S" True] obtain r out where
    "compressor_encode_headers (sv_hash_seed S) (cn_send_record c) (mdels_of headers) slice_buffer_new True = Some (r, out)"
    "sb_inv out" "length (sb_contents out) \<le> entries_size (mdels_of headers)"
    by (auto simp: sb_contents_new)
  with assms(1) show ?thesis by (simp add: encode_header_block_def sb_merge_contents headers_fit_def)
qed

lemma preface_kept: "\<exists>d. ensure_preface_sent S c = Some d \<and> cn_send_record d = cn_send_record c"
  using ensure_preface_total [of S c] record_kept.ensure_preface by auto

lemma binary_headers_return:
  assumes "headers_fit headers" "has_room (length headers) d"
  shows "\<exists>r. send_binary_in_headers_frame S i headers
    (ucast (frame_flag Flag_EndHeaders) OR (if es then ucast (frame_flag Flag_EndStream) else 0)) d = Some r"
proof -
  obtain block e where b: "encode_header_block S headers d = Some (block, e)" "length block + 4 < 2 ^ 24"
    using block_returns [OF assms] by blast
  then have "length block < 2 ^ 24" by simp
  from headers_pack [OF this, of i es] b(1) show ?thesis
    by (simp add: send_binary_in_headers_frame_def send_frame_headers_def)
qed

lemma push_promise_pack:
  assumes "length block + 4 < 2 ^ 24"
  shows "\<exists>w. pack_http2_frame_push_promise (build_http2_frame_push_promise i j (ucast (frame_flag Flag_EndHeaders)) block) = Some w"
proof -
  have "4 + length block < 2 ^ 24" using assms by simp
  from fill_header_nat [OF this, of "put_uint32_in_be_stream j @ block"] show ?thesis
    by (simp add: pack_http2_frame_push_promise_def build_http2_frame_push_promise_def http2_frame_header_init_def has_flag_def)
qed

lemma push_promise_returns_sent:
  assumes "headers_fit headers" "has_room (length headers) c"
  shows "\<exists>r. send_push_promise S i headers c = Some r"
proof -
  obtain p d where p: "create_stream c = (p, d)" by fastforce
  then have "has_room (length headers) d" using assms(2) room_cong [OF create_kept] by blast
  from block_returns [OF assms(1) this] obtain block e where
    "encode_header_block S headers d = Some (block, e)" "length block + 4 < 2 ^ 24" by blast
  note b = this
  show ?thesis
  proof (cases p)
    case None
    with p show ?thesis by (simp add: send_push_promise_def)
  next
    case (Some promised)
    obtain w where "pack_http2_frame_push_promise
        (build_http2_frame_push_promise i (st_stream_id promised) (ucast (frame_flag Flag_EndHeaders)) block) = Some w"
      using push_promise_pack [OF b(2)] by blast
    with p Some b(1) show ?thesis by (simp add: send_push_promise_def send_frame_push_promise_def Let_def split_def)
  qed
qed

section \<open>The operations\<close>

lemma settings_send_returns: "6 * length settings < 2 ^ 24 \<Longrightarrow> \<exists>r. send_settings S settings c = Some r"
proof -
  assume l: "6 * length settings < 2 ^ 24"
  obtain d where d: "ensure_preface_sent S c = Some d" using ensure_preface_total by blast
  have "6 * length (map (\<lambda>(i, v). \<lparr>se_id = i, se_value = v\<rparr>) settings) < 2 ^ 24" using l by simp
  from send_settings_frame_total [OF this, of S 0 "d\<lparr>cn_settings_pending := True, cn_request_settings := settings\<rparr>"] d
  show ?thesis by (auto simp: send_settings_def)
qed

lemma drain_call_returns: "\<exists>d. drain S c = Some d"
  using send_goaway_total [of "[]" S "error_code NoError" "cn_last_stream_id c" c] by (auto simp: drain_def)

lemma rst_stream_returns: "\<exists>r. send_rst_stream S i err c = Some r"
  using ensure_preface_total [of S c] by (auto simp: send_rst_stream_def Let_def split: option.splits prod.splits)

lemma ping_send_returns: "\<exists>r. send_ping S info c = Some r"
  using ensure_preface_total [of S c] by (auto simp: send_ping_def split: prod.splits)

lemma data_send_returns:
  assumes "conn_inv {} c" "length data < 2 ^ 32"
  shows "\<exists>r. stream_send_data S i data sz es c = Some r"
proof -
  obtain d where d: "ensure_preface_sent S c = Some d" using ensure_preface_total by blast
  from binary_data_total [OF calm_inv [OF ensure_preface_calm [OF d] assms(1)] assms(2), of S i sz es] obtain n e where
    "send_binary_in_data_frame S i data sz es d = Some (n, e)" by (metis surj_pair)
  with d show ?thesis by (auto simp: stream_send_data_def Let_def split: option.splits)
qed

lemma headers_send_returns:
  assumes "headers_fit headers" "has_room (length headers) c"
  shows "\<exists>r. stream_send_headers S i headers es c = Some r" "\<exists>r. stream_send_trailing_headers S i headers c = Some r"
proof -
  obtain d where d: "ensure_preface_sent S c = Some d" "cn_send_record d = cn_send_record c" using preface_kept by blast
  have room: "has_room (length headers) d" using assms(2) room_cong [OF d(2)] by simp
  from binary_headers_return [OF assms(1) room, of S i es] d(1) show "\<exists>r. stream_send_headers S i headers es c = Some r"
    by (auto simp: stream_send_headers_def Let_def split: option.splits)
  from binary_headers_return [OF assms(1) room, of S i True] d(1) show "\<exists>r. stream_send_trailing_headers S i headers c = Some r"
    by (auto simp: stream_send_trailing_headers_def Let_def split: option.splits)
qed

lemma transport_call_returns:
  assumes "user_reach S c" "op_fits (Transport_op m) c" "has_room (fields_of (Transport_op m)) c"
  shows "\<exists>r d. call_transport S m c = Some (r, d)"
proof (cases m)
  case (Call_SendSettings settings)
  with assms(2) settings_send_returns [of settings S c] show ?thesis by auto
next
  case (Call_SendPing info)
  with ping_send_returns [of S info c] show ?thesis by auto
next
  case (Call_SendGoAway err i debug)
  with assms(2) send_goaway_total [of debug S err i c] show ?thesis by auto
next
  case (Call_SendPushPromise request headers)
  show ?thesis
  proof (cases request)
    case (Some i)
    with Call_SendPushPromise assms(2,3) push_promise_returns_sent [of headers c S i] show ?thesis by auto
  qed (simp add: Call_SendPushPromise)
next
  case (Call_ReceivedData buf)
  have "compressor_ok (cn_send_record c)" using assms(3) within_ok by (auto simp: has_room_def)
  from receiving_returns [OF assms(1) this, of buf] assms(2) Call_ReceivedData show ?thesis by auto
next
  case Call_Drain
  with drain_call_returns [of S c] show ?thesis by auto
next
  case Call_Shutdown
  with goaway_total [of S "error_code NoError" c] show ?thesis by (auto simp: Shutdown_def)
next
  case (Call_SendWindowUpdate i inc)
  obtain ok d where "SendWindowUpdate S i inc c = Some (ok, d)"
    unfolding SendWindowUpdate_def by (metis send_window_update_total surj_pair)
  with Call_SendWindowUpdate show ?thesis by simp
qed (auto split: prod.splits)

lemma stream_call_returns:
  assumes "user_reach S c" "op_fits (Stream_op i m) c" "has_room (fields_of (Stream_op i m)) c"
  shows "\<exists>ok d. call_stream S i m (Some c) = Some (ok, Some d)"
proof (cases m)
  case (Send_Headers headers es)
  with assms(2,3) headers_send_returns(1) [of headers c S i es] show ?thesis by (auto simp: call_stream_def)
next
  case (Send_Data data es)
  with assms(2) have "length data < 2 ^ 32" by simp
  from data_send_returns [OF user_reach_inv [OF assms(1)] this, of S i "word_of_nat (length data)" es] Send_Data
  show ?thesis by (auto simp: call_stream_def)
next
  case (Send_TrailingHeaders headers)
  with assms(2,3) headers_send_returns(2) [of headers c S i] show ?thesis by (auto simp: call_stream_def)
next
  case (Send_RSTStream err)
  with rst_stream_returns [of S i err c] show ?thesis by (auto simp: call_stream_def stream_send_rst_stream_def)
qed



end
