(* ===== verification/Slice_Storage.thy ===== *)
theory Slice_Storage
  imports Slice "HOL-Library.Multiset"
begin

text \<open>
  Model of the storage of \<^verbatim>\<open>src/utils/slice.cc\<close>, under the contents that theory Slice models. A
  slice object has the three fields of \<^verbatim>\<open>class slice\<close>. An allocated block is a reference count, kept at its
  32 bits, and the bytes that follow it; a block that was freed is outside the domain of
  \<open>blocks\<close>, and an access to it has no value. The address that \<^verbatim>\<open>malloc\<close> returns is an argument
  of the constructors; it is any address not in use, also one used before.
  \<^verbatim>\<open>malloc\<close> does not fail here: the code does not test for it.
\<close>

section \<open>Objects and memory\<close>

datatype refs_ptr = No_Refs | Sentinel | Block nat

text \<open>A pointer to bytes: into the bytes of a block, or into an array of the caller.\<close>

datatype bytes_ptr = Null | In_Block nat nat | External nat nat

record slice_obj =
  s_refs :: refs_ptr
  s_length :: nat
  s_bytes :: bytes_ptr

record ref_block =
  rc_refs :: u32
  rc_bytes :: bytes

record slice_heap =
  blocks :: "nat \<rightharpoonup> ref_block"
  arrays :: "nat \<rightharpoonup> bytes"

fun ptr_add :: "bytes_ptr \<Rightarrow> nat \<Rightarrow> bytes_ptr" where
  "ptr_add Null n = Null"
| "ptr_add (In_Block b i) n = In_Block b (i + n)"
| "ptr_add (External a i) n = External a (i + n)"

definition sub_bytes :: "bytes \<Rightarrow> nat \<Rightarrow> nat \<Rightarrow> bytes option" where
  "sub_bytes bs i n = (if i + n \<le> length bs then Some (take n (drop i bs)) else None)"

text \<open>The \<open>n\<close> bytes at a pointer; a range that is not in memory has no value.\<close>

fun read_bytes :: "slice_heap \<Rightarrow> bytes_ptr \<Rightarrow> nat \<Rightarrow> bytes option" where
  "read_bytes h Null n = (if n = 0 then Some [] else None)"
| "read_bytes h (In_Block b i) n = (case blocks h b of None \<Rightarrow> None | Some blk \<Rightarrow> sub_bytes (rc_bytes blk) i n)"
| "read_bytes h (External a i) n = (case arrays h a of None \<Rightarrow> None | Some bs \<Rightarrow> sub_bytes bs i n)"

text \<open>\<^verbatim>\<open>memcpy\<close> into the bytes of a block; nothing in the code writes to an array of the caller.\<close>

fun write_bytes :: "slice_heap \<Rightarrow> bytes_ptr \<Rightarrow> bytes \<Rightarrow> slice_heap option" where
  "write_bytes h (In_Block b i) bs =
     (case blocks h b of
        None \<Rightarrow> None
      | Some blk \<Rightarrow>
          (if i + length bs \<le> length (rc_bytes blk) then
             Some (h\<lparr>blocks := (blocks h)(b \<mapsto> blk\<lparr>rc_bytes :=
               take i (rc_bytes blk) @ bs @ drop (i + length bs) (rc_bytes blk)\<rparr>)\<rparr>)
           else None))"
| "write_bytes h p bs = None"

section \<open>The reference count\<close>

text \<open>\<open>malloc\<close> and the constructor of \<^verbatim>\<open>slice_refcount\<close>: the count starts at one.\<close>

definition new_block :: "slice_heap \<Rightarrow> nat \<Rightarrow> bytes \<Rightarrow> slice_heap" where
  "new_block h b bs = h\<lparr>blocks := (blocks h)(b \<mapsto> \<lparr>rc_refs = 1, rc_bytes = bs\<rparr>)\<rparr>"

definition refcount_ref :: "slice_heap \<Rightarrow> nat \<Rightarrow> slice_heap option" where
  "refcount_ref h b =
     (case blocks h b of
        None \<Rightarrow> None
      | Some blk \<Rightarrow> Some (h\<lparr>blocks := (blocks h)(b \<mapsto> blk\<lparr>rc_refs := rc_refs blk + 1\<rparr>)\<rparr>))"

definition refcount_unref :: "slice_heap \<Rightarrow> nat \<Rightarrow> slice_heap option" where
  "refcount_unref h b =
     (case blocks h b of
        None \<Rightarrow> None
      | Some blk \<Rightarrow>
          (let n = rc_refs blk in
           if n = 1 then Some (h\<lparr>blocks := (blocks h)(b := None)\<rparr>)
           else Some (h\<lparr>blocks := (blocks h)(b \<mapsto> blk\<lparr>rc_refs := n - 1\<rparr>)\<rparr>)))"

section \<open>Constructors, destructor and assignment\<close>

definition slice_empty_obj :: slice_obj where
  "slice_empty_obj = \<lparr>s_refs = No_Refs, s_length = 0, s_bytes = Null\<rparr>"

text \<open>\<^verbatim>\<open>slice(const char *ptr, size_t len)\<close>; \<open>None\<close> for \<open>ptr\<close> is the null pointer.\<close>

definition slice_construct :: "slice_heap \<Rightarrow> nat \<Rightarrow> bytes option \<Rightarrow> nat \<Rightarrow> (slice_obj \<times> slice_heap) option" where
  "slice_construct h b ptr len =
     (if len = 0 then Some (slice_empty_obj, h)
      else (case ptr of
        None \<Rightarrow> Some (slice_empty_obj, h)
      | Some bs \<Rightarrow>
          (case sub_bytes bs 0 len of
             None \<Rightarrow> None
           | Some src \<Rightarrow>
               Some (\<lparr>s_refs = Block b, s_length = len, s_bytes = In_Block b 0\<rparr>, new_block h b src))))"

definition slice_destroy :: "slice_heap \<Rightarrow> slice_obj \<Rightarrow> slice_heap option" where
  "slice_destroy h s = (case s_refs s of Block b \<Rightarrow> refcount_unref h b | _ \<Rightarrow> Some h)"

text \<open>The test and the \<open>ref\<close> that the copy constructor and the copy assignment share.\<close>

definition slice_share :: "slice_heap \<Rightarrow> slice_obj \<Rightarrow> slice_heap option" where
  "slice_share h oth = (case s_refs oth of Block b \<Rightarrow> refcount_ref h b | _ \<Rightarrow> Some h)"

definition slice_copy_construct :: "slice_heap \<Rightarrow> slice_obj \<Rightarrow> (slice_obj \<times> slice_heap) option" where
  "slice_copy_construct h oth =
     do {
       h \<leftarrow> slice_share h oth;
       Some (\<lparr>s_refs = s_refs oth, s_length = s_length oth, s_bytes = s_bytes oth\<rparr>, h)
     }"

text \<open>The assignments once \<^verbatim>\<open>this != &oth\<close>; the result is the new \<open>*this\<close>, for the move also \<open>oth\<close>.\<close>

definition slice_copy_assign :: "slice_heap \<Rightarrow> slice_obj \<Rightarrow> slice_obj \<Rightarrow> (slice_obj \<times> slice_heap) option" where
  "slice_copy_assign h this oth =
     do {
       h \<leftarrow> slice_destroy h this;
       h \<leftarrow> slice_share h oth;
       Some (\<lparr>s_refs = s_refs oth, s_length = s_length oth, s_bytes = s_bytes oth\<rparr>, h)
     }"

definition slice_move_construct :: "slice_obj \<Rightarrow> slice_obj \<times> slice_obj" where
  "slice_move_construct oth =
     (\<lparr>s_refs = s_refs oth, s_length = s_length oth, s_bytes = s_bytes oth\<rparr>,
      oth\<lparr>s_refs := No_Refs, s_length := 0, s_bytes := Null\<rparr>)"

definition slice_move_assign ::
  "slice_heap \<Rightarrow> slice_obj \<Rightarrow> slice_obj \<Rightarrow> (slice_obj \<times> slice_obj \<times> slice_heap) option" where
  "slice_move_assign h this oth =
     do {
       h \<leftarrow> slice_destroy h this;
       Some (\<lparr>s_refs = s_refs oth, s_length = s_length oth, s_bytes = s_bytes oth\<rparr>,
             oth\<lparr>s_refs := No_Refs, s_length := 0, s_bytes := Null\<rparr>, h)
     }"

text \<open>\<open>MakeStaticSlice\<close> on \<open>len\<close> bytes of an array of the caller, \<open>MakeSliceByLength\<close> with the bytes
  that happen to be in the memory \<^verbatim>\<open>malloc\<close> returns.\<close>

definition static_slice :: "bytes_ptr \<Rightarrow> nat \<Rightarrow> slice_obj" where
  "static_slice ptr len =
     (if len = 0 \<or> ptr = Null then slice_empty_obj
      else \<lparr>s_refs = Sentinel, s_length = len, s_bytes = ptr\<rparr>)"

definition sized_slice :: "slice_heap \<Rightarrow> nat \<Rightarrow> (nat \<Rightarrow> u8) \<Rightarrow> nat \<Rightarrow> slice_obj \<times> slice_heap" where
  "sized_slice h b junk len =
     (if len = 0 then (slice_empty_obj, h)
      else (\<lparr>s_refs = Block b, s_length = len, s_bytes = In_Block b 0\<rparr>,
            new_block h b (map junk [0..<len])))"

section \<open>Contents\<close>

definition obj_pop_back :: "slice_obj \<Rightarrow> nat \<Rightarrow> slice_obj" where
  "obj_pop_back s remove_size =
     (if remove_size = 0 then s
      else (let r = (if remove_size > s_length s then s_length s else remove_size) in
        s\<lparr>s_length := s_length s - r\<rparr>))"

definition obj_pop_front :: "slice_obj \<Rightarrow> nat \<Rightarrow> slice_obj" where
  "obj_pop_front s remove_size =
     (if remove_size = 0 then s
      else (let r = (if remove_size > s_length s then s_length s else remove_size) in
        s\<lparr>s_length := s_length s - r, s_bytes := ptr_add (s_bytes s) r\<rparr>))"

definition obj_to_string :: "slice_heap \<Rightarrow> slice_obj \<Rightarrow> bytes option" where
  "obj_to_string h s = read_bytes h (s_bytes s) (s_length s)"

definition obj_empty :: "slice_obj \<Rightarrow> bool" where
  "obj_empty s \<longleftrightarrow> s_length s = 0"

definition obj_compare :: "slice_heap \<Rightarrow> slice_obj \<Rightarrow> bytes \<Rightarrow> bool option" where
  "obj_compare h this s =
     (if s = [] \<and> obj_empty this then Some True
      else if length s \<noteq> s_length this then Some False
      else do { a \<leftarrow> read_bytes h (s_bytes this) (s_length this); Some (memcmp_eq a s (s_length this)) })"

definition obj_eq :: "slice_heap \<Rightarrow> slice_obj \<Rightarrow> slice_obj \<Rightarrow> bool option" where
  "obj_eq h this s =
     (if obj_empty s \<and> obj_empty this then Some True
      else if s_length s \<noteq> s_length this then Some False
      else do {
        a \<leftarrow> read_bytes h (s_bytes this) (s_length this);
        b \<leftarrow> read_bytes h (s_bytes s) (s_length this);
        Some (memcmp_eq a b (s_length this))
      })"

text \<open>The body of \<^verbatim>\<open>operator+\<close>, on its two parameters.\<close>

definition obj_plus :: "slice_heap \<Rightarrow> nat \<Rightarrow> (nat \<Rightarrow> u8) \<Rightarrow> slice_obj \<Rightarrow> slice_obj \<Rightarrow> (slice_obj \<times> slice_heap) option" where
  "obj_plus h b junk s1 s2 =
     (if obj_empty s1 \<and> obj_empty s2 then Some (slice_empty_obj, h)
      else do {
        let (s, h) = sized_slice h b junk (s_length s1 + s_length s2);
        let buff = s_bytes s;
        (h, buff) \<leftarrow>
          (if \<not> obj_empty s1 then do {
             bs \<leftarrow> read_bytes h (s_bytes s1) (s_length s1);
             h \<leftarrow> write_bytes h buff bs;
             Some (h, ptr_add buff (s_length s1))
           } else Some (h, buff));
        h \<leftarrow>
          (if \<not> obj_empty s2 then do {
             bs \<leftarrow> read_bytes h (s_bytes s2) (s_length s2);
             write_bytes h buff bs
           } else Some h);
        Some (s, h)
      })"

text \<open>A call \<^verbatim>\<open>a + b\<close>: the parameters are copies, and they are destroyed at the end of the call.\<close>

definition call_plus :: "slice_heap \<Rightarrow> nat \<Rightarrow> (nat \<Rightarrow> u8) \<Rightarrow> slice_obj \<Rightarrow> slice_obj \<Rightarrow> (slice_obj \<times> slice_heap) option" where
  "call_plus h b junk a1 a2 =
     do {
       (s1, h) \<leftarrow> slice_copy_construct h a1;
       (s2, h) \<leftarrow> slice_copy_construct h a2;
       (r, h) \<leftarrow> obj_plus h b junk s1 s2;
       h \<leftarrow> slice_destroy h s2;
       h \<leftarrow> slice_destroy h s1;
       Some (r, h)
     }"

text \<open>\<open>+=\<close> moves the sum into \<open>*this\<close>; \<open>assign\<close> copies a local object. The temporary or local object is
  destroyed at the end.\<close>

definition obj_append :: "slice_heap \<Rightarrow> nat \<Rightarrow> (nat \<Rightarrow> u8) \<Rightarrow> slice_obj \<Rightarrow> slice_obj \<Rightarrow> (slice_obj \<times> slice_heap) option" where
  "obj_append h b junk this s =
     do {
       (sum, h) \<leftarrow> call_plus h b junk this s;
       (this, sum, h) \<leftarrow> slice_move_assign h this sum;
       h \<leftarrow> slice_destroy h sum;
       Some (this, h)
     }"

definition obj_assign :: "slice_heap \<Rightarrow> nat \<Rightarrow> slice_obj \<Rightarrow> bytes \<Rightarrow> (slice_obj \<times> slice_heap) option" where
  "obj_assign h b this s =
     do {
       (obj, h) \<leftarrow> slice_construct h b (Some s) (length s);
       (this, h) \<leftarrow> slice_copy_assign h this obj;
       h \<leftarrow> slice_destroy h obj;
       Some (this, h)
     }"

section \<open>A program that uses slices\<close>

text \<open>
  The slice objects of a program by name, and its operations: the declarations of the first group
  create an object, the others work on existing ones. A program that follows the header writes through
  \<open>mutable_data\<close> only into a block of its own, and gives \<open>MakeStaticSlice\<close> a range of an array
  that outlives the slice. An address from \<open>malloc\<close> is not in use.
\<close>

record slice_program =
  s_heap :: slice_heap
  s_vars :: "nat \<rightharpoonup> slice_obj"

datatype slice_op =
    New nat nat "bytes option" nat
  | New_Static nat nat nat nat
  | New_Sized nat nat "nat \<Rightarrow> u8" nat
  | New_Copy nat nat
  | New_Move nat nat
  | New_Sum nat nat "nat \<Rightarrow> u8" nat nat
  | Copy_Assign nat nat
  | Move_Assign nat nat
  | Append nat nat "nat \<Rightarrow> u8" nat
  | Assign_String nat nat bytes
  | Pop_Front nat nat
  | Pop_Back nat nat
  | Store_Byte nat nat u8
  | Destroy nat

text \<open>What the caller and \<open>malloc\<close> promise of an operation.\<close>

definition declared :: "slice_program \<Rightarrow> nat \<Rightarrow> bool" where
  "declared p x \<longleftrightarrow> s_vars p x \<noteq> None"

fun op_allowed :: "slice_program \<Rightarrow> slice_op \<Rightarrow> bool" where
  "op_allowed p (New x b ptr n) =
     (\<not> declared p x \<and> blocks (s_heap p) b = None \<and> (case ptr of None \<Rightarrow> True | Some bs \<Rightarrow> n \<le> length bs))"
| "op_allowed p (New_Static x a i n) =
     (\<not> declared p x \<and> (case arrays (s_heap p) a of None \<Rightarrow> False | Some bs \<Rightarrow> i + n \<le> length bs))"
| "op_allowed p (New_Sized x b junk n) = (\<not> declared p x \<and> blocks (s_heap p) b = None)"
| "op_allowed p (New_Copy x y) = (\<not> declared p x \<and> declared p y)"
| "op_allowed p (New_Move x y) = (\<not> declared p x \<and> declared p y)"
| "op_allowed p (New_Sum x b junk y z) =
     (\<not> declared p x \<and> declared p y \<and> declared p z \<and> blocks (s_heap p) b = None)"
| "op_allowed p (Copy_Assign x y) = (declared p x \<and> declared p y)"
| "op_allowed p (Move_Assign x y) = (declared p x \<and> declared p y)"
| "op_allowed p (Append x b junk y) = (declared p x \<and> declared p y \<and> blocks (s_heap p) b = None)"
| "op_allowed p (Assign_String x b s) = (declared p x \<and> blocks (s_heap p) b = None)"
| "op_allowed p (Pop_Front x n) = declared p x"
| "op_allowed p (Pop_Back x n) = declared p x"
| "op_allowed p (Store_Byte x i v) =
     (case s_vars p x of
        None \<Rightarrow> False
      | Some s \<Rightarrow> i < s_length s \<and>
          (case s_refs s of
             Block b \<Rightarrow> (case blocks (s_heap p) b of None \<Rightarrow> False | Some blk \<Rightarrow> rc_refs blk = 1)
           | _ \<Rightarrow> False))"
| "op_allowed p (Destroy x) = declared p x"

text \<open>Storing an object, possibly with the heap it comes with.\<close>

definition put_obj :: "slice_program \<Rightarrow> nat \<Rightarrow> slice_obj \<times> slice_heap \<Rightarrow> slice_program" where
  "put_obj p x r = p\<lparr>s_heap := snd r, s_vars := (s_vars p)(x \<mapsto> fst r)\<rparr>"

fun op_exec :: "slice_program \<Rightarrow> slice_op \<Rightarrow> slice_program option" where
  "op_exec p (New x b ptr n) = map_option (put_obj p x) (slice_construct (s_heap p) b ptr n)"
| "op_exec p (New_Static x a i n) = Some (put_obj p x (static_slice (External a i) n, s_heap p))"
| "op_exec p (New_Sized x b junk n) = Some (put_obj p x (sized_slice (s_heap p) b junk n))"
| "op_exec p (New_Copy x y) =
     do { t \<leftarrow> s_vars p y; map_option (put_obj p x) (slice_copy_construct (s_heap p) t) }"
| "op_exec p (New_Move x y) =
     do {
       t \<leftarrow> s_vars p y;
       let (s, t) = slice_move_construct t;
       Some (put_obj (put_obj p y (t, s_heap p)) x (s, s_heap p))
     }"
| "op_exec p (New_Sum x b junk y z) =
     do { s \<leftarrow> s_vars p y; t \<leftarrow> s_vars p z; map_option (put_obj p x) (call_plus (s_heap p) b junk s t) }"
| "op_exec p (Copy_Assign x y) =
     (if x = y then Some p
      else do { s \<leftarrow> s_vars p x; t \<leftarrow> s_vars p y; map_option (put_obj p x) (slice_copy_assign (s_heap p) s t) })"
| "op_exec p (Move_Assign x y) =
     (if x = y then Some p
      else do {
        s \<leftarrow> s_vars p x;
        t \<leftarrow> s_vars p y;
        (s, t, h) \<leftarrow> slice_move_assign (s_heap p) s t;
        Some (put_obj (put_obj p y (t, h)) x (s, h))
      })"
| "op_exec p (Append x b junk y) =
     do { s \<leftarrow> s_vars p x; t \<leftarrow> s_vars p y; map_option (put_obj p x) (obj_append (s_heap p) b junk s t) }"
| "op_exec p (Assign_String x b bs) =
     do { s \<leftarrow> s_vars p x; map_option (put_obj p x) (obj_assign (s_heap p) b s bs) }"
| "op_exec p (Pop_Front x n) = do { s \<leftarrow> s_vars p x; Some (put_obj p x (obj_pop_front s n, s_heap p)) }"
| "op_exec p (Pop_Back x n) = do { s \<leftarrow> s_vars p x; Some (put_obj p x (obj_pop_back s n, s_heap p)) }"
| "op_exec p (Store_Byte x i v) =
     do {
       s \<leftarrow> s_vars p x;
       h \<leftarrow> write_bytes (s_heap p) (ptr_add (s_bytes s) i) [v];
       Some (p\<lparr>s_heap := h\<rparr>)
     }"
| "op_exec p (Destroy x) =
     do {
       s \<leftarrow> s_vars p x;
       h \<leftarrow> slice_destroy (s_heap p) s;
       Some (p\<lparr>s_heap := h, s_vars := (s_vars p)(x := None)\<rparr>)
     }"

text \<open>
  The programs considered: they start with no object and no block, with the arrays \<open>ar\<close> of the
  caller, and they never have \<open>2 ^ 31\<close> slices at once, so that the 32 bits of a count do not wrap.
\<close>

definition slice_limit :: nat where
  "slice_limit = 2 ^ 31"

inductive slice_run :: "(nat \<rightharpoonup> bytes) \<Rightarrow> slice_program \<Rightarrow> bool" for ar :: "nat \<rightharpoonup> bytes" where
  start: "slice_run ar \<lparr>s_heap = \<lparr>blocks = Map.empty, arrays = ar\<rparr>, s_vars = Map.empty\<rparr>"
| operation: "slice_run ar p \<Longrightarrow> op_allowed p op \<Longrightarrow> op_exec p op = Some p' \<Longrightarrow>
    card (dom (s_vars p')) < slice_limit \<Longrightarrow> slice_run ar p'"

section \<open>The specification: slices are values\<close>

fun value_exec :: "(nat \<rightharpoonup> bytes) \<Rightarrow> (nat \<rightharpoonup> slice) \<Rightarrow> slice_op \<Rightarrow> (nat \<rightharpoonup> slice)" where
  "value_exec ar v (New x b ptr n) = v(x \<mapsto> (case ptr of None \<Rightarrow> [] | Some bs \<Rightarrow> slice_copy bs n))"
| "value_exec ar v (New_Static x a i n) = v(x := MakeStaticSlice (drop i (the (ar a))) n)"
| "value_exec ar v (New_Sized x b junk n) = v(x \<mapsto> map junk [0..<n])"
| "value_exec ar v (New_Copy x y) = v(x := v y)"
| "value_exec ar v (New_Move x y) = v(x := v y, y \<mapsto> [])"
| "value_exec ar v (New_Sum x b junk y z) = v(x \<mapsto> slice_plus (the (v y)) (the (v z)))"
| "value_exec ar v (Copy_Assign x y) = v(x := v y)"
| "value_exec ar v (Move_Assign x y) = (if x = y then v else v(x := v y, y \<mapsto> []))"
| "value_exec ar v (Append x b junk y) = v(x \<mapsto> slice_plus (the (v x)) (the (v y)))"
| "value_exec ar v (Assign_String x b bs) = v(x \<mapsto> bs)"
| "value_exec ar v (Pop_Front x n) = v(x \<mapsto> slice_pop_front (the (v x)) n)"
| "value_exec ar v (Pop_Back x n) = v(x \<mapsto> slice_pop_back (the (v x)) n)"
| "value_exec ar v (Store_Byte x i b) = v(x \<mapsto> (the (v x))[i := b])"
| "value_exec ar v (Destroy x) = v(x := None)"

text \<open>The value of every object of a program.\<close>

definition slice_values :: "slice_program \<Rightarrow> (nat \<rightharpoonup> slice)" where
  "slice_values p x = (case s_vars p x of None \<Rightarrow> None | Some s \<Rightarrow> obj_to_string (s_heap p) s)"

end
