(* ===== verification/Slice_Storage_Properties.thy ===== *)
theory Slice_Storage_Properties
  imports Slice_Storage
begin

text \<open>
  Reference counting is correct: each block counts the objects that point to it, a block exists
  as long as an object does, and the operations act on the objects as if each had bytes of its own.
\<close>

section \<open>The invariant\<close>

definition obj_ok :: "slice_heap \<Rightarrow> slice_obj \<Rightarrow> bool" where
  "obj_ok h s \<longleftrightarrow>
     (case s_refs s of
        No_Refs \<Rightarrow> s = slice_empty_obj
      | Sentinel \<Rightarrow> \<exists>a i bs. s_bytes s = External a i \<and> arrays h a = Some bs \<and> i + s_length s \<le> length bs
      | Block b \<Rightarrow> \<exists>i blk. s_bytes s = In_Block b i \<and> blocks h b = Some blk \<and> i + s_length s \<le> length (rc_bytes blk))"

definition owners :: "slice_obj multiset \<Rightarrow> nat \<Rightarrow> nat" where
  "owners os b = size {# s \<in># os. s_refs s = Block b #}"

definition heap_ok :: "slice_heap \<Rightarrow> slice_obj multiset \<Rightarrow> bool" where
  "heap_ok h os \<longleftrightarrow>
     (\<forall>s \<in># os. obj_ok h s) \<and>
     (\<forall>b. blocks h b = None \<longleftrightarrow> owners os b = 0) \<and>
     (\<forall>b blk. blocks h b = Some blk \<longrightarrow> rc_refs blk = of_nat (owners os b))"

text \<open>The objects of \<open>os\<close> show the same bytes in both heaps.\<close>

definition same_contents :: "slice_heap \<Rightarrow> slice_heap \<Rightarrow> slice_obj multiset \<Rightarrow> bool" where
  "same_contents h h' os \<longleftrightarrow> arrays h' = arrays h \<and> (\<forall>s \<in># os. obj_to_string h' s = obj_to_string h s)"

lemma same_contents_refl [simp]: "same_contents h h os"
  by (simp add: same_contents_def)

lemma same_contents_trans: "same_contents h h' os \<Longrightarrow> same_contents h' h'' os \<Longrightarrow> same_contents h h'' os"
  by (simp add: same_contents_def)

lemma same_contents_mono: "same_contents h h' os \<Longrightarrow> os' \<subseteq># os \<Longrightarrow> same_contents h h' os'"
  by (auto simp: same_contents_def dest: mset_subset_eqD)

lemma slice_obj_fields [simp]: "\<lparr>s_refs = s_refs s, s_length = s_length s, s_bytes = s_bytes s\<rparr> = s"
  by (cases s) simp

lemma owners_add [simp]: "owners (add_mset s os) b = (if s_refs s = Block b then Suc (owners os b) else owners os b)"
  "owners {#} b = 0"
  by (simp_all add: owners_def)

lemma owners_le: "owners os b \<le> size os"
  unfolding owners_def by (rule size_filter_mset_lesseq)

lemma owners_pos: "s \<in># os \<Longrightarrow> s_refs s = Block b \<Longrightarrow> owners os b \<noteq> 0"
  by (auto simp: owners_def)

lemma heap_okD: "heap_ok h os \<Longrightarrow> s \<in># os \<Longrightarrow> obj_ok h s"
  by (simp add: heap_ok_def)

lemma heap_ok_block:
  assumes "heap_ok h os" "s \<in># os" "s_refs s = Block b"
  obtains blk where "blocks h b = Some blk" "rc_refs blk = of_nat (owners os b)"
  using assms owners_pos [of s os b] by (cases "blocks h b") (auto simp: heap_ok_def)

lemma heap_ok_count: "heap_ok h os \<Longrightarrow> blocks h b = Some blk \<Longrightarrow> rc_refs blk = of_nat (owners os b)"
  by (simp add: heap_ok_def)

lemma heap_ok_free: "heap_ok h os \<Longrightarrow> blocks h b = None \<longleftrightarrow> owners os b = 0"
  by (simp add: heap_ok_def)

lemma obj_cong:
  assumes "arrays h' = arrays h"
    and "\<And>b. s_refs s = Block b \<Longrightarrow> map_option rc_bytes (blocks h' b) = map_option rc_bytes (blocks h b)"
    and "obj_ok h s"
  shows "obj_ok h' s" "obj_to_string h' s = obj_to_string h s"
  using assms
  by (auto simp: obj_ok_def obj_to_string_def slice_empty_obj_def split: refs_ptr.splits option.splits)

text \<open>Every object has contents, of its length.\<close>

lemma obj_string: "obj_ok h s \<Longrightarrow> \<exists>bs. obj_to_string h s = Some bs \<and> length bs = s_length s"
  by (auto simp: obj_ok_def obj_to_string_def slice_empty_obj_def sub_bytes_def split: refs_ptr.splits)

text \<open>
  A change of the heap: the blocks of the objects in \<open>kept\<close> keep their bytes, every other object
  is well formed after it, and the counts are those of \<open>os'\<close>.
\<close>

lemma heap_change:
  assumes ok: "heap_ok h os" and kept: "\<And>s. s \<in># kept \<Longrightarrow> s \<in># os"
    and new: "\<And>s. s \<in># os' \<Longrightarrow> s \<in># kept \<or> obj_ok h' s"
    and ar: "arrays h' = arrays h"
    and bytes: "\<And>b. owners kept b \<noteq> 0 \<Longrightarrow> map_option rc_bytes (blocks h' b) = map_option rc_bytes (blocks h b)"
    and free: "\<And>b. blocks h' b = None \<longleftrightarrow> owners os' b = 0"
    and count: "\<And>b blk. blocks h' b = Some blk \<Longrightarrow> rc_refs blk = of_nat (owners os' b)"
  shows "heap_ok h' os' \<and> same_contents h h' kept"
proof -
  have "obj_ok h' s \<and> obj_to_string h' s = obj_to_string h s" if "s \<in># kept" for s
    using obj_cong [OF ar _ heap_okD [OF ok kept [OF that]]] bytes owners_pos [OF that] by blast
  then show ?thesis using new free count ar by (auto simp: heap_ok_def same_contents_def)
qed

section \<open>Sharing and releasing\<close>

lemma heap_ok_plain:
  assumes "\<And>b. s_refs s \<noteq> Block b"
  shows "heap_ok h (add_mset s os) \<longleftrightarrow> obj_ok h s \<and> heap_ok h os"
  using assms by (auto simp: heap_ok_def)

lemma share_ok:
  assumes ok: "heap_ok h os" and s: "s \<in># os"
  shows "\<exists>h'. slice_share h s = Some h' \<and> heap_ok h' (add_mset s os) \<and> same_contents h h' (add_mset s os)"
proof (cases "\<exists>b. s_refs s = Block b")
  case True
  then obtain b where b: "s_refs s = Block b" by blast
  obtain blk where blk: "blocks h b = Some blk" "rc_refs blk = of_nat (owners os b)"
    using heap_ok_block [OF ok s b] .
  let ?h = "h\<lparr>blocks := (blocks h)(b \<mapsto> blk\<lparr>rc_refs := rc_refs blk + 1\<rparr>)\<rparr>"
  have "heap_ok ?h (add_mset s os) \<and> same_contents h ?h (add_mset s os)"
    by (rule heap_change [OF ok, where kept = "add_mset s os"])
      (use s blk b heap_ok_count [OF ok] heap_ok_free [OF ok] in \<open>auto split: if_splits\<close>)
  then show ?thesis using b blk by (simp add: slice_share_def refcount_ref_def)
next
  case False
  then show ?thesis using ok heap_okD [OF ok s] heap_ok_plain [of s h os]
    by (auto simp: slice_share_def split: refs_ptr.splits)
qed

lemma word_of_nat_eq_1: "n < 2 ^ 32 \<Longrightarrow> (of_nat n :: u32) = 1 \<longleftrightarrow> n = 1"
  using unat_of_nat_u32 [of n] by (metis of_nat_1 unat_1)

lemma destroy_ok:
  assumes ok: "heap_ok h (add_mset s os)" and few: "size os < 2 ^ 32 - 1"
  shows "\<exists>h'. slice_destroy h s = Some h' \<and> heap_ok h' os \<and> same_contents h h' os"
proof (cases "\<exists>b. s_refs s = Block b")
  case True
  then obtain b where b: "s_refs s = Block b" by blast
  obtain blk where blk: "blocks h b = Some blk" "rc_refs blk = of_nat (Suc (owners os b))"
    using heap_ok_block [OF ok _ b] b by auto
  have one: "rc_refs blk = 1 \<longleftrightarrow> owners os b = 0"
    using few owners_le [of os b] word_of_nat_eq_1 [of "Suc (owners os b)"] by (simp add: blk del: of_nat_Suc)
  let ?h = "if rc_refs blk = 1 then h\<lparr>blocks := (blocks h)(b := None)\<rparr>
            else h\<lparr>blocks := (blocks h)(b \<mapsto> blk\<lparr>rc_refs := rc_refs blk - 1\<rparr>)\<rparr>"
  have other: "blocks h b' = None \<longleftrightarrow> owners os b' = 0"
    "blocks h b' = Some blk' \<Longrightarrow> rc_refs blk' = of_nat (owners os b')" if "b' \<noteq> b" for b' blk'
    using heap_ok_free [OF ok, of b'] heap_ok_count [OF ok, of b' blk'] that b by auto
  have "heap_ok ?h os \<and> same_contents h ?h os"
  proof (rule heap_change [OF ok, where kept = os])
    show "blocks ?h b' = None \<longleftrightarrow> owners os b' = 0" for b' using one other by auto
    show "rc_refs blk' = of_nat (owners os b')" if "blocks ?h b' = Some blk'" for b' blk'
      using that one other blk(2) by (cases "b' = b") (auto split: if_splits)
    show "map_option rc_bytes (blocks ?h b') = map_option rc_bytes (blocks h b')" if "owners os b' \<noteq> 0" for b'
      using that one blk(1) by auto
  qed auto
  then show ?thesis using b blk by (auto simp: slice_destroy_def refcount_unref_def Let_def)
next
  case False
  then show ?thesis using ok heap_ok_plain [of s h os]
    by (auto simp: slice_destroy_def split: refs_ptr.splits)
qed

section \<open>New objects\<close>

text \<open>An operation that returns an object with the bytes \<open>v\<close> and leaves the objects of \<open>os\<close> as they are.\<close>

definition gives :: "slice_heap \<Rightarrow> slice_obj multiset \<Rightarrow> (slice_obj \<times> slice_heap) option \<Rightarrow> bytes \<Rightarrow> bool" where
  "gives h os r v \<longleftrightarrow>
     (\<exists>s h'. r = Some (s, h') \<and> heap_ok h' (add_mset s os) \<and> same_contents h h' os \<and> obj_to_string h' s = Some v)"

lemma givesI:
  "heap_ok h' (add_mset s os) \<Longrightarrow> same_contents h h' os \<Longrightarrow> obj_to_string h' s = Some v \<Longrightarrow>
   gives h os (Some (s, h')) v"
  by (simp add: gives_def)

lemma empty_obj_ok [simp]:
  "obj_ok h slice_empty_obj" "obj_to_string h slice_empty_obj = Some []"
  "heap_ok h (add_mset slice_empty_obj os) = heap_ok h os"
  by (auto simp: obj_ok_def slice_empty_obj_def obj_to_string_def heap_ok_def)

lemma gives_empty: "heap_ok h os \<Longrightarrow> gives h os (Some (slice_empty_obj, h)) []"
  by (simp add: givesI)

lemma new_block_ok:
  assumes ok: "heap_ok h os" and b: "blocks h b = None"
  shows "gives h os (Some (\<lparr>s_refs = Block b, s_length = length bs, s_bytes = In_Block b 0\<rparr>, new_block h b bs)) bs"
proof -
  let ?s = "\<lparr>s_refs = Block b, s_length = length bs, s_bytes = In_Block b 0\<rparr>"
  have none: "owners os b = 0" using heap_ok_free [OF ok] b by simp
  have "heap_ok (new_block h b bs) (add_mset ?s os) \<and> same_contents h (new_block h b bs) os"
  proof (rule heap_change [OF ok, where kept = os])
    show "blocks (new_block h b bs) b' = None \<longleftrightarrow> owners (add_mset ?s os) b' = 0" for b'
      using heap_ok_free [OF ok, of b'] by (simp add: new_block_def)
    show "rc_refs blk = of_nat (owners (add_mset ?s os) b')" if "blocks (new_block h b bs) b' = Some blk" for b' blk
      using that heap_ok_count [OF ok, of b' blk] none by (auto simp: new_block_def split: if_splits)
    show "map_option rc_bytes (blocks (new_block h b bs) b') = map_option rc_bytes (blocks h b')"
      if "owners os b' \<noteq> 0" for b' using that none by (auto simp: new_block_def)
  qed (auto simp: new_block_def obj_ok_def)
  then show ?thesis by (auto simp: gives_def obj_to_string_def new_block_def sub_bytes_def)
qed

lemma construct_ok:
  assumes ok: "heap_ok h os" and b: "blocks h b = None" and n: "\<And>bs. ptr = Some bs \<Longrightarrow> n \<le> length bs"
  shows "gives h os (slice_construct h b ptr n) (case ptr of None \<Rightarrow> [] | Some bs \<Rightarrow> slice_copy bs n)"
proof (cases "n = 0 \<or> ptr = None")
  case True
  then show ?thesis using gives_empty [OF ok] by (auto simp: slice_construct_def slice_copy_def split: option.splits)
next
  case False
  then obtain bs where bs: "ptr = Some bs" "n \<le> length bs" using n by auto
  then show ?thesis using False new_block_ok [OF ok b, of "take n bs"]
    by (simp add: slice_construct_def sub_bytes_def slice_copy_def min_absorb2)
qed

lemma sized_ok:
  "heap_ok h os \<Longrightarrow> blocks h b = None \<Longrightarrow> gives h os (Some (sized_slice h b junk n)) (map junk [0..<n])"
  using new_block_ok [of h os b "map junk [0..<n]"] gives_empty [of h os] by (simp add: sized_slice_def)

lemma static_ok:
  assumes ok: "heap_ok h os" and bs: "arrays h a = Some bs" "i + n \<le> length bs"
  shows "gives h os (Some (static_slice (External a i) n, h)) (take n (drop i bs))"
proof (cases "n = 0")
  case False
  then show ?thesis using assms
    by (auto simp: static_slice_def sub_bytes_def obj_to_string_def obj_ok_def heap_ok_plain intro!: givesI)
qed (use gives_empty [OF ok] in \<open>simp add: static_slice_def\<close>)

lemma copy_construct_ok:
  assumes "heap_ok h os" "s \<in># os" "obj_to_string h s = Some v"
  shows "gives h os (slice_copy_construct h s) v"
  using share_ok [OF assms(1,2)] assms(3)
  by (auto simp: slice_copy_construct_def gives_def same_contents_def)

section \<open>Assignment, trimming and writing\<close>

lemma sub_bytes_split: "sub_bytes bs i n = Some v \<longleftrightarrow> (\<exists>pre post. bs = pre @ v @ post \<and> length pre = i \<and> length v = n)"
proof
  assume "sub_bytes bs i n = Some v"
  then have v: "i + n \<le> length bs" "v = take n (drop i bs)" by (auto simp: sub_bytes_def split: if_splits)
  have "bs = take i bs @ v @ drop n (drop i bs)" unfolding v(2) by (simp only: append_take_drop_id)
  then show "\<exists>pre post. bs = pre @ v @ post \<and> length pre = i \<and> length v = n"
    using v(1) by (intro exI [of _ "take i bs"] exI [of _ "drop n (drop i bs)"]) (simp add: v(2))
qed (auto simp: sub_bytes_def)

lemma sub_bytes_front: "sub_bytes bs i n = Some v \<Longrightarrow> k \<le> n \<Longrightarrow> sub_bytes bs (i + k) (n - k) = Some (drop k v)"
  by (auto simp: sub_bytes_def min_def drop_take add.commute split: if_splits)

lemma sub_bytes_back: "sub_bytes bs i n = Some v \<Longrightarrow> k \<le> n \<Longrightarrow> sub_bytes bs i (n - k) = Some (take (n - k) v)"
  by (auto simp: sub_bytes_def min_def split: if_splits)

lemma sub_bytes_write:
  "sub_bytes bs i n = Some v \<Longrightarrow> k + length c \<le> n \<Longrightarrow>
   sub_bytes (take (i + k) bs @ c @ drop (i + k + length c) bs) i n = Some (take k v @ c @ drop (k + length c) v)"
  unfolding sub_bytes_split by (elim exE conjE, rule_tac x = pre in exI, rule_tac x = post in exI) (auto simp: min_def)

lemma copy_assign_ok:
  assumes ok: "heap_ok h (add_mset s os)" and few: "size os < 2 ^ 32 - 1"
    and t: "t \<in># os" "obj_to_string h t = Some v"
  shows "gives h os (slice_copy_assign h s t) v"
proof -
  obtain h1 where 1: "slice_destroy h s = Some h1" "heap_ok h1 os" "same_contents h h1 os"
    using destroy_ok [OF ok few] by blast
  obtain h2 where 2: "slice_share h1 t = Some h2" "heap_ok h2 (add_mset t os)" "same_contents h1 h2 (add_mset t os)"
    using share_ok [OF 1(2) t(1)] by blast
  show ?thesis using 1 2 t by (auto simp: slice_copy_assign_def gives_def same_contents_def)
qed

lemma move_assign_ok:
  assumes ok: "heap_ok h (add_mset s (add_mset t os))" and few: "size os < 2 ^ 32 - 2"
    and t: "obj_to_string h t = Some v"
  shows "\<exists>h'. slice_move_assign h s t = Some (t, slice_empty_obj, h') \<and> heap_ok h' (add_mset t os) \<and>
             same_contents h h' os \<and> obj_to_string h' t = Some v"
  using destroy_ok [OF ok] few t
  by (auto simp: slice_move_assign_def slice_empty_obj_def same_contents_def)

lemma obj_pops:
  "obj_pop_front s n = s\<lparr>s_length := s_length s - min n (s_length s), s_bytes := ptr_add (s_bytes s) (min n (s_length s))\<rparr>"
  "obj_pop_back s n = s\<lparr>s_length := s_length s - min n (s_length s)\<rparr>"
  by (cases s; cases "s_bytes s"; auto simp: obj_pop_front_def obj_pop_back_def min_def)+

lemma pop_obj_ok:
  assumes s: "obj_ok h s" and v: "obj_to_string h s = Some v"
  shows "obj_ok h (obj_pop_front s n)" "obj_to_string h (obj_pop_front s n) = Some (drop n v)"
    "obj_ok h (obj_pop_back s n)" "obj_to_string h (obj_pop_back s n) = Some (take (length v - n) v)"
proof -
  have len: "length v = s_length s" using obj_string [OF s] v by auto
  have front: "Some (drop (min n (s_length s)) v) = Some (drop n v)"
    and rear: "Some (take (s_length s - min n (s_length s)) v) = Some (take (length v - n) v)"
    using len by (auto simp: min_def)
  show "obj_ok h (obj_pop_front s n)" "obj_ok h (obj_pop_back s n)"
    using s by (auto simp: obj_pops obj_ok_def slice_empty_obj_def split: refs_ptr.splits)
  show "obj_to_string h (obj_pop_front s n) = Some (drop n v)"
    unfolding front [symmetric] using s v sub_bytes_front [of _ _ "s_length s" v "min n (s_length s)"]
    by (cases "s_bytes s") (auto simp: obj_pops obj_to_string_def split: option.splits if_splits)
  show "obj_to_string h (obj_pop_back s n) = Some (take (length v - n) v)"
    unfolding rear [symmetric] using s v sub_bytes_back [of _ _ "s_length s" v "min n (s_length s)"]
    by (cases "s_bytes s") (auto simp: obj_pops obj_to_string_def split: option.splits if_splits)
qed

lemma pop_ok:
  assumes ok: "heap_ok h (add_mset s os)" and v: "obj_to_string h s = Some v"
  shows "gives h os (Some (obj_pop_front s n, h)) (slice_pop_front v n)"
    "gives h os (Some (obj_pop_back s n, h)) (slice_pop_back v n)"
proof -
  have s: "obj_ok h s" using heap_okD [OF ok] by simp
  have "heap_ok h (add_mset t os)" if "obj_ok h t" "s_refs t = s_refs s" for t
    using ok that by (auto simp: heap_ok_def)
  then show "gives h os (Some (obj_pop_front s n, h)) (slice_pop_front v n)"
    "gives h os (Some (obj_pop_back s n, h)) (slice_pop_back v n)"
    using pop_obj_ok [OF s v] by (auto intro!: givesI) (auto simp: obj_pops)
qed

text \<open>Writing into a block that has no other owner.\<close>

lemma write_ok:
  assumes ok: "heap_ok h (add_mset s os)" and b: "s_refs s = Block b" and sole: "owners os b = 0"
    and v: "obj_to_string h s = Some v" and range: "k + length bs \<le> s_length s"
  shows "\<exists>h'. write_bytes h (ptr_add (s_bytes s) k) bs = Some h' \<and> heap_ok h' (add_mset s os) \<and>
             same_contents h h' os \<and> obj_to_string h' s = Some (take k v @ bs @ drop (k + length bs) v)"
proof -
  have "obj_ok h s" using heap_okD [OF ok] by simp
  then obtain i blk where s: "s_bytes s = In_Block b i" "blocks h b = Some blk" "i + s_length s \<le> length (rc_bytes blk)"
    using b by (auto simp: obj_ok_def)
  let ?bytes = "take (i + k) (rc_bytes blk) @ bs @ drop (i + k + length bs) (rc_bytes blk)"
  let ?h = "h\<lparr>blocks := (blocks h)(b \<mapsto> blk\<lparr>rc_bytes := ?bytes\<rparr>)\<rparr>"
  have w: "write_bytes h (ptr_add (s_bytes s) k) bs = Some ?h" using s range by simp
  have len: "length ?bytes = length (rc_bytes blk)" using s(3) range by simp
  have "heap_ok ?h (add_mset s os) \<and> same_contents h ?h os"
  proof (rule heap_change [OF ok, where kept = os])
    show "blocks ?h b' = None \<longleftrightarrow> owners (add_mset s os) b' = 0" for b'
      using heap_ok_free [OF ok, of b'] s(2) by auto
    show "rc_refs blk' = of_nat (owners (add_mset s os) b')" if "blocks ?h b' = Some blk'" for b' blk'
      using that heap_ok_count [OF ok, of b'] s(2) by (auto simp del: owners_add split: if_splits)
    show "map_option rc_bytes (blocks ?h b') = map_option rc_bytes (blocks h b')" if "owners os b' \<noteq> 0" for b'
      using that sole by auto
  qed (use s len b in \<open>auto simp: obj_ok_def\<close>)
  moreover have "obj_to_string ?h s = Some (take k v @ bs @ drop (k + length bs) v)"
    using s v sub_bytes_write [of "rc_bytes blk" i "s_length s" v k bs] range by (simp add: obj_to_string_def)
  ultimately show ?thesis using w by blast
qed

section \<open>Concatenation\<close>

lemma same_string: "same_contents h h' os \<Longrightarrow> s \<in># os \<Longrightarrow> obj_to_string h' s = obj_to_string h s"
  by (simp add: same_contents_def)

lemma write_string:
  assumes "heap_ok h (add_mset s os)" "s_refs s = Block b" "owners os b = 0" "obj_to_string h s = Some (u @ w)"
    "length v \<le> length w"
  shows "\<exists>h'. (if v = [] then Some h else write_bytes h (ptr_add (s_bytes s) (length u)) v) = Some h' \<and>
             heap_ok h' (add_mset s os) \<and> same_contents h h' os \<and>
             obj_to_string h' s = Some (u @ v @ drop (length v) w)"
proof (cases "v = []")
  case False
  have "length (u @ w) = s_length s" using obj_string [OF heap_okD [OF assms(1)], of s] assms(4) by auto
  then show ?thesis using write_ok [OF assms(1-4), of "length u" v] assms(5) False by simp
qed (use assms in simp)

lemma obj_empty_iff: "obj_ok h s \<Longrightarrow> obj_to_string h s = Some v \<Longrightarrow> obj_empty s \<longleftrightarrow> v = []"
  using obj_string [of h s] by (auto simp: obj_empty_def)

lemma ptr_add_0 [simp]: "ptr_add p 0 = p"
  by (cases p) auto

lemma obj_plus_ok:
  assumes ok: "heap_ok h os" and b: "blocks h b = None"
    and s1: "s1 \<in># os" "obj_to_string h s1 = Some v1" and s2: "s2 \<in># os" "obj_to_string h s2 = Some v2"
  shows "gives h os (obj_plus h b junk s1 s2) (slice_plus v1 v2)"
proof -
  have len: "s_length s1 = length v1" "s_length s2 = length v2"
    and empty: "obj_empty s1 \<longleftrightarrow> v1 = []" "obj_empty s2 \<longleftrightarrow> v2 = []"
    using obj_string [OF heap_okD [OF ok s1(1)]] obj_string [OF heap_okD [OF ok s2(1)]] s1(2) s2(2)
    by (auto simp: obj_empty_def)
  show ?thesis
  proof (cases "v1 = [] \<and> v2 = []")
    case True
    then show ?thesis using gives_empty [OF ok] by (simp add: obj_plus_def empty)
  next
    case False
    let ?n = "length v1 + length v2"
    define s where "s = \<lparr>s_refs = Block b, s_length = ?n, s_bytes = In_Block b 0\<rparr>"
    define h0 where "h0 = new_block h b (map junk [0..<?n])"
    have new: "sized_slice h b junk ?n = (s, h0)" using False by (auto simp: sized_slice_def s_def h0_def)
    have 0: "heap_ok h0 (add_mset s os)" "same_contents h h0 os" "obj_to_string h0 s = Some (map junk [0..<?n])"
      using sized_ok [OF ok b, of junk ?n] by (auto simp: gives_def new)
    have sb: "s_refs s = Block b" "owners os b = 0" using heap_ok_free [OF ok] b by (auto simp: s_def)
    obtain h1 where 1: "(if v1 = [] then Some h0 else write_bytes h0 (s_bytes s) v1) = Some h1"
        "heap_ok h1 (add_mset s os)" "same_contents h0 h1 os"
        "obj_to_string h1 s = Some (v1 @ drop (length v1) (map junk [0..<?n]))"
      using write_string [OF 0(1) sb, of "[]" "map junk [0..<?n]" v1, unfolded list.size ptr_add_0 append_Nil] 0(3)
      by auto
    obtain h2 where 2: "(if v2 = [] then Some h1 else write_bytes h1 (ptr_add (s_bytes s) (length v1)) v2) = Some h2"
        "heap_ok h2 (add_mset s os)" "same_contents h1 h2 os"
        "obj_to_string h2 s = Some (v1 @ v2 @ drop (length v2) (drop (length v1) (map junk [0..<?n])))"
      using write_string [OF 1(2) sb 1(4), of v2] by auto
    have read: "read_bytes h0 (s_bytes s1) (length v1) = Some v1" "read_bytes h1 (s_bytes s2) (length v2) = Some v2"
      using same_string [OF 0(2) s1(1)] same_string [OF same_contents_trans [OF 0(2) 1(3)] s2(1)] s1(2) s2(2)
      by (simp_all add: obj_to_string_def len)
    have "obj_plus h b junk s1 s2 = Some (s, h2)"
      using 1(1) 2(1) False read by (auto simp: obj_plus_def empty len new split: if_splits)
    then show ?thesis
      using 2 same_contents_trans [OF same_contents_trans [OF 0(2) 1(3)] 2(3)] by (simp add: gives_def)
  qed
qed

lemma gives_cases:
  assumes "gives h os r v"
  obtains s h' where "r = Some (s, h')" "heap_ok h' (add_mset s os)" "same_contents h h' os" "obj_to_string h' s = Some v"
  using assms by (auto simp: gives_def)

text \<open>The temporaries of an operation are two parameters and a result.\<close>

lemma share_blocks: "slice_share h s = Some h' \<Longrightarrow> blocks h b = None \<Longrightarrow> blocks h' b = None"
  by (auto simp: slice_share_def refcount_ref_def split: refs_ptr.splits option.splits)

lemma copy_construct_blocks:
  "slice_copy_construct h s = Some (t, h') \<Longrightarrow> blocks h b = None \<Longrightarrow> t = s \<and> blocks h' b = None"
  by (auto simp: slice_copy_construct_def bind_eq_Some_conv dest: share_blocks)

lemma call_plus_ok:
  assumes ok: "heap_ok h os" and b: "blocks h b = None" and few: "size os < 2 ^ 32 - 3"
    and s1: "s1 \<in># os" "obj_to_string h s1 = Some v1" and s2: "s2 \<in># os" "obj_to_string h s2 = Some v2"
  shows "gives h os (call_plus h b junk s1 s2) (slice_plus v1 v2)"
proof -
  obtain t1 h1 where 1: "slice_copy_construct h s1 = Some (t1, h1)" "heap_ok h1 (add_mset t1 os)" "same_contents h h1 os"
      "obj_to_string h1 t1 = Some v1"
    using copy_construct_ok [OF ok s1] by (rule gives_cases)
  have s2': "s2 \<in># add_mset t1 os" "obj_to_string h1 s2 = Some v2" using s2 same_string [OF 1(3)] by auto
  obtain t2 h2 where 2: "slice_copy_construct h1 s2 = Some (t2, h2)" "heap_ok h2 (add_mset t2 (add_mset t1 os))"
      "same_contents h1 h2 (add_mset t1 os)" "obj_to_string h2 t2 = Some v2"
    using copy_construct_ok [OF 1(2) s2'] by (rule gives_cases)
  have b2: "blocks h2 b = None" using copy_construct_blocks [OF 1(1) b] copy_construct_blocks [OF 2(1)] by blast
  have t1: "obj_to_string h2 t1 = Some v1" using same_string [OF 2(3)] 1(4) by simp
  obtain r h3 where 3: "obj_plus h2 b junk t1 t2 = Some (r, h3)"
      "heap_ok h3 (add_mset r (add_mset t2 (add_mset t1 os)))"
      "same_contents h2 h3 (add_mset t2 (add_mset t1 os))" "obj_to_string h3 r = Some (slice_plus v1 v2)"
    using obj_plus_ok [OF 2(2) b2 _ t1 _ 2(4), of junk] by (auto simp: gives_def)
  obtain h4 where 4: "slice_destroy h3 t2 = Some h4" "heap_ok h4 (add_mset t1 (add_mset r os))"
      "same_contents h3 h4 (add_mset t1 (add_mset r os))"
    using destroy_ok [of h3 t2 "add_mset t1 (add_mset r os)"] 3(2) few by (auto simp: add_mset_commute)
  obtain h5 where 5: "slice_destroy h4 t1 = Some h5" "heap_ok h5 (add_mset r os)" "same_contents h4 h5 (add_mset r os)"
    using destroy_ok [OF 4(2)] few by auto
  have "same_contents h h5 os" "obj_to_string h5 r = Some (slice_plus v1 v2)"
    using 1(3) 2(3) 3(3,4) 4(3) 5(3) by (auto simp: same_contents_def)
  then show ?thesis using 1(1) 2(1) 3(1) 4(1) 5(1,2) by (simp add: call_plus_def gives_def)
qed

lemma append_ok:
  assumes ok: "heap_ok h (add_mset s os)" and b: "blocks h b = None" and few: "size os < 2 ^ 32 - 4"
    and s: "obj_to_string h s = Some v" and t: "t \<in># add_mset s os" "obj_to_string h t = Some w"
  shows "gives h os (obj_append h b junk s t) (slice_plus v w)"
proof -
  obtain r h1 where 1: "call_plus h b junk s t = Some (r, h1)" "heap_ok h1 (add_mset r (add_mset s os))"
      "same_contents h h1 (add_mset s os)" "obj_to_string h1 r = Some (slice_plus v w)"
    using call_plus_ok [OF ok b _ _ s t, of junk] few by (auto simp: gives_def)
  obtain h2 where 2: "slice_move_assign h1 s r = Some (r, slice_empty_obj, h2)" "heap_ok h2 (add_mset r os)"
      "same_contents h1 h2 os" "obj_to_string h2 r = Some (slice_plus v w)"
    using move_assign_ok [of h1 s r os, OF _ _ 1(4)] 1(2) few by (auto simp: add_mset_commute)
  have "slice_destroy h2 slice_empty_obj = Some h2" by (simp add: slice_destroy_def slice_empty_obj_def)
  then show ?thesis using 1 2 by (auto simp: obj_append_def gives_def same_contents_def)
qed

lemma assign_ok:
  assumes ok: "heap_ok h (add_mset s os)" and b: "blocks h b = None" and few: "size os < 2 ^ 32 - 3"
  shows "gives h os (obj_assign h b s bs) bs"
proof -
  obtain t h1 where 1: "slice_construct h b (Some bs) (length bs) = Some (t, h1)" "heap_ok h1 (add_mset t (add_mset s os))"
      "same_contents h h1 (add_mset s os)" "obj_to_string h1 t = Some bs"
    using construct_ok [OF ok b, of "Some bs" "length bs"] by (auto simp: gives_def)
  obtain r h2 where 2: "slice_copy_assign h1 s t = Some (r, h2)" "heap_ok h2 (add_mset r (add_mset t os))"
      "same_contents h1 h2 (add_mset t os)" "obj_to_string h2 r = Some bs"
    using copy_assign_ok [of h1 s "add_mset t os" t, OF _ _ _ 1(4)] 1(2) few
    by (auto simp: add_mset_commute gives_def)
  obtain h3 where 3: "slice_destroy h2 t = Some h3" "heap_ok h3 (add_mset r os)" "same_contents h2 h3 (add_mset r os)"
    using destroy_ok [of h2 t "add_mset r os"] 2(2) few by (auto simp: add_mset_commute)
  show ?thesis using 1 2 3 by (auto simp: obj_assign_def gives_def same_contents_def)
qed

lemma obj_eq_ok:
  assumes "obj_ok h s" "obj_ok h t" "obj_to_string h s = Some v" "obj_to_string h t = Some w"
  shows "obj_eq h s t = Some (slice_eq v w)" "obj_compare h s w = Some (slice_eq v w)"
  using assms obj_string [OF assms(1)] obj_string [OF assms(2)]
  by (auto simp: obj_eq_def obj_compare_def obj_empty_def obj_to_string_def slice_eq_def simp del: slice_eq_iff)

section \<open>Programs\<close>

text \<open>The objects of a program.\<close>

definition objects_of :: "(nat \<rightharpoonup> slice_obj) \<Rightarrow> slice_obj multiset" where
  "objects_of m = image_mset (\<lambda>x. the (m x)) (mset_set (dom m))"

definition program_ok :: "slice_program \<Rightarrow> bool" where
  "program_ok p \<longleftrightarrow> finite (dom (s_vars p)) \<and> heap_ok (s_heap p) (objects_of (s_vars p))"

abbreviation others :: "slice_program \<Rightarrow> nat \<Rightarrow> slice_obj multiset" where
  "others p x \<equiv> objects_of ((s_vars p)(x := None))"

lemma objects_of_update: "finite (dom m) \<Longrightarrow> objects_of (m(x \<mapsto> s)) = add_mset s (objects_of (m(x := None)))"
proof -
  assume fin: "finite (dom m)"
  have "image_mset (\<lambda>y. the ((m(x \<mapsto> s)) y)) (mset_set (dom m - {x})) = objects_of (m(x := None))"
    unfolding objects_of_def using fin by (auto intro!: image_mset_cong)
  moreover have "mset_set (insert x (dom m)) = add_mset x (mset_set (dom m - {x}))"
    using fin mset_set.insert_remove [of "dom m" x] by simp
  ultimately show ?thesis using fin by (simp add: objects_of_def del: mset_set.insert_remove)
qed

lemma objects_of_split: "finite (dom m) \<Longrightarrow> m x = Some s \<Longrightarrow> objects_of m = add_mset s (objects_of (m(x := None)))"
  using objects_of_update [of m x s] by (simp add: fun_upd_idem)

lemma objects_of_None: "m x = None \<Longrightarrow> objects_of (m(x := None)) = objects_of m"
  by (simp add: fun_upd_idem)

lemma objects_of_mem: "finite (dom m) \<Longrightarrow> m x = Some s \<Longrightarrow> s \<in># objects_of m"
  by (simp add: objects_of_split)

lemma size_objects_of: "size (objects_of m) = card (dom m)"
  by (simp add: objects_of_def)

lemma program_value: "program_ok p \<Longrightarrow> s_vars p x = Some s \<Longrightarrow> obj_to_string (s_heap p) s = Some (the (slice_values p x))"
  using heap_okD [OF _ objects_of_mem, of "s_heap p" "s_vars p" x s] obj_string [of "s_heap p" s]
  by (auto simp: program_ok_def slice_values_def)

lemma program_split:
  "program_ok p \<Longrightarrow> s_vars p x = Some s \<Longrightarrow> heap_ok (s_heap p) (add_mset s (others p x))"
  using objects_of_split [of "s_vars p" x s] by (simp add: program_ok_def)

lemma others_few: "program_ok p \<Longrightarrow> card (dom (s_vars p)) < slice_limit \<Longrightarrow> size (others p x) < slice_limit"
  using card_mono [of "dom (s_vars p)" "dom (s_vars p) - {x}"] by (simp add: size_objects_of program_ok_def)

text \<open>How an operation on objects becomes one on a program.\<close>

definition does :: "slice_program \<Rightarrow> slice_program option \<Rightarrow> (nat \<rightharpoonup> slice) \<Rightarrow> bool" where
  "does p r v \<longleftrightarrow>
     (\<exists>p'. r = Some p' \<and> program_ok p' \<and> arrays (s_heap p') = arrays (s_heap p) \<and> slice_values p' = v)"

lemma doesI:
  "program_ok p' \<Longrightarrow> arrays (s_heap p') = arrays (s_heap p) \<Longrightarrow> slice_values p' = v \<Longrightarrow> does p (Some p') v"
  by (simp add: does_def)

lemma does_change:
  assumes fin: "finite (dom m)" and ok: "heap_ok h (objects_of m)" and ar: "arrays h = arrays (s_heap p)"
    and v: "\<And>x. (case m x of None \<Rightarrow> None | Some s \<Rightarrow> obj_to_string h s) = v x"
  shows "does p (Some (p\<lparr>s_heap := h, s_vars := m\<rparr>)) v"
  using assms by (auto simp: does_def program_ok_def slice_values_def intro!: ext cong: option.case_cong)

lemma same_value:
  assumes "same_contents (s_heap p) h (objects_of m)" "finite (dom m)" "m y = Some s" "s_vars p y = Some s"
  shows "obj_to_string h s = slice_values p y"
  using same_string [OF assms(1) objects_of_mem [OF assms(2,3)]] assms(4) by (simp add: slice_values_def)

lemma put_does:
  assumes ok: "program_ok p" and r: "gives (s_heap p) (others p x) r v"
  shows "does p (map_option (put_obj p x) r) ((slice_values p)(x \<mapsto> v))"
proof -
  obtain s h where r': "r = Some (s, h)" and h: "heap_ok h (add_mset s (others p x))"
    "same_contents (s_heap p) h (others p x)" "obj_to_string h s = Some v" using r by (rule gives_cases)
  have fin: "finite (dom (s_vars p))" using ok by (simp add: program_ok_def)
  have "obj_to_string h t = slice_values p y" if "y \<noteq> x" "s_vars p y = Some t" for y t
    using same_value [OF h(2), of y t] that fin by simp
  then have "does p (Some (p\<lparr>s_heap := h, s_vars := (s_vars p)(x \<mapsto> s)\<rparr>)) ((slice_values p)(x \<mapsto> v))"
    using h fin by (intro does_change)
      (auto simp: objects_of_update same_contents_def slice_values_def split: option.splits)
  then show ?thesis by (simp add: r' put_obj_def)
qed

text \<open>Moves: \<open>x\<close> takes the object of \<open>y\<close>, which becomes empty.\<close>

lemma move_does:
  assumes ok: "program_ok p" and xy: "x \<noteq> y" and t: "s_vars p y = Some t" "obj_to_string h t = Some v"
    and h: "heap_ok h (add_mset t (objects_of ((s_vars p)(x := None, y := None))))"
    "same_contents (s_heap p) h (objects_of ((s_vars p)(x := None, y := None)))"
  shows "does p (Some (put_obj (put_obj p y (slice_empty_obj, h)) x (t, h))) ((slice_values p)(x \<mapsto> v, y \<mapsto> []))"
proof -
  have fin: "finite (dom (s_vars p))" using ok by (simp add: program_ok_def)
  let ?m = "(s_vars p)(y \<mapsto> slice_empty_obj, x \<mapsto> t)"
  have m: "objects_of ?m = add_mset t (add_mset slice_empty_obj (objects_of ((s_vars p)(x := None, y := None))))"
    using fin xy objects_of_update [of "(s_vars p)(x := None)" y slice_empty_obj]
    by (simp add: objects_of_update fun_upd_twist)
  have "obj_to_string h u = slice_values p z" if "z \<noteq> x" "z \<noteq> y" "s_vars p z = Some u" for z u
    using same_value [OF h(2), of z u] that fin by simp
  then have "does p (Some (p\<lparr>s_heap := h, s_vars := ?m\<rparr>)) ((slice_values p)(x \<mapsto> v, y \<mapsto> []))"
    using h t xy fin by (intro does_change)
      (auto simp: m same_contents_def slice_values_def add_mset_commute split: option.splits)
  then show ?thesis by (simp add: put_obj_def)
qed

lemma share_limit: "n < slice_limit \<Longrightarrow> n < 2 ^ 32 - 4"
  by (simp add: slice_limit_def)

lemma program_finite: "program_ok p \<Longrightarrow> finite (dom (s_vars p))"
  by (simp add: program_ok_def)

lemma program_heap: "program_ok p \<Longrightarrow> s_vars p x = None \<Longrightarrow> heap_ok (s_heap p) (others p x)"
  by (simp add: program_ok_def objects_of_None)

lemma other_object: "program_ok p \<Longrightarrow> x \<noteq> y \<Longrightarrow> s_vars p y = Some t \<Longrightarrow> t \<in># others p x"
  using objects_of_mem [of "(s_vars p)(x := None)" y t] by (simp add: program_ok_def)

lemma program_obtain:
  assumes "program_ok p" "s_vars p x = Some s"
  obtains v where "slice_values p x = Some v" "obj_to_string (s_heap p) s = Some v"
proof -
  have "slice_values p x = obj_to_string (s_heap p) s" using assms(2) by (simp add: slice_values_def)
  then show ?thesis using that [OF _ program_value [OF assms]] program_value [OF assms] by simp
qed

section \<open>Every operation\<close>

lemma new_does:
  assumes ok: "program_ok p" and few: "card (dom (s_vars p)) < slice_limit"
  shows "op_allowed p (New x b ptr n) \<Longrightarrow>
      does p (op_exec p (New x b ptr n)) (value_exec (arrays (s_heap p)) (slice_values p) (New x b ptr n))"
    "op_allowed p (New_Static x a i n) \<Longrightarrow>
      does p (op_exec p (New_Static x a i n)) (value_exec (arrays (s_heap p)) (slice_values p) (New_Static x a i n))"
    "op_allowed p (New_Sized x b junk n) \<Longrightarrow>
      does p (op_exec p (New_Sized x b junk n)) (value_exec (arrays (s_heap p)) (slice_values p) (New_Sized x b junk n))"
    "op_allowed p (New_Copy x y) \<Longrightarrow>
      does p (op_exec p (New_Copy x y)) (value_exec (arrays (s_heap p)) (slice_values p) (New_Copy x y))"
    "op_allowed p (New_Sum x b junk y z) \<Longrightarrow>
      does p (op_exec p (New_Sum x b junk y z)) (value_exec (arrays (s_heap p)) (slice_values p) (New_Sum x b junk y z))"
proof -
  note heap = program_heap [OF ok]
  show "does p (op_exec p (New x b ptr n)) (value_exec (arrays (s_heap p)) (slice_values p) (New x b ptr n))"
    if "op_allowed p (New x b ptr n)"
    using that put_does [OF ok construct_ok [OF heap, of x b ptr n]] by (cases ptr) (auto simp: declared_def)
  show "does p (op_exec p (New_Static x a i n)) (value_exec (arrays (s_heap p)) (slice_values p) (New_Static x a i n))"
    if "op_allowed p (New_Static x a i n)"
    using that put_does [OF ok static_ok [OF heap, of x a]] MakeStaticSlice_Some
    by (auto simp: declared_def split: option.splits)
  show "does p (op_exec p (New_Sized x b junk n)) (value_exec (arrays (s_heap p)) (slice_values p) (New_Sized x b junk n))"
    if "op_allowed p (New_Sized x b junk n)"
    using that put_does [OF ok sized_ok [OF heap, of x b junk n]] by (auto simp: declared_def)
  show "does p (op_exec p (New_Copy x y)) (value_exec (arrays (s_heap p)) (slice_values p) (New_Copy x y))"
    if a: "op_allowed p (New_Copy x y)"
  proof -
    obtain t where t: "s_vars p x = None" "s_vars p y = Some t" using a by (auto simp: declared_def)
    obtain v where v: "slice_values p y = Some v" "obj_to_string (s_heap p) t = Some v"
      using program_obtain [OF ok t(2)] .
    have "x \<noteq> y" using t by auto
    then show ?thesis
      using put_does [OF ok copy_construct_ok [OF heap [OF t(1)] other_object [OF ok _ t(2)] v(2)]] t v(1) by simp
  qed
  show "does p (op_exec p (New_Sum x b junk y z)) (value_exec (arrays (s_heap p)) (slice_values p) (New_Sum x b junk y z))"
    if a: "op_allowed p (New_Sum x b junk y z)"
  proof -
    obtain s t where t: "s_vars p x = None" "s_vars p y = Some s" "s_vars p z = Some t" "blocks (s_heap p) b = None"
      using a by (auto simp: declared_def)
    then have "x \<noteq> y" "x \<noteq> z" by auto
    then show ?thesis
      using put_does [OF ok call_plus_ok [OF heap [OF t(1)] t(4) _ other_object [OF ok _ t(2)] program_value [OF ok t(2)]
          other_object [OF ok _ t(3)] program_value [OF ok t(3)], of junk]] t others_few [OF ok few, of x]
      by (simp add: slice_limit_def)
  qed
qed

lemma change_does:
  assumes ok: "program_ok p" and few: "card (dom (s_vars p)) < slice_limit"
  shows "op_allowed p (Append x b junk y) \<Longrightarrow>
      does p (op_exec p (Append x b junk y)) (value_exec (arrays (s_heap p)) (slice_values p) (Append x b junk y))"
    "op_allowed p (Assign_String x b bs) \<Longrightarrow>
      does p (op_exec p (Assign_String x b bs)) (value_exec (arrays (s_heap p)) (slice_values p) (Assign_String x b bs))"
    "op_allowed p (Pop_Front x n) \<Longrightarrow>
      does p (op_exec p (Pop_Front x n)) (value_exec (arrays (s_heap p)) (slice_values p) (Pop_Front x n))"
    "op_allowed p (Pop_Back x n) \<Longrightarrow>
      does p (op_exec p (Pop_Back x n)) (value_exec (arrays (s_heap p)) (slice_values p) (Pop_Back x n))"
    "op_allowed p (Copy_Assign x y) \<Longrightarrow>
      does p (op_exec p (Copy_Assign x y)) (value_exec (arrays (s_heap p)) (slice_values p) (Copy_Assign x y))"
proof -
  note size = share_limit [OF others_few [OF ok few, of x]]
  show "does p (op_exec p (Append x b junk y)) (value_exec (arrays (s_heap p)) (slice_values p) (Append x b junk y))"
    if a: "op_allowed p (Append x b junk y)"
  proof -
    obtain s t where t: "s_vars p x = Some s" "s_vars p y = Some t" "blocks (s_heap p) b = None"
      using a by (auto simp: declared_def)
    have "t \<in># add_mset s (others p x)"
      using objects_of_mem [OF program_finite [OF ok] t(2)] objects_of_split [OF program_finite [OF ok] t(1)] by simp
    then show ?thesis
      using put_does [OF ok append_ok [OF program_split [OF ok t(1)] t(3) size program_value [OF ok t(1)] _
          program_value [OF ok t(2)], of junk]] t by simp
  qed
  show "does p (op_exec p (Assign_String x b bs)) (value_exec (arrays (s_heap p)) (slice_values p) (Assign_String x b bs))"
    if a: "op_allowed p (Assign_String x b bs)"
    using a put_does [OF ok assign_ok [OF program_split [OF ok], of x _ b bs]] size by (auto simp: declared_def)
  show "does p (op_exec p (Pop_Front x n)) (value_exec (arrays (s_heap p)) (slice_values p) (Pop_Front x n))"
    if "op_allowed p (Pop_Front x n)"
    using that put_does [OF ok pop_ok(1) [OF program_split [OF ok] program_value [OF ok]], of x _ x n]
    by (auto simp: declared_def)
  show "does p (op_exec p (Pop_Back x n)) (value_exec (arrays (s_heap p)) (slice_values p) (Pop_Back x n))"
    if "op_allowed p (Pop_Back x n)"
    using that put_does [OF ok pop_ok(2) [OF program_split [OF ok] program_value [OF ok]], of x _ x n]
    by (auto simp: declared_def)
  show "does p (op_exec p (Copy_Assign x y)) (value_exec (arrays (s_heap p)) (slice_values p) (Copy_Assign x y))"
    if a: "op_allowed p (Copy_Assign x y)"
  proof (cases "x = y")
    case True
    then show ?thesis using ok by (simp add: doesI)
  next
    case False
    obtain s t where t: "s_vars p x = Some s" "s_vars p y = Some t" using a by (auto simp: declared_def)
    obtain v where v: "slice_values p y = Some v" "obj_to_string (s_heap p) t = Some v"
      using program_obtain [OF ok t(2)] .
    show ?thesis
      using put_does [OF ok copy_assign_ok [OF program_split [OF ok t(1)] _ other_object [OF ok False t(2)] v(2)]]
        size False t v(1) by simp
  qed
qed

lemma move_ops_does:
  assumes ok: "program_ok p" and few: "card (dom (s_vars p)) < slice_limit"
  shows "op_allowed p (New_Move x y) \<Longrightarrow>
      does p (op_exec p (New_Move x y)) (value_exec (arrays (s_heap p)) (slice_values p) (New_Move x y))"
    "op_allowed p (Move_Assign x y) \<Longrightarrow>
      does p (op_exec p (Move_Assign x y)) (value_exec (arrays (s_heap p)) (slice_values p) (Move_Assign x y))"
proof -
  note fin = program_finite [OF ok]
  have emptied: "t\<lparr>s_refs := No_Refs, s_length := 0, s_bytes := Null\<rparr> = slice_empty_obj" for t
    by (simp add: slice_empty_obj_def)
  have split2: "others p x = add_mset t (objects_of ((s_vars p)(x := None, y := None)))"
    if "s_vars p y = Some t" "x \<noteq> y" for t
    using objects_of_split [of "(s_vars p)(x := None)" y t] that fin by simp
  show "does p (op_exec p (New_Move x y)) (value_exec (arrays (s_heap p)) (slice_values p) (New_Move x y))"
    if a: "op_allowed p (New_Move x y)"
  proof -
    obtain t where t: "s_vars p x = None" "s_vars p y = Some t" using a by (auto simp: declared_def)
    obtain v where v: "slice_values p y = Some v" "obj_to_string (s_heap p) t = Some v"
      using program_obtain [OF ok t(2)] .
    have xy: "x \<noteq> y" using t by auto
    then show ?thesis
      using move_does [OF ok xy t(2) v(2)] program_heap [OF ok t(1)] split2 [OF t(2) xy] t v(1)
      by (simp add: slice_move_construct_def emptied)
  qed
  show "does p (op_exec p (Move_Assign x y)) (value_exec (arrays (s_heap p)) (slice_values p) (Move_Assign x y))"
    if a: "op_allowed p (Move_Assign x y)"
  proof (cases "x = y")
    case True
    then show ?thesis using ok by (simp add: doesI)
  next
    case False
    obtain s t where t: "s_vars p x = Some s" "s_vars p y = Some t" using a by (auto simp: declared_def)
    let ?os = "objects_of ((s_vars p)(x := None, y := None))"
    have "size ?os \<le> size (others p x)" by (simp add: split2 [OF t(2) False])
    then have "size ?os < 2 ^ 32 - 2" using others_few [OF ok few, of x] by (simp add: slice_limit_def)
    moreover obtain v where v: "slice_values p y = Some v" "obj_to_string (s_heap p) t = Some v"
      using program_obtain [OF ok t(2)] .
    ultimately obtain h where "slice_move_assign (s_heap p) s t = Some (t, slice_empty_obj, h)"
        "heap_ok h (add_mset t ?os)" "same_contents (s_heap p) h ?os" "obj_to_string h t = Some v"
      using move_assign_ok [of "s_heap p" s t ?os, OF _ _ v(2)]
        program_split [OF ok t(1)] split2 [OF t(2) False] by auto
    then show ?thesis using move_does [OF ok False t(2), of h v] False t v(1) by simp
  qed
qed

lemma store_does:
  assumes ok: "program_ok p" and few: "card (dom (s_vars p)) < slice_limit" and a: "op_allowed p (Store_Byte x i b)"
  shows "does p (op_exec p (Store_Byte x i b)) (value_exec (arrays (s_heap p)) (slice_values p) (Store_Byte x i b))"
proof -
  obtain s k blk where s: "s_vars p x = Some s" "i < s_length s" "s_refs s = Block k"
      "blocks (s_heap p) k = Some blk" "rc_refs blk = 1"
    using a by (auto split: option.splits refs_ptr.splits)
  note heap = program_split [OF ok s(1)]
  have "rc_refs blk = of_nat (Suc (owners (others p x) k))" using heap_ok_count [OF heap s(4)] s(3) by simp
  moreover have "owners (others p x) k < 2 ^ 32 - 1"
    using owners_le [of "others p x" k] others_few [OF ok few, of x] by (simp add: slice_limit_def)
  ultimately have sole: "owners (others p x) k = 0"
    using s(5) word_of_nat_eq_1 [of "Suc (owners (others p x) k)"] by (simp del: of_nat_Suc)
  obtain v where v: "slice_values p x = Some v" "obj_to_string (s_heap p) s = Some v"
    using program_obtain [OF ok s(1)] .
  have len: "length v = s_length s" using obj_string [OF heap_okD [OF heap], of s] v(2) by auto
  obtain h where h: "write_bytes (s_heap p) (ptr_add (s_bytes s) i) [b] = Some h"
      "gives (s_heap p) (others p x) (Some (s, h)) (v[i := b])"
    using write_ok [OF heap s(3) sole v(2), of i "[b]"] s(2) len
    by (auto simp: gives_def upd_conv_take_nth_drop)
  have "put_obj p x (s, h) = p\<lparr>s_heap := h\<rparr>" using s(1) by (simp add: put_obj_def fun_upd_idem)
  then show ?thesis using put_does [OF ok h(2)] h(1) s(1) v(1) by simp
qed

lemma destroy_does:
  assumes ok: "program_ok p" and few: "card (dom (s_vars p)) < slice_limit" and a: "op_allowed p (Destroy x)"
  shows "does p (op_exec p (Destroy x)) (value_exec (arrays (s_heap p)) (slice_values p) (Destroy x))"
proof -
  obtain s where s: "s_vars p x = Some s" using a by (auto simp: declared_def)
  obtain h where h: "slice_destroy (s_heap p) s = Some h" "heap_ok h (others p x)" "same_contents (s_heap p) h (others p x)"
    using destroy_ok [OF program_split [OF ok s]] others_few [OF ok few, of x] by (auto simp: slice_limit_def)
  have "obj_to_string h t = slice_values p y" if "y \<noteq> x" "s_vars p y = Some t" for y t
    using same_value [OF h(3), of y t] that program_finite [OF ok] by simp
  then have "does p (Some (p\<lparr>s_heap := h, s_vars := (s_vars p)(x := None)\<rparr>)) ((slice_values p)(x := None))"
    using h program_finite [OF ok] by (intro does_change)
      (auto simp: same_contents_def slice_values_def split: option.splits)
  then show ?thesis using h(1) s by simp
qed

lemma op_does:
  "program_ok p \<Longrightarrow> card (dom (s_vars p)) < slice_limit \<Longrightarrow> op_allowed p op \<Longrightarrow>
   does p (op_exec p op) (value_exec (arrays (s_heap p)) (slice_values p) op)"
  by (cases op) (simp_all only: new_does change_does move_ops_does store_does destroy_does)

lemma run_ok: "slice_run ar p \<Longrightarrow> program_ok p \<and> card (dom (s_vars p)) < slice_limit \<and> arrays (s_heap p) = ar"
proof (induction rule: slice_run.induct)
  case start
  show ?case by (simp add: program_ok_def objects_of_def heap_ok_def slice_limit_def)
next
  case (operation p op p')
  then show ?case using op_does [of p op] by (auto simp: does_def)
qed

lemma owners_card: "finite (dom m) \<Longrightarrow> owners (objects_of m) b = card {x. \<exists>s. m x = Some s \<and> s_refs s = Block b}"
proof -
  assume fin: "finite (dom m)"
  have "{x \<in> dom m. s_refs (the (m x)) = Block b} = {x. \<exists>s. m x = Some s \<and> s_refs s = Block b}" by force
  then show ?thesis
    using fin by (simp add: owners_def objects_of_def filter_mset_image_mset )
qed

section \<open>The properties of slices\<close>

text \<open>C15. Reference counting is invisible: every operation of a slice, with any sharing of blocks among copies,
  parts and moved objects, is defined (no access to a freed block, none outside a block) and gives
  each object the bytes it would have if every slice were a list of its own; and \<^verbatim>\<open>==\<close> compares
  those bytes.\<close>

theorem slices_are_values:
  assumes "slice_run ar p" and "op_allowed p op"
  shows "(\<exists>p'. op_exec p op = Some p' \<and> slice_values p' = value_exec ar (slice_values p) op) \<and>
         (\<forall>x y s t. s_vars p x = Some s \<longrightarrow> s_vars p y = Some t \<longrightarrow>
            obj_eq (s_heap p) s t = Some (slice_values p x = slice_values p y))"
proof (intro conjI allI impI)
  have ok: "program_ok p" using run_ok [OF assms(1)] by blast
  show "\<exists>p'. op_exec p op = Some p' \<and> slice_values p' = value_exec ar (slice_values p) op"
    using op_does [of p op] run_ok [OF assms(1)] assms(2) by (auto simp: does_def)
  fix x y s t assume s: "s_vars p x = Some s" and t: "s_vars p y = Some t"
  obtain v w where "slice_values p x = Some v" "obj_to_string (s_heap p) s = Some v"
      "slice_values p y = Some w" "obj_to_string (s_heap p) t = Some w"
    using program_obtain [OF ok s] program_obtain [OF ok t] by metis
  moreover have "obj_ok (s_heap p) s" "obj_ok (s_heap p) t"
    using heap_okD [OF program_split [OF ok s]] heap_okD [OF program_split [OF ok t]] by auto
  ultimately show "obj_eq (s_heap p) s t = Some (slice_values p x = slice_values p y)"
    using obj_eq_ok(1) by simp
qed

text \<open>C21. The count of every block is the number of the objects that point to it; a block with no such object
  has been freed, and one with such an object has not.\<close>

theorem slice_blocks_counted:
  assumes "slice_run ar p"
  shows "case blocks (s_heap p) b of
           None \<Rightarrow> {x. \<exists>s. s_vars p x = Some s \<and> s_refs s = Block b} = {}
         | Some blk \<Rightarrow> unat (rc_refs blk) = card {x. \<exists>s. s_vars p x = Some s \<and> s_refs s = Block b} \<and>
                       0 < unat (rc_refs blk)"
proof -
  have ok: "finite (dom (s_vars p))" "heap_ok (s_heap p) (objects_of (s_vars p))" "card (dom (s_vars p)) < slice_limit"
    using run_ok [OF assms] by (auto simp: program_ok_def)
  let ?X = "{x. \<exists>s. s_vars p x = Some s \<and> s_refs s = Block b}"
  have X: "owners (objects_of (s_vars p)) b = card ?X" "finite ?X"
    using owners_card [OF ok(1)] finite_subset [OF _ ok(1), of ?X] by auto
  have "card ?X < 2 ^ 32"
    using owners_le [of "objects_of (s_vars p)" b] ok(3) by (simp add: X size_objects_of slice_limit_def)
  then show ?thesis
    using heap_ok_free [OF ok(2), of b] heap_ok_count [OF ok(2), of b] X unat_of_nat_u32 [of "card ?X"]
    by (auto split: option.splits)
qed

text \<open>
  An execution: a slice is copied, the first object is trimmed and destroyed, and the copy is
  appended to itself, which frees the block that both shared.
\<close>

definition example_ops :: "slice_op list" where
  "example_ops = [New 0 7 (Some [1, 2, 3]) 3, New_Copy 1 0, Pop_Front 0 1, Destroy 0, Append 1 8 (\<lambda>i. 0) 1]"

primrec exec_ops :: "slice_program \<Rightarrow> slice_op list \<Rightarrow> slice_program option" where
  "exec_ops p [] = Some p"
| "exec_ops p (op # ops) =
     (if op_allowed p op then
        (case op_exec p op of
           None \<Rightarrow> None
         | Some p' \<Rightarrow> if card (dom (s_vars p')) < slice_limit then exec_ops p' ops else None)
      else None)"

lemma exec_ops_run: "slice_run ar p \<Longrightarrow> exec_ops p ops = Some q \<Longrightarrow> slice_run ar q"
  by (induction ops arbitrary: p) (auto split: if_splits option.splits intro: slice_run.operation)

definition no_slices :: slice_program where
  "no_slices = \<lparr>s_heap = \<lparr>blocks = Map.empty, arrays = Map.empty\<rparr>, s_vars = Map.empty\<rparr>"

definition example_program :: slice_program where
  "example_program =
     \<lparr>s_heap = \<lparr>blocks = [8 \<mapsto> \<lparr>rc_refs = 1, rc_bytes = [1, 2, 3, 1, 2, 3]\<rparr>], arrays = Map.empty\<rparr>,
      s_vars = [1 \<mapsto> \<lparr>s_refs = Block 8, s_length = 6, s_bytes = In_Block 8 0\<rparr>]\<rparr>"

lemmas example_eval = example_ops_def no_slices_def example_program_def declared_def slice_construct_def
  sub_bytes_def new_block_def put_obj_def slice_copy_construct_def slice_share_def refcount_ref_def
  obj_pop_front_def slice_destroy_def refcount_unref_def obj_append_def call_plus_def obj_plus_def
  obj_empty_def sized_slice_def slice_move_assign_def slice_limit_def slice_empty_obj_def

lemma example_exec: "exec_ops no_slices example_ops = Some example_program"
  by (simp add: example_eval Let_def)

lemma example_run: "slice_run Map.empty example_program"
  using exec_ops_run [OF slice_run.start example_exec [unfolded no_slices_def]] .

lemma slices_are_values_witness:
  "\<exists>p'. op_exec example_program (Pop_Front 1 4) = Some p' \<and> slice_values p' 1 = Some [2, 3]"
proof -
  have "op_allowed example_program (Pop_Front 1 4)" by (simp add: declared_def example_program_def)
  from slices_are_values [OF example_run this] obtain p' where p': "op_exec example_program (Pop_Front 1 4) = Some p'"
      "slice_values p' = value_exec Map.empty (slice_values example_program) (Pop_Front 1 4)" by blast
  have "slice_values example_program 1 = Some [1, 2, 3, 1, 2, 3]"
    by (simp add: slice_values_def example_program_def obj_to_string_def sub_bytes_def)
  then show ?thesis using p' by simp
qed

lemma slice_blocks_counted_witness:
  "card {x. \<exists>s. s_vars example_program x = Some s \<and> s_refs s = Block 8} = 1 \<and>
   {x. \<exists>s. s_vars example_program x = Some s \<and> s_refs s = Block 7} = {}"
  using slice_blocks_counted [OF example_run, of 8] slice_blocks_counted [OF example_run, of 7]
  by (simp add: example_program_def)

end
