(* ===== verification/Mpscq.thy ===== *)
theory Mpscq
  imports Prelude
begin

text \<open>
  Model of \<^verbatim>\<open>src/utils/mpscq.h\<close>, \<^verbatim>\<open>src/utils/mpscq.cc\<close> and of the accesses of
  \<^verbatim>\<open>src/utils/atomic.h\<close> it uses: the lock-free queue with many producers and one consumer.

  The memory is the partial map \<open>cells\<close> from nodes to their \<^verbatim>\<open>next\<close> pointer. A node outside
  its domain has been released by its owner, and an access to it has no value.
  \<open>push\<close> and \<open>PopAndCheckEnd\<close> are given twice: as the sequential routines, and as the list of
  their atomic accesses, one per step of a thread, so that the threads of a program interleave
  between any two of them. Accesses are interleaved, that is, sequentially consistent; the weaker
  orders that the code passes to \<^verbatim>\<open>std::atomic\<close> are not modelled.
\<close>

section \<open>Nodes and memory\<close>

datatype mpsc_node = Stub | Node nat

record mpscq =
  newest :: mpsc_node
  oldest :: mpsc_node
  cells :: "mpsc_node \<rightharpoonup> mpsc_node option"

text \<open>The constructor: both ends are the stub, whose \<^verbatim>\<open>next\<close> is null.\<close>

definition mpscq_new :: mpscq where
  "mpscq_new = \<lparr>newest = Stub, oldest = Stub, cells = [Stub \<mapsto> None]\<rparr>"

text \<open>The destructor asserts that both ends are the stub.\<close>

definition mpscq_destroyable :: "mpscq \<Rightarrow> bool" where
  "mpscq_destroyable q \<longleftrightarrow> newest q = Stub \<and> oldest q = Stub"

text \<open>\<^verbatim>\<open>Load\<close>, \<^verbatim>\<open>Store\<close> and \<^verbatim>\<open>Exchange\<close> on the cells the queue uses.\<close>

definition load_next :: "mpscq \<Rightarrow> mpsc_node \<Rightarrow> mpsc_node option option" where
  "load_next q n = cells q n"

definition store_next :: "mpscq \<Rightarrow> mpsc_node \<Rightarrow> mpsc_node option \<Rightarrow> mpscq option" where
  "store_next q n v = (case cells q n of None \<Rightarrow> None | Some old \<Rightarrow> Some (q\<lparr>cells := (cells q)(n \<mapsto> v)\<rparr>))"

definition exchange_newest :: "mpscq \<Rightarrow> mpsc_node \<Rightarrow> mpsc_node \<times> mpscq" where
  "exchange_newest q n = (newest q, q\<lparr>newest := n\<rparr>)"

section \<open>The sequential routines\<close>

text \<open>\<open>push\<close> tells whether the queue ended with the stub.\<close>

definition mpsc_push :: "mpscq \<Rightarrow> mpsc_node \<Rightarrow> (bool \<times> mpscq) option" where
  "mpsc_push q node =
     do {
       q \<leftarrow> store_next q node None;
       let (prev, q) = exchange_newest q node;
       q \<leftarrow> store_next q prev (Some node);
       Some (prev = Stub, q)
     }"

text \<open>
  \<open>pop_tail\<close> is \<^verbatim>\<open>PopAndCheckEnd\<close> from the first test of \<open>obj\<close> after the stub has been skipped;
  the result is the node or null, the output flag and the queue.
\<close>

definition pop_tail :: "mpscq \<Rightarrow> mpsc_node \<Rightarrow> mpsc_node option \<Rightarrow> (mpsc_node option \<times> bool \<times> mpscq) option" where
  "pop_tail q tail obj =
     (case obj of
        Some next \<Rightarrow> Some (Some tail, False, q\<lparr>oldest := next\<rparr>)
      | None \<Rightarrow>
          (if tail \<noteq> newest q then Some (None, False, q)
           else do {
             (first, q) \<leftarrow> mpsc_push q Stub;
             obj \<leftarrow> load_next q tail;
             (case obj of
                Some next \<Rightarrow> Some (Some tail, False, q\<lparr>oldest := next\<rparr>)
              | None \<Rightarrow> Some (None, False, q))
           }))"

definition PopAndCheckEnd :: "mpscq \<Rightarrow> (mpsc_node option \<times> bool \<times> mpscq) option" where
  "PopAndCheckEnd q =
     do {
       obj \<leftarrow> load_next q (oldest q);
       (if oldest q = Stub then
          (case obj of
             None \<Rightarrow> Some (None, True, q)
           | Some tail \<Rightarrow> do {
               let q = q\<lparr>oldest := tail\<rparr>;
               obj \<leftarrow> load_next q tail;
               pop_tail q tail obj
             })
        else pop_tail q (oldest q) obj)
     }"

definition mpsc_pop :: "mpscq \<Rightarrow> (mpsc_node option \<times> mpscq) option" where
  "mpsc_pop q = do { (node, was_empty, q) \<leftarrow> PopAndCheckEnd q; Some (node, q) }"

section \<open>The routines as sequences of atomic accesses\<close>

text \<open>
  Where a producer is inside \<open>push\<close>: before the exchange of \<open>_newest\<close>, or before the store that
  links the previous node to its own.
\<close>

datatype producer = Ready | Exchanging nat | Linking mpsc_node nat

text \<open>Where the consumer is inside \<open>PopAndCheckEnd\<close>, with the local variables it still needs.\<close>

datatype consumer =
    Outside
  | Second_Load mpsc_node
  | Load_Newest mpsc_node
  | Stub_Clear mpsc_node
  | Stub_Exchange mpsc_node
  | Stub_Link mpsc_node mpsc_node
  | Last_Load mpsc_node

text \<open>
  What a step shows: the exchange that puts a node into the queue, with the value \<open>push\<close> will
  return, a result of \<open>PopAndCheckEnd\<close>, or nothing.
\<close>

datatype mpsc_event = Silent | Pushed nat bool | Popped "mpsc_node option" bool

text \<open>The store and the exchange that begin \<open>push\<close>, and the store that ends it.\<close>

definition producer_begin :: "mpscq \<Rightarrow> nat \<Rightarrow> (mpsc_event \<times> producer \<times> mpscq) option" where
  "producer_begin q n =
     (case store_next q (Node n) None of None \<Rightarrow> None | Some q' \<Rightarrow> Some (Silent, Exchanging n, q'))"

fun producer_step :: "mpscq \<Rightarrow> producer \<Rightarrow> (mpsc_event \<times> producer \<times> mpscq) option" where
  "producer_step q Ready = Some (Silent, Ready, q)"
| "producer_step q (Exchanging n) =
     (let (prev, q') = exchange_newest q (Node n) in Some (Pushed n (prev = Stub), Linking prev n, q'))"
| "producer_step q (Linking prev n) =
     (case store_next q prev (Some (Node n)) of
        None \<Rightarrow> None
      | Some q' \<Rightarrow> Some (Silent, Ready, q'))"

text \<open>The test of \<open>obj\<close> that follows the first load, or the second one when there is one.\<close>

definition consumer_found :: "mpscq \<Rightarrow> mpsc_node \<Rightarrow> mpsc_node option \<Rightarrow> mpsc_event \<times> consumer \<times> mpscq" where
  "consumer_found q tail obj =
     (case obj of
        Some next \<Rightarrow> (Popped (Some tail) False, Outside, q\<lparr>oldest := next\<rparr>)
      | None \<Rightarrow> (Silent, Load_Newest tail, q))"

fun consumer_step :: "mpscq \<Rightarrow> consumer \<Rightarrow> (mpsc_event \<times> consumer \<times> mpscq) option" where
  "consumer_step q Outside =
     (case load_next q (oldest q) of
        None \<Rightarrow> None
      | Some obj \<Rightarrow> Some
          (if oldest q = Stub then
             (case obj of
                None \<Rightarrow> (Popped None True, Outside, q)
              | Some tail \<Rightarrow> (Silent, Second_Load tail, q\<lparr>oldest := tail\<rparr>))
           else consumer_found q (oldest q) obj))"
| "consumer_step q (Second_Load tail) =
     (case load_next q tail of None \<Rightarrow> None | Some obj \<Rightarrow> Some (consumer_found q tail obj))"
| "consumer_step q (Load_Newest tail) =
     Some (if tail \<noteq> newest q then (Popped None False, Outside, q) else (Silent, Stub_Clear tail, q))"
| "consumer_step q (Stub_Clear tail) =
     (case store_next q Stub None of None \<Rightarrow> None | Some q' \<Rightarrow> Some (Silent, Stub_Exchange tail, q'))"
| "consumer_step q (Stub_Exchange tail) =
     (let (prev, q') = exchange_newest q Stub in Some (Silent, Stub_Link tail prev, q'))"
| "consumer_step q (Stub_Link tail prev) =
     (case store_next q prev (Some Stub) of None \<Rightarrow> None | Some q' \<Rightarrow> Some (Silent, Last_Load tail, q'))"
| "consumer_step q (Last_Load tail) =
     (case load_next q tail of
        None \<Rightarrow> None
      | Some obj \<Rightarrow> Some
          (case obj of
             Some next \<Rightarrow> (Popped (Some tail) False, Outside, q\<lparr>oldest := next\<rparr>)
           | None \<Rightarrow> (Popped None False, Outside, q)))"

section \<open>A program that uses the queue\<close>

text \<open>
  The state of a program: the queue, the place of each producer and of the consumer, and the nodes
  the program holds, that is, has allocated and not handed to the queue. It may allocate a node,
  release one it holds, begin to push one it holds in a thread that is not inside \<open>push\<close>,
  and let any thread make its next access. A node that comes out of the queue is held again.
\<close>

record mpsc_system =
  queue :: mpscq
  producers :: "nat \<Rightarrow> producer"
  consumer :: consumer
  held :: "nat set"

datatype mpsc_action = Alloc nat | Release nat | Begin_Push nat nat | Step_Push nat | Step_Pop

text \<open>An action is not allowed, or it reads or writes a node that was released, or it is done.\<close>

datatype mpsc_result = Not_Allowed | Bad_Access | Done mpsc_event mpsc_system

definition mpsc_start :: mpsc_system where
  "mpsc_start = \<lparr>queue = mpscq_new, producers = \<lambda>t. Ready, consumer = Outside, held = {}\<rparr>"

definition give_back :: "mpsc_event \<Rightarrow> nat set \<Rightarrow> nat set" where
  "give_back e h = (case e of Popped (Some (Node n)) b \<Rightarrow> insert n h | _ \<Rightarrow> h)"

fun mpsc_act :: "mpsc_system \<Rightarrow> mpsc_action \<Rightarrow> mpsc_result" where
  "mpsc_act s (Alloc n) =
     (if Node n \<in> dom (cells (queue s)) then Not_Allowed
      else Done Silent (s\<lparr>queue := (queue s)\<lparr>cells := (cells (queue s))(Node n \<mapsto> None)\<rparr>,
                          held := insert n (held s)\<rparr>))"
| "mpsc_act s (Release n) =
     (if n \<notin> held s then Not_Allowed
      else Done Silent (s\<lparr>queue := (queue s)\<lparr>cells := (cells (queue s))(Node n := None)\<rparr>,
                          held := held s - {n}\<rparr>))"
| "mpsc_act s (Begin_Push t n) =
     (if n \<notin> held s \<or> producers s t \<noteq> Ready then Not_Allowed
      else (case producer_begin (queue s) n of
              None \<Rightarrow> Bad_Access
            | Some (e, p, q) \<Rightarrow>
                Done e (s\<lparr>queue := q, producers := (producers s)(t := p), held := held s - {n}\<rparr>)))"
| "mpsc_act s (Step_Push t) =
     (if producers s t = Ready then Not_Allowed
      else (case producer_step (queue s) (producers s t) of
              None \<Rightarrow> Bad_Access
            | Some (e, p, q) \<Rightarrow> Done e (s\<lparr>queue := q, producers := (producers s)(t := p)\<rparr>)))"
| "mpsc_act s Step_Pop =
     (case consumer_step (queue s) (consumer s) of
        None \<Rightarrow> Bad_Access
      | Some (e, c, q) \<Rightarrow> Done e (s\<lparr>queue := q, consumer := c, held := give_back e (held s)\<rparr>))"

text \<open>The states a program can reach, with the events on the way.\<close>

inductive mpsc_run :: "mpsc_event list \<Rightarrow> mpsc_system \<Rightarrow> bool" where
  start: "mpsc_run [] mpsc_start"
| action: "mpsc_run es s \<Longrightarrow> mpsc_act s a = Done e s' \<Longrightarrow> mpsc_run (es @ [e]) s'"

text \<open>What went in and what came out, in order.\<close>

definition pushed_nodes :: "mpsc_event list \<Rightarrow> nat list" where
  "pushed_nodes es = List.map_filter (\<lambda>e. case e of Pushed n first \<Rightarrow> Some n | _ \<Rightarrow> None) es"

definition popped_nodes :: "mpsc_event list \<Rightarrow> nat list" where
  "popped_nodes es =
     List.map_filter (\<lambda>e. case e of Popped (Some (Node n)) was_empty \<Rightarrow> Some n | _ \<Rightarrow> None) es"

text \<open>A push is in progress from its first store to its last.\<close>

definition push_in_progress :: "mpsc_system \<Rightarrow> bool" where
  "push_in_progress s \<longleftrightarrow> (\<exists>t. producers s t \<noteq> Ready)"

end
