(* ===== verification/Mpscq_Properties.thy ===== *)
theory Mpscq_Properties
  imports Mpscq
begin

text \<open>
  The lock-free queue is a first-in first-out queue for every interleaving of its accesses. The
  invariant names the chain of nodes from \<^verbatim>\<open>_oldest\<close> to \<^verbatim>\<open>_newest\<close>: each is linked to the next one,
  or the thread that appended the next one is still before the store that links it.
\<close>

section \<open>Successive elements of a list\<close>

definition edges :: "'a list \<Rightarrow> ('a \<times> 'a) set" where
  "edges c = set (zip c (tl c))"

lemma edges_simps [simp]:
  "edges [] = {}" "edges [x] = {}" "edges (x # y # c) = insert (x, y) (edges (y # c))"
  by (simp_all add: edges_def)

lemma edges_Cons: "edges (x # c) = (if c = [] then {} else insert (x, hd c) (edges c))"
  by (cases c) auto

lemma edges_from: "x \<in> set c \<Longrightarrow> x = last c \<or> (\<exists>b. (x, b) \<in> edges c)"
  by (induction c) (auto simp: edges_Cons)

lemma edges_snoc: "c \<noteq> [] \<Longrightarrow> edges (c @ [x]) = insert (last c, x) (edges c)"
  by (induction c rule: induct_list012) auto

lemma edges_in_set: "(a, b) \<in> edges c \<Longrightarrow> a \<in> set c \<and> b \<in> set (tl c)"
  by (auto simp: edges_def dest: set_zip_leftD set_zip_rightD)

lemma edges_from_unique: "distinct c \<Longrightarrow> (a, b) \<in> edges c \<Longrightarrow> (a, b') \<in> edges c \<Longrightarrow> b = b'"
  by (induction c rule: induct_list012) (auto dest: edges_in_set)

lemma edges_to_unique: "distinct c \<Longrightarrow> (a, b) \<in> edges c \<Longrightarrow> (a', b) \<in> edges c \<Longrightarrow> a = a'"
  by (induction c rule: induct_list012) (auto dest: edges_in_set)

lemma edges_from_not_last: "distinct c \<Longrightarrow> (a, b) \<in> edges c \<Longrightarrow> a \<noteq> last c"
  by (induction c rule: induct_list012) (auto dest: edges_in_set)

section \<open>The chain\<close>

text \<open>\<open>P\<close> holds the links that a thread has still to store.\<close>

definition chain_ok :: "mpscq \<Rightarrow> (mpsc_node \<times> mpsc_node) set \<Rightarrow> mpsc_node list \<Rightarrow> bool" where
  "chain_ok q P c \<longleftrightarrow>
     c \<noteq> [] \<and> distinct c \<and> hd c = oldest q \<and> last c = newest q \<and> P \<subseteq> edges c \<and>
     cells q (newest q) = Some None \<and>
     (\<forall>(a, b) \<in> edges c. cells q a = Some (if (a, b) \<in> P then None else Some b))"

lemma chain_ok_edge:
  "chain_ok q P c \<Longrightarrow> (a, b) \<in> edges c \<Longrightarrow> cells q a = Some (if (a, b) \<in> P then None else Some b)"
  unfolding chain_ok_def by fast

lemma chain_ok_live: "chain_ok q P c \<Longrightarrow> x \<in> set c \<Longrightarrow> cells q x \<noteq> None"
  using edges_from [of x c] chain_ok_edge [of q P c x] by (auto simp: chain_ok_def)

lemma chain_exchange:
  assumes ok: "chain_ok q P c" and new: "x \<notin> set c" "cells q x = Some None"
  shows "chain_ok (q\<lparr>newest := x\<rparr>) (insert (newest q, x) P) (c @ [x])"
proof -
  have c: "c \<noteq> []" "distinct c" "last c = newest q" and old: "hd c = oldest q" "P \<subseteq> edges c"
    and cell: "cells q (newest q) = Some None" using ok by (auto simp: chain_ok_def)
  have "(a, b) \<noteq> (newest q, x)" if "(a, b) \<in> edges c" for a b
    using edges_from_not_last [OF c(2) that] c(3) by auto
  then show ?thesis
    using c old cell new chain_ok_edge [OF ok] by (auto simp: chain_ok_def edges_snoc)
qed

lemma chain_link:
  assumes ok: "chain_ok q P c" and pending: "(a, b) \<in> P"
  shows "cells q a = Some None" "chain_ok (q\<lparr>cells := (cells q)(a \<mapsto> Some b)\<rparr>) (P - {(a, b)}) c"
proof -
  have c: "distinct c" "last c = newest q" and e: "(a, b) \<in> edges c"
    using ok pending by (auto simp: chain_ok_def)
  show "cells q a = Some None" using chain_ok_edge [OF ok e] pending by simp
  show "chain_ok (q\<lparr>cells := (cells q)(a \<mapsto> Some b)\<rparr>) (P - {(a, b)}) c"
    using ok edges_from_not_last [OF c(1) e] edges_from_unique [OF c(1) e]
    by (auto simp: chain_ok_def split_def)
qed

lemma chain_cells: "chain_ok q P c \<Longrightarrow> (\<And>x. x \<in> set c \<Longrightarrow> m x = cells q x) \<Longrightarrow> chain_ok (q\<lparr>cells := m\<rparr>) P c"
proof -
  assume ok: "chain_ok q P c" and same: "\<And>x. x \<in> set c \<Longrightarrow> m x = cells q x"
  have "newest q \<in> set c" using ok last_in_set [of c] by (simp add: chain_ok_def)
  moreover have "a \<in> set c" if "(a, b) \<in> edges c" for a b using edges_in_set [OF that] by simp
  ultimately show ?thesis using ok same by (auto simp: chain_ok_def split_def)
qed

lemma chain_cell_update: "chain_ok q P c \<Longrightarrow> x \<notin> set c \<Longrightarrow> chain_ok (q\<lparr>cells := (cells q)(x := v)\<rparr>) P c"
  by (rule chain_cells) auto

lemma chain_advance:
  assumes ok: "chain_ok q P (x # c)" and linked: "cells q x = Some (Some y)"
  shows "\<exists>d. c = y # d" "chain_ok (q\<lparr>oldest := y\<rparr>) P c" "x \<notin> set c"
proof -
  obtain z d where d: "c = z # d" using ok linked by (cases c) (auto simp: chain_ok_def)
  have z: "z = y" "(x, y) \<notin> P"
    using chain_ok_edge [OF ok, of x z] linked by (auto simp: d split: if_splits)
  show "\<exists>d. c = y # d" using d z by simp
  show "x \<notin> set c" using ok by (auto simp: chain_ok_def)
  show "chain_ok (q\<lparr>oldest := y\<rparr>) P c" using ok z d by (auto simp: chain_ok_def)
qed

section \<open>The invariant\<close>

definition pending_links :: "mpsc_system \<Rightarrow> (mpsc_node \<times> mpsc_node) set" where
  "pending_links s =
     {(a, Node n) | a n. \<exists>t. producers s t = Linking a n} \<union>
     {(a, Stub) | a. \<exists>tail. consumer s = Stub_Link tail a}"

text \<open>Two producers never push the same node.\<close>

fun pushing :: "producer \<Rightarrow> nat option" where
  "pushing Ready = None"
| "pushing (Exchanging n) = Some n"
| "pushing (Linking prev n) = Some n"

definition one_pusher :: "(nat \<Rightarrow> producer) \<Rightarrow> bool" where
  "one_pusher p \<longleftrightarrow> (\<forall>t t'. pushing (p t) = pushing (p t') \<longrightarrow> pushing (p t) \<noteq> None \<longrightarrow> t = t')"

lemma one_pusherD: "one_pusher p \<Longrightarrow> pushing (p t) = Some n \<Longrightarrow> pushing (p t') = Some n \<Longrightarrow> t = t'"
  unfolding one_pusher_def by (metis option.distinct(1))

lemma one_pusher_other:
  assumes "one_pusher p" "pushing (p t) = Some n" "t' \<noteq> t"
  shows "p t' \<noteq> Exchanging n" "p t' \<noteq> Linking a n"
  using one_pusherD [OF assms(1,2), of t'] assms(3) by auto

lemma one_pusher_update:
  "one_pusher p \<Longrightarrow> (\<And>t' n. pushing x = Some n \<Longrightarrow> t' \<noteq> t \<Longrightarrow> pushing (p t') \<noteq> Some n) \<Longrightarrow> one_pusher (p(t := x))"
  unfolding one_pusher_def by auto (metis option.collapse)+

lemma one_pusher_same: "one_pusher p \<Longrightarrow> pushing x = pushing (p t) \<Longrightarrow> one_pusher (p(t := x))"
  unfolding one_pusher_def by (metis fun_upd_apply)

text \<open>
  A node is held by the program, about to be exchanged by one producer, or in the chain.
\<close>

definition held_ok :: "mpscq \<Rightarrow> nat set \<Rightarrow> mpsc_node list \<Rightarrow> bool" where
  "held_ok q h c \<longleftrightarrow> (\<forall>n \<in> h. cells q (Node n) \<noteq> None \<and> Node n \<notin> set c)"

definition exchanging_ok :: "mpscq \<Rightarrow> (nat \<Rightarrow> producer) \<Rightarrow> nat set \<Rightarrow> mpsc_node list \<Rightarrow> bool" where
  "exchanging_ok q p h c \<longleftrightarrow>
     (\<forall>t n. p t = Exchanging n \<longrightarrow> cells q (Node n) = Some None \<and> Node n \<notin> set c \<and> n \<notin> h)"

definition nodes_ok :: "mpsc_system \<Rightarrow> mpsc_node list \<Rightarrow> bool" where
  "nodes_ok s c \<longleftrightarrow>
     cells (queue s) Stub \<noteq> None \<and> held_ok (queue s) (held s) c \<and>
     exchanging_ok (queue s) (producers s) (held s) c \<and> one_pusher (producers s)"

text \<open>What the consumer knows at each place of \<open>PopAndCheckEnd\<close>.\<close>

fun place_ok :: "mpscq \<Rightarrow> consumer \<Rightarrow> mpsc_node list \<Rightarrow> bool" where
  "place_ok q Outside c = True"
| "place_ok q (Second_Load tail) c = (tail = oldest q \<and> tail \<noteq> Stub \<and> Stub \<notin> set c)"
| "place_ok q (Load_Newest tail) c = (tail = oldest q \<and> tail \<noteq> Stub)"
| "place_ok q (Stub_Clear tail) c = (tail = oldest q \<and> tail \<noteq> Stub \<and> Stub \<notin> set c)"
| "place_ok q (Stub_Exchange tail) c =
     (tail = oldest q \<and> tail \<noteq> Stub \<and> Stub \<notin> set c \<and> cells q Stub = Some None)"
| "place_ok q (Stub_Link tail prev) c = (tail = oldest q \<and> tail \<noteq> Stub)"
| "place_ok q (Last_Load tail) c = (tail = oldest q \<and> tail \<noteq> Stub)"

definition mpsc_inv :: "mpsc_system \<Rightarrow> mpsc_node list \<Rightarrow> bool" where
  "mpsc_inv s c \<longleftrightarrow> chain_ok (queue s) (pending_links s) c \<and> nodes_ok s c \<and> place_ok (queue s) (consumer s) c"

lemmas mpsc_inv_defs = mpsc_inv_def nodes_ok_def held_ok_def exchanging_ok_def pending_links_def

text \<open>The elements of the queue: the nodes of the chain without the stub.\<close>

definition content :: "mpsc_node list \<Rightarrow> nat list" where
  "content c = List.map_filter (\<lambda>x. case x of Node n \<Rightarrow> Some n | Stub \<Rightarrow> None) c"

lemma content_simps [simp]:
  "content [] = []" "content (Stub # c) = content c" "content (Node n # c) = n # content c"
  "content (c @ d) = content c @ content d"
  by (simp_all add: content_def map_filter_simps) (simp add: List.map_filter_def)

lemma content_Nil_iff: "content c = [] \<longleftrightarrow> set c \<subseteq> {Stub}"
proof (induction c)
  case (Cons x c)
  then show ?case by (cases x) auto
qed simp

text \<open>How an event changes the elements: the first-in first-out queue.\<close>

fun fifo_step :: "mpsc_event \<Rightarrow> nat list \<Rightarrow> nat list option" where
  "fifo_step Silent xs = Some xs"
| "fifo_step (Pushed n first) xs = (if xs = [] \<and> \<not> first then None else Some (xs @ [n]))"
| "fifo_step (Popped None was_empty) xs = Some xs"
| "fifo_step (Popped (Some Stub) was_empty) xs = None"
| "fifo_step (Popped (Some (Node n)) was_empty) [] = None"
| "fifo_step (Popped (Some (Node n)) was_empty) (m # xs) =
     (if n = m \<and> \<not> was_empty then Some xs else None)"

section \<open>Every action keeps the invariant\<close>

lemma place_ok_same:
  assumes "place_ok q p c" "oldest q' = oldest q" "Stub \<notin> set c \<Longrightarrow> cells q' Stub = cells q Stub"
  shows "place_ok q' p c"
  using assms by (cases p) auto

lemma place_ok_snoc: "place_ok q p c \<Longrightarrow> place_ok q p (c @ [Node n])"
  by (cases p) auto

definition keeps_fifo :: "mpsc_node list \<Rightarrow> mpsc_event \<Rightarrow> mpsc_system \<Rightarrow> bool" where
  "keeps_fifo c e s \<longleftrightarrow> (\<exists>d. mpsc_inv s d \<and> fifo_step e (content c) = Some (content d))"

lemma keeps_fifoI: "mpsc_inv s d \<Longrightarrow> fifo_step e (content c) = Some (content d) \<Longrightarrow> keeps_fifo c e s"
  by (auto simp: keeps_fifo_def)

lemma mpsc_inv_chain: "mpsc_inv s c \<Longrightarrow> chain_ok (queue s) (pending_links s) c"
  by (simp add: mpsc_inv_def)

lemma mpsc_inv_start: "mpsc_inv mpsc_start [Stub]"
  by (simp add: mpsc_inv_defs one_pusher_def chain_ok_def mpsc_start_def mpscq_new_def)

lemma linking_in_chain:
  "mpsc_inv s c \<Longrightarrow> producers s t = Linking a n \<Longrightarrow> (a, Node n) \<in> pending_links s \<and> Node n \<in> set c"
  using edges_in_set [of a "Node n" c] list.set_sel(2) [of c "Node n"]
  by (auto simp: mpsc_inv_def chain_ok_def pending_links_def)

text \<open>
  The form of every preservation proof: the parts of the invariant that the action touches, and
  the effect on the elements.
\<close>

lemma keeps_fifo_parts:
  assumes "chain_ok (queue s') (pending_links s') d" "cells (queue s') Stub \<noteq> None"
    "held_ok (queue s') (held s') d" "exchanging_ok (queue s') (producers s') (held s') d"
    "one_pusher (producers s')" "place_ok (queue s') (consumer s') d"
    "fifo_step e (content c) = Some (content d)"
  shows "keeps_fifo c e s'"
  using assms by (auto simp: keeps_fifo_def mpsc_inv_def nodes_ok_def)

lemma alloc_fifo:
  assumes inv: "mpsc_inv s c" and did: "mpsc_act s (Alloc n) = Done e s'"
  shows "keeps_fifo c e s'"
proof (rule keeps_fifo_parts [where d = c])
  let ?m = "(cells (queue s))(Node n \<mapsto> None)"
  have new: "cells (queue s) (Node n) = None" and e: "e = Silent"
    and s': "s' = s\<lparr>queue := (queue s)\<lparr>cells := ?m\<rparr>, held := insert n (held s)\<rparr>"
    using did by (auto split: if_splits)
  have out: "Node n \<notin> set c" using chain_ok_live [OF mpsc_inv_chain [OF inv]] new by fastforce
  have "pending_links s' = pending_links s" by (simp add: pending_links_def s')
  then show "chain_ok (queue s') (pending_links s') c"
    using chain_cell_update [OF mpsc_inv_chain [OF inv] out] by (simp add: s')
  show "held_ok (queue s') (held s') c" "cells (queue s') Stub \<noteq> None" "one_pusher (producers s')"
    using inv out by (auto simp: mpsc_inv_def nodes_ok_def held_ok_def s')
  show "exchanging_ok (queue s') (producers s') (held s') c"
    using inv new by (auto simp: mpsc_inv_def nodes_ok_def exchanging_ok_def s')
  show "place_ok (queue s') (consumer s') c"
    using inv by (auto simp: mpsc_inv_def s' intro: place_ok_same [of "queue s"])
  show "fifo_step e (content c) = Some (content c)" by (simp add: e)
qed

lemma release_fifo:
  assumes inv: "mpsc_inv s c" and did: "mpsc_act s (Release n) = Done e s'"
  shows "keeps_fifo c e s'"
proof (rule keeps_fifo_parts [where d = c])
  let ?m = "(cells (queue s))(Node n := None)"
  have n: "n \<in> held s" and e: "e = Silent"
    and s': "s' = s\<lparr>queue := (queue s)\<lparr>cells := ?m\<rparr>, held := held s - {n}\<rparr>"
    using did by (auto split: if_splits)
  have out: "Node n \<notin> set c" using inv n by (auto simp: mpsc_inv_def nodes_ok_def held_ok_def)
  have "pending_links s' = pending_links s" by (simp add: pending_links_def s')
  then show "chain_ok (queue s') (pending_links s') c"
    using chain_cell_update [OF mpsc_inv_chain [OF inv] out] by (simp add: s')
  show "held_ok (queue s') (held s') c" "cells (queue s') Stub \<noteq> None" "one_pusher (producers s')"
    using inv out by (auto simp: mpsc_inv_def nodes_ok_def held_ok_def s')
  show "exchanging_ok (queue s') (producers s') (held s') c"
    using inv n by (auto simp: mpsc_inv_def nodes_ok_def exchanging_ok_def s')
  show "place_ok (queue s') (consumer s') c"
    using inv by (auto simp: mpsc_inv_def s' intro: place_ok_same [of "queue s"])
  show "fifo_step e (content c) = Some (content c)" by (simp add: e)
qed

lemma begin_push_fifo:
  assumes inv: "mpsc_inv s c" and did: "mpsc_act s (Begin_Push t n) = Done e s'"
  shows "keeps_fifo c e s'"
proof (rule keeps_fifo_parts [where d = c])
  let ?m = "(cells (queue s))(Node n \<mapsto> None)"
  have n: "n \<in> held s" and t: "producers s t = Ready" and e: "e = Silent"
    and s': "s' = s\<lparr>queue := (queue s)\<lparr>cells := ?m\<rparr>, producers := (producers s)(t := Exchanging n),
                   held := held s - {n}\<rparr>"
    using did by (auto simp: producer_begin_def store_next_def split: if_splits option.splits)
  have out: "Node n \<notin> set c" using inv n by (auto simp: mpsc_inv_def nodes_ok_def held_ok_def)
  have "pending_links s' = pending_links s" using t by (force simp: pending_links_def s')
  then show "chain_ok (queue s') (pending_links s') c"
    using chain_cell_update [OF mpsc_inv_chain [OF inv] out] by (simp add: s')
  show "held_ok (queue s') (held s') c" "cells (queue s') Stub \<noteq> None"
    using inv out by (auto simp: mpsc_inv_def nodes_ok_def held_ok_def s')
  show "exchanging_ok (queue s') (producers s') (held s') c"
    using inv n out by (auto simp: mpsc_inv_def nodes_ok_def exchanging_ok_def s')
  have "pushing (producers s t') \<noteq> Some n" for t'
    using linking_in_chain [OF inv, of t'] out inv n
    by (cases "producers s t'") (auto simp: mpsc_inv_def nodes_ok_def exchanging_ok_def)
  then show "one_pusher (producers s')"
    using inv by (auto simp: s' mpsc_inv_def nodes_ok_def intro!: one_pusher_update)
  show "place_ok (queue s') (consumer s') c"
    using inv by (auto simp: mpsc_inv_def s' intro: place_ok_same [of "queue s"])
  show "fifo_step e (content c) = Some (content c)" by (simp add: e)
qed

lemma exchange_fifo:
  assumes inv: "mpsc_inv s c" and t: "producers s t = Exchanging n"
    and did: "mpsc_act s (Step_Push t) = Done e s'"
  shows "keeps_fifo c e s'"
proof (rule keeps_fifo_parts [where d = "c @ [Node n]"])
  let ?new = "newest (queue s)"
  have e: "e = Pushed n (?new = Stub)"
    and s': "s' = s\<lparr>queue := (queue s)\<lparr>newest := Node n\<rparr>, producers := (producers s)(t := Linking ?new n)\<rparr>"
    using did t by (auto simp: exchange_newest_def)
  have n: "cells (queue s) (Node n) = Some None" "Node n \<notin> set c" "n \<notin> held s"
    using inv t by (auto simp: mpsc_inv_def nodes_ok_def exchanging_ok_def)
  have one: "one_pusher (producers s)" using inv by (simp add: mpsc_inv_def nodes_ok_def)
  have "pending_links s' = insert (?new, Node n) (pending_links s)"
    using t by (force simp: pending_links_def s')
  then show "chain_ok (queue s') (pending_links s') (c @ [Node n])"
    using chain_exchange [OF mpsc_inv_chain [OF inv] n(2,1)] by (simp add: s')
  show "held_ok (queue s') (held s') (c @ [Node n])" "cells (queue s') Stub \<noteq> None"
    using inv n by (auto simp: mpsc_inv_def nodes_ok_def held_ok_def s')
  show "exchanging_ok (queue s') (producers s') (held s') (c @ [Node n])"
    using inv t one_pusher_other(1) [OF one, of t n] by (auto simp: mpsc_inv_def nodes_ok_def exchanging_ok_def s')
  show "one_pusher (producers s')" using one t by (auto simp: s' intro: one_pusher_same)
  show "place_ok (queue s') (consumer s') (c @ [Node n])"
    using inv by (auto simp: mpsc_inv_def s' intro: place_ok_same [of "queue s"] place_ok_snoc)
  have "?new = Stub" if "content c = []"
  proof -
    have "?new \<in> set c" using inv last_in_set [of c] by (simp add: mpsc_inv_def chain_ok_def)
    then show ?thesis using that by (cases ?new) (auto simp: content_Nil_iff)
  qed
  then show "fifo_step e (content c) = Some (content (c @ [Node n]))" by (simp add: e)
qed

lemma link_fifo:
  assumes inv: "mpsc_inv s c" and t: "producers s t = Linking a n"
    and did: "mpsc_act s (Step_Push t) = Done e s'"
  shows "keeps_fifo c e s'"
proof (rule keeps_fifo_parts [where d = c])
  let ?m = "(cells (queue s))(a \<mapsto> Some (Node n))"
  have e: "e = Silent" and s': "s' = s\<lparr>queue := (queue s)\<lparr>cells := ?m\<rparr>, producers := (producers s)(t := Ready)\<rparr>"
    using did t by (auto simp: store_next_def split: option.splits)
  have P: "(a, Node n) \<in> pending_links s" using linking_in_chain [OF inv t] by simp
  have a: "a \<in> set c" using P inv edges_in_set by (fastforce simp: mpsc_inv_def chain_ok_def)
  have one: "one_pusher (producers s)" using inv by (simp add: mpsc_inv_def nodes_ok_def)
  have "(\<exists>t'. producers s' t' = Linking x m) \<longleftrightarrow> (x, m) \<noteq> (a, n) \<and> (\<exists>t'. producers s t' = Linking x m)" for x m
    using t one_pusher_other(2) [OF one, of t n] by (auto simp: s') (metis producer.inject(2))+
  then have "pending_links s' = pending_links s - {(a, Node n)}"
    by (auto simp: pending_links_def) (simp_all add: s')
  then show "chain_ok (queue s') (pending_links s') c"
    using chain_link(2) [OF mpsc_inv_chain [OF inv] P] by (simp add: s')
  show "held_ok (queue s') (held s') c" "cells (queue s') Stub \<noteq> None"
    using inv a by (auto simp: mpsc_inv_def nodes_ok_def held_ok_def s')
  show "exchanging_ok (queue s') (producers s') (held s') c"
    using inv a by (auto simp: mpsc_inv_def nodes_ok_def exchanging_ok_def s')
  show "one_pusher (producers s')" using one by (auto simp: s' intro: one_pusher_update)
  show "place_ok (queue s') (consumer s') c"
    using inv a by (auto simp: mpsc_inv_def s' intro!: place_ok_same [of "queue s"])
  show "fifo_step e (content c) = Some (content c)" by (simp add: e)
qed

section \<open>The consumer\<close>

definition linking_stub :: "consumer \<Rightarrow> bool" where
  "linking_stub p \<longleftrightarrow> (\<exists>tail prev. p = Stub_Link tail prev)"

lemma linking_stub_simps [simp]:
  "\<not> linking_stub Outside" "\<not> linking_stub (Second_Load tail)" "\<not> linking_stub (Load_Newest tail)"
  "\<not> linking_stub (Stub_Clear tail)" "\<not> linking_stub (Stub_Exchange tail)" "\<not> linking_stub (Last_Load tail)"
  by (simp_all add: linking_stub_def)

lemma pending_links_consumer:
  "\<not> linking_stub (consumer s) \<Longrightarrow> \<not> linking_stub (consumer s') \<Longrightarrow> producers s' = producers s \<Longrightarrow>
   pending_links s' = pending_links s"
  by (auto simp: pending_links_def linking_stub_def)

text \<open>A step of the consumer that leaves the memory and \<^verbatim>\<open>_oldest\<close> alone.\<close>

lemma stay_fifo:
  assumes inv: "mpsc_inv s c" and s': "s' = s\<lparr>consumer := p\<rparr>" and p: "place_ok (queue s) p c"
    and out: "\<not> linking_stub (consumer s)" "\<not> linking_stub p" and e: "fifo_step e (content c) = Some (content c)"
  shows "keeps_fifo c e s'"
proof (rule keeps_fifo_parts [where d = c])
  show "chain_ok (queue s') (pending_links s') c"
    using mpsc_inv_chain [OF inv] pending_links_consumer [of s s'] out by (simp add: s')
qed (use inv p e in \<open>auto simp: s' mpsc_inv_def nodes_ok_def\<close>)

lemma take_fifo:
  assumes inv: "mpsc_inv s c" and old: "oldest (queue s) \<noteq> Stub" "cells (queue s) (oldest (queue s)) = Some (Some y)"
    and s': "s' = s\<lparr>queue := (queue s)\<lparr>oldest := y\<rparr>, consumer := Outside,
                  held := give_back (Popped (Some (oldest (queue s))) False) (held s)\<rparr>"
    and out: "\<not> linking_stub (consumer s)"
  shows "keeps_fifo c (Popped (Some (oldest (queue s))) False) s'"
proof -
  obtain k where k: "oldest (queue s) = Node k" using old(1) by (cases "oldest (queue s)") auto
  obtain d where c: "c = Node k # d"
    using mpsc_inv_chain [OF inv] k by (cases c) (auto simp: chain_ok_def)
  have ok: "chain_ok (queue s) (pending_links s) (Node k # d)" using mpsc_inv_chain [OF inv] by (simp add: c)
  note adv = chain_advance [OF ok old(2) [unfolded k]]
  show ?thesis
  proof (rule keeps_fifo_parts [where d = d])
    show "chain_ok (queue s') (pending_links s') d"
      using adv(2) pending_links_consumer [of s s'] out by (simp add: s')
    show "held_ok (queue s') (held s') d" "cells (queue s') Stub \<noteq> None"
      using inv adv(3) old(2) k by (auto simp: mpsc_inv_def nodes_ok_def held_ok_def s' give_back_def c)
    show "exchanging_ok (queue s') (producers s') (held s') d"
      using inv k by (auto simp: mpsc_inv_def nodes_ok_def exchanging_ok_def s' give_back_def c)
    show "one_pusher (producers s')" using inv by (simp add: mpsc_inv_def nodes_ok_def s')
    show "place_ok (queue s') (consumer s') d" by (simp add: s')
    show "fifo_step (Popped (Some (oldest (queue s))) False) (content c) = Some (content d)"
      by (simp add: c k)
  qed
qed

text \<open>Leaving the stub: the stub is out of the chain.\<close>

lemma skip_fifo:
  assumes inv: "mpsc_inv s c" and old: "oldest (queue s) = Stub" "cells (queue s) Stub = Some (Some y)"
    and s': "s' = s\<lparr>queue := (queue s)\<lparr>oldest := y\<rparr>, consumer := Second_Load y\<rparr>"
    and out: "\<not> linking_stub (consumer s)"
  shows "keeps_fifo c Silent s'"
proof -
  obtain d where c: "c = Stub # d"
    using mpsc_inv_chain [OF inv] old by (cases c) (auto simp: chain_ok_def)
  have ok: "chain_ok (queue s) (pending_links s) (Stub # d)" using mpsc_inv_chain [OF inv] by (simp add: c)
  note adv = chain_advance [OF ok old(2)]
  show ?thesis
  proof (rule keeps_fifo_parts [where d = d])
    show "chain_ok (queue s') (pending_links s') d"
      using adv(2) pending_links_consumer [of s s'] out by (simp add: s')
    show "held_ok (queue s') (held s') d" "cells (queue s') Stub \<noteq> None"
      "exchanging_ok (queue s') (producers s') (held s') d" "one_pusher (producers s')"
      using inv by (auto simp: mpsc_inv_def nodes_ok_def held_ok_def exchanging_ok_def s' c)
    show "place_ok (queue s') (consumer s') d" using adv(1,3) by (auto simp: s')
    show "fifo_step Silent (content c) = Some (content d)" by (simp add: c)
  qed
qed

lemma found_fifo:
  assumes inv: "mpsc_inv s c" and old: "oldest (queue s) \<noteq> Stub" "cells (queue s) (oldest (queue s)) = Some obj"
    and out: "\<not> linking_stub (consumer s)"
    and r: "consumer_found (queue s) (oldest (queue s)) obj = (e, p, q)"
    and s': "s' = s\<lparr>queue := q, consumer := p, held := give_back e (held s)\<rparr>"
  shows "keeps_fifo c e s'"
proof (cases obj)
  case None
  then have "s' = s\<lparr>consumer := Load_Newest (oldest (queue s))\<rparr>" "e = Silent"
    using r s' by (auto simp: consumer_found_def give_back_def)
  then show ?thesis using stay_fifo [OF inv, of s' _ e] old(1) out by simp
next
  case (Some y)
  then show ?thesis using take_fifo [OF inv old(1), of y s'] old(2) r s' out by (auto simp: consumer_found_def)
qed

lemma single_chain:
  assumes "mpsc_inv s c" "oldest (queue s) = newest (queue s)"
  shows "c = [oldest (queue s)]"
  using mpsc_inv_chain [OF assms(1)] assms(2)
  by (cases c) (auto simp: chain_ok_def split: if_splits dest: last_in_set)

lemma stub_clear_fifo:
  assumes inv: "mpsc_inv s c" and p: "consumer s = Stub_Clear tail"
    and s': "s' = s\<lparr>queue := (queue s)\<lparr>cells := (cells (queue s))(Stub \<mapsto> None)\<rparr>, consumer := Stub_Exchange tail\<rparr>"
  shows "keeps_fifo c Silent s'"
proof (rule keeps_fifo_parts [where d = c])
  have out: "Stub \<notin> set c" using inv p by (simp add: mpsc_inv_def)
  show "chain_ok (queue s') (pending_links s') c"
    using chain_cell_update [OF mpsc_inv_chain [OF inv] out] pending_links_consumer [of s s'] p by (simp add: s')
qed (use inv p in \<open>auto simp: s' mpsc_inv_def nodes_ok_def held_ok_def exchanging_ok_def\<close>)

lemma stub_exchange_fifo:
  assumes inv: "mpsc_inv s c" and p: "consumer s = Stub_Exchange tail"
    and s': "s' = s\<lparr>queue := (queue s)\<lparr>newest := Stub\<rparr>, consumer := Stub_Link tail (newest (queue s))\<rparr>"
  shows "keeps_fifo c Silent s'"
proof (rule keeps_fifo_parts [where d = "c @ [Stub]"])
  have new: "Stub \<notin> set c" "cells (queue s) Stub = Some None" using inv p by (simp_all add: mpsc_inv_def)
  have "pending_links s' = insert (newest (queue s), Stub) (pending_links s)"
    using p by (auto simp: pending_links_def s')
  then show "chain_ok (queue s') (pending_links s') (c @ [Stub])"
    using chain_exchange [OF mpsc_inv_chain [OF inv] new] by (simp add: s')
qed (use inv p in \<open>auto simp: s' mpsc_inv_def nodes_ok_def held_ok_def exchanging_ok_def\<close>)

lemma stub_link_fifo:
  assumes inv: "mpsc_inv s c" and p: "consumer s = Stub_Link tail a"
    and s': "s' = s\<lparr>queue := (queue s)\<lparr>cells := (cells (queue s))(a \<mapsto> Some Stub)\<rparr>, consumer := Last_Load tail\<rparr>"
  shows "keeps_fifo c Silent s'"
proof (rule keeps_fifo_parts [where d = c])
  have P: "(a, Stub) \<in> pending_links s" using p by (auto simp: pending_links_def)
  have a: "a \<in> set c" using P inv edges_in_set by (fastforce simp: mpsc_inv_def chain_ok_def)
  have "pending_links s' = pending_links s - {(a, Stub)}"
    using p by (auto simp: pending_links_def s')
  then show "chain_ok (queue s') (pending_links s') c"
    using chain_link(2) [OF mpsc_inv_chain [OF inv] P] by (simp add: s')
  show "held_ok (queue s') (held s') c" "cells (queue s') Stub \<noteq> None"
    using inv a by (auto simp: mpsc_inv_def nodes_ok_def held_ok_def s')
  show "exchanging_ok (queue s') (producers s') (held s') c"
    using inv a by (auto simp: mpsc_inv_def nodes_ok_def exchanging_ok_def s')
qed (use inv p in \<open>auto simp: s' mpsc_inv_def nodes_ok_def\<close>)

lemma pop_fifo:
  assumes inv: "mpsc_inv s c" and did: "mpsc_act s Step_Pop = Done e s'"
  shows "keeps_fifo c e s'"
proof -
  obtain p q where step: "consumer_step (queue s) (consumer s) = Some (e, p, q)"
    and s': "s' = s\<lparr>queue := q, consumer := p, held := give_back e (held s)\<rparr>"
    using did by (auto split: option.splits)
  have same: "s\<lparr>queue := queue s, held := held s\<rparr> = s" by simp
  note at = inv [unfolded mpsc_inv_def]
  show ?thesis
  proof (cases "consumer s")
    case Outside
    then obtain obj where obj: "cells (queue s) (oldest (queue s)) = Some obj"
      using step by (auto simp: load_next_def split: option.splits)
    show ?thesis
    proof (cases "oldest (queue s) = Stub")
      case stub: True
      show ?thesis
      proof (cases obj)
        case None
        then show ?thesis using step Outside obj stub s'
          by (intro stay_fifo [OF inv, where p = Outside]) (auto simp: load_next_def give_back_def)
      next
        case (Some y)
        then show ?thesis using step Outside obj stub s' skip_fifo [OF inv stub, of y s']
          by (auto simp: load_next_def give_back_def)
      qed
    next
      case False
      then show ?thesis using step Outside obj found_fifo [OF inv False obj _ _ s']
        by (auto simp: load_next_def)
    qed
  next
    case (Second_Load tail)
    then show ?thesis using step at found_fifo [OF inv _ _ _ _ s']
      by (auto simp: load_next_def split: option.splits)
  next
    case (Load_Newest tail)
    then show ?thesis using step s' at single_chain [OF inv]
      by (intro stay_fifo [OF inv, where p = p]) (auto simp: give_back_def split: if_splits)
  next
    case (Stub_Clear tail)
    then show ?thesis using step s' stub_clear_fifo [OF inv, of tail s']
      by (auto simp: store_next_def give_back_def split: option.splits)
  next
    case (Stub_Exchange tail)
    then show ?thesis using step s' stub_exchange_fifo [OF inv, of tail s']
      by (auto simp: exchange_newest_def give_back_def)
  next
    case (Stub_Link tail a)
    then show ?thesis using step s' stub_link_fifo [OF inv, of tail a s']
      by (auto simp: store_next_def give_back_def split: option.splits)
  next
    case (Last_Load tail)
    then obtain obj where obj: "cells (queue s) tail = Some obj"
      using step by (auto simp: load_next_def split: option.splits)
    show ?thesis
    proof (cases obj)
      case None
      then show ?thesis using step Last_Load obj s'
        by (intro stay_fifo [OF inv, where p = Outside]) (auto simp: load_next_def give_back_def)
    next
      case (Some y)
      then show ?thesis using step Last_Load obj s' at take_fifo [OF inv, of y s'] by (auto simp: load_next_def)
    qed
  qed
qed

lemma act_fifo:
  assumes inv: "mpsc_inv s c" and did: "mpsc_act s a = Done e s'"
  shows "keeps_fifo c e s'"
proof (cases a)
  case (Step_Push t)
  then show ?thesis using did exchange_fifo [OF inv] link_fifo [OF inv] by (cases "producers s t") auto
qed (use did alloc_fifo [OF inv] release_fifo [OF inv] begin_push_fifo [OF inv] pop_fifo [OF inv] in blast)+

section \<open>Runs\<close>

lemma event_lists_simps [simp]:
  "pushed_nodes [] = []" "popped_nodes [] = []"
  "pushed_nodes (es @ [e]) = pushed_nodes es @ (case e of Pushed n first \<Rightarrow> [n] | _ \<Rightarrow> [])"
  "popped_nodes (es @ [e]) = popped_nodes es @ (case e of Popped (Some (Node n)) was_empty \<Rightarrow> [n] | _ \<Rightarrow> [])"
  by (auto simp: pushed_nodes_def popped_nodes_def List.map_filter_def
      split: mpsc_event.splits option.splits mpsc_node.splits)

lemma fifo_step_lists:
  "pushed_nodes es = popped_nodes es @ xs \<Longrightarrow> fifo_step e xs = Some ys \<Longrightarrow>
   pushed_nodes (es @ [e]) = popped_nodes (es @ [e]) @ ys"
  by (induction e xs rule: fifo_step.induct) (auto split: if_splits)

text \<open>The abstract queue along a run, and what a history leaves in it.\<close>

fun fifo_run :: "mpsc_event list \<Rightarrow> nat list \<Rightarrow> nat list option" where
  "fifo_run [] xs = Some xs"
| "fifo_run (e # es) xs = (case fifo_step e xs of None \<Rightarrow> None | Some ys \<Rightarrow> fifo_run es ys)"

definition waiting :: "mpsc_event list \<Rightarrow> nat list" where
  "waiting es = drop (length (popped_nodes es)) (pushed_nodes es)"

lemma fifo_run_append:
  "fifo_run (es @ fs) xs = (case fifo_run es xs of None \<Rightarrow> None | Some ys \<Rightarrow> fifo_run fs ys)"
  by (induction es arbitrary: xs) (auto split: option.splits)

lemma mpsc_run_fifo:
  "mpsc_run es s \<Longrightarrow>
   \<exists>c. mpsc_inv s c \<and> fifo_run es [] = Some (content c) \<and> pushed_nodes es = popped_nodes es @ content c"
proof (induction rule: mpsc_run.induct)
  case start
  show ?case using mpsc_inv_start by (intro exI [of _ "[Stub]"]) simp
next
  case (action es s a e s')
  then obtain c where c: "mpsc_inv s c" "fifo_run es [] = Some (content c)"
      "pushed_nodes es = popped_nodes es @ content c" by blast
  obtain d where "mpsc_inv s' d" "fifo_step e (content c) = Some (content d)"
    using act_fifo [OF c(1) action.hyps(2)] by (auto simp: keeps_fifo_def)
  then show ?case using fifo_step_lists [OF c(3)] c(2) by (auto simp: fifo_run_append)
qed

lemma consumer_events:
  "consumer_step q p = Some (e, p', q') \<Longrightarrow> e = Silent \<or> (\<exists>r b. e = Popped r b \<and> p' = Outside)"
  by (cases p) (auto simp: consumer_found_def exchange_newest_def split: option.splits if_splits)

text \<open>The consumer alone: its accesses until the call returns. Seven are enough.\<close>

fun consumer_alone :: "nat \<Rightarrow> mpscq \<Rightarrow> consumer \<Rightarrow> (mpsc_node option \<times> bool \<times> mpscq) option" where
  "consumer_alone 0 q p = None"
| "consumer_alone (Suc fuel) q p =
     (case consumer_step q p of
        None \<Rightarrow> None
      | Some (Popped r b, p', q') \<Rightarrow> Some (r, b, q')
      | Some (e, p', q') \<Rightarrow> consumer_alone fuel q' p')"

definition producer_alone :: "mpscq \<Rightarrow> nat \<Rightarrow> (bool \<times> mpscq) option" where
  "producer_alone q n =
     (case producer_begin q n of
        Some (_, p, q) \<Rightarrow>
          (case producer_step q p of
             Some (Pushed m first, p, q) \<Rightarrow>
               (case producer_step q p of Some (_, Ready, q) \<Rightarrow> Some (first, q) | _ \<Rightarrow> None)
           | _ \<Rightarrow> None)
      | None \<Rightarrow> None)"

lemma producer_alone_push: "producer_alone q n = mpsc_push q (Node n)"
  by (auto simp: producer_alone_def mpsc_push_def producer_begin_def exchange_newest_def bind_eq_None_conv
      split: option.splits)

lemma pop_tail_alone:
  "consumer_alone (Suc (Suc (Suc (Suc (Suc fuel))))) q (Load_Newest tail) = pop_tail q tail None"
  by (auto simp: pop_tail_def mpsc_push_def exchange_newest_def load_next_def store_next_def
      split: option.splits)

lemma pop_found_alone:
  "(case consumer_found q tail obj of
      (Popped r b, p', q') \<Rightarrow> Some (r, b, q')
    | (e, p', q') \<Rightarrow> consumer_alone (Suc (Suc (Suc (Suc (Suc fuel))))) q' p') = pop_tail q tail obj"
  using pop_tail_alone [of fuel q tail]
  by (cases obj) (auto simp: consumer_found_def pop_tail_def)

lemma PopAndCheckEnd_alone: "consumer_alone 7 q Outside = PopAndCheckEnd q"
proof -
  have found: "consumer_alone (Suc (Suc (Suc (Suc (Suc (Suc fuel)))))) q (Second_Load tail) =
      (case load_next q tail of None \<Rightarrow> None | Some obj \<Rightarrow> pop_tail q tail obj)" for q tail fuel
    unfolding consumer_alone.simps(2) [of "Suc (Suc (Suc (Suc (Suc fuel))))"] consumer_step.simps
      pop_found_alone [of fuel, symmetric]
    by (auto split: option.splits)
  have first: "consumer_alone (Suc (Suc (Suc (Suc (Suc (Suc (Suc 0))))))) q Outside = PopAndCheckEnd q"
  proof (cases "oldest q = Stub")
    case True
    then show ?thesis
      unfolding consumer_alone.simps(2) [of _ q Outside]
      by (auto simp: PopAndCheckEnd_def found simp del: consumer_alone.simps split: option.splits)
  next
    case False
    then show ?thesis
      unfolding consumer_alone.simps(2) [of _ q Outside] PopAndCheckEnd_def pop_found_alone [of "Suc 0", symmetric]
      by (auto simp del: consumer_alone.simps split: option.splits)
  qed
  then show ?thesis by (simp only: eval_nat_numeral BitM.simps)
qed

section \<open>No access to a released node\<close>

lemma mpsc_inv_oldest: "mpsc_inv s c \<Longrightarrow> cells (queue s) (oldest (queue s)) \<noteq> None"
  using chain_ok_live [OF mpsc_inv_chain, of s c "oldest (queue s)"] hd_in_set [of c]
  by (auto simp: mpsc_inv_def chain_ok_def)

lemma linking_live: "mpsc_inv s c \<Longrightarrow> (a, b) \<in> pending_links s \<Longrightarrow> cells (queue s) a \<noteq> None"
  using chain_link(1) [OF mpsc_inv_chain] by fastforce

lemma pop_access_ok:
  assumes inv: "mpsc_inv s c"
  shows "consumer_step (queue s) (consumer s) \<noteq> None"
proof -
  have stub: "cells (queue s) Stub \<noteq> None" using inv by (simp add: mpsc_inv_def nodes_ok_def)
  have link: "cells (queue s) a \<noteq> None" if "consumer s = Stub_Link tail a" for tail a
    using that linking_live [OF inv, of a Stub] by (auto simp: pending_links_def)
  show ?thesis
    using inv stub link mpsc_inv_oldest [OF inv]
    by (cases "consumer s")
      (auto simp: mpsc_inv_def load_next_def store_next_def exchange_newest_def consumer_found_def
        split: option.splits)
qed

lemma push_access_ok: "mpsc_inv s c \<Longrightarrow> producer_step (queue s) (producers s t) \<noteq> None"
  using linking_in_chain [of s c t] linking_live [of s c]
  by (cases "producers s t") (fastforce simp: store_next_def exchange_newest_def split: option.splits)+

lemma act_access_ok:
  assumes inv: "mpsc_inv s c"
  shows "mpsc_act s a \<noteq> Bad_Access"
proof (cases a)
  case (Begin_Push t n)
  then show ?thesis using inv
    by (auto simp: mpsc_inv_def nodes_ok_def held_ok_def producer_begin_def store_next_def split: option.splits)
next
  case (Step_Push t)
  then show ?thesis using push_access_ok [OF inv, of t] by auto
next
  case Step_Pop
  then show ?thesis using pop_access_ok [OF inv] by auto
qed auto

section \<open>What a pop returns\<close>

lemma quiet_pending: "\<not> push_in_progress s \<Longrightarrow> consumer s = Outside \<Longrightarrow> pending_links s = {}"
  by (auto simp: push_in_progress_def pending_links_def)

lemma quiet_empty:
  assumes inv: "mpsc_inv s c" and empty: "content c = []"
  shows "c = [Stub]" "mpscq_destroyable (queue s)" "cells (queue s) Stub = Some None"
proof -
  show "c = [Stub]" using inv empty unfolding mpsc_inv_def chain_ok_def content_Nil_iff
    by (cases c; cases "tl c") auto
  then show "mpscq_destroyable (queue s)" "cells (queue s) Stub = Some None"
    using mpsc_inv_chain [OF inv] by (auto simp: chain_ok_def mpscq_destroyable_def)
qed

lemma pop_tail_quiet:
  assumes ok: "chain_ok q {} (Node n # c)" and stub: "cells q Stub \<noteq> None"
  shows "\<exists>q' obj. cells q (Node n) = Some obj \<and> pop_tail q (Node n) obj = Some (Some (Node n), False, q')"
proof (cases c)
  case Nil
  then show ?thesis using ok stub
    by (auto simp: pop_tail_def chain_ok_def mpsc_push_def store_next_def exchange_newest_def load_next_def)
next
  case (Cons y d)
  then show ?thesis using chain_ok_edge [OF ok, of "Node n" y] by (simp add: pop_tail_def)
qed

lemma pop_quiet:
  assumes inv: "mpsc_inv s c" and quiet: "pending_links s = {}" and c: "content c = n # xs"
  shows "\<exists>q'. PopAndCheckEnd (queue s) = Some (Some (Node n), False, q')"
proof -
  have ok: "chain_ok (queue s) {} c" and stub: "cells (queue s) Stub \<noteq> None"
    using inv quiet by (auto simp: mpsc_inv_def nodes_ok_def)
  show ?thesis
  proof (cases "oldest (queue s) = Stub")
    case False
    then obtain d where "c = Node n # d" "oldest (queue s) = Node n"
      using ok c by (cases c; cases "hd c") (auto simp: chain_ok_def)
    then show ?thesis
      using pop_tail_quiet [of "queue s" n d] ok stub by (auto simp: PopAndCheckEnd_def load_next_def)
  next
    case True
    then obtain d where d: "c = Stub # Node n # d"
      using ok c by (cases c rule: list.exhaust; cases "tl c"; cases "hd (tl c)") (auto simp: chain_ok_def)
    have edge: "cells (queue s) Stub = Some (Some (Node n))"
      using chain_ok_edge [OF ok, of Stub "Node n"] by (simp add: d)
    have "chain_ok ((queue s)\<lparr>oldest := Node n\<rparr>) {} (Node n # d)"
      using chain_advance(2) [of "queue s" "{}" Stub "Node n # d"] ok edge by (simp add: d)
    then show ?thesis
      using pop_tail_quiet [of "(queue s)\<lparr>oldest := Node n\<rparr>" n d] True edge stub
      by (auto simp: PopAndCheckEnd_def load_next_def)
  qed
qed

section \<open>Draining\<close>

lemma consumer_alone_run:
  "mpsc_run es s \<Longrightarrow> consumer_alone fuel (queue s) (consumer s) = Some (r, b, q) \<Longrightarrow>
   \<exists>es'. mpsc_run (es @ es' @ [Popped r b])
            (s\<lparr>queue := q, consumer := Outside, held := give_back (Popped r b) (held s)\<rparr>) \<and>
          (\<forall>e \<in> set es'. e = Silent)"
proof (induction fuel arbitrary: es s)
  case (Suc fuel)
  obtain e p q' where step: "consumer_step (queue s) (consumer s) = Some (e, p, q')"
    using Suc.prems(2) by (auto split: option.splits)
  let ?s = "s\<lparr>queue := q', consumer := p, held := give_back e (held s)\<rparr>"
  have run: "mpsc_run (es @ [e]) ?s"
    using mpsc_run.action [OF Suc.prems(1), of Step_Pop e ?s] step by simp
  from consumer_events [OF step] show ?case
  proof
    assume e: "e = Silent"
    then obtain es' where "mpsc_run ((es @ [e]) @ es' @ [Popped r b])
        (?s\<lparr>queue := q, consumer := Outside, held := give_back (Popped r b) (held ?s)\<rparr>)" "\<forall>e \<in> set es'. e = Silent"
      using Suc.IH [OF run] Suc.prems(2) step by auto
    then show ?thesis using e by (intro exI [of _ "Silent # es'"]) (auto simp: give_back_def)
  next
    assume "\<exists>r b. e = Popped r b \<and> p = Outside"
    then show ?thesis using run Suc.prems(2) step by (intro exI [of _ "[]"]) auto
  qed
qed simp

lemma event_lists_append:
  "pushed_nodes (es @ fs) = pushed_nodes es @ pushed_nodes fs"
  "popped_nodes (es @ fs) = popped_nodes es @ popped_nodes fs"
  by (simp_all add: pushed_nodes_def popped_nodes_def List.map_filter_def)

lemma event_lists_silent:
  "\<forall>e \<in> set es. e = Silent \<Longrightarrow> pushed_nodes es = []" "\<forall>e \<in> set es. e = Silent \<Longrightarrow> popped_nodes es = []"
  by (induction es) (auto simp: pushed_nodes_def popped_nodes_def map_filter_simps)

lemma popped_nodes_one [simp]:
  "popped_nodes [Popped r b] = (case r of Some (Node n) \<Rightarrow> [n] | _ \<Rightarrow> [])"
  using event_lists_simps(4) [of "[]" "Popped r b"] by simp

lemma pop_once:
  assumes run: "mpsc_run es s" and out: "consumer s = Outside" and r: "PopAndCheckEnd (queue s) = Some (r, b, q)"
  shows "\<exists>es' s'. mpsc_run (es @ es') s' \<and> queue s' = q \<and> producers s' = producers s \<and> consumer s' = Outside \<and>
                 pushed_nodes es' = [] \<and> popped_nodes es' = popped_nodes [Popped r b]"
proof -
  obtain es' where es': "mpsc_run (es @ es' @ [Popped r b])
      (s\<lparr>queue := q, consumer := Outside, held := give_back (Popped r b) (held s)\<rparr>)" "\<forall>e \<in> set es'. e = Silent"
    using consumer_alone_run [OF run, of 7] r out by (auto simp: PopAndCheckEnd_alone)
  show ?thesis
    by (rule exI [of _ "es' @ [Popped r b]"], rule exI, intro conjI, rule es'(1))
      (auto simp: event_lists_silent [OF es'(2)])
qed

lemma drain_queue:
  "mpsc_run es s \<Longrightarrow> mpsc_inv s c \<Longrightarrow> content c = xs \<Longrightarrow> \<not> push_in_progress s \<Longrightarrow> consumer s = Outside \<Longrightarrow>
   pushed_nodes es = popped_nodes es @ xs \<Longrightarrow>
   \<exists>es' s'. mpsc_run (es @ es') s' \<and> pushed_nodes es' = [] \<and> popped_nodes es' = xs \<and> mpscq_destroyable (queue s')"
proof (induction xs arbitrary: es s c)
  case Nil
  then show ?case using quiet_empty(2) [OF Nil.prems(2,3)] by (intro exI [of _ "[]"]) auto
next
  case (Cons n xs)
  obtain q where q: "PopAndCheckEnd (queue s) = Some (Some (Node n), False, q)"
    using pop_quiet [OF Cons.prems(2) quiet_pending [OF Cons.prems(4,5)] Cons.prems(3)] by blast
  obtain es1 s1 where 1: "mpsc_run (es @ es1) s1" "producers s1 = producers s" "consumer s1 = Outside"
      "pushed_nodes es1 = []" "popped_nodes es1 = [n]"
    using pop_once [OF Cons.prems(1,5) q] by auto
  obtain d where d: "mpsc_inv s1 d" "pushed_nodes (es @ es1) = popped_nodes (es @ es1) @ content d"
    using mpsc_run_fifo [OF 1(1)] by blast
  have xs: "content d = xs" using d(2) 1 Cons.prems(6) by (simp add: event_lists_append)
  have "\<not> push_in_progress s1" using Cons.prems(4) 1(2) by (simp add: push_in_progress_def)
  then obtain es2 s2 where 2: "mpsc_run ((es @ es1) @ es2) s2" "pushed_nodes es2 = []" "popped_nodes es2 = xs"
      "mpscq_destroyable (queue s2)"
    using Cons.IH [OF 1(1) d(1) xs _ 1(3)] d(2) xs by blast
  then show ?case using 1 by (intro exI [of _ "es1 @ es2"] exI [of _ s2]) (simp add: event_lists_append)
qed

section \<open>The properties of the queue\<close>

text \<open>The history determines the elements.\<close>

lemma waiting_content:
  assumes "mpsc_run es s"
  obtains c where "mpsc_inv s c" "content c = waiting es" "fifo_run es [] = Some (waiting es)"
    "pushed_nodes es = popped_nodes es @ waiting es"
proof -
  obtain c where c: "mpsc_inv s c" "fifo_run es [] = Some (content c)" "pushed_nodes es = popped_nodes es @ content c"
    using mpsc_run_fifo [OF assms] by blast
  then have "waiting es = content c" by (simp add: waiting_def)
  then show ?thesis using c that by simp
qed

text \<open>C16. However the accesses of the producers and of the consumer interleave, the nodes that
  \<^verbatim>\<open>pop\<close> returns are the pushed ones, each once, in the order of the exchanges of \<^verbatim>\<open>_newest\<close>; a push into a
  queue with no element returns true, so that the consumer can be woken.\<close>

theorem mpscq_fifo:
  assumes "mpsc_run es s"
  shows "fifo_run es [] = Some (waiting es) \<and> pushed_nodes es = popped_nodes es @ waiting es"
  using waiting_content [OF assms] by blast

text \<open>C23. No access of the queue goes to a node that its owner has released, although the program may
  release a node, or push it again, as soon as \<^verbatim>\<open>pop\<close> has returned it.\<close>

theorem mpscq_memory_safe:
  assumes "mpsc_run es s"
  shows "mpsc_act s a \<noteq> Bad_Access"
  using waiting_content [OF assms] act_access_ok by blast

text \<open>C22. When no push is in progress, \<^verbatim>\<open>PopAndCheckEnd\<close> returns the oldest element, or null with the flag
  set when there is none; the consumer alone empties the queue, and then the assertions of the destructor
  hold.\<close>

theorem mpscq_drains:
  assumes run: "mpsc_run es s" and quiet: "\<not> push_in_progress s" and out: "consumer s = Outside"
  shows "(case waiting es of
            [] \<Rightarrow> PopAndCheckEnd (queue s) = Some (None, True, queue s)
          | n # xs \<Rightarrow> \<exists>q. PopAndCheckEnd (queue s) = Some (Some (Node n), False, q)) \<and>
         (\<exists>es' s'. mpsc_run (es @ es') s' \<and> pushed_nodes es' = [] \<and> popped_nodes es' = waiting es \<and>
                   mpscq_destroyable (queue s'))"
proof -
  obtain c where c: "mpsc_inv s c" "content c = waiting es" "pushed_nodes es = popped_nodes es @ waiting es"
    using waiting_content [OF run] by blast
  have "PopAndCheckEnd (queue s) = Some (None, True, queue s)" if "waiting es = []"
    using quiet_empty [OF c(1)] c(2) that by (auto simp: PopAndCheckEnd_def load_next_def mpscq_destroyable_def)
  then show ?thesis
    using pop_quiet [OF c(1) quiet_pending [OF quiet out]] c(2) drain_queue [OF run c(1,2) quiet out c(3)]
    by (auto split: list.splits)
qed

section \<open>An execution\<close>

text \<open>
  Two producers overlap, and the consumer asks twice before the first link is stored: the node
  exchanged first comes out first.
\<close>

fun mpsc_exec :: "mpsc_action list \<Rightarrow> mpsc_system \<Rightarrow> (mpsc_event list \<times> mpsc_system) option" where
  "mpsc_exec [] s = Some ([], s)"
| "mpsc_exec (a # as) s =
     (case mpsc_act s a of
        Done e s' \<Rightarrow> (case mpsc_exec as s' of None \<Rightarrow> None | Some (es, t) \<Rightarrow> Some (e # es, t))
      | _ \<Rightarrow> None)"

lemma mpsc_exec_run: "mpsc_exec as s = Some (es, t) \<Longrightarrow> mpsc_run fs s \<Longrightarrow> mpsc_run (fs @ es) t"
proof (induction as arbitrary: s fs es)
  case (Cons a as)
  then obtain e s' es' where 1: "mpsc_act s a = Done e s'" "mpsc_exec as s' = Some (es', t)" "es = e # es'"
    by (auto split: mpsc_result.splits option.splits)
  show ?case using Cons.IH [OF 1(2) mpsc_run.action [OF Cons.prems(2) 1(1)]] 1(3) by simp
qed simp

definition overlap_actions :: "mpsc_action list" where
  "overlap_actions = [Alloc 1, Alloc 2, Begin_Push 0 1, Begin_Push 1 2, Step_Push 1, Step_Push 0,
     Step_Push 0, Step_Pop, Step_Push 1]"

definition overlap_state :: mpsc_system where
  "overlap_state = snd (the (mpsc_exec overlap_actions mpsc_start))"

definition overlap_events :: "mpsc_event list" where
  "overlap_events = fst (the (mpsc_exec overlap_actions mpsc_start))"

lemmas overlap_eval = overlap_actions_def mpsc_start_def mpscq_new_def producer_begin_def store_next_def
  load_next_def exchange_newest_def consumer_found_def give_back_def

lemma overlap_exec: "mpsc_exec overlap_actions mpsc_start = Some (overlap_events, overlap_state)"
  by (simp add: overlap_events_def overlap_state_def overlap_eval)

lemma overlap_run: "mpsc_run overlap_events overlap_state"
  using mpsc_exec_run [OF overlap_exec mpsc_run.start] by simp

lemma overlap_lists: "pushed_nodes overlap_events = [2, 1]" "popped_nodes overlap_events = []"
    "overlap_events = [Silent, Silent, Silent, Silent, Pushed 2 True, Pushed 1 False, Silent, Popped None True, Silent]"
  by (simp_all add: overlap_events_def overlap_eval pushed_nodes_def popped_nodes_def map_filter_simps)

lemma overlap_quiet: "\<not> push_in_progress overlap_state" "consumer overlap_state = Outside"
  by (simp_all add: overlap_state_def overlap_eval push_in_progress_def)

lemma mpscq_fifo_witness: "fifo_run overlap_events [] = Some [2, 1]"
  using mpscq_fifo [OF overlap_run] by (simp add: waiting_def overlap_lists(1,2))

lemma mpscq_memory_safe_witness: "mpsc_act overlap_state Step_Pop \<noteq> Bad_Access"
  by (rule mpscq_memory_safe [OF overlap_run])

lemma mpscq_drains_witness:
  "(\<exists>q. PopAndCheckEnd (queue overlap_state) = Some (Some (Node 2), False, q)) \<and>
   (\<exists>es' s'. mpsc_run (overlap_events @ es') s' \<and> popped_nodes es' = [2, 1] \<and> mpscq_destroyable (queue s'))"
  using mpscq_drains [OF overlap_run overlap_quiet] by (auto simp: waiting_def overlap_lists(1,2))

end
