(* ===== verification/Library_Context.thy ===== *)
theory Library_Context
  imports Static_Table Transport
begin

text \<open>
  The life of the static metadata context: \<^verbatim>\<open>init_static_metadata_context\<close> and
  \<^verbatim>\<open>destroy_static_metadata_context\<close> of \<^verbatim>\<open>static_metadata.cc\<close>, the counter of \<^verbatim>\<open>http2.cc\<close> that calls them, and
  the construction and destruction of transports that drive the counter. The other theories read
  the hash maps of the static table as constants; the invariant below is what allows it. The two
  mutexes make each routine one step. The counter is an \<^verbatim>\<open>int32_t\<close>; a process with
  \<open>2 ^ 31\<close> transports, which would overflow it, is not considered, and the counter is an integer here.
\<close>

section \<open>The global context\<close>

record static_context =
  full_match_map :: "mdelem_data \<rightharpoonup> u32"
  key_exists_set :: "slice set"

definition static_context_new :: static_context where
  "static_context_new =
     \<lparr>full_match_map = init_full_match static_mdelem_table, key_exists_set = init_key_exists static_mdelem_table\<rparr>"

record library =
  static_ctx :: "static_context option"
  init_counter :: int

definition init_static_metadata_context :: "library \<Rightarrow> library" where
  "init_static_metadata_context l =
     (case static_ctx l of None \<Rightarrow> l\<lparr>static_ctx := Some static_context_new\<rparr> | Some c \<Rightarrow> l)"

definition destroy_static_metadata_context :: "library \<Rightarrow> library" where
  "destroy_static_metadata_context l =
     (case static_ctx l of None \<Rightarrow> l | Some c \<Rightarrow> l\<lparr>static_ctx := None\<rparr>)"

section \<open>The counter\<close>

definition internal_init_library :: "library \<Rightarrow> library" where
  "internal_init_library l =
     (let l = (if init_counter l = 0 then init_static_metadata_context l else l)
      in l\<lparr>init_counter := init_counter l + 1\<rparr>)"

definition internal_cleanup_library :: "library \<Rightarrow> library" where
  "internal_cleanup_library l =
     (if init_counter l \<le> 0 then l
      else (let l = (if init_counter l = 1 then destroy_static_metadata_context l else l)
            in l\<lparr>init_counter := init_counter l - 1\<rparr>))"

section \<open>Transports\<close>

text \<open>
  The transports of a process by name. The member \<open>_internal\<close> is declared before \<open>_impl\<close>, so
  the library is initialised before the connection is built and released after it is destroyed.
\<close>

record process_state =
  p_library :: library
  p_transports :: "nat \<rightharpoonup> http2_connection"

definition process_start :: process_state where
  "process_start = \<lparr>p_library = \<lparr>static_ctx = None, init_counter = 0\<rparr>, p_transports = Map.empty\<rparr>"

definition CreateTransport :: "nat \<Rightarrow> u64 \<Rightarrow> bool \<Rightarrow> process_state \<Rightarrow> process_state option" where
  "CreateTransport t cid client_side p =
     (let l = internal_init_library (p_library p) in
      case http2_connection_new cid client_side of
        None \<Rightarrow> None
      | Some c \<Rightarrow> Some (p\<lparr>p_library := l, p_transports := (p_transports p)(t \<mapsto> c)\<rparr>))"

definition destroy_transport :: "nat \<Rightarrow> process_state \<Rightarrow> process_state" where
  "destroy_transport t p =
     (let p = p\<lparr>p_transports := (p_transports p)(t := None)\<rparr>
      in p\<lparr>p_library := internal_cleanup_library (p_library p)\<rparr>)"

inductive process_reach :: "process_state \<Rightarrow> bool" where
  start: "process_reach process_start"
| create: "process_reach p \<Longrightarrow> p_transports p t = None \<Longrightarrow> CreateTransport t cid client_side p = Some p' \<Longrightarrow>
    process_reach p'"
| use: "process_reach p \<Longrightarrow> p_transports p t = Some c \<Longrightarrow> user_step S c c' \<Longrightarrow>
    process_reach (p\<lparr>p_transports := (p_transports p)(t \<mapsto> c')\<rparr>)"
| delete: "process_reach p \<Longrightarrow> p_transports p t = Some c \<Longrightarrow> process_reach (destroy_transport t p)"

section \<open>The context lives as long as a transport\<close>

definition library_ok :: "process_state \<Rightarrow> bool" where
  "library_ok p \<longleftrightarrow>
     finite (dom (p_transports p)) \<and> init_counter (p_library p) = int (card (dom (p_transports p))) \<and>
     static_ctx (p_library p) = (if p_transports p = Map.empty then None else Some static_context_new)"

lemma library_ok_init:
  "library_ok p \<Longrightarrow>
   internal_init_library (p_library p) = \<lparr>static_ctx = Some static_context_new, init_counter = int (card (dom (p_transports p))) + 1\<rparr>"
  by (cases "p_library p") (auto simp: library_ok_def internal_init_library_def init_static_metadata_context_def)

lemma library_ok_cleanup:
  assumes ok: "library_ok p" and t: "p_transports p t = Some c"
  shows "internal_cleanup_library (p_library p) =
    \<lparr>static_ctx = (if (p_transports p)(t := None) = Map.empty then None else Some static_context_new),
     init_counter = int (card (dom (p_transports p) - {t}))\<rparr>"
proof -
  have fin: "finite (dom (p_transports p))" and in_dom: "t \<in> dom (p_transports p)"
    using ok t by (auto simp: library_ok_def)
  have card: "int (card (dom (p_transports p))) = int (card (dom (p_transports p) - {t})) + 1"
    using card_Suc_Diff1 [OF fin in_dom] by linarith
  have empty: "(p_transports p)(t := None) = Map.empty \<longleftrightarrow> card (dom (p_transports p) - {t}) = 0"
  proof -
    have d: "dom ((p_transports p)(t := None)) = dom (p_transports p) - {t}" by auto
    have "finite (dom (p_transports p) - {t})" using fin by simp
    from card_0_eq [OF this] show ?thesis unfolding dom_eq_empty_conv [symmetric] d by blast
  qed
  define n where "n = card (dom (p_transports p) - {t})"
  have "p_transports p \<noteq> Map.empty" using t by auto
  then have l: "p_library p = \<lparr>static_ctx = Some static_context_new, init_counter = int n + 1\<rparr>"
    using ok card by (cases "p_library p") (simp add: library_ok_def n_def)
  show ?thesis
    unfolding empty n_def [symmetric] l
    by (simp add: internal_cleanup_library_def destroy_static_metadata_context_def)
qed

text \<open>
  In every state of a process, the counter is the number of transports, and while there is one the
  context holds the two maps of the static table; without one it is freed.
\<close>

lemma static_context_lifetime: "process_reach p \<Longrightarrow> library_ok p"
proof (induction rule: process_reach.induct)
  case start
  show ?case by (simp add: library_ok_def process_start_def)
next
  case (create p t cid client_side p')
  have "dom (p_transports p) - {t} = dom (p_transports p)" using create.hyps(2) by auto
  then show ?case
    using create.hyps(2,3) library_ok_init [OF create.IH] create.IH
    by (auto simp: CreateTransport_def library_ok_def card_insert_if split: option.splits)
next
  case (use p t c S c')
  have "dom ((p_transports p)(t \<mapsto> c')) = dom (p_transports p)" using use.hyps(2) by auto
  then show ?case using use.IH use.hyps(2) by (auto simp: library_ok_def)
next
  case (delete p t c)
  then show ?case
    using library_ok_cleanup [OF delete.IH delete.hyps(2)]
    by (auto simp: destroy_transport_def library_ok_def)
qed

end
