(* ===== verification/Atomic.thy ===== *)
theory Atomic
  imports Prelude "HOL-Library.Multiset"
begin

text \<open>
  Model of \<^verbatim>\<open>src/utils/atomic.h\<close> for the integer types: each method of \<^verbatim>\<open>Atomic\<close> is a function of the current
  value, and a method of several accesses is a sequence of steps that may interleave with those of other threads.
  Accesses are sequentially consistent, the memory orders are not modelled. The sections below the model
  treat the use that \<^verbatim>\<open>IncrementIfNonzero\<close> is made for, a count of references.
\<close>

section \<open>The methods\<close>

definition atomic_Load :: "'w::len word \<Rightarrow> 'w word" where
  "atomic_Load v = v"

definition atomic_Store :: "'w::len word \<Rightarrow> 'w word \<Rightarrow> 'w word" where
  "atomic_Store val v = val"

text \<open>The old value and the new one.\<close>

definition atomic_Exchange :: "'w::len word \<Rightarrow> 'w word \<Rightarrow> 'w word \<times> 'w word" where
  "atomic_Exchange desired v = (v, desired)"

definition FetchAdd :: "'w::len word \<Rightarrow> 'w word \<Rightarrow> 'w word \<times> 'w word" where
  "FetchAdd arg v = (v, v + arg)"

definition FetchSub :: "'w::len word \<Rightarrow> 'w word \<Rightarrow> 'w word \<times> 'w word" where
  "FetchSub arg v = (v, v - arg)"

text \<open>
  The result, \<open>*expected\<close> afterwards, and the value. The weak form may fail although the values are equal;
  \<open>spurious\<close> says whether it does.
\<close>

definition CompareExchangeStrong :: "'w::len word \<Rightarrow> 'w word \<Rightarrow> 'w word \<Rightarrow> bool \<times> 'w word \<times> 'w word" where
  "CompareExchangeStrong expected desired v =
     (if v = expected then (True, expected, desired) else (False, v, v))"

definition CompareExchangeWeak :: "bool \<Rightarrow> 'w::len word \<Rightarrow> 'w word \<Rightarrow> 'w word \<Rightarrow> bool \<times> 'w word \<times> 'w word" where
  "CompareExchangeWeak spurious expected desired v =
     (if spurious then (False, v, v) else CompareExchangeStrong expected desired v)"

text \<open>\<^verbatim>\<open>IncrementIfNonzero\<close>: before the load, at the head of the loop with the local \<^verbatim>\<open>count\<close>, or returned.\<close>

datatype 'c incr = Incr_Load | Incr_Loop 'c | Incr_Return bool

fun IncrementIfNonzero_step :: "bool \<Rightarrow> 'w::len word incr \<Rightarrow> 'w word \<Rightarrow> 'w word incr \<times> 'w word" where
  "IncrementIfNonzero_step spurious Incr_Load v = (Incr_Loop (atomic_Load v), v)"
| "IncrementIfNonzero_step spurious (Incr_Loop cnt) v =
     (if cnt = 0 then (Incr_Return False, v)
      else (case CompareExchangeWeak spurious cnt (cnt + 1) v of
        (ok, cnt, v) \<Rightarrow> (if ok then Incr_Return True else Incr_Loop cnt, v)))"
| "IncrementIfNonzero_step spurious (Incr_Return r) v = (Incr_Return r, v)"

section \<open>A thread alone\<close>

text \<open>The steps of one thread, each with the answer of the weak exchange.\<close>

fun increment_alone :: "bool list \<Rightarrow> 'w::len word incr \<Rightarrow> 'w word \<Rightarrow> 'w word incr \<times> 'w word" where
  "increment_alone [] t v = (t, v)"
| "increment_alone (b # bs) t v = (case IncrementIfNonzero_step b t v of (t, v) \<Rightarrow> increment_alone bs t v)"

lemma increment_spurious:
  "v \<noteq> 0 \<Longrightarrow> increment_alone (replicate n True @ bs) (Incr_Loop v) v = increment_alone bs (Incr_Loop v) v"
  by (induction n) (simp_all add: CompareExchangeWeak_def)

text \<open>However often the weak exchange fails first, the loop ends with the exchange that does not.\<close>

lemma increment_alone_returns:
  "increment_alone (b # replicate n True @ [False]) Incr_Load v =
     (if v = 0 then (Incr_Return False, 0) else (Incr_Return True, v + 1))"
proof (cases "v = 0")
  case True
  have "increment_alone bs (Incr_Return False) 0 = (Incr_Return False, 0)" for bs by (induction bs) simp_all
  with True show ?thesis by (cases n) (simp_all add: atomic_Load_def)
next
  case False
  then show ?thesis
    by (simp add: atomic_Load_def increment_spurious CompareExchangeWeak_def CompareExchangeStrong_def)
qed

section \<open>Counting references\<close>

text \<open>A thread holds a reference, has none, or is inside \<^verbatim>\<open>IncrementIfNonzero\<close>.\<close>

datatype 'c ref_thread = Holding | Without | Acquiring "'c incr"

text \<open>
  A thread without a reference may call \<^verbatim>\<open>IncrementIfNonzero\<close>, one that holds a reference drops it with \<^verbatim>\<open>FetchSub(1)\<close>.
\<close>

inductive ref_step :: "'w::len word \<times> 'w word ref_thread list \<Rightarrow> 'w word \<times> 'w word ref_thread list \<Rightarrow> bool" where
  call: "i < length ts \<Longrightarrow> ts ! i = Without \<Longrightarrow> ref_step (v, ts) (v, ts[i := Acquiring Incr_Load])"
| access: "i < length ts \<Longrightarrow> ts ! i = Acquiring t \<Longrightarrow> IncrementIfNonzero_step spurious t v = (t', v') \<Longrightarrow>
    ref_step (v, ts) (v', ts[i := (case t' of Incr_Return True \<Rightarrow> Holding | Incr_Return False \<Rightarrow> Without | _ \<Rightarrow> Acquiring t')])"
| release: "i < length ts \<Longrightarrow> ts ! i = Holding \<Longrightarrow> FetchSub 1 v = (old, v') \<Longrightarrow> ref_step (v, ts) (v', ts[i := Without])"

definition holders :: "'w::len word ref_thread list \<Rightarrow> nat" where
  "holders ts = count (mset ts) Holding"

text \<open>No thread rests between the end of the call and its own next step.\<close>

definition ref_ok :: "'w::len word \<times> 'w word ref_thread list \<Rightarrow> bool" where
  "ref_ok st \<longleftrightarrow> fst st = word_of_nat (holders (snd st)) \<and> length (snd st) < 2 ^ LENGTH('w) \<and>
     (\<forall>r. Acquiring (Incr_Return r) \<notin> set (snd st))"

lemma holders_update:
  "i < length ts \<Longrightarrow> holders (ts[i := t]) + (if ts ! i = Holding then 1 else 0) = holders ts + (if t = Holding then 1 else 0)"
proof -
  assume i: "i < length ts"
  then have "0 < count (mset ts) Holding" if "ts ! i = Holding"
    using nth_mem [OF i] that by (simp only: count_greater_zero_iff set_mset_mset)
  with i show ?thesis by (auto simp: holders_def mset_update)
qed

lemma not_returned: "ref_ok (v, ts) \<Longrightarrow> i < length ts \<Longrightarrow> ts ! i = Acquiring t \<Longrightarrow> \<forall>r. t \<noteq> Incr_Return r"
  using nth_mem [of i ts] by (auto simp: ref_ok_def)

lemma returned_update:
  "\<forall>r. Acquiring (Incr_Return r) \<notin> set ts \<Longrightarrow> \<forall>r. t \<noteq> Acquiring (Incr_Return r) \<Longrightarrow>
    \<forall>r. Acquiring (Incr_Return r) \<notin> set (ts[i := t])"
  using set_update_subset_insert [of ts i t] by blast

lemma holders_bound: "holders ts \<le> length ts"
  unfolding holders_def by (metis count_le_size size_mset)

lemma holders_0: "holders ts = 0 \<longleftrightarrow> Holding \<notin> set ts"
  by (simp add: holders_def count_eq_zero_iff)

lemma ref_value:
  assumes "ref_ok (v :: 'w::len word, ts)" shows "unat v = holders ts"
proof -
  have "holders ts < 2 ^ LENGTH('w)" using assms holders_bound [of ts] by (simp add: ref_ok_def)
  then show ?thesis using assms by (simp add: ref_ok_def unat_of_nat take_bit_nat_eq_self)
qed

lemma acquired_value:
  assumes "IncrementIfNonzero_step spurious t v = (t', v')" "\<forall>r. t \<noteq> Incr_Return r"
  shows "if t' = Incr_Return True then v \<noteq> 0 \<and> v' = v + 1 else v' = v"
  using assms by (cases t) (auto simp: CompareExchangeWeak_def CompareExchangeStrong_def split: if_splits)

lemma ref_step_ok: "ref_step st st' \<Longrightarrow> ref_ok st \<Longrightarrow> ref_ok st'"
proof (induction rule: ref_step.induct)
  case (call i ts v)
  then show ?case using holders_update [of i ts "Acquiring Incr_Load"]
    by (auto simp: ref_ok_def dest: set_update_subset_insert [THEN subsetD])
next
  case (access i ts t spurious v t' v')
  have t: "\<forall>r. t \<noteq> Incr_Return r" using not_returned [OF access(4,1,2)] .
  let ?t = "case t' of Incr_Return True \<Rightarrow> Holding | Incr_Return False \<Rightarrow> Without | _ \<Rightarrow> Acquiring t'"
  have h: "?t = Holding \<longleftrightarrow> t' = Incr_Return True" "\<forall>r. ?t \<noteq> Acquiring (Incr_Return r)"
    by (auto split: incr.splits bool.splits)
  have "holders (ts[i := ?t]) = holders ts + (if t' = Incr_Return True then 1 else 0)"
    using holders_update [OF access(1), of ?t] access(2) h(1) by simp
  moreover have "v' = v + (if t' = Incr_Return True then 1 else 0)"
    using acquired_value [OF access(3) t] by (auto split: if_splits)
  moreover have "\<forall>r. Acquiring (Incr_Return r) \<notin> set (ts[i := ?t])"
    using returned_update [OF _ h(2)] access(4) by (simp add: ref_ok_def)
  ultimately show ?case using access(4) by (simp add: ref_ok_def)
next
  case (release i ts v old v')
  have "holders (ts[i := Without]) + 1 = holders ts" using holders_update [OF release(1), of Without] release(2) by simp
  then have "v = word_of_nat (holders (ts[i := Without]) + 1)" using release(4) by (simp add: ref_ok_def)
  then have "v - 1 = word_of_nat (holders (ts[i := Without]))" by simp
  then show ?case using release(3,4)
    by (auto simp: ref_ok_def FetchSub_def dest: set_update_subset_insert [THEN subsetD])
qed

text \<open>
  The count is the number of threads that hold a reference, whatever the interleaving and however often the weak
  exchange fails; so \<^verbatim>\<open>IncrementIfNonzero\<close> succeeds only while somebody holds one, and once the count is zero it stays
  zero: what the references protect may then be freed.
\<close>

theorem references_counted:
  assumes "ref_step\<^sup>*\<^sup>* (1 :: 'w::len word, Holding # replicate n Without) (v, ts)" "n + 1 < 2 ^ LENGTH('w)"
  shows "unat v = holders ts \<and> (v = 0 \<longrightarrow> (\<forall>v' ts'. ref_step\<^sup>*\<^sup>* (v, ts) (v', ts') \<longrightarrow> v' = 0 \<and> Holding \<notin> set ts'))"
proof -
  have start: "ref_ok (1 :: 'w word, Holding # replicate n Without)"
    using assms(2) by (auto simp: ref_ok_def holders_def count_eq_zero_iff)
  have ok: "ref_ok st'" if "ref_step\<^sup>*\<^sup>* st st'" "ref_ok st" for st st' :: "'w word \<times> 'w word ref_thread list"
    using that by (induction rule: rtranclp_induct) (auto intro: ref_step_ok)
  have zero: "fst st' = 0" if "ref_step\<^sup>*\<^sup>* st st'" "ref_ok st" "fst st = 0" for st st' :: "'w word \<times> 'w word ref_thread list"
    using that
  proof (induction rule: rtranclp_induct)
    case (step y z)
    have y: "ref_ok y" "fst y = 0" using ok [OF step.hyps(1)] step by auto
    obtain w us where yw: "y = (w, us)" by (cases y)
    have "Holding \<notin> set us" using ref_value [of w us] y holders_0 [of us] yw by simp
    with step.hyps(2) y yw show ?case
    proof (cases rule: ref_step.cases)
      case (access i xs t spurious x t' x')
      have "\<forall>r. t \<noteq> Incr_Return r" using not_returned [of x xs i t] access y(1) by simp
      from acquired_value [OF access(5) this] access y(2) show ?thesis by (auto split: if_splits)
    qed (auto dest: nth_mem)
  qed simp
  show ?thesis
    using ref_value [OF ok [OF assms(1) start]] zero [OF _ ok [OF assms(1) start]]
      ref_value [OF ok [OF _ ok [OF assms(1) start]]] holders_0 by fastforce
qed

end
