(* ===== verification/Spec2Isabelle.thy ===== *)
theory Spec2Isabelle
  imports Connection_Properties Connection_Refusals Connection_Body Connection_Calls Huffman_Properties Slice_Storage_Properties Mpscq_Properties
    Library_Context Transport_Interface Atomic
begin

text \<open>
  \<^bold>\<open>libhttp2\<close> is an HTTP/2 transport library in C++11. It does no input or output of its own: the user
  feeds the bytes of a connection to \<^verbatim>\<open>Transport::ReceivedData\<close>, gets the bytes to write through
  \<^verbatim>\<open>SendService::SendRawData\<close>, and is told of streams, data and control frames through
  \<^verbatim>\<open>EventHandler\<close> and \<^verbatim>\<open>FlowControlHandler\<close>. This development translates the whole of that path, from
  bytes to callbacks and back, and proves what makes it correct. File names are relative to \<^verbatim>\<open>src/\<close>.

  \<^bold>\<open>Conventions.\<close> Machine integers are words of their width, byte strings are lists of octets, a struct
  is a record with prefixed fields, an enumeration a datatype with its code numbers. A routine that
  reports an HTTP/2 error code has the type \<open>outcome\<close> (\<^verbatim>\<open>Prelude\<close>); its third case \<open>Fault\<close>, like the value
  \<open>None\<close> of other routines, is a read or write outside a buffer, a failed assertion, or a loop that
  does not end. Nothing is assumed about them: where they cannot happen this is a theorem. Hosts are little-endian
  except in \<^verbatim>\<open>Byte_Order\<close>, where the byte order is a parameter.

  \<^bold>\<open>Utilities.\<close> \<^verbatim>\<open>Byte_Order\<close> models \<^verbatim>\<open>src/utils/byte_order.cc\<close>; \<^verbatim>\<open>Slice\<close> and \<^verbatim>\<open>Slice_Buffer\<close> the immutable byte
  ranges and the rope of them in \<^verbatim>\<open>src/utils/slice.cc\<close> and \<^verbatim>\<open>slice_buffer.cc\<close> (a slice is the bytes it
  denotes; the locale \<open>byte_queue\<close> is the contract of the buffer); \<^verbatim>\<open>Murmur\<close> the hash of
  \<^verbatim>\<open>murmur_hash.cc\<close>. \<^verbatim>\<open>Slice_Storage\<close> is \<^verbatim>\<open>slice.cc\<close> with its storage: objects of three fields, blocks with their
  32-bit reference count, and memory in which a freed block has no value; \<^verbatim>\<open>Slice_Storage_Properties\<close> proves that
  counts are exact, that no freed block is touched, and that the objects refine the bytes of \<^verbatim>\<open>Slice\<close>, which
  is what lets the other theories treat a slice as a list. \<^verbatim>\<open>Mpscq\<close> is the lock-free queue of \<^verbatim>\<open>mpscq.cc\<close>, as sequential
  routines and as atomic accesses that interleave; \<^verbatim>\<open>Mpscq_Properties\<close> names the chain of nodes between its two ends,
  shows that each access keeps it, and concludes that the queue is first-in first-out, that it never touches
  a node it has handed back, and that the consumer empties it when no push is in progress. \<^verbatim>\<open>Atomic\<close> is
  \<^verbatim>\<open>atomic.h\<close>, with the loop of \<^verbatim>\<open>IncrementIfNonzero\<close> as steps that interleave, and shows that a count of references
  kept with it is exact and never leaves zero.

  \<^bold>\<open>HPACK\<close> (\<^verbatim>\<open>src/hpack\<close>). \<^verbatim>\<open>Metadata\<close>, \<^verbatim>\<open>Static_Table\<close> and \<^verbatim>\<open>Dynamic_Table\<close> are the header fields and the two tables,
  with the hash maps of the static one and the locale \<open>dynamic_table_contract\<close> for the service through which
  the decoder uses the dynamic one. \<^verbatim>\<open>Huffman_State\<close>, \<^verbatim>\<open>Huffman_Sym_Table\<close>, \<^verbatim>\<open>Huffman_Table_A\<close>, \<^verbatim>\<open>Huffman_Table_B\<close>
  and \<^verbatim>\<open>Huffman\<close> are the literal tables of \<^verbatim>\<open>huffman_data.cc\<close> and the coder of \<^verbatim>\<open>huffman.cc\<close>; \<^verbatim>\<open>Huffman_Tree\<close>,
  \<^verbatim>\<open>Huffman_Check\<close>, \<^verbatim>\<open>Huffman_Decode_Correct\<close> and \<^verbatim>\<open>Huffman_Encode_Correct\<close> relate both tables to one prefix tree
  by evaluation of all their entries, and \<^verbatim>\<open>Huffman_Properties\<close> concludes. \<^verbatim>\<open>Hpack_Int\<close>, \<^verbatim>\<open>Hpack_String\<close> and
  \<^verbatim>\<open>Hpack_Decode\<close> are \<^verbatim>\<open>decode.cc\<close> and \<^verbatim>\<open>hpack.cc\<close>, \<^verbatim>\<open>Hpack_Encode\<close> is \<^verbatim>\<open>encode.cc\<close>, and \<^verbatim>\<open>Compressor\<close> is \<^verbatim>\<open>send_record.cc\<close>, whose
  cuckoo table and ring of entry sizes remember what the peer's table holds. \<^verbatim>\<open>Compressor_Sync\<close> shows
  that every operation of it keeps it in step with a list of entries, \<^verbatim>\<open>Hpack_Roundtrip\<close> that the
  decoder inverts each representation, \<^verbatim>\<open>Hpack_Safety\<close> and \<^verbatim>\<open>Hpack_Bounds\<close> that the decoder stays in its
  buffer when the Huffman strings of the block do, and
  \<^verbatim>\<open>Hpack_Properties\<close> puts this together for whole connections.

  \<^bold>\<open>Frames\<close> (\<^verbatim>\<open>src/http2\<close>). \<^verbatim>\<open>Protocol\<close> holds the enumerations of \<^verbatim>\<open>include/http2/transport.h\<close> and the table of
  \<^verbatim>\<open>settings.cc\<close>; \<^verbatim>\<open>Frame\<close>, \<^verbatim>\<open>Parser\<close> and \<^verbatim>\<open>Pack\<close> are \<^verbatim>\<open>frame.cc\<close>, \<^verbatim>\<open>parser.cc\<close> and \<^verbatim>\<open>pack.cc\<close>. \<^verbatim>\<open>Frame_Codec\<close> states
  what a frame type owes as the locale \<open>frame_codec\<close> and interprets it on nine types; \<^verbatim>\<open>Frame_Data\<close> treats
  DATA, which the sender may split; \<^verbatim>\<open>Frame_Properties\<close> holds the round trips, the bounds of the parsers
  and their exceptions.

  \<^bold>\<open>Streams.\<close> \<^verbatim>\<open>Stream\<close> is \<^verbatim>\<open>stream.cc\<close>: the transition table, the stream object and its operations, and the
  diagram of RFC 7540 as an inductive relation. \<^verbatim>\<open>Stream_Properties\<close> shows that the table is the
  diagram, that a stream only moves forwards and is closed exactly by the event sequences that the diagram
  lets end, and that its data cache is a queue from which no more can be read than is in it.

  \<^bold>\<open>Connections.\<close> \<^verbatim>\<open>Connection\<close> is the state \<^verbatim>\<open>http2_connection\<close> and every operation of \<^verbatim>\<open>connection.cc\<close> that
  sends; \<^verbatim>\<open>Connection_Receive\<close> is one handler per frame type, the array of functions that dispatches to
  them, and \<^verbatim>\<open>package_process\<close>; \<^verbatim>\<open>Transport\<close> is \<^verbatim>\<open>http2.cc\<close>: the preface, the frame loop, and the inductive
  relation \<open>user_step\<close> of everything a user can call; \<^verbatim>\<open>Library_Context\<close> is the counter in \<^verbatim>\<open>http2.cc\<close> that keeps the
  context of the static table alive as long as a transport. \<^verbatim>\<open>Transport_Interface\<close> is the public interface as an
  interpreter of programs of calls, whose states are exactly those of \<open>user_step\<close>. The user's services are functions of the
  whole history of calls (a record \<open>services\<close>), and the history, with the bytes and the results of
  \<^verbatim>\<open>SendRawData\<close>, is the field \<open>cn_log\<close>, so statements on output and callbacks are equations on it.
  \<^item> \<^verbatim>\<open>Connection_Effects\<close> has the locale \<open>send_effect\<close>: any relation closed under a call, a buffered slice and
    three flags contains every operation that only sends. \<^verbatim>\<open>Connection_Invariant\<close> and \<^verbatim>\<open>Connection_Safety\<close> define the
    invariant of a connection and carry it through every handler and user step.
  \<^item> \<^verbatim>\<open>Connection_Output\<close> shows that the sends are total and gives their output as equations when nothing is held
    back (\<open>plain\<close>). \<^verbatim>\<open>Connection_Properties\<close> has the invariant, fresh identifiers and returning sends.
  \<^item> \<^verbatim>\<open>Connection_Shutdown\<close> extends the locale to all handlers and user operations, in two steps, those that leave the
    encoder alone (\<open>operation_effect\<close>) and those that encode headers (\<open>connection_effect\<close>), and
    interprets it on four relations, for what is never taken back and for draining.
  \<^item> \<^verbatim>\<open>Connection_Segments\<close> shows that a longer buffer changes no result and hence that segmentation of
    the input is invisible.
  \<^item> \<^verbatim>\<open>Connection_Exchange\<close> joins the two ends: a request sent by one connection is reported by the other, which keeps
    the HPACK states linked. \<^verbatim>\<open>Connection_Body\<close> adds the body: what \<^verbatim>\<open>SendData\<close> writes in DATA frames is what
    the peer's stream has buffered afterwards, so a whole message arrives. \<^verbatim>\<open>Connection_Settings\<close> specifies the negotiation of SETTINGS and PING,
    \<^verbatim>\<open>Connection_Refusals\<close> what is refused or lost.
  \<^item> \<^verbatim>\<open>Connection_Receiving\<close> shows that \<^verbatim>\<open>ReceivedData\<close> returns on any bytes that do not provoke one of the two
    unchecked reads of the code, which its definition \<open>frames_in_bounds\<close> checks, as long as the compressor is in step with some
    table. \<^verbatim>\<open>Connection_Programs\<close> shows, by an interpretation of \<open>operation_effect\<close>, that it is after every program of
    calls, with an index that grows by one for each header field sent at most, so that receiving is safe without an
    assumption on the state. \<^verbatim>\<open>Connection_Calls\<close> concludes that every call of the public interface returns.

  \<^bold>\<open>Bounds.\<close> No model of the code has fuel (\<open>consumer_alone\<close>, which runs the consumer of the queue by
  itself, has seven steps, and \<open>PopAndCheckEnd_alone\<close> shows that they are enough). Loops are structural or have a measure: the bytes left (decoder, frame
  loop), the entries left (eviction). The one loop that need not end, the splitting of DATA for a maximal frame
  size of 0, is a partial function, and \<^verbatim>\<open>Connection_Calls\<close> shows that a connection never gets there. Size
  hypotheses are those of the machine integers: 2^24 for frame payloads, 2^31 for the position
  in the receive buffer, which the code returns as an \<^verbatim>\<open>int\<close>, 2^32 for the element index of the compressor
  (\<open>index_room\<close>, and \<open>fields_sent\<close> for the header fields a program sends), and 2^31 for the slices alive at once (\<open>slice_limit\<close>), beyond which a reference count may wrap.

  \<^bold>\<open>Where the code falls short\<close>, as theorems: a Huffman string is read past the end of the buffer, an
  integer beyond 32 bits is accepted, a read of more than a stream has buffered fails an assertion, as does
  a header field of 64 KiB with a static name, \<^verbatim>\<open>drain\<close> does nothing after a GOAWAY, a padded empty frame is read past its end, a header block of
  fewer than five octets is refused by the library's own parser, a client refuses every
  response to its own request, and data beyond the send window is dropped while \<^verbatim>\<open>SendData\<close> reports success.

  \<^bold>\<open>Not modelled.\<close> User code that calls back into the transport from inside a callback, and streams that outlive
  their connection or that a user keeps after they were erased; the assertions on the calling thread; the overflow
  of the 64-bit send window and of the \<^verbatim>\<open>int\<close> sum of sent bytes; calls from several threads into one library. Slices
  are modelled on one thread and with a \<^verbatim>\<open>malloc\<close> that succeeds; the accesses of the lock-free queue are
  sequentially consistent, as are those of \<^verbatim>\<open>Atomic\<close>. The date and test helpers of \<^verbatim>\<open>src/utils\<close>, tests and examples are
  left out.
\<close>

end
